(* ===== verification/Prelude.thy ===== *)
theory Prelude
  imports Main "HOL-Library.Monad_Syntax"
begin

text \<open>
  The prelude of the development: the theorem collections, the outcome of a Go call that can panic,
  the left-to-right traversal of a slice by a callback with effects, and lemmas on lists and options
  that several components share.

  A Go function that can panic is a HOL function into \<open>option\<close>: \<open>None\<close> is the panic (a nil pointer
  is dereferenced), \<open>Some\<close> is a normal return. A returned Go \<open>error\<close> is never \<open>None\<close> of that outer
  option: it is a value of the result (an \<open>option\<close> of an error for functions that return only an
  error, a sum for functions that return a value and an error).
\<close>

named_theorems panic_simps \<open>rewriting of the outcome of calls that can panic\<close>
named_theorems trace_intros \<open>what one operation appends to the trace of netlink calls\<close>
named_theorems frame_simps \<open>what an operation leaves unchanged\<close>

declare bind_eq_Some_conv [panic_simps]

text \<open>The traversal of a slice from left to right by a callback with effects on the state \<open>'s\<close>.\<close>

fun traverse :: "('a \<Rightarrow> 's \<Rightarrow> ('b \<times> 's) option) \<Rightarrow> 'a list \<Rightarrow> 's \<Rightarrow> ('b list \<times> 's) option" where
  "traverse f [] s = Some ([], s)"
| "traverse f (x # xs) s = do {
     (y, s1) \<leftarrow> f x s;
     (ys, s2) \<leftarrow> traverse f xs s1;
     Some (y # ys, s2)
   }"

lemma traverse_Cons_SomeE:
  assumes "traverse f (x # xs) s = Some (ys, t)"
  obtains y s1 zs where "f x s = Some (y, s1)" "traverse f xs s1 = Some (zs, t)" "ys = y # zs"
  using assms by (auto simp: bind_eq_Some_conv)

lemma traverse_append:
  "traverse f (xs @ ys) s = do {
     (us, s1) \<leftarrow> traverse f xs s;
     (vs, s2) \<leftarrow> traverse f ys s1;
     Some (us @ vs, s2)
   }"
proof (induction xs arbitrary: s)
  case Nil
  show ?case by (cases "traverse f ys s") auto
next
  case (Cons x xs)
  show ?case
    by (cases "f x s") (auto simp: Cons.IH split: prod.splits bind_splits)
qed

lemma traverse_length: "traverse f xs s = Some (ys, t) \<Longrightarrow> length ys = length xs"
  by (induction xs arbitrary: s ys) (auto elim!: traverse_Cons_SomeE simp del: traverse.simps(2))

text \<open>An invariant of the state that every callback keeps is kept by the traversal.\<close>

lemma traverse_invariant:
  assumes "traverse f xs s = Some (ys, t)" and "I s"
    and "\<And>x s y s'. x \<in> set xs \<Longrightarrow> I s \<Longrightarrow> f x s = Some (y, s') \<Longrightarrow> I s'"
  shows "I t"
  using assms
proof (induction xs arbitrary: s ys)
  case Nil
  then show ?case by simp
next
  case (Cons x xs)
  from Cons.prems(1) obtain y s1 zs where step: "f x s = Some (y, s1)" "traverse f xs s1 = Some (zs, t)"
    by (rule traverse_Cons_SomeE)
  have "I s1" using Cons.prems(2,3) step(1) by (meson list.set_intros(1))
  then show ?case using Cons.IH[OF step(2)] Cons.prems(3) by (meson list.set_intros(2))
qed

text \<open>A traversal does not panic when no callback does, under an invariant the callbacks keep.\<close>

lemma traverse_total:
  assumes "I s"
    and "\<And>x s. x \<in> set xs \<Longrightarrow> I s \<Longrightarrow> \<exists>y s'. f x s = Some (y, s') \<and> I s'"
  shows "\<exists>ys t. traverse f xs s = Some (ys, t) \<and> I t"
  using assms
proof (induction xs arbitrary: s)
  case Nil
  then show ?case by simp
next
  case (Cons x xs)
  from Cons.prems obtain y s1 where step: "f x s = Some (y, s1)" "I s1"
    by (meson list.set_intros(1))
  from Cons.IH[OF step(2)] Cons.prems(2) obtain ys t where "traverse f xs s1 = Some (ys, t)" "I t"
    by (meson list.set_intros(2))
  then show ?case using step(1) by auto
qed

lemma traverse_cong [fundef_cong]:
  assumes "xs = ys" "s = t" and "\<And>x u. x \<in> set ys \<Longrightarrow> f x u = g x u"
  shows "traverse f xs s = traverse g ys t"
  using assms(3) unfolding assms(1,2)
  by (induction ys arbitrary: t) (auto intro!: Option.bind_cong)

text \<open>The same for a callback that always returns.\<close>

fun run_each :: "('a \<Rightarrow> 's \<Rightarrow> 'b \<times> 's) \<Rightarrow> 'a list \<Rightarrow> 's \<Rightarrow> 'b list \<times> 's" where
  "run_each f [] s = ([], s)"
| "run_each f (x # xs) s = (case f x s of (y, s1) \<Rightarrow> case run_each f xs s1 of (ys, s2) \<Rightarrow> (y # ys, s2))"

lemma run_each_traverse: "traverse (\<lambda>x s. Some (f x s)) xs s = Some (run_each f xs s)"
  by (induction xs arbitrary: s) (auto split: prod.splits)

lemma run_each_ConsE:
  assumes "run_each f (x # xs) s = (ys, t)"
  obtains y s1 zs where "f x s = (y, s1)" "run_each f xs s1 = (zs, t)" "ys = y # zs"
  using assms by (auto split: prod.splits)

lemma run_each_invariant:
  assumes "run_each f xs s = (ys, t)" and "I s"
    and "\<And>x s y s'. x \<in> set xs \<Longrightarrow> I s \<Longrightarrow> f x s = (y, s') \<Longrightarrow> I s'"
  shows "I t"
  by (rule traverse_invariant[where f = "\<lambda>x s. Some (f x s)" and I = I, OF _ assms(2)])
    (use assms in \<open>auto simp: run_each_traverse\<close>)

text \<open>
  A callback that returns an error or nothing, and without an error establishes a property of its
  element that the later calls keep: without any error the property holds of all elements at the end.
\<close>

lemma run_each_establishes:
  assumes "run_each f xs s = (ys, t)" and "I s"
    and "\<And>x s y s'. x \<in> set xs \<Longrightarrow> I s \<Longrightarrow> f x s = (y, s') \<Longrightarrow> I s' \<and> (y = None \<longrightarrow> P x s') \<and> (\<forall>z. P z s \<longrightarrow> P z s')"
  shows "I t" and "P z s \<Longrightarrow> P z t" and "\<forall>y \<in> set ys. y = None \<Longrightarrow> x \<in> set xs \<Longrightarrow> P x t"
proof -
  have "I t \<and> (\<forall>z. P z s \<longrightarrow> P z t) \<and> ((\<forall>y \<in> set ys. y = None) \<longrightarrow> (\<forall>x \<in> set xs. P x t))"
    using assms
  proof (induction xs arbitrary: s ys)
    case Nil
    then show ?case by simp
  next
    case (Cons x xs)
    from Cons.prems(1) obtain y s1 zs where step: "f x s = (y, s1)" "run_each f xs s1 = (zs, t)" "ys = y # zs"
      by (rule run_each_ConsE)
    have 1: "I s1 \<and> (y = None \<longrightarrow> P x s1) \<and> (\<forall>z. P z s \<longrightarrow> P z s1)"
      by (rule Cons.prems(3)[OF _ Cons.prems(2) step(1)]) simp
    have "I t \<and> (\<forall>z. P z s1 \<longrightarrow> P z t) \<and> ((\<forall>y \<in> set zs. y = None) \<longrightarrow> (\<forall>x \<in> set xs. P x t))"
      by (rule Cons.IH[OF step(2) conjunct1[OF 1]]) (rule Cons.prems(3)[OF list.set_intros(2)])
    then show ?case using 1 step(3) by auto
  qed
  then show "I t" and "P z s \<Longrightarrow> P z t" and "\<forall>y \<in> set ys. y = None \<Longrightarrow> x \<in> set xs \<Longrightarrow> P x t" by simp_all
qed

subsection \<open>Steps that return an error\<close>

text \<open>
  The Go idiom of a sequence of calls, each followed by a return of its error. A step takes the state
  to an optional error and the new state, inside the outcome of a call that can panic.
\<close>

definition and_then :: "('w \<Rightarrow> ('e option \<times> 'w) option) \<Rightarrow> ('w \<Rightarrow> ('e option \<times> 'w) option) \<Rightarrow> 'w \<Rightarrow> ('e option \<times> 'w) option" where
  "and_then f g w = do {
     (e, w1) \<leftarrow> f w;
     (case e of Some x \<Rightarrow> Some (Some x, w1) | None \<Rightarrow> g w1)
   }"

definition wrap_err :: "('e \<Rightarrow> 'f) \<Rightarrow> 'e option \<times> 'w \<Rightarrow> 'f option \<times> 'w" where
  "wrap_err f r = (map_option f (fst r), snd r)"

lemma wrap_err_simps [simp]:
  "wrap_err f (None, w) = (None, w)" "wrap_err f (Some e, w) = (Some (f e), w)"
  "fst (wrap_err f r) = map_option f (fst r)" "snd (wrap_err f r) = snd r"
  by (simp_all add: wrap_err_def)

lemma and_then_None_iff:
  "and_then f g w = Some (None, w') \<longleftrightarrow> (\<exists>w1. f w = Some (None, w1) \<and> g w1 = Some (None, w'))"
  by (auto simp: and_then_def bind_eq_Some_conv split: option.splits)

lemma and_then_Some_iff:
  "and_then f g w = Some (Some e, w') \<longleftrightarrow>
     f w = Some (Some e, w') \<or> (\<exists>w1. f w = Some (None, w1) \<and> g w1 = Some (Some e, w'))"
  by (auto simp: and_then_def bind_eq_Some_conv split: option.splits)

lemma and_thenE:
  assumes "and_then f g w = Some (r, w')"
  obtains e where "r = Some e" "f w = Some (Some e, w')"
  | w1 where "f w = Some (None, w1)" "g w1 = Some (r, w')"
proof -
  from assms obtain e w1 where f: "f w = Some (e, w1)"
    and rest: "(case e of Some x \<Rightarrow> Some (Some x, w1) | None \<Rightarrow> g w1) = Some (r, w')"
    by (auto simp: and_then_def bind_eq_Some_conv)
  show thesis
  proof (cases e)
    case None
    then show thesis using f rest that(2) by simp
  next
    case (Some x)
    then show thesis using f rest by (intro that(1)[of x]) auto
  qed
qed

lemma and_then_total:
  assumes "f w = Some (e, w1)" and "e = None \<Longrightarrow> \<exists>r. g w1 = Some r"
  shows "\<exists>r. and_then f g w = Some r"
  using assms by (cases e) (simp_all add: and_then_def)

text \<open>What every step of a sequence keeps, the sequence keeps, whether it ends in an error or not.\<close>

lemma and_then_invariant:
  assumes "and_then f g w = Some (r, w')"
    and "\<And>e w1. f w = Some (e, w1) \<Longrightarrow> I w1"
    and "\<And>w1 e w2. I w1 \<Longrightarrow> g w1 = Some (e, w2) \<Longrightarrow> I w2"
  shows "I w'"
  using assms(1) by (rule and_thenE) (use assms(2,3) in blast)+

text \<open>A guarded call of the Go idiom \<open>if err := f(); err != nil { return h(err) }\<close>, followed by \<open>g\<close>.\<close>

lemma guardE:
  assumes "Option.bind f (\<lambda>(err, s1). case err of None \<Rightarrow> g s1 | Some e \<Rightarrow> h e s1) = Some x"
  obtains (failed) e s1 where "f = Some (Some e, s1)" "h e s1 = Some x"
  | (passed) s1 where "f = Some (None, s1)" "g s1 = Some x"
proof -
  from assms obtain err s1 where f: "f = Some (err, s1)"
    and rest: "(case err of None \<Rightarrow> g s1 | Some e \<Rightarrow> h e s1) = Some x"
    by (auto simp: bind_eq_Some_conv)
  show thesis
  proof (cases err)
    case None
    then show thesis using passed[of s1] f rest by simp
  next
    case (Some e)
    then show thesis using failed[of e s1] f rest by simp
  qed
qed

lemma set_drop_mem: "x \<in> set (drop n xs) \<Longrightarrow> x \<in> set xs"
  by (rule in_set_dropD)

lemma map_of_distinct_in:
  "distinct (map fst m) \<Longrightarrow> (k, v) \<in> set m \<Longrightarrow> map_of m k = Some v"
  by simp

lemma map_of_None_keys: "map_of m k = None \<longleftrightarrow> k \<notin> fst ` set m"
  by (rule map_of_eq_None_iff)

lemma map_of_in_keys: "k \<in> fst ` set m \<Longrightarrow> \<exists>v. map_of m k = Some v"
  by (metis map_of_eq_None_iff not_None_eq)

lemma map_of_map_key: "map_of (map (\<lambda>(x, y). (x, f x y)) m) k = map_option (f k) (map_of m k)"
  by (induction m) auto

end
