(* ===== verification/Go_Errors.thy ===== *)
theory Go_Errors
  imports Prelude
begin

text \<open>
  Go error values. An error is built by \<open>fmt.Errorf\<close> (with or without \<open>%w\<close>), by \<open>errors.Join\<close>, or it
  comes from the operating system, the netlink library or the Kubernetes client. The text of a
  message is named by a constructor that carries the format arguments, one constructor per format
  string of the source, so that two different messages are two different values.
  \<open>IsLinkNotFoundError\<close> and \<open>IsLinkExistsError\<close> are \<open>internal/links/err.go\<close>.
\<close>

subsection \<open>Messages\<close>

datatype links_msg =
    GetNetlinkLink string
  | NotAVxlanLink string
  | CheckMasterLinkUpdate
  | CheckDeviceLinkUpdate
  | UpsertVxlan string
  | CastToVxlan string
  | SetVxlanMTU string
  | DesiredDeviceIndex
  | SetVxlanVtepDevice string
  | SetVxlanGroup string
  | SetVxlanLearning string
  | DesiredMasterIndex
  | SetVxlanMaster string
  | SetVxlanUp string
  | InvalidGroupAddress
  | ReferencedByIndex int
  | ReferencedResourceNotFound string
  | DesiredLinkNilAttributes
  | DeleteExistingLink string string
  | CreateLink string string
  | GetLinkAfterCreation string
  | UpsertedLinkWrongType string string
  | GetDesiredLink string
  | DesiredNilAttributes string
  | BridgeNilAttributes string
  | UpsertBridge string
  | CastToBridge string
  | SetBridgeMTU string
  | SetBridgeUp string

datatype nodelinks_msg =
    GetLinkResource string
  | GetLinkManager string
  | DuplicateLinkName string string string
  | SelfReferential string
  | ConfigurationsInvalid
  | AddVertexFailed string
  | AddEdgeFailed string string
  | BringDownMissingDependencies string
  | MissingDependenciesFailed
  | NoConditionsForLink string
  | LinkMissingDependencies string
  | UpsertCheck string
  | BringDownDependentsOf string
  | UpsertOfLink string
  | EdgeNil string string
  | EdgeDataMissing string string
  | DependentResourceMissing string
  | UnmanagedWithSetDown string
  | BringDownDependent string
  | BringDownUndesired string
  | BringDownAllUndesired
  | DeleteUndesired
  | DeleteAllUndesired
  | UpdateLastAttempted
  | SetLinkDown string
  | DeleteNetlinkLink string
  | UnsupportedLinkType
  | PatchNodeLinksFailed

datatype link_msg =
    GetMatchingNodes
  | RemoveFromUndesiredNodeLinks
  | RegisterWithNodeLinksFailed
  | GetNodeLinksOfNode string
  | GetNodeForFinalizer string
  | SetOwnerReferenceFailed
  | CreateOrPatchFailed string
  | ConvertNodeSelector
  | PatchLinkFailed

datatype graph_msg =
    AdjacencyMapFailed
  | StartVertexMissing string
  | VisitReturnedError

datatype webhook_msg =
    InvalidNodeSelector
  | MulticastNeedsDevice string

datatype msg =
    LinksMsg links_msg
  | NodeLinksMsg nodelinks_msg
  | LinkMsg link_msg
  | GraphMsg graph_msg
  | WebhookMsg webhook_msg

subsection \<open>Errors\<close>

datatype errno = ENODEV | EEXIST | OtherErrno string

text \<open>
  \<open>Errorf\<close> is \<open>fmt.Errorf\<close> with no wrapped error, \<open>Wrapf\<close> is \<open>fmt.Errorf("...: %w", ..., err)\<close>.
  \<open>ApiStatusError\<close> is an error of the Kubernetes API with its reason, \<open>OtherError\<close> any other
  error a library returns.
\<close>

datatype goerror =
    Errno errno
  | LinkNotFoundError string
  | ApiStatusError string string
  | OtherError string
  | Errorf msg
  | Wrapf msg goerror
  | Joined "goerror list"

text \<open>\<open>errors.Is(err, e)\<close> for an \<open>errno\<close>: along the wrapped errors.\<close>

fun errors_Is_errno :: "goerror \<Rightarrow> errno \<Rightarrow> bool" where
  "errors_Is_errno (Errno e) t \<longleftrightarrow> e = t"
| "errors_Is_errno (Wrapf _ e) t \<longleftrightarrow> errors_Is_errno e t"
| "errors_Is_errno (Joined es) t \<longleftrightarrow> list_ex (\<lambda>e. errors_Is_errno e t) es"
| "errors_Is_errno _ t \<longleftrightarrow> False"

text \<open>\<open>errors.As(err, &netlinkErr)\<close> with a target of type \<open>netlink.LinkNotFoundError\<close>.\<close>

fun errors_As_LinkNotFound :: "goerror \<Rightarrow> bool" where
  "errors_As_LinkNotFound (LinkNotFoundError _) \<longleftrightarrow> True"
| "errors_As_LinkNotFound (Wrapf _ e) \<longleftrightarrow> errors_As_LinkNotFound e"
| "errors_As_LinkNotFound (Joined es) \<longleftrightarrow> list_ex errors_As_LinkNotFound es"
| "errors_As_LinkNotFound _ \<longleftrightarrow> False"

text \<open>\<open>errors.Join\<close>: nil when every error is nil, the non-nil errors otherwise.\<close>

definition errors_Join :: "goerror option list \<Rightarrow> goerror option" where
  "errors_Join errs =
     (let es = map the (filter (\<lambda>e. e \<noteq> None) errs) in if es = [] then None else Some (Joined es))"

lemma errors_Join_None [simp]: "errors_Join errs = None \<longleftrightarrow> (\<forall>e \<in> set errs. e = None)"
  by (auto simp: errors_Join_def Let_def filter_empty_conv)

lemma errors_Join_Nil [simp]: "errors_Join [] = None"
  by simp

lemma errors_Join_Some_iff: "(\<exists>e. errors_Join errs = Some e) \<longleftrightarrow> (\<exists>e. Some e \<in> set errs)"
  by (auto simp: errors_Join_def Let_def filter_empty_conv)

subsection \<open>Classification of netlink errors\<close>

definition IsLinkNotFoundError :: "goerror \<Rightarrow> bool" where
  "IsLinkNotFoundError err \<longleftrightarrow> errors_Is_errno err ENODEV \<or> errors_As_LinkNotFound err"

definition IsLinkExistsError :: "goerror \<Rightarrow> bool" where
  "IsLinkExistsError err \<longleftrightarrow> errors_Is_errno err EEXIST"

lemma IsLinkNotFoundError_simps [simp]:
  "IsLinkNotFoundError (Errno n) \<longleftrightarrow> n = ENODEV"
  "IsLinkNotFoundError (LinkNotFoundError s)"
  "IsLinkNotFoundError (Wrapf m e) \<longleftrightarrow> IsLinkNotFoundError e"
  "\<not> IsLinkNotFoundError (OtherError s)"
  "\<not> IsLinkNotFoundError (Errorf m)"
  by (simp_all add: IsLinkNotFoundError_def)

lemma IsLinkExistsError_simps [simp]:
  "IsLinkExistsError (Errno n) \<longleftrightarrow> n = EEXIST"
  "\<not> IsLinkExistsError (LinkNotFoundError s)"
  "IsLinkExistsError (Wrapf m e) \<longleftrightarrow> IsLinkExistsError e"
  "\<not> IsLinkExistsError (OtherError s)"
  "\<not> IsLinkExistsError (Errorf m)"
  by (simp_all add: IsLinkExistsError_def)

end
