(* ===== verification/Api_Types.thy ===== *)
theory Api_Types
  imports Go_Errors "HOL-Library.Word"
begin

text \<open>
  The custom resources of \<open>api/v1alpha1\<close> (\<open>link_types.go\<close>, \<open>nodelinks_types.go\<close>) and the parts of
  the Kubernetes types they use. A Go pointer is an \<open>option\<close>, an \<open>int32\<close> a 32-bit word read with
  \<open>sint\<close>. A status map that the code only looks up, stores into and deletes from is a partial
  function; a Go slice is a list and nil is the empty list, which the API does not tell apart.
  Condition types, reasons and messages are named by constructors, one per string of the source.
\<close>

type_synonym int32 = "32 word"

subsection \<open>Conditions (metav1.Condition)\<close>

datatype cond_status = ConditionTrue | ConditionFalse | ConditionUnknown

text \<open>
  \<open>Ready\<close> is the string of \<open>LinkConditionReady\<close>, \<open>NodeLinkConditionReady\<close> and
  \<open>NetlinkLinkConditionReady\<close>.
\<close>

datatype cond_type =
    Ready
  | Cleanup
  | ValidConfiguration
  | DependencyLinksAvailable
  | OperationallyUp
  | OtherConditionType string

datatype cond_reason =
    FinalizerUpdateFailed
  | ReconcileSuccessful
  | InvalidConfiguration
  | MissingDependencyLinks
  | NodeLinksUpdateFailed
  | NodeLinksCleanupFailed
  | Deleted
  | CleanupSuccessful
  | ReconcileStarted
  | LinkRetrievalFailed
  | LinkGraphBuildFailed
  | LinkGraphTopologicalSortFailed
  | ReadyForUpsert
  | ConfigurationValidated
  | AllDependencyLinksAvailable
  | DependencyCheckFailed
  | UpsertFailed
  | MaybeMissingDependencyLinks
  | UpsertCheckFailed
  | DependentLinkSetDownFailed
  | LinkSetDownFailed
  | LinkBeingDeleted
  | LinkDeletionFailed
  | StatusUpdateFailed
  | LinkStateUnavailable
  | LinkUp
  | LinkDown
  | LinkBroughtDown
  | OtherReason string

text \<open>
  A condition message: a fixed text of the reason it stands with, the text with the error it prints
  (\<open>%v\<close>), with the names it prints, or with the operational state; or a message of another writer.
\<close>

datatype cond_message =
    NoMessage
  | FixedText
  | WithError goerror
  | WithNames "string list"
  | OtherMessage string

record Condition =
  c_Type :: cond_type
  c_Status :: cond_status
  c_Reason :: cond_reason
  c_Message :: cond_message
  c_ObservedGeneration :: int
  c_LastTransitionTime :: nat

text \<open>A condition literal of the source: the fields it does not name have Go's zero value.\<close>

definition condition :: "cond_type \<Rightarrow> cond_status \<Rightarrow> cond_reason \<Rightarrow> cond_message \<Rightarrow> Condition" where
  "condition t s r m =
     \<lparr>c_Type = t, c_Status = s, c_Reason = r, c_Message = m,
      c_ObservedGeneration = 0, c_LastTransitionTime = 0\<rparr>"

lemma condition_sel [simp]:
  "c_Type (condition t s r m) = t" "c_Status (condition t s r m) = s"
  "c_Reason (condition t s r m) = r" "c_Message (condition t s r m) = m"
  by (simp_all add: condition_def)

subsection \<open>Object metadata\<close>

record OwnerReference =
  or_Kind :: string
  or_Name :: string
  or_UID :: string
  or_BlockOwnerDeletion :: bool

text \<open>\<open>m_DeletionTimestamp\<close> is the \<open>*metav1.Time\<close>: \<open>None\<close> is nil, \<open>Some 0\<close> the zero time.\<close>

record ObjectMeta =
  m_Name :: string
  m_UID :: string
  m_ResourceVersion :: string
  m_Generation :: int
  m_Labels :: "(string \<times> string) list"
  m_DeletionTimestamp :: "nat option"
  m_Finalizers :: "string list"
  m_OwnerReferences :: "OwnerReference list"

definition DeletionTimestamp_IsZero :: "ObjectMeta \<Rightarrow> bool" where
  "DeletionTimestamp_IsZero m \<longleftrightarrow> m_DeletionTimestamp m = None \<or> m_DeletionTimestamp m = Some 0"

definition named_meta :: "string \<Rightarrow> ObjectMeta" where
  "named_meta n =
     \<lparr>m_Name = n, m_UID = '''', m_ResourceVersion = '''', m_Generation = 0, m_Labels = [],
      m_DeletionTimestamp = None, m_Finalizers = [], m_OwnerReferences = []\<rparr>"

lemma named_meta_sel [simp]:
  "m_Name (named_meta n) = n" "m_Finalizers (named_meta n) = []"
  "m_DeletionTimestamp (named_meta n) = None" "m_OwnerReferences (named_meta n) = []"
  by (simp_all add: named_meta_def)

text \<open>\<open>metav1.LabelSelector\<close>, read only by the library (\<open>LabelSelectorAsSelector\<close>).\<close>

record LabelSelectorRequirement =
  lsr_Key :: string
  lsr_Operator :: string
  lsr_Values :: "string list"

record LabelSelector =
  sel_MatchLabels :: "(string \<times> string) list"
  sel_MatchExpressions :: "LabelSelectorRequirement list"

subsection \<open>Link\<close>

record LinkReference =
  ref_Name :: string
  ref_Optional :: bool
  ref_SetDownOnDependencyChainUpdate :: bool

record PortRange =
  pr_Start :: int32
  pr_End :: int32

record VXLANSpecs =
  vx_VNID :: int32
  vx_RemoteIPAddress :: string
  vx_RemotePort :: int32
  vx_SourcePort :: "PortRange option"
  vx_Device :: "LinkReference option"
  vx_Master :: "LinkReference option"
  vx_MTU :: "int32 option"
  vx_Learning :: "bool option"

definition IsLearningEnabled :: "VXLANSpecs \<Rightarrow> bool" where
  "IsLearningEnabled s \<longleftrightarrow> (case vx_Learning s of None \<Rightarrow> True | Some b \<Rightarrow> b)"

record BridgeSpec =
  br_MTU :: "int32 option"

datatype UnmanagedSpec = UnmanagedSpec

record LinkSpecs =
  sp_Bridge :: "BridgeSpec option"
  sp_VXLAN :: "VXLANSpecs option"
  sp_Unmanaged :: "UnmanagedSpec option"

record LinkSpec =
  lk_LinkName :: string
  lk_NodeSelector :: LabelSelector
  lk_LinkSpecs :: LinkSpecs

record LinkStatus =
  ls_Conditions :: "Condition list"
  ls_MatchedNodes :: "string list"

record Link =
  lk_Meta :: ObjectMeta
  lk_Spec :: LinkSpec
  lk_Status :: LinkStatus

abbreviation Link_Name :: "Link \<Rightarrow> string" where
  "Link_Name l \<equiv> m_Name (lk_Meta l)"

abbreviation LinkName :: "Link \<Rightarrow> string" where
  "LinkName l \<equiv> lk_LinkName (lk_Spec l)"

abbreviation Spec_Bridge :: "Link \<Rightarrow> BridgeSpec option" where
  "Spec_Bridge l \<equiv> sp_Bridge (lk_LinkSpecs (lk_Spec l))"

abbreviation Spec_VXLAN :: "Link \<Rightarrow> VXLANSpecs option" where
  "Spec_VXLAN l \<equiv> sp_VXLAN (lk_LinkSpecs (lk_Spec l))"

abbreviation Spec_Unmanaged :: "Link \<Rightarrow> UnmanagedSpec option" where
  "Spec_Unmanaged l \<equiv> sp_Unmanaged (lk_LinkSpecs (lk_Spec l))"

subsection \<open>The admission rules of the API markers\<close>

text \<open>
  The \<open>kubebuilder\<close> markers of the types: what the API server has checked (and defaulted) before a
  controller sees the resource. The default of \<open>sourcePort\<close> makes the pointer non-nil.
\<close>

definition valid_port :: "int32 \<Rightarrow> bool" where
  "valid_port p \<longleftrightarrow> 1 \<le> sint p \<and> sint p \<le> 65535"

definition valid_PortRange :: "PortRange \<Rightarrow> bool" where
  "valid_PortRange r \<longleftrightarrow>
     valid_port (pr_Start r) \<and> valid_port (pr_End r) \<and> sint (pr_Start r) \<le> sint (pr_End r)"

definition valid_MTU :: "int32 option \<Rightarrow> bool" where
  "valid_MTU m \<longleftrightarrow> (case m of None \<Rightarrow> True | Some v \<Rightarrow> 68 \<le> sint v \<and> sint v \<le> 65535)"

definition valid_VXLANSpecs :: "VXLANSpecs \<Rightarrow> bool" where
  "valid_VXLANSpecs s \<longleftrightarrow>
     1 \<le> sint (vx_VNID s) \<and> sint (vx_VNID s) \<le> 16777215 \<and> valid_port (vx_RemotePort s) \<and>
     (case vx_SourcePort s of None \<Rightarrow> False | Some r \<Rightarrow> valid_PortRange r) \<and> valid_MTU (vx_MTU s)"

definition exactly_one_spec :: "LinkSpecs \<Rightarrow> bool" where
  "exactly_one_spec s \<longleftrightarrow>
     (if sp_Bridge s \<noteq> None then 1 else 0) + (if sp_VXLAN s \<noteq> None then 1 else 0) +
     (if sp_Unmanaged s \<noteq> None then 1 else (0::nat)) = 1"

definition link_name_char :: "char \<Rightarrow> bool" where
  "link_name_char c \<longleftrightarrow>
     c \<notin> {CHR ''/'', CHR '' '', CHR 0x09, CHR 0x0A, CHR 0x0C, CHR 0x0D}"

definition valid_LinkSpec :: "LinkSpec \<Rightarrow> bool" where
  "valid_LinkSpec s \<longleftrightarrow>
     lk_LinkName s \<noteq> '''' \<and> length (lk_LinkName s) \<le> 15 \<and> list_all link_name_char (lk_LinkName s) \<and>
     exactly_one_spec (lk_LinkSpecs s) \<and>
     (case sp_Bridge (lk_LinkSpecs s) of None \<Rightarrow> True | Some b \<Rightarrow> valid_MTU (br_MTU b)) \<and>
     (case sp_VXLAN (lk_LinkSpecs s) of None \<Rightarrow> True | Some v \<Rightarrow> valid_VXLANSpecs v)"

lemma valid_LinkSpec_SourcePort:
  assumes "valid_LinkSpec s" and "sp_VXLAN (lk_LinkSpecs s) = Some v"
  obtains r where "vx_SourcePort v = Some r" "valid_PortRange r"
  using assms by (auto simp: valid_LinkSpec_def valid_VXLANSpecs_def split: option.splits)

subsection \<open>NodeLinks\<close>

record NodeLinksSpec =
  nk_MatchingLinks :: "string list"

record NodeLinksStatus =
  ns_Conditions :: "Condition list"
  ns_NetlinkLinkConditions :: "string \<rightharpoonup> Condition list"
  ns_LastAttemptedNetlinkLinks :: "string list"

record NodeLinks =
  nk_Meta :: ObjectMeta
  nk_Spec :: NodeLinksSpec
  nk_Status :: NodeLinksStatus

abbreviation MatchingLinks :: "NodeLinks \<Rightarrow> string list" where
  "MatchingLinks n \<equiv> nk_MatchingLinks (nk_Spec n)"

abbreviation LastAttempted :: "NodeLinks \<Rightarrow> string list" where
  "LastAttempted n \<equiv> ns_LastAttemptedNetlinkLinks (nk_Status n)"

abbreviation NetlinkLinkConditions :: "NodeLinks \<Rightarrow> string \<rightharpoonup> Condition list" where
  "NetlinkLinkConditions n \<equiv> ns_NetlinkLinkConditions (nk_Status n)"

text \<open>
  A Go map of Link resources, by resource name, is an association list without duplicate keys. The
  order of the list means nothing: every \<open>range\<close> over such a map takes its order from a parameter.
\<close>

type_synonym link_map = "(string \<times> Link) list"

end
