(* ===== verification/Go_Net.thy ===== *)
theory Go_Net
  imports Prelude "HOL-Library.Word"
begin

unbundle bit_operations_syntax

text \<open>
  What the operator uses of Go's package \<open>net\<close>: an \<open>net.IP\<close> is a slice of bytes (4 or 16 of them, or
  nil, the empty list); \<open>net.ParseIP\<close> reads dotted IPv4 and IPv6 text; \<open>Equal\<close> identifies an IPv4
  address with its IPv4-mapped IPv6 form; \<open>To4\<close>, \<open>To16\<close> and \<open>IsMulticast\<close> are as in the package.
\<close>

type_synonym byte = "8 word"
type_synonym ip = "byte list"

abbreviation nil_ip :: ip where
  "nil_ip \<equiv> []"

definition v4InV6Prefix :: ip where
  "v4InV6Prefix = replicate 10 0 @ [255, 255]"

definition To4 :: "ip \<Rightarrow> ip" where
  "To4 i = (if length i = 4 then i
            else if length i = 16 \<and> take 12 i = v4InV6Prefix then drop 12 i
            else nil_ip)"

definition To16 :: "ip \<Rightarrow> ip" where
  "To16 i = (if length i = 4 then v4InV6Prefix @ i else if length i = 16 then i else nil_ip)"

definition ip_Equal :: "ip \<Rightarrow> ip \<Rightarrow> bool" where
  "ip_Equal i x \<longleftrightarrow>
     (if length i = length x then i = x
      else if length i = 4 \<and> length x = 16 then take 12 x = v4InV6Prefix \<and> i = drop 12 x
      else if length i = 16 \<and> length x = 4 then take 12 i = v4InV6Prefix \<and> drop 12 i = x
      else False)"

definition IsMulticast :: "ip \<Rightarrow> bool" where
  "IsMulticast i \<longleftrightarrow>
     (if To4 i \<noteq> nil_ip then To4 i ! 0 AND 0xF0 = 0xE0 else length i = 16 \<and> i ! 0 = 0xFF)"

subsection \<open>Parsing\<close>

definition digit_val :: "char \<Rightarrow> nat option" where
  "digit_val c = (let n = of_char c in if 48 \<le> n \<and> n \<le> 57 then Some (n - 48) else None)"

definition hex_val :: "char \<Rightarrow> nat option" where
  "hex_val c = (let n = of_char c in
     if 48 \<le> n \<and> n \<le> 57 then Some (n - 48)
     else if 97 \<le> n \<and> n \<le> 102 then Some (n - 87)
     else if 65 \<le> n \<and> n \<le> 70 then Some (n - 55)
     else None)"

text \<open>The fields read so far, the value and the number of digits of the current field.\<close>

fun parse_v4_fields :: "nat list \<Rightarrow> nat \<Rightarrow> nat \<Rightarrow> string \<Rightarrow> nat list option" where
  "parse_v4_fields fs v d [] = (if length fs < 3 then None else Some (fs @ [v]))"
| "parse_v4_fields fs v d (c # cs) =
     (case digit_val c of
        Some k \<Rightarrow>
          (if d = 1 \<and> v = 0 then None
           else if v * 10 + k > 255 then None
           else parse_v4_fields fs (v * 10 + k) (d + 1) cs)
      | None \<Rightarrow>
          (if c = CHR ''.'' then
             (if d = 0 \<or> cs = [] then None
              else if length fs = 3 then None
              else parse_v4_fields (fs @ [v]) 0 0 cs)
           else None))"

text \<open>A run of hexadecimal digits, at most four: their number, their value, the rest.\<close>

fun hex_run :: "nat \<Rightarrow> nat \<Rightarrow> string \<Rightarrow> (nat \<times> nat \<times> string) option" where
  "hex_run off acc [] = Some (off, acc, [])"
| "hex_run off acc (c # cs) =
     (case hex_val c of
        None \<Rightarrow> Some (off, acc, c # cs)
      | Some k \<Rightarrow> if off > 3 then None else hex_run (off + 1) (acc * 16 + k) cs)"

text \<open>The groups of an IPv6 address: the bytes read so far and the position of the ellipsis.\<close>

function v6_groups :: "nat list \<Rightarrow> nat option \<Rightarrow> string \<Rightarrow> (nat list \<times> nat option) option" where
  "v6_groups bs ell s =
     (if length bs < 16 then
        (case hex_run 0 0 s of
           None \<Rightarrow> None
         | Some (off, acc, r) \<Rightarrow>
             if off = 0 then None
             else if r \<noteq> [] \<and> hd r = CHR ''.'' then
               (if ell = None \<and> length bs \<noteq> 12 then None
                else if length bs + 4 > 16 then None
                else map_option (\<lambda>fs. (bs @ fs, ell)) (parse_v4_fields [] 0 0 s))
             else
               (case r of
                  [] \<Rightarrow> Some (bs @ [acc div 256, acc mod 256], ell)
                | c # r1 \<Rightarrow>
                    if c \<noteq> CHR '':'' then None
                    else (case r1 of
                       [] \<Rightarrow> None
                     | c2 # r2 \<Rightarrow>
                         if c2 = CHR '':'' then
                           (if ell \<noteq> None then None
                            else if r2 = [] then Some (bs @ [acc div 256, acc mod 256], Some (length bs + 2))
                            else v6_groups (bs @ [acc div 256, acc mod 256]) (Some (length bs + 2)) r2)
                         else v6_groups (bs @ [acc div 256, acc mod 256]) ell r1)))
      else if s = [] then Some (bs, ell) else None)"
  by pat_completeness auto
termination
  by (relation "measure (\<lambda>(bs, ell, s). 16 - length bs)") auto

declare v6_groups.simps [simp del]

definition expand_ellipsis :: "nat list \<Rightarrow> nat option \<Rightarrow> nat list option" where
  "expand_ellipsis bs ell =
     (if length bs < 16 then
        (case ell of None \<Rightarrow> None
         | Some e \<Rightarrow> Some (take e bs @ replicate (16 - length bs) 0 @ drop e bs))
      else if ell \<noteq> None then None else Some bs)"

definition parse_v6 :: "string \<Rightarrow> nat list option" where
  "parse_v6 s =
     (case s of
        CHR '':'' # CHR '':'' # r \<Rightarrow>
          if r = [] then Some (replicate 16 0)
          else Option.bind (v6_groups [] (Some 0) r) (\<lambda>(bs, ell). expand_ellipsis bs ell)
      | _ \<Rightarrow> Option.bind (v6_groups [] None s) (\<lambda>(bs, ell). expand_ellipsis bs ell))"

text \<open>
  The first of \<open>.\<close>, \<open>:\<close> and \<open>%\<close> in the text decides between the families. An address with a zone
  parses, and \<open>ParseIP\<close> then returns nil because of the zone, so a \<open>%\<close> always gives nil.
\<close>

definition ParseIP :: "string \<Rightarrow> ip" where
  "ParseIP s =
     (case dropWhile (\<lambda>c. c \<noteq> CHR ''.'' \<and> c \<noteq> CHR '':'' \<and> c \<noteq> CHR ''%'') s of
        [] \<Rightarrow> nil_ip
      | c # _ \<Rightarrow>
          if c = CHR ''.'' then
            (case parse_v4_fields [] 0 0 s of None \<Rightarrow> nil_ip | Some fs \<Rightarrow> v4InV6Prefix @ map of_nat fs)
          else if c = CHR '':'' \<and> CHR ''%'' \<notin> set s then
            (case parse_v6 s of None \<Rightarrow> nil_ip | Some bs \<Rightarrow> map of_nat bs)
          else nil_ip)"

subsection \<open>Facts\<close>

lemma length_v4InV6Prefix [simp]: "length v4InV6Prefix = 12"
  by (simp add: v4InV6Prefix_def)

lemma ip_Equal_refl [simp]: "ip_Equal i i"
  by (simp add: ip_Equal_def)

lemma ip_Equal_sym: "ip_Equal i x \<Longrightarrow> ip_Equal x i"
  by (auto simp: ip_Equal_def split: if_splits)

lemma ip_Equal_mapped: "length i = 4 \<Longrightarrow> ip_Equal i (v4InV6Prefix @ i)"
  by (simp add: ip_Equal_def)

lemma ip_Equal_To4: "To4 x \<noteq> nil_ip \<Longrightarrow> ip_Equal (To4 x) x"
  by (auto simp: To4_def ip_Equal_def split: if_splits)

lemma ip_Equal_To16: "To16 x \<noteq> nil_ip \<Longrightarrow> ip_Equal (To16 x) x"
  by (auto simp: To16_def ip_Equal_def split: if_splits)

lemma To4_nil_To16: "To4 x = nil_ip \<Longrightarrow> To16 x \<noteq> nil_ip \<Longrightarrow> length x = 16"
  by (auto simp: To4_def To16_def split: if_splits)

lemma parse_v4_fields_length:
  "parse_v4_fields fs v d s = Some out \<Longrightarrow> length fs \<le> 3 \<Longrightarrow> length out = 4"
  by (induction fs v d s rule: parse_v4_fields.induct) (auto split: if_splits option.splits)

lemma To4_ParseIP_v4:
  assumes "dropWhile (\<lambda>c. c \<noteq> CHR ''.'' \<and> c \<noteq> CHR '':'' \<and> c \<noteq> CHR ''%'') s = CHR ''.'' # r"
    and "parse_v4_fields [] 0 0 s = Some fs"
  shows "To4 (ParseIP s) = map of_nat fs"
proof -
  have "length fs = 4" using parse_v4_fields_length[OF assms(2)] by simp
  then show ?thesis using assms by (simp add: ParseIP_def To4_def)
qed

lemmas parse_eval = ParseIP_def parse_v6_def v6_groups.simps expand_ellipsis_def digit_val_def hex_val_def

lemma ParseIP_dotted:
  "ParseIP ''10.255.0.1'' = v4InV6Prefix @ [10, 255, 0, 1]"
  "ParseIP ''239.1.1.1'' = v4InV6Prefix @ [239, 1, 1, 1]"
  "ParseIP ''10.0.0.01'' = nil_ip"
  "ParseIP ''256.0.0.1'' = nil_ip"
  by (simp_all add: parse_eval)

end
