(* ===== verification/Netlink.thy ===== *)
theory Netlink
  imports Api_Types Go_Net
begin

text \<open>
  The netlink library as the operator uses it. The library and the kernel behind it are not part of
  the repository: they are a record of functions, \<open>netlink\<close>, over an abstract kernel state \<open>'k\<close>, which
  every definition that touches links takes as an argument. Reads are functions of the kernel state;
  every call that can change it is a value of \<open>nl_call\<close>, performed by \<open>nl_exec\<close>, and is appended to
  the trace of the run, so that the order and the targets of the calls can be stated.
\<close>

subsection \<open>Links\<close>

datatype oper_state = OperUp | OperUnknown | OtherOperState string

record LinkAttrs =
  la_Index :: int
  la_Name :: string
  la_MTU :: int
  la_MasterIndex :: int
  la_FlagUp :: bool
  la_OperState :: oper_state

text \<open>The fields of \<open>netlink.Vxlan\<close> that the operator reads or writes, beside the embedded attributes.\<close>

record Vxlan =
  vl_VxlanId :: int
  vl_Port :: int
  vl_PortLow :: int
  vl_PortHigh :: int
  vl_Learning :: bool
  vl_VtepDevIndex :: int
  vl_Group :: ip

text \<open>
  A \<open>netlink.Link\<close> interface value by its dynamic type: \<open>*netlink.Bridge\<close>, \<open>*netlink.Vxlan\<close>, or any
  other implementation with its \<open>Type()\<close> and its \<open>Attrs()\<close>, which can be nil.
\<close>

datatype nlink =
    NlBridge LinkAttrs
  | NlVxlan LinkAttrs Vxlan
  | NlOther string "LinkAttrs option"

subsection \<open>Calls that change the kernel\<close>

text \<open>
  The request that the operator builds itself (\<open>nl.NewNetlinkRequest\<close> with a link message and nested
  attributes). The constants of the protocol are constructors; a payload is named by the library
  function that encodes it.
\<close>

datatype nl_payload = StringPayload string | BytesPayload "byte list" | U32Payload "32 word" | U8Payload "8 word"

datatype nl_attr =
    IFLA_LINKINFO "nl_attr list"
  | IFLA_INFO_KIND nl_payload
  | IFLA_INFO_DATA "nl_attr list"
  | IFLA_VXLAN_GROUP nl_payload
  | IFLA_VXLAN_GROUP6 nl_payload
  | IFLA_VXLAN_LINK nl_payload
  | IFLA_VXLAN_LEARNING nl_payload

datatype nl_proto = RTM_NEWLINK
datatype nl_flag = NLM_F_ACK
datatype nl_family = AF_UNSPEC

record nl_request =
  rq_proto :: nl_proto
  rq_flags :: "nl_flag list"
  rq_family :: nl_family
  rq_index :: int32
  rq_attrs :: "nl_attr list"

datatype nl_call =
    LinkAdd nlink
  | LinkDel nlink
  | LinkSetUp nlink
  | LinkSetDown nlink
  | LinkSetMTU nlink int
  | LinkSetMasterByIndex nlink int
  | Execute nl_request

subsection \<open>The library\<close>

record 'k netlink =
  nl_Type :: "nlink \<Rightarrow> string"
  nl_Attrs :: "nlink \<Rightarrow> LinkAttrs option"
  nl_NewLinkAttrs :: LinkAttrs
  nl_LinkByName :: "'k \<Rightarrow> string \<Rightarrow> goerror + nlink"
  nl_LinkByIndex :: "'k \<Rightarrow> int \<Rightarrow> goerror + nlink"
  nl_exec :: "'k \<Rightarrow> nl_call \<Rightarrow> goerror option \<times> 'k"

text \<open>The kernel state with the calls made so far, oldest first.\<close>

record 'k kworld =
  kern :: 'k
  nl_trace :: "nl_call list"

definition nl_do :: "'k netlink \<Rightarrow> nl_call \<Rightarrow> 'k kworld \<Rightarrow> goerror option \<times> 'k kworld" where
  "nl_do NL c w =
     (let (e, k) = nl_exec NL (kern w) c
      in (e, w\<lparr>kern := k, nl_trace := nl_trace w @ [c]\<rparr>))"

lemma nl_do_trace [simp]: "nl_trace (snd (nl_do NL c w)) = nl_trace w @ [c]"
  by (simp add: nl_do_def split: prod.split)

lemma nl_do_kern: "kern (snd (nl_do NL c w)) = snd (nl_exec NL (kern w) c)"
  by (simp add: nl_do_def split: prod.split)

lemma nl_do_result: "fst (nl_do NL c w) = fst (nl_exec NL (kern w) c)"
  by (simp add: nl_do_def split: prod.split)

lemma nl_do_eqD:
  "nl_do NL c w = (e, w') \<Longrightarrow>
     nl_exec NL (kern w) c = (e, kern w') \<and> nl_trace w' = nl_trace w @ [c]"
  by (auto simp: nl_do_def split: prod.splits)

subsection \<open>What the library documents\<close>

text \<open>
  The attributes that the dynamic types determine: \<open>Type\<close> and \<open>Attrs\<close> of the two link types the
  operator builds, and the attributes of a new link.
\<close>

definition netlink_types :: "'k netlink \<Rightarrow> bool" where
  "netlink_types NL \<longleftrightarrow>
     (\<forall>a. nl_Type NL (NlBridge a) = ''bridge'' \<and> nl_Attrs NL (NlBridge a) = Some a) \<and>
     (\<forall>a v. nl_Type NL (NlVxlan a v) = ''vxlan'' \<and> nl_Attrs NL (NlVxlan a v) = Some a)"

text \<open>
  The link a call addresses, by interface index: the link functions send the index of the link value,
  \<open>Execute\<close> the index of the message.
\<close>

definition call_index :: "'k netlink \<Rightarrow> nl_call \<Rightarrow> int option" where
  "call_index NL c =
     (case c of
        LinkAdd l \<Rightarrow> None
      | LinkDel l \<Rightarrow> map_option la_Index (nl_Attrs NL l)
      | LinkSetUp l \<Rightarrow> map_option la_Index (nl_Attrs NL l)
      | LinkSetDown l \<Rightarrow> map_option la_Index (nl_Attrs NL l)
      | LinkSetMTU l _ \<Rightarrow> map_option la_Index (nl_Attrs NL l)
      | LinkSetMasterByIndex l _ \<Rightarrow> map_option la_Index (nl_Attrs NL l)
      | Execute r \<Rightarrow> Some (sint (rq_index r)))"

fun map_attrs :: "(LinkAttrs \<Rightarrow> LinkAttrs) \<Rightarrow> nlink \<Rightarrow> nlink" where
  "map_attrs f (NlBridge a) = NlBridge (f a)"
| "map_attrs f (NlVxlan a v) = NlVxlan (f a) v"
| "map_attrs f (NlOther t a) = NlOther t (map_option f a)"

fun map_vxlan :: "(Vxlan \<Rightarrow> Vxlan) \<Rightarrow> nlink \<Rightarrow> nlink" where
  "map_vxlan f (NlVxlan a v) = NlVxlan a (f v)"
| "map_vxlan f l = l"

text \<open>What the VXLAN attributes of a request set on the VXLAN they address.\<close>

fun apply_vxlan_attr :: "nl_attr \<Rightarrow> Vxlan \<Rightarrow> Vxlan" where
  "apply_vxlan_attr (IFLA_VXLAN_GROUP (BytesPayload b)) v = v\<lparr>vl_Group := b\<rparr>"
| "apply_vxlan_attr (IFLA_VXLAN_GROUP6 (BytesPayload b)) v = v\<lparr>vl_Group := b\<rparr>"
| "apply_vxlan_attr (IFLA_VXLAN_LINK (U32Payload i)) v = v\<lparr>vl_VtepDevIndex := uint i\<rparr>"
| "apply_vxlan_attr (IFLA_VXLAN_LEARNING (U8Payload b)) v = v\<lparr>vl_Learning := (b \<noteq> 0)\<rparr>"
| "apply_vxlan_attr _ v = v"

fun request_vxlan_attrs :: "nl_attr list \<Rightarrow> nl_attr list" where
  "request_vxlan_attrs [IFLA_LINKINFO [IFLA_INFO_KIND k, IFLA_INFO_DATA ds]] = ds"
| "request_vxlan_attrs _ = []"

definition call_effect :: "nl_call \<Rightarrow> nlink \<Rightarrow> nlink" where
  "call_effect c l =
     (case c of
        LinkSetUp _ \<Rightarrow> map_attrs (\<lambda>a. a\<lparr>la_FlagUp := True\<rparr>) l
      | LinkSetDown _ \<Rightarrow> map_attrs (\<lambda>a. a\<lparr>la_FlagUp := False\<rparr>) l
      | LinkSetMTU _ m \<Rightarrow> map_attrs (\<lambda>a. a\<lparr>la_MTU := m\<rparr>) l
      | LinkSetMasterByIndex _ i \<Rightarrow> map_attrs (\<lambda>a. a\<lparr>la_MasterIndex := i\<rparr>) l
      | Execute r \<Rightarrow> map_vxlan (fold apply_vxlan_attr (request_vxlan_attrs (rq_attrs r))) l
      | _ \<Rightarrow> l)"

text \<open>
  A VXLAN may not be larger than its underlying device allows: when the kernel applies VXLAN attributes to
  a VXLAN with such a device, it adapts the MTU to that of the device (the notes in
  \<open>config/samples/gateway-network/README.md\<close> on 1450 bytes over a carrier of 1500). So after such a request
  nothing is assumed of the MTU.
\<close>

fun with_MTU :: "int \<Rightarrow> nlink \<Rightarrow> nlink" where
  "with_MTU m l = map_attrs (\<lambda>a. a\<lparr>la_MTU := m\<rparr>) l"

fun has_device :: "nlink \<Rightarrow> bool" where
  "has_device (NlVxlan a v) \<longleftrightarrow> vl_VtepDevIndex v \<noteq> 0"
| "has_device _ \<longleftrightarrow> False"

definition is_request :: "nl_call \<Rightarrow> bool" where
  "is_request c \<longleftrightarrow> (\<exists>r. c = Execute r)"

definition effect_of :: "nl_call \<Rightarrow> nlink \<Rightarrow> nlink \<Rightarrow> bool" where
  "effect_of c l l' \<longleftrightarrow>
     l' = call_effect c l \<or> is_request c \<and> has_device (call_effect c l) \<and> (\<exists>m. l' = with_MTU m (call_effect c l))"

text \<open>
  A link is the same one as before up to its operational state, which the kernel changes by itself.
\<close>

definition norm_link :: "nlink \<Rightarrow> nlink" where
  "norm_link = map_attrs (\<lambda>a. a\<lparr>la_OperState := OperUnknown\<rparr>)"

definition same_config :: "nlink \<Rightarrow> nlink \<Rightarrow> bool" where
  "same_config l l' \<longleftrightarrow> norm_link l = norm_link l'"

text \<open>
  The laws of a kernel that only the operator changes while it configures one link: a failed call
  changes nothing; a deleted link is gone; an added link is found under its name, up to the index,
  the MTU, the state and the group the kernel gives it; a setter changes the addressed link as
  documented, up to the MTU of a VXLAN with a device; and a lookup by index finds a link of that index, whose name no setter changes.
\<close>

definition created_as :: "nlink \<Rightarrow> nlink \<Rightarrow> bool" where
  "created_as d l \<longleftrightarrow>
     (case (d, l) of
        (NlBridge a, NlBridge b) \<Rightarrow> la_Name b = la_Name a
      | (NlVxlan a v, NlVxlan b u) \<Rightarrow>
          la_Name b = la_Name a \<and> vl_VxlanId u = vl_VxlanId v \<and> vl_Port u = vl_Port v \<and>
          vl_PortLow u = vl_PortLow v \<and> vl_PortHigh u = vl_PortHigh v
      | _ \<Rightarrow> False)"

definition link_name :: "'k netlink \<Rightarrow> nlink \<Rightarrow> string option" where
  "link_name NL l = map_option la_Name (nl_Attrs NL l)"

definition is_setter :: "nl_call \<Rightarrow> bool" where
  "is_setter c \<longleftrightarrow> (case c of LinkAdd _ \<Rightarrow> False | LinkDel _ \<Rightarrow> False | _ \<Rightarrow> True)"

definition failed_call_law :: "'k netlink \<Rightarrow> bool" where
  "failed_call_law NL \<longleftrightarrow> (\<forall>k c e k'. nl_exec NL k c = (Some e, k') \<longrightarrow> k' = k)"

definition lookup_law :: "'k netlink \<Rightarrow> bool" where
  "lookup_law NL \<longleftrightarrow>
     (\<forall>k n l. nl_LinkByName NL k n = Inr l \<longrightarrow>
        (\<exists>a. nl_Attrs NL l = Some a \<and> la_Name a = n \<and> 0 < la_Index a \<and> la_Index a < 2 ^ 31))"

definition delete_law :: "'k netlink \<Rightarrow> bool" where
  "delete_law NL \<longleftrightarrow>
     (\<forall>k n l k'. nl_LinkByName NL k n = Inr l \<longrightarrow> nl_exec NL k (LinkDel l) = (None, k') \<longrightarrow>
        (\<exists>e. nl_LinkByName NL k' n = Inl e \<and> IsLinkNotFoundError e))"

definition add_law :: "'k netlink \<Rightarrow> bool" where
  "add_law NL \<longleftrightarrow>
     (\<forall>k d a k'. nl_Attrs NL d = Some a \<longrightarrow> nl_exec NL k (LinkAdd d) = (None, k') \<longrightarrow>
        (\<exists>l. nl_LinkByName NL k' (la_Name a) = Inr l \<and> created_as d l))"

definition setter_law :: "'k netlink \<Rightarrow> bool" where
  "setter_law NL \<longleftrightarrow>
     (\<forall>k n l c k'. nl_LinkByName NL k n = Inr l \<longrightarrow> nl_exec NL k c = (None, k') \<longrightarrow> is_setter c \<longrightarrow>
        call_index NL c = map_option la_Index (nl_Attrs NL l) \<longrightarrow>
        (\<exists>l' x. nl_LinkByName NL k' n = Inr l' \<and> same_config l' x \<and> effect_of c l x))"

definition index_law :: "'k netlink \<Rightarrow> bool" where
  "index_law NL \<longleftrightarrow>
     (\<forall>k n l a. nl_LinkByName NL k n = Inr l \<longrightarrow> nl_Attrs NL l = Some a \<longrightarrow>
        (\<exists>l'. nl_LinkByIndex NL k (la_Index a) = Inr l' \<and> link_name NL l' = Some n))"

definition index_setter_law :: "'k netlink \<Rightarrow> bool" where
  "index_setter_law NL \<longleftrightarrow>
     (\<forall>k c k' i l. nl_exec NL k c = (None, k') \<longrightarrow> is_setter c \<longrightarrow>
        nl_LinkByIndex NL k i = Inr l \<longrightarrow>
        (\<exists>l'. nl_LinkByIndex NL k' i = Inr l' \<and> link_name NL l' = link_name NL l))"

definition netlink_laws :: "'k netlink \<Rightarrow> bool" where
  "netlink_laws NL \<longleftrightarrow>
     netlink_types NL \<and> failed_call_law NL \<and> lookup_law NL \<and> delete_law NL \<and> add_law NL \<and>
     setter_law NL \<and> index_law NL \<and> index_setter_law NL"

subsection \<open>Consequences of the laws\<close>

lemma netlink_laws_types: "netlink_laws NL \<Longrightarrow> netlink_types NL"
  by (simp add: netlink_laws_def)

lemma netlink_types_simps:
  assumes "netlink_types NL"
  shows "nl_Type NL (NlBridge a) = ''bridge''" "nl_Attrs NL (NlBridge a) = Some a"
    "nl_Type NL (NlVxlan a v) = ''vxlan''" "nl_Attrs NL (NlVxlan a v) = Some a"
  using assms by (simp_all add: netlink_types_def)

lemma law_failed_call: "netlink_laws NL \<Longrightarrow> nl_exec NL k c = (Some e, k') \<Longrightarrow> k' = k"
  unfolding netlink_laws_def failed_call_law_def by blast

lemma law_lookup:
  assumes "netlink_laws NL" "nl_LinkByName NL k n = Inr l"
  obtains a where "nl_Attrs NL l = Some a" "la_Name a = n" "0 < la_Index a" "la_Index a < 2 ^ 31"
  using assms unfolding netlink_laws_def lookup_law_def by blast

lemma law_deleted:
  assumes "netlink_laws NL" "nl_LinkByName NL k n = Inr l" "nl_exec NL k (LinkDel l) = (None, k')"
  obtains e where "nl_LinkByName NL k' n = Inl e" "IsLinkNotFoundError e"
  using assms unfolding netlink_laws_def delete_law_def by blast

lemma law_added:
  assumes "netlink_laws NL" "nl_Attrs NL d = Some a" "nl_exec NL k (LinkAdd d) = (None, k')"
  obtains l where "nl_LinkByName NL k' (la_Name a) = Inr l" "created_as d l"
  using assms unfolding netlink_laws_def add_law_def by blast

lemma is_setter_simps [simp]:
  "\<not> is_setter (LinkAdd l)" "\<not> is_setter (LinkDel l)" "is_setter (LinkSetUp l)"
  "is_setter (LinkSetDown l)" "is_setter (LinkSetMTU l m)" "is_setter (LinkSetMasterByIndex l m)"
  "is_setter (Execute r)"
  by (simp_all add: is_setter_def)

lemma law_setter:
  assumes "netlink_laws NL" "nl_LinkByName NL k n = Inr l" "nl_exec NL k c = (None, k')" "is_setter c"
    and "call_index NL c = map_option la_Index (nl_Attrs NL l)"
  obtains l' x where "nl_LinkByName NL k' n = Inr l'" "same_config l' x" "effect_of c l x"
  using assms unfolding netlink_laws_def setter_law_def by blast

lemma law_by_index:
  assumes "netlink_laws NL" "nl_LinkByName NL k n = Inr l" "nl_Attrs NL l = Some a"
  obtains l' where "nl_LinkByIndex NL k (la_Index a) = Inr l'" "link_name NL l' = Some n"
  using assms unfolding netlink_laws_def index_law_def by blast

text \<open>Every link an index finds keeps its name: the relation that all setters respect.\<close>

definition index_names_kept :: "'k netlink \<Rightarrow> 'k \<Rightarrow> 'k \<Rightarrow> bool" where
  "index_names_kept NL k k' \<longleftrightarrow>
     (\<forall>i l. nl_LinkByIndex NL k i = Inr l \<longrightarrow>
        (\<exists>l'. nl_LinkByIndex NL k' i = Inr l' \<and> link_name NL l' = link_name NL l))"

lemma index_names_kept_refl [simp]: "index_names_kept NL k k"
  by (simp add: index_names_kept_def)

lemma index_names_kept_trans [trans]:
  "index_names_kept NL k1 k2 \<Longrightarrow> index_names_kept NL k2 k3 \<Longrightarrow> index_names_kept NL k1 k3"
  by (fastforce simp: index_names_kept_def)

lemma index_names_keptD:
  assumes "index_names_kept NL k k'" "nl_LinkByIndex NL k i = Inr l"
  obtains l' where "nl_LinkByIndex NL k' i = Inr l'" "link_name NL l' = link_name NL l"
  using assms by (auto simp: index_names_kept_def)

lemma setter_index_names_kept:
  "netlink_laws NL \<Longrightarrow> nl_exec NL k c = (None, k') \<Longrightarrow> is_setter c \<Longrightarrow> index_names_kept NL k k'"
  unfolding netlink_laws_def index_setter_law_def index_names_kept_def by blast

text \<open>
  What the calls on one link leave alone. A setter, and the creation of a link, keep the configuration of
  every link of another name, except that a bridge may adapt its MTU to its ports, and a VXLAN to its
  device; a new link takes no index in use. Nothing is said of deletions: with a link the kernel may remove what is built on it.
\<close>

definition without_shared_MTU :: "nlink \<Rightarrow> nlink" where
  "without_shared_MTU l = (case l of NlBridge a \<Rightarrow> NlBridge (a\<lparr>la_MTU := 0\<rparr>) | _ \<Rightarrow> if has_device l then with_MTU 0 l else l)"

definition alike :: "'k netlink \<Rightarrow> nlink \<Rightarrow> nlink \<Rightarrow> bool" where
  "alike NL l l' \<longleftrightarrow> same_config (without_shared_MTU l) (without_shared_MTU l') \<and> nl_Type NL l = nl_Type NL l' \<and>
     map_option (\<lambda>a. a\<lparr>la_OperState := OperUnknown, la_MTU := 0\<rparr>) (nl_Attrs NL l) =
     map_option (\<lambda>a. a\<lparr>la_OperState := OperUnknown, la_MTU := 0\<rparr>) (nl_Attrs NL l')"

definition others_alike :: "'k netlink \<Rightarrow> string \<Rightarrow> 'k \<Rightarrow> 'k \<Rightarrow> bool" where
  "others_alike NL n k k' \<longleftrightarrow>
     (\<forall>m x. m \<noteq> n \<longrightarrow> nl_LinkByName NL k m = Inr x \<longrightarrow> (\<exists>x'. nl_LinkByName NL k' m = Inr x' \<and> alike NL x' x))"

definition frame_law :: "'k netlink \<Rightarrow> bool" where
  "frame_law NL \<longleftrightarrow>
     (\<forall>k n l c k'. nl_LinkByName NL k n = Inr l \<longrightarrow> nl_exec NL k c = (None, k') \<longrightarrow> is_setter c \<longrightarrow>
        call_index NL c = map_option la_Index (nl_Attrs NL l) \<longrightarrow> others_alike NL n k k') \<and>
     (\<forall>k d n k'. nl_exec NL k (LinkAdd d) = (None, k') \<longrightarrow> link_name NL d = Some n \<longrightarrow>
        others_alike NL n k k' \<and> index_names_kept NL k k')"

text \<open>The relation that the calls on the link \<open>n\<close> respect, the second part for kernels with this law.\<close>

definition kept_but :: "'k netlink \<Rightarrow> string \<Rightarrow> 'k \<Rightarrow> 'k \<Rightarrow> bool" where
  "kept_but NL n k k' \<longleftrightarrow> index_names_kept NL k k' \<and> (frame_law NL \<longrightarrow> others_alike NL n k k')"

lemma alike_refl [simp]: "alike NL l l"
  by (simp add: alike_def same_config_def)

lemma alike_trans: "alike NL l1 l2 \<Longrightarrow> alike NL l2 l3 \<Longrightarrow> alike NL l1 l3"
  by (simp add: alike_def same_config_def)

lemma others_alike_refl [simp]: "others_alike NL n k k"
  by (auto simp: others_alike_def intro: alike_refl)

lemma others_alike_trans: "others_alike NL n k1 k2 \<Longrightarrow> others_alike NL n k2 k3 \<Longrightarrow> others_alike NL n k1 k3"
  unfolding others_alike_def by (meson alike_trans)

lemma kept_but_refl [simp]: "kept_but NL n k k"
  by (simp add: kept_but_def)

lemma kept_but_trans [trans]: "kept_but NL n k1 k2 \<Longrightarrow> kept_but NL n k2 k3 \<Longrightarrow> kept_but NL n k1 k3"
  unfolding kept_but_def by (meson index_names_kept_trans others_alike_trans)

lemma setter_kept_but:
  assumes "netlink_laws NL" "nl_LinkByName NL k n = Inr l" "nl_exec NL k c = (None, k')" "is_setter c"
    and "call_index NL c = map_option la_Index (nl_Attrs NL l)"
  shows "kept_but NL n k k'"
  using setter_index_names_kept[OF assms(1,3,4)] assms(2-5) by (auto simp: kept_but_def frame_law_def)

lemma norm_link_simps [simp]:
  "norm_link (NlBridge a) = NlBridge (a\<lparr>la_OperState := OperUnknown\<rparr>)"
  "norm_link (NlVxlan a v) = NlVxlan (a\<lparr>la_OperState := OperUnknown\<rparr>) v"
  "norm_link (NlOther t b) = NlOther t (map_option (\<lambda>a. a\<lparr>la_OperState := OperUnknown\<rparr>) b)"
  by (simp_all add: norm_link_def)

lemma same_config_refl [simp]: "same_config l l"
  by (simp add: same_config_def)

lemma same_config_sym: "same_config l l' \<Longrightarrow> same_config l' l"
  by (simp add: same_config_def)

lemma same_config_trans [trans]: "same_config l1 l2 \<Longrightarrow> same_config l2 l3 \<Longrightarrow> same_config l1 l3"
  by (simp add: same_config_def)

lemma attrs_eq_up_to_oper:
  assumes "a\<lparr>la_OperState := OperUnknown\<rparr> = (b::LinkAttrs)\<lparr>la_OperState := OperUnknown\<rparr>"
  shows "la_Index a = la_Index b" "la_Name a = la_Name b" "la_MTU a = la_MTU b"
    "la_MasterIndex a = la_MasterIndex b" "la_FlagUp a = la_FlagUp b"
  using assms by (cases a; cases b; simp)+

lemma attrs_eq_up_to_MTU:
  assumes "a\<lparr>la_MTU := m, la_OperState := OperUnknown\<rparr> = (b::LinkAttrs)\<lparr>la_MTU := m, la_OperState := OperUnknown\<rparr>"
  shows "la_MasterIndex a = la_MasterIndex b" "la_FlagUp a = la_FlagUp b"
  using assms by (cases a; cases b; simp)+

lemma same_config_vxlanE:
  assumes "same_config l (NlVxlan a v)"
  obtains b where "l = NlVxlan b v" "la_Index b = la_Index a" "la_Name b = la_Name a" "la_MTU b = la_MTU a"
    "la_MasterIndex b = la_MasterIndex a" "la_FlagUp b = la_FlagUp a"
  using assms by (cases l) (auto simp: same_config_def dest: attrs_eq_up_to_oper)

lemma same_but_MTU_vxlanE:
  assumes "same_config (without_shared_MTU l) (without_shared_MTU (NlVxlan a v))"
  obtains b where "l = NlVxlan b v" "la_MasterIndex b = la_MasterIndex a" "la_FlagUp b = la_FlagUp a"
    "vl_VtepDevIndex v = 0 \<Longrightarrow> la_MTU b = la_MTU a"
  using assms
  by (cases l) (auto simp: same_config_def without_shared_MTU_def split: if_splits dest: attrs_eq_up_to_oper attrs_eq_up_to_MTU)

lemma same_config_bridgeE:
  assumes "same_config l (NlBridge a)"
  obtains b where "l = NlBridge b" "la_Index b = la_Index a" "la_Name b = la_Name a" "la_MTU b = la_MTU a"
    "la_MasterIndex b = la_MasterIndex a" "la_FlagUp b = la_FlagUp a"
  using assms by (cases l) (auto simp: same_config_def dest: attrs_eq_up_to_oper)

lemma norm_call_effect: "norm_link (call_effect c l) = norm_link (call_effect c (norm_link l))"
  by (cases l; cases c) (auto simp: call_effect_def option.map_comp comp_def)

lemma call_effect_same_config: "same_config l l' \<Longrightarrow> same_config (call_effect c l) (call_effect c l')"
  unfolding same_config_def by (metis norm_call_effect)

lemma same_config_with_MTU: "same_config l l' \<Longrightarrow> same_config (with_MTU m l) (with_MTU m l')"
proof -
  have "norm_link (with_MTU m x) = norm_link (with_MTU m (norm_link x))" for x
    by (cases x) (auto simp: option.map_comp comp_def)
  then show "same_config l l' \<Longrightarrow> same_config (with_MTU m l) (with_MTU m l')" unfolding same_config_def by metis
qed

lemma same_config_has_device: "same_config l l' \<Longrightarrow> has_device l = has_device l'"
  by (cases l; cases l') (auto simp: same_config_def)

lemma effect_of_same_config:
  assumes "effect_of c l x" and "same_config l l'"
  shows "\<exists>y. effect_of c l' y \<and> same_config x y"
  using assms(1) call_effect_same_config[OF assms(2), of c] same_config_has_device[of "call_effect c l" "call_effect c l'"]
    same_config_with_MTU unfolding effect_of_def by metis

text \<open>The link of a name, as configured, up to its operational state.\<close>

definition configured :: "'k netlink \<Rightarrow> 'k \<Rightarrow> string \<Rightarrow> nlink \<Rightarrow> bool" where
  "configured NL k n l \<longleftrightarrow> (\<exists>l'. nl_LinkByName NL k n = Inr l' \<and> same_config l' l)"

lemma configuredI: "nl_LinkByName NL k n = Inr l \<Longrightarrow> configured NL k n l"
  by (auto simp: configured_def)

lemma configured_setter:
  assumes laws: "netlink_laws NL" and cfg: "configured NL (kern w) n l"
    and run: "nl_do NL c w = (None, w')" and "is_setter c"
    and idx: "\<And>l'. same_config l' l \<Longrightarrow> call_index NL c = map_option la_Index (nl_Attrs NL l')"
  shows "\<exists>x. effect_of c l x \<and> configured NL (kern w') n x" "kept_but NL n (kern w) (kern w')"
proof -
  from run have ex: "nl_exec NL (kern w) c = (None, kern w')" by (simp add: nl_do_eqD)
  from cfg obtain l0 where l0: "nl_LinkByName NL (kern w) n = Inr l0" "same_config l0 l"
    by (auto simp: configured_def)
  obtain l1 x where "nl_LinkByName NL (kern w') n = Inr l1" "same_config l1 x" "effect_of c l0 x"
    using law_setter[OF laws l0(1) ex \<open>is_setter c\<close> idx[OF l0(2)]] by blast
  then show "\<exists>x. effect_of c l x \<and> configured NL (kern w') n x"
    using effect_of_same_config[OF _ l0(2)] same_config_trans unfolding configured_def by blast
  show "kept_but NL n (kern w) (kern w')"
    by (rule setter_kept_but[OF laws l0(1) ex \<open>is_setter c\<close> idx[OF l0(2)]])
qed

lemma effect_of_exact: "\<not> is_request c \<Longrightarrow> effect_of c l x \<longleftrightarrow> x = call_effect c l"
  by (simp add: effect_of_def)

lemma is_request_simps [simp]:
  "\<not> is_request (LinkAdd l)" "\<not> is_request (LinkDel l)" "\<not> is_request (LinkSetUp l)" "\<not> is_request (LinkSetDown l)"
  "\<not> is_request (LinkSetMTU l m)" "\<not> is_request (LinkSetMasterByIndex l i)" "is_request (Execute r)"
  by (simp_all add: is_request_def)

text \<open>The \<open>int32\<close> index of a request is the index of the link, for the indices a kernel gives.\<close>

lemma sint_index: "0 < i \<Longrightarrow> i < 2 ^ 31 \<Longrightarrow> sint (word_of_int i :: int32) = i"
  by (simp add: signed_of_int signed_take_bit_int_eq_self)

subsection \<open>What a run appends to the trace\<close>

text \<open>\<open>emits P w w'\<close>: the run from \<open>w\<close> to \<open>w'\<close> appended calls that all satisfy \<open>P\<close>.\<close>

definition emits :: "(nl_call \<Rightarrow> bool) \<Rightarrow> 'k kworld \<Rightarrow> 'k kworld \<Rightarrow> bool" where
  "emits P w w' \<longleftrightarrow> (\<exists>cs. nl_trace w' = nl_trace w @ cs \<and> list_all P cs)"

lemma emits_refl [simp]: "emits P w w"
  by (simp add: emits_def)

lemma emits_trans [trans]: "emits P u v \<Longrightarrow> emits P v w \<Longrightarrow> emits P u w"
  by (fastforce simp: emits_def)

lemma emits_mono: "emits P w w' \<Longrightarrow> (\<And>c. P c \<Longrightarrow> Q c) \<Longrightarrow> emits Q w w'"
  by (auto simp: emits_def list_all_iff)

lemma emits_split:
  assumes "emits P u w" and "emits Q u v" and "emits R v w"
  shows "emits P u v" "emits P v w"
  using assms by (auto simp: emits_def)

lemma emits_nl_do [trace_intros]: "P c \<Longrightarrow> emits P w (snd (nl_do NL c w))"
  by (auto simp: emits_def)

lemma nl_do_emits: "nl_do NL c w = (x, w1) \<Longrightarrow> P c \<Longrightarrow> emits P w w1"
  by (metis emits_nl_do snd_conv)

lemma emits_and_then:
  assumes "and_then f g w = Some (r, w')"
    and "\<And>e w1. f w = Some (e, w1) \<Longrightarrow> emits P w w1"
    and "\<And>w1 e w2. g w1 = Some (e, w2) \<Longrightarrow> emits P w1 w2"
  shows "emits P w w'"
  using assms(1) by (rule and_thenE) (use assms(2,3) emits_trans in blast)+

end
