(* ===== verification/Link_Refs.thy ===== *)
theory Link_Refs
  imports Netlink
begin

text \<open>
  The helpers of \<open>internal/links/linkmanager.go\<close> that the link managers share: link references, the
  create-or-replace of a link, and the lookup of the index a reference stands for.
\<close>

subsection \<open>References\<close>

definition resolveLinkRef :: "LinkReference option \<Rightarrow> link_map \<Rightarrow> LinkReference option" where
  "resolveLinkRef linkRef linkResources =
     (case linkRef of
        None \<Rightarrow> None
      | Some r \<Rightarrow>
          if \<not> ref_Optional r then Some r
          else (case map_of linkResources (ref_Name r) of None \<Rightarrow> None | Some _ \<Rightarrow> Some r))"

text \<open>
  The outer option is \<open>None\<close> where the code dereferences a nil pointer: the error message for a link
  with nil attributes reads those attributes (\<open>referencedLink.Attrs().Name\<close>).
\<close>

definition doesLinkRefNeedUpdate ::
  "'k netlink \<Rightarrow> 'k \<Rightarrow> LinkReference option \<Rightarrow> int \<Rightarrow> link_map \<Rightarrow> (goerror + bool) option" where
  "doesLinkRefNeedUpdate NL k linkRef currentIndex linkResources =
     (case resolveLinkRef linkRef linkResources of
        Some ref \<Rightarrow>
          if currentIndex = 0 then Some (Inr True)
          else (case nl_LinkByIndex NL k currentIndex of
              Inl err \<Rightarrow>
                if IsLinkNotFoundError err then Some (Inr True)
                else Some (Inl (Wrapf (LinksMsg (ReferencedByIndex currentIndex)) err))
            | Inr referencedLink \<Rightarrow>
                (case map_of linkResources (ref_Name ref) of
                   None \<Rightarrow> Some (Inl (Errorf (LinksMsg (ReferencedResourceNotFound (ref_Name ref)))))
                 | Some linkResource \<Rightarrow>
                     (case nl_Attrs NL referencedLink of
                        None \<Rightarrow> None
                      | Some attrs \<Rightarrow> Some (Inr (la_Name attrs \<noteq> LinkName linkResource)))))
      | None \<Rightarrow> Some (Inr (currentIndex \<noteq> 0)))"

definition getDesiredReferencedLinkIndex ::
  "'k netlink \<Rightarrow> 'k \<Rightarrow> LinkReference option \<Rightarrow> link_map \<Rightarrow> goerror + int" where
  "getDesiredReferencedLinkIndex NL k linkRef linkResources =
     (case resolveLinkRef linkRef linkResources of
        None \<Rightarrow> Inr 0
      | Some ref \<Rightarrow>
          (case map_of linkResources (ref_Name ref) of
             None \<Rightarrow> Inl (Errorf (LinksMsg (ReferencedResourceNotFound (ref_Name ref))))
           | Some desiredResource \<Rightarrow>
               (case nl_LinkByName NL k (LinkName desiredResource) of
                  Inl err \<Rightarrow> Inl (Wrapf (LinksMsg (GetDesiredLink (LinkName desiredResource))) err)
                | Inr desiredLink \<Rightarrow>
                    (case nl_Attrs NL desiredLink of
                       None \<Rightarrow> Inl (Errorf (LinksMsg (DesiredNilAttributes (LinkName desiredResource))))
                     | Some attrs \<Rightarrow> Inr (la_Index attrs)))))"

subsection \<open>Create or replace\<close>

text \<open>The part of the switch that both the fall-through and the not-found case run.\<close>

definition create_link :: "'k netlink \<Rightarrow> nlink \<Rightarrow> string \<Rightarrow> 'k kworld \<Rightarrow> (goerror + nlink) \<times> 'k kworld" where
  "create_link NL desiredLink name w =
     (let (err, w1) = nl_do NL (LinkAdd desiredLink) w in
      case (case err of Some e \<Rightarrow> if IsLinkExistsError e then None else Some e | None \<Rightarrow> None) of
        Some e \<Rightarrow> (Inl (Wrapf (LinksMsg (CreateLink (nl_Type NL desiredLink) name)) e), w1)
      | None \<Rightarrow>
          (case nl_LinkByName NL (kern w1) name of
             Inl e \<Rightarrow> (Inl (Wrapf (LinksMsg (GetLinkAfterCreation name)) e), w1)
           | Inr retrievedLink \<Rightarrow>
               if nl_Type NL retrievedLink \<noteq> nl_Type NL desiredLink
               then (Inl (Errorf (LinksMsg (UpsertedLinkWrongType name (nl_Type NL desiredLink)))), w1)
               else (Inr retrievedLink, w1)))"

definition basicUpsertWithCheck ::
  "'k netlink \<Rightarrow> nlink \<Rightarrow> (nlink \<Rightarrow> bool) \<Rightarrow> 'k kworld \<Rightarrow> (goerror + nlink) \<times> 'k kworld" where
  "basicUpsertWithCheck NL desiredLink shouldForceReplace w =
     (case nl_Attrs NL desiredLink of
        None \<Rightarrow> (Inl (Errorf (LinksMsg DesiredLinkNilAttributes)), w)
      | Some attrs \<Rightarrow>
          (let name = la_Name attrs in
           case nl_LinkByName NL (kern w) name of
             Inr retrievedLink \<Rightarrow>
               if \<not> shouldForceReplace retrievedLink then (Inr retrievedLink, w)
               else
                 (let (err, w1) = nl_do NL (LinkDel retrievedLink) w in
                  case err of
                    Some e \<Rightarrow> (Inl (Wrapf (LinksMsg (DeleteExistingLink (nl_Type NL retrievedLink) name)) e), w1)
                  | None \<Rightarrow> create_link NL desiredLink name w1)
           | Inl err \<Rightarrow>
               if IsLinkNotFoundError err then create_link NL desiredLink name w
               else (Inl (Wrapf (LinksMsg (GetNetlinkLink name)) err), w)))"

definition basicUpsert :: "'k netlink \<Rightarrow> nlink \<Rightarrow> 'k kworld \<Rightarrow> (goerror + nlink) \<times> 'k kworld" where
  "basicUpsert NL desiredLink =
     basicUpsertWithCheck NL desiredLink (\<lambda>existingLink. nl_Type NL existingLink \<noteq> nl_Type NL desiredLink)"

end
