(* ===== verification/Managers.thy ===== *)
theory Managers
  imports Link_Refs
begin

text \<open>
  The link managers of \<open>internal/links\<close>: \<open>bridge.go\<close>, \<open>vxlan.go\<close>, \<open>unmanaged.go\<close>, and the choice of
  the manager of a Link resource (\<open>getLinkManager\<close> of the NodeLinks controller). The results of
  methods that can dereference a nil pointer of the resource are \<open>None\<close> there.
\<close>

subsection \<open>Bridge\<close>

definition bridge_GetDependencies :: "Link \<Rightarrow> LinkReference list option" where
  "bridge_GetDependencies link = Some []"

definition bridge_IsUpsertNeeded :: "'k netlink \<Rightarrow> Link \<Rightarrow> 'k \<Rightarrow> link_map \<Rightarrow> (goerror + bool) option" where
  "bridge_IsUpsertNeeded NL link k links =
     (case nl_LinkByName NL k (LinkName link) of
        Inl err \<Rightarrow>
          if IsLinkNotFoundError err then Some (Inr True)
          else Some (Inl (Wrapf (LinksMsg (GetNetlinkLink (LinkName link))) err))
      | Inr l \<Rightarrow>
          if nl_Type NL l \<noteq> ''bridge'' then Some (Inr True)
          else (case nl_Attrs NL l of
              None \<Rightarrow> Some (Inl (Errorf (LinksMsg (BridgeNilAttributes (LinkName link)))))
            | Some linkAttrs \<Rightarrow>
                do {
                  br \<leftarrow> Spec_Bridge link;
                  if (case br_MTU br of None \<Rightarrow> False | Some m \<Rightarrow> la_MTU linkAttrs \<noteq> sint m)
                  then Some (Inr True)
                  else if \<not> la_FlagUp linkAttrs then Some (Inr True)
                  else Some (Inr False)
                }))"

definition bridge_upsert_MTU ::
  "'k netlink \<Rightarrow> string \<Rightarrow> BridgeSpec \<Rightarrow> nlink \<Rightarrow> LinkAttrs \<Rightarrow> 'k kworld \<Rightarrow> (goerror option \<times> 'k kworld) option" where
  "bridge_upsert_MTU NL name br l a w =
     Some (case br_MTU br of
         None \<Rightarrow> (None, w)
       | Some m \<Rightarrow>
           if la_MTU a \<noteq> sint m
           then wrap_err (Wrapf (LinksMsg (SetBridgeMTU name))) (nl_do NL (LinkSetMTU l (sint m)) w)
           else (None, w))"

definition bridge_upsert_up :: "'k netlink \<Rightarrow> string \<Rightarrow> nlink \<Rightarrow> 'k kworld \<Rightarrow> (goerror option \<times> 'k kworld) option" where
  "bridge_upsert_up NL name l w =
     Some (wrap_err (Wrapf (LinksMsg (SetBridgeUp name))) (nl_do NL (LinkSetUp l) w))"

definition bridge_desired :: "'k netlink \<Rightarrow> Link \<Rightarrow> nlink" where
  "bridge_desired NL link = NlBridge ((nl_NewLinkAttrs NL)\<lparr>la_Name := LinkName link\<rparr>)"

definition bridge_Upsert ::
  "'k netlink \<Rightarrow> Link \<Rightarrow> link_map \<Rightarrow> 'k kworld \<Rightarrow> (goerror option \<times> 'k kworld) option" where
  "bridge_Upsert NL link links w =
     (case basicUpsert NL (bridge_desired NL link) w of
        (Inl err, w1) \<Rightarrow> Some (Some (Wrapf (LinksMsg (UpsertBridge (LinkName link))) err), w1)
      | (Inr l, w1) \<Rightarrow>
          (case l of
             NlBridge a \<Rightarrow>
               do {
                 br \<leftarrow> Spec_Bridge link;
                 and_then (bridge_upsert_MTU NL (LinkName link) br l a)
                   (bridge_upsert_up NL (LinkName link) l) w1
               }
           | _ \<Rightarrow> Some (Some (Errorf (LinksMsg (CastToBridge (LinkName link)))), w1)))"

definition bridge_IsManaged :: bool where
  "bridge_IsManaged = True"

subsection \<open>VXLAN\<close>

definition vxlan_GetDependencies :: "Link \<Rightarrow> LinkReference list option" where
  "vxlan_GetDependencies link =
     do {
       vx \<leftarrow> Spec_VXLAN link;
       Some ((case vx_Master vx of None \<Rightarrow> [] | Some r \<Rightarrow> [r]) @
             (case vx_Device vx of None \<Rightarrow> [] | Some r \<Rightarrow> [r]))
     }"

text \<open>The checks of \<open>IsUpsertNeeded\<close> on an existing VXLAN, in the order of the source.\<close>

definition vxlan_check_existing ::
  "'k netlink \<Rightarrow> VXLANSpecs \<Rightarrow> LinkAttrs \<Rightarrow> Vxlan \<Rightarrow> 'k \<Rightarrow> link_map \<Rightarrow> (goerror + bool) option" where
  "vxlan_check_existing NL vx a v k links =
     (if (case vx_MTU vx of None \<Rightarrow> False | Some m \<Rightarrow> la_MTU a \<noteq> sint m) then Some (Inr True)
      else do {
        r \<leftarrow> doesLinkRefNeedUpdate NL k (vx_Master vx) (la_MasterIndex a) links;
        (case r of
           Inl err \<Rightarrow> Some (Inl (Wrapf (LinksMsg CheckMasterLinkUpdate) err))
         | Inr True \<Rightarrow> Some (Inr True)
         | Inr False \<Rightarrow>
             if \<not> ip_Equal (vl_Group v) (ParseIP (vx_RemoteIPAddress vx)) then Some (Inr True)
             else if vl_VxlanId v \<noteq> sint (vx_VNID vx) then Some (Inr True)
             else if vl_Port v \<noteq> sint (vx_RemotePort vx) then Some (Inr True)
             else do {
               sp \<leftarrow> vx_SourcePort vx;
               if vl_PortLow v \<noteq> sint (pr_Start sp) \<or> vl_PortHigh v \<noteq> sint (pr_End sp) then Some (Inr True)
               else if vl_Learning v \<noteq> IsLearningEnabled vx then Some (Inr True)
               else do {
                 d \<leftarrow> doesLinkRefNeedUpdate NL k (vx_Device vx) (vl_VtepDevIndex v) links;
                 (case d of
                    Inl err \<Rightarrow> Some (Inl (Wrapf (LinksMsg CheckDeviceLinkUpdate) err))
                  | Inr True \<Rightarrow> Some (Inr True)
                  | Inr False \<Rightarrow> if \<not> la_FlagUp a then Some (Inr True) else Some (Inr False))
               }
             })
      })"

definition vxlan_IsUpsertNeeded :: "'k netlink \<Rightarrow> Link \<Rightarrow> 'k \<Rightarrow> link_map \<Rightarrow> (goerror + bool) option" where
  "vxlan_IsUpsertNeeded NL link k links =
     (case nl_LinkByName NL k (LinkName link) of
        Inl err \<Rightarrow>
          if IsLinkNotFoundError err then Some (Inr True)
          else Some (Inl (Wrapf (LinksMsg (GetNetlinkLink (LinkName link))) err))
      | Inr l \<Rightarrow>
          if nl_Type NL l \<noteq> ''vxlan'' then Some (Inr True)
          else (case l of
              NlVxlan a v \<Rightarrow> do { vx \<leftarrow> Spec_VXLAN link; vxlan_check_existing NL vx a v k links }
            | _ \<Rightarrow> Some (Inl (Errorf (LinksMsg (NotAVxlanLink (LinkName link)))))))"

definition vxlan_forceReplace :: "'k netlink \<Rightarrow> nlink \<Rightarrow> nlink \<Rightarrow> bool" where
  "vxlan_forceReplace NL desiredLink existingLink \<longleftrightarrow>
     (if nl_Type NL existingLink \<noteq> nl_Type NL desiredLink then True
      else (case existingLink of
          NlVxlan ea ev \<Rightarrow>
            (case desiredLink of
               NlVxlan da dv \<Rightarrow>
                 if vl_VxlanId ev \<noteq> vl_VxlanId dv then True
                 else if vl_PortLow ev \<noteq> vl_PortLow dv \<or> vl_PortHigh ev \<noteq> vl_PortHigh dv then True
                 else if vl_Port ev \<noteq> vl_Port dv then True
                 else if length (vl_Group ev) \<noteq> 4 \<and> length (vl_Group ev) \<noteq> 0 then True
                 else False
             | _ \<Rightarrow> True)
        | _ \<Rightarrow> True))"

text \<open>The three requests the operator builds itself; the index of the message is an \<open>int32\<close>.\<close>

definition vxlan_request :: "'k netlink \<Rightarrow> nlink \<Rightarrow> LinkAttrs \<Rightarrow> nl_attr \<Rightarrow> nl_request" where
  "vxlan_request NL link attrs d =
     \<lparr>rq_proto = RTM_NEWLINK, rq_flags = [NLM_F_ACK], rq_family = AF_UNSPEC,
      rq_index = word_of_int (la_Index attrs),
      rq_attrs = [IFLA_LINKINFO [IFLA_INFO_KIND (StringPayload (nl_Type NL link)), IFLA_INFO_DATA [d]]]\<rparr>"

definition linkSetVXLANGroup ::
  "'k netlink \<Rightarrow> nlink \<Rightarrow> ip \<Rightarrow> 'k kworld \<Rightarrow> (goerror option \<times> 'k kworld) option" where
  "linkSetVXLANGroup NL link grp w =
     do {
       attrs \<leftarrow> nl_Attrs NL link;
       if To4 grp \<noteq> nil_ip
       then Some (nl_do NL (Execute (vxlan_request NL link attrs (IFLA_VXLAN_GROUP (BytesPayload (To4 grp))))) w)
       else if To16 grp \<noteq> nil_ip
       then Some (nl_do NL (Execute (vxlan_request NL link attrs (IFLA_VXLAN_GROUP6 (BytesPayload (To16 grp))))) w)
       else Some (Some (Errorf (LinksMsg InvalidGroupAddress)), w)
     }"

definition linkSetVXLANVtepDevIndex ::
  "'k netlink \<Rightarrow> nlink \<Rightarrow> int \<Rightarrow> 'k kworld \<Rightarrow> (goerror option \<times> 'k kworld) option" where
  "linkSetVXLANVtepDevIndex NL link ifIndex w =
     do {
       attrs \<leftarrow> nl_Attrs NL link;
       Some (nl_do NL (Execute (vxlan_request NL link attrs (IFLA_VXLAN_LINK (U32Payload (word_of_int ifIndex))))) w)
     }"

definition linkSetVXLANLearning ::
  "'k netlink \<Rightarrow> nlink \<Rightarrow> bool \<Rightarrow> 'k kworld \<Rightarrow> (goerror option \<times> 'k kworld) option" where
  "linkSetVXLANLearning NL link learning w =
     do {
       attrs \<leftarrow> nl_Attrs NL link;
       Some (nl_do NL (Execute (vxlan_request NL link attrs
         (IFLA_VXLAN_LEARNING (U8Payload (if learning then 1 else 0))))) w)
     }"

text \<open>
  The steps of \<open>Upsert\<close> on the VXLAN that \<open>basicUpsertWithCheck\<close> returned. They all compare with that
  value \<open>l\<close>, which is not read again while the steps change the link.
\<close>

definition vxlan_upsert_MTU ::
  "'k netlink \<Rightarrow> string \<Rightarrow> VXLANSpecs \<Rightarrow> nlink \<Rightarrow> LinkAttrs \<Rightarrow> 'k kworld \<Rightarrow> (goerror option \<times> 'k kworld) option" where
  "vxlan_upsert_MTU NL name vx l a w =
     Some (case vx_MTU vx of
         None \<Rightarrow> (None, w)
       | Some m \<Rightarrow>
           if la_MTU a \<noteq> sint m
           then wrap_err (Wrapf (LinksMsg (SetVxlanMTU name))) (nl_do NL (LinkSetMTU l (sint m)) w)
           else (None, w))"

definition vxlan_upsert_device ::
  "'k netlink \<Rightarrow> string \<Rightarrow> VXLANSpecs \<Rightarrow> nlink \<Rightarrow> Vxlan \<Rightarrow> link_map \<Rightarrow> 'k kworld \<Rightarrow> (goerror option \<times> 'k kworld) option" where
  "vxlan_upsert_device NL name vx l v links w =
     do {
       r \<leftarrow> doesLinkRefNeedUpdate NL (kern w) (vx_Device vx) (vl_VtepDevIndex v) links;
       (case r of
          Inl err \<Rightarrow> Some (Some (Wrapf (LinksMsg CheckDeviceLinkUpdate) err), w)
        | Inr False \<Rightarrow> Some (None, w)
        | Inr True \<Rightarrow>
            (case getDesiredReferencedLinkIndex NL (kern w) (vx_Device vx) links of
               Inl err \<Rightarrow> Some (Some (Wrapf (LinksMsg DesiredDeviceIndex) err), w)
             | Inr desiredIndex \<Rightarrow>
                 map_option (wrap_err (Wrapf (LinksMsg (SetVxlanVtepDevice name))))
                   (linkSetVXLANVtepDevIndex NL l desiredIndex w)))
     }"

definition vxlan_upsert_group ::
  "'k netlink \<Rightarrow> string \<Rightarrow> VXLANSpecs \<Rightarrow> nlink \<Rightarrow> Vxlan \<Rightarrow> 'k kworld \<Rightarrow> (goerror option \<times> 'k kworld) option" where
  "vxlan_upsert_group NL name vx l v w =
     (let desiredRemoteAddress = ParseIP (vx_RemoteIPAddress vx) in
      if \<not> ip_Equal (vl_Group v) desiredRemoteAddress
      then map_option (wrap_err (Wrapf (LinksMsg (SetVxlanGroup name)))) (linkSetVXLANGroup NL l desiredRemoteAddress w)
      else Some (None, w))"

definition vxlan_upsert_learning ::
  "'k netlink \<Rightarrow> string \<Rightarrow> VXLANSpecs \<Rightarrow> nlink \<Rightarrow> Vxlan \<Rightarrow> 'k kworld \<Rightarrow> (goerror option \<times> 'k kworld) option" where
  "vxlan_upsert_learning NL name vx l v w =
     (if vl_Learning v \<noteq> IsLearningEnabled vx
      then map_option (wrap_err (Wrapf (LinksMsg (SetVxlanLearning name))))
             (linkSetVXLANLearning NL l (IsLearningEnabled vx) w)
      else Some (None, w))"

definition vxlan_upsert_master ::
  "'k netlink \<Rightarrow> string \<Rightarrow> VXLANSpecs \<Rightarrow> nlink \<Rightarrow> LinkAttrs \<Rightarrow> link_map \<Rightarrow> 'k kworld \<Rightarrow> (goerror option \<times> 'k kworld) option" where
  "vxlan_upsert_master NL name vx l a links w =
     do {
       r \<leftarrow> doesLinkRefNeedUpdate NL (kern w) (vx_Master vx) (la_MasterIndex a) links;
       (case r of
          Inl err \<Rightarrow> Some (Some (Wrapf (LinksMsg CheckMasterLinkUpdate) err), w)
        | Inr False \<Rightarrow> Some (None, w)
        | Inr True \<Rightarrow>
            (case getDesiredReferencedLinkIndex NL (kern w) (vx_Master vx) links of
               Inl err \<Rightarrow> Some (Some (Wrapf (LinksMsg DesiredMasterIndex) err), w)
             | Inr desiredIndex \<Rightarrow>
                 Some (wrap_err (Wrapf (LinksMsg (SetVxlanMaster name)))
                   (nl_do NL (LinkSetMasterByIndex l desiredIndex) w))))
     }"

definition vxlan_upsert_up :: "'k netlink \<Rightarrow> string \<Rightarrow> nlink \<Rightarrow> 'k kworld \<Rightarrow> (goerror option \<times> 'k kworld) option" where
  "vxlan_upsert_up NL name l w =
     Some (wrap_err (Wrapf (LinksMsg (SetVxlanUp name))) (nl_do NL (LinkSetUp l) w))"

definition vxlan_desired :: "'k netlink \<Rightarrow> Link \<Rightarrow> VXLANSpecs \<Rightarrow> PortRange \<Rightarrow> nlink" where
  "vxlan_desired NL link vx sp =
     NlVxlan ((nl_NewLinkAttrs NL)\<lparr>la_Name := LinkName link\<rparr>)
       \<lparr>vl_VxlanId = sint (vx_VNID vx), vl_Port = sint (vx_RemotePort vx),
        vl_PortLow = sint (pr_Start sp), vl_PortHigh = sint (pr_End sp),
        vl_Learning = IsLearningEnabled vx, vl_VtepDevIndex = 0, vl_Group = nil_ip\<rparr>"

definition vxlan_configure ::
  "'k netlink \<Rightarrow> string \<Rightarrow> VXLANSpecs \<Rightarrow> link_map \<Rightarrow> LinkAttrs \<Rightarrow> Vxlan \<Rightarrow> 'k kworld \<Rightarrow> (goerror option \<times> 'k kworld) option" where
  "vxlan_configure NL name vx links a v =
     (let l = NlVxlan a v in
      and_then (vxlan_upsert_MTU NL name vx l a)
      (and_then (vxlan_upsert_device NL name vx l v links)
      (and_then (vxlan_upsert_group NL name vx l v)
      (and_then (vxlan_upsert_learning NL name vx l v)
      (and_then (vxlan_upsert_master NL name vx l a links)
      (vxlan_upsert_up NL name l))))))"

definition vxlan_Upsert ::
  "'k netlink \<Rightarrow> Link \<Rightarrow> link_map \<Rightarrow> 'k kworld \<Rightarrow> (goerror option \<times> 'k kworld) option" where
  "vxlan_Upsert NL link links w =
     do {
       vx \<leftarrow> Spec_VXLAN link;
       sp \<leftarrow> vx_SourcePort vx;
       let vxlan = vxlan_desired NL link vx sp;
       (case basicUpsertWithCheck NL vxlan (vxlan_forceReplace NL vxlan) w of
          (Inl err, w1) \<Rightarrow> Some (Some (Wrapf (LinksMsg (UpsertVxlan (LinkName link))) err), w1)
        | (Inr l, w1) \<Rightarrow>
            (case l of
               NlVxlan a v \<Rightarrow> vxlan_configure NL (LinkName link) vx links a v w1
             | _ \<Rightarrow> Some (Some (Errorf (LinksMsg (CastToVxlan (LinkName link)))), w1)))
     }"

definition vxlan_IsManaged :: bool where
  "vxlan_IsManaged = True"

subsection \<open>Unmanaged\<close>

definition unmanaged_GetDependencies :: "LinkReference list option" where
  "unmanaged_GetDependencies = Some []"

definition unmanaged_IsUpsertNeeded :: "'k \<Rightarrow> link_map \<Rightarrow> (goerror + bool) option" where
  "unmanaged_IsUpsertNeeded k links = Some (Inr False)"

definition unmanaged_Upsert ::
  "link_map \<Rightarrow> 'k kworld \<Rightarrow> (goerror option \<times> 'k kworld) option" where
  "unmanaged_Upsert links w = Some (None, w)"

definition unmanaged_IsManaged :: bool where
  "unmanaged_IsManaged = False"

subsection \<open>The manager of a Link resource\<close>

datatype Manager = BridgeManager Link | VXLANManager Link | UnmanagedManager

definition getLinkManager :: "Link \<Rightarrow> goerror + Manager" where
  "getLinkManager link =
     (if Spec_Bridge link \<noteq> None then Inr (BridgeManager link)
      else if Spec_VXLAN link \<noteq> None then Inr (VXLANManager link)
      else if Spec_Unmanaged link \<noteq> None then Inr UnmanagedManager
      else Inl (Errorf (NodeLinksMsg UnsupportedLinkType)))"

text \<open>The methods of the interface \<open>Manager\<close>, dispatched on the dynamic type.\<close>

fun GetDependencies :: "Manager \<Rightarrow> LinkReference list option" where
  "GetDependencies (BridgeManager link) = bridge_GetDependencies link"
| "GetDependencies (VXLANManager link) = vxlan_GetDependencies link"
| "GetDependencies UnmanagedManager = unmanaged_GetDependencies"

fun IsUpsertNeeded :: "'k netlink \<Rightarrow> Manager \<Rightarrow> 'k \<Rightarrow> link_map \<Rightarrow> (goerror + bool) option" where
  "IsUpsertNeeded NL (BridgeManager link) k links = bridge_IsUpsertNeeded NL link k links"
| "IsUpsertNeeded NL (VXLANManager link) k links = vxlan_IsUpsertNeeded NL link k links"
| "IsUpsertNeeded NL UnmanagedManager k links = unmanaged_IsUpsertNeeded k links"

fun Upsert :: "'k netlink \<Rightarrow> Manager \<Rightarrow> link_map \<Rightarrow> 'k kworld \<Rightarrow> (goerror option \<times> 'k kworld) option" where
  "Upsert NL (BridgeManager link) links w = bridge_Upsert NL link links w"
| "Upsert NL (VXLANManager link) links w = vxlan_Upsert NL link links w"
| "Upsert NL UnmanagedManager links w = unmanaged_Upsert links w"

fun IsManaged :: "Manager \<Rightarrow> bool" where
  "IsManaged (BridgeManager _) \<longleftrightarrow> bridge_IsManaged"
| "IsManaged (VXLANManager _) \<longleftrightarrow> vxlan_IsManaged"
| "IsManaged UnmanagedManager \<longleftrightarrow> unmanaged_IsManaged"

end
