(* ===== verification/Manager_Traces.thy ===== *)
theory Manager_Traces
  imports Managers
begin

text \<open>
  What the link managers send to the kernel: every call of a manager is on the link of its own
  resource, found under the interface name or created under it, and a VXLAN is configured in a fixed
  order of calls.
\<close>

subsection \<open>Calls on a link of a given name\<close>

definition found_as :: "'k netlink \<Rightarrow> string \<Rightarrow> nlink \<Rightarrow> bool" where
  "found_as NL n l \<longleftrightarrow> (\<exists>k. nl_LinkByName NL k n = Inr l)"

definition acts_on :: "'k netlink \<Rightarrow> string \<Rightarrow> nl_call \<Rightarrow> bool" where
  "acts_on NL n c \<longleftrightarrow>
     (case c of
        LinkAdd l \<Rightarrow> link_name NL l = Some n
      | LinkDel l \<Rightarrow> found_as NL n l
      | LinkSetUp l \<Rightarrow> found_as NL n l
      | LinkSetDown l \<Rightarrow> found_as NL n l
      | LinkSetMTU l _ \<Rightarrow> found_as NL n l
      | LinkSetMasterByIndex l _ \<Rightarrow> found_as NL n l
      | Execute r \<Rightarrow> (\<exists>l a. found_as NL n l \<and> nl_Attrs NL l = Some a \<and> rq_index r = word_of_int (la_Index a)))"

lemma acts_on_simps [simp]:
  "acts_on NL n (LinkAdd l) \<longleftrightarrow> link_name NL l = Some n"
  "acts_on NL n (LinkDel l) \<longleftrightarrow> found_as NL n l"
  "acts_on NL n (LinkSetUp l) \<longleftrightarrow> found_as NL n l"
  "acts_on NL n (LinkSetDown l) \<longleftrightarrow> found_as NL n l"
  "acts_on NL n (LinkSetMTU l m) \<longleftrightarrow> found_as NL n l"
  "acts_on NL n (LinkSetMasterByIndex l i) \<longleftrightarrow> found_as NL n l"
  by (simp_all add: acts_on_def)

lemma acts_on_request:
  "found_as NL n l \<Longrightarrow> nl_Attrs NL l = Some a \<Longrightarrow> acts_on NL n (Execute (vxlan_request NL l a d))"
  by (auto simp: acts_on_def vxlan_request_def)

lemma create_link_emits:
  assumes "create_link NL d n w = (r, w')" and "link_name NL d = Some n"
  shows "emits (acts_on NL n) w w' \<and> (\<forall>l. r = Inr l \<longrightarrow> found_as NL n l)"
proof -
  have "w' = snd (nl_do NL (LinkAdd d) w)"
    using assms(1) by (auto simp: create_link_def Let_def split: prod.splits option.splits sum.splits if_splits)
  moreover have "\<forall>l. r = Inr l \<longrightarrow> found_as NL n l"
    using assms(1) by (auto simp: create_link_def Let_def found_as_def split: prod.splits option.splits sum.splits if_splits)
  ultimately show ?thesis using assms(2) emits_nl_do[of "acts_on NL n" "LinkAdd d" w NL] by simp
qed

lemma basicUpsertWithCheck_emits:
  assumes run: "basicUpsertWithCheck NL d f w = (r, w')" and name: "link_name NL d = Some n"
  shows "emits (acts_on NL n) w w' \<and> (\<forall>l. r = Inr l \<longrightarrow> found_as NL n l)"
proof -
  from name obtain a where a: "nl_Attrs NL d = Some a" "la_Name a = n"
    by (auto simp: link_name_def)
  show ?thesis
  proof (cases "nl_LinkByName NL (kern w) n")
    case (Inl e)
    then show ?thesis using run a create_link_emits[OF _ name]
      by (auto simp: basicUpsertWithCheck_def split: if_splits)
  next
    case (Inr l)
    obtain e w1 where del: "nl_do NL (LinkDel l) w = (e, w1)" by fastforce
    have "emits (acts_on NL n) w w1"
      using emits_nl_do[of "acts_on NL n" "LinkDel l" w NL] Inr del by (auto simp: found_as_def)
    then show ?thesis using run a Inr del create_link_emits[OF _ name, of w1]
      by (auto simp: basicUpsertWithCheck_def found_as_def intro: emits_trans split: if_splits option.splits)
  qed
qed

lemma wrapped_nl_do_emits:
  "wrap_err f (nl_do NL c w) = (e, w') \<Longrightarrow> P c \<Longrightarrow> emits P w w'"
  by (metis emits_nl_do snd_conv wrap_err_simps(4))

lemma bridge_Upsert_emits:
  assumes "bridge_Upsert NL link links w = Some (e, w')" and "netlink_types NL"
  shows "emits (acts_on NL (LinkName link)) w w'"
proof -
  let ?n = "LinkName link"
  obtain r w1 where up: "basicUpsert NL (bridge_desired NL link) w = (r, w1)" by fastforce
  have name: "link_name NL (bridge_desired NL link) = Some ?n"
    by (simp add: link_name_def bridge_desired_def netlink_types_simps[OF assms(2)])
  have 1: "emits (acts_on NL ?n) w w1 \<and> (\<forall>l. r = Inr l \<longrightarrow> found_as NL ?n l)"
    using basicUpsertWithCheck_emits[OF _ name] up by (simp add: basicUpsert_def)
  have 2: "emits (acts_on NL ?n) w1 w'" if r: "r = Inr (NlBridge a)" for a
  proof -
    from r 1 have f: "found_as NL ?n (NlBridge a)" by simp
    from r assms(1) up obtain br where "and_then (bridge_upsert_MTU NL ?n br (NlBridge a) a)
        (bridge_upsert_up NL ?n (NlBridge a)) w1 = Some (e, w')"
      by (auto simp: bridge_Upsert_def bind_eq_Some_conv)
    then show ?thesis
      by (rule emits_and_then)
        (use f in \<open>auto simp: bridge_upsert_MTU_def bridge_upsert_up_def elim!: wrapped_nl_do_emits split: option.splits if_splits\<close>)
  qed
  show ?thesis using assms(1) up 1 2
    by (auto simp: bridge_Upsert_def intro: emits_trans split: sum.splits nlink.splits)
qed

lemma vxlan_device_emits:
  assumes "vxlan_upsert_device NL nm vx l v links w = Some (e, w')"
    and "found_as NL n l" and "nl_Attrs NL l = Some a"
  shows "emits (acts_on NL n) w w'"
proof -
  obtain r where r: "doesLinkRefNeedUpdate NL (kern w) (vx_Device vx) (vl_VtepDevIndex v) links = Some r"
    using assms(1) by (auto simp: vxlan_upsert_device_def bind_eq_Some_conv)
  then show ?thesis using assms(1) assms(3) acts_on_request[OF assms(2,3)]
    by (auto simp: vxlan_upsert_device_def linkSetVXLANVtepDevIndex_def split: sum.splits bool.splits
        elim!: wrapped_nl_do_emits)
qed

lemma vxlan_master_emits:
  assumes "vxlan_upsert_master NL nm vx l a' links w = Some (e, w')" and "found_as NL n l"
  shows "emits (acts_on NL n) w w'"
proof -
  obtain r where r: "doesLinkRefNeedUpdate NL (kern w) (vx_Master vx) (la_MasterIndex a') links = Some r"
    using assms(1) by (auto simp: vxlan_upsert_master_def bind_eq_Some_conv)
  then show ?thesis using assms
    by (auto simp: vxlan_upsert_master_def split: sum.splits bool.splits elim!: wrapped_nl_do_emits)
qed

lemma vxlan_steps_emit:
  assumes "found_as NL n l" and "nl_Attrs NL l = Some a"
  shows "vxlan_upsert_MTU NL nm vx l a' w = Some (e, w') \<Longrightarrow> emits (acts_on NL n) w w'"
    and "vxlan_upsert_group NL nm vx l v w = Some (e, w') \<Longrightarrow> emits (acts_on NL n) w w'"
    and "vxlan_upsert_learning NL nm vx l v w = Some (e, w') \<Longrightarrow> emits (acts_on NL n) w w'"
    and "vxlan_upsert_up NL nm l w = Some (e, w') \<Longrightarrow> emits (acts_on NL n) w w'"
  using assms acts_on_request[OF assms]
  by (auto simp: vxlan_upsert_MTU_def vxlan_upsert_group_def vxlan_upsert_learning_def
      vxlan_upsert_up_def linkSetVXLANGroup_def linkSetVXLANLearning_def Let_def wrap_err_def
      intro: nl_do_emits emits_nl_do split: option.splits if_splits prod.splits)

lemma vxlan_configure_emits:
  assumes "vxlan_configure NL n' vx links a v w = Some (e, w')" and f: "found_as NL n (NlVxlan a v)"
    and "netlink_types NL"
  shows "emits (acts_on NL n) w w'"
proof -
  note at = netlink_types_simps(4)[OF assms(3)]
  show ?thesis using assms(1) unfolding vxlan_configure_def Let_def
    by (elim emits_and_then)
      (erule vxlan_steps_emit[OF f at] vxlan_device_emits[OF _ f at] vxlan_master_emits[OF _ f] | assumption)+
qed

lemma vxlan_Upsert_emits:
  assumes run: "vxlan_Upsert NL link links w = Some (e, w')" and types: "netlink_types NL"
  shows "emits (acts_on NL (LinkName link)) w w'"
proof -
  let ?n = "LinkName link"
  from run obtain vx sp where specs: "Spec_VXLAN link = Some vx" "vx_SourcePort vx = Some sp"
    by (auto simp: vxlan_Upsert_def bind_eq_Some_conv)
  let ?d = "vxlan_desired NL link vx sp"
  obtain r w1 where up: "basicUpsertWithCheck NL ?d (vxlan_forceReplace NL ?d) w = (r, w1)" by fastforce
  have name: "link_name NL ?d = Some ?n"
    by (simp add: link_name_def vxlan_desired_def netlink_types_simps[OF types])
  note 1 = basicUpsertWithCheck_emits[OF up name]
  have 2: "emits (acts_on NL ?n) w1 w'" if r: "r = Inr (NlVxlan a v)" for a v
    using vxlan_configure_emits[OF _ _ types] run up specs r 1 by (simp add: vxlan_Upsert_def)
  show ?thesis using run up specs 1 2
    by (auto simp: vxlan_Upsert_def intro: emits_trans split: sum.splits nlink.splits)
qed

subsection \<open>The order of the calls that configure a VXLAN\<close>

text \<open>
  The phases of an upsert, in the order of the source. The comment in \<open>vxlan.go\<close> asks for the device
  before the group, because a multicast group is joined on the device.
\<close>

definition call_phase :: "nl_call \<Rightarrow> nat" where
  "call_phase c =
     (case c of
        LinkDel _ \<Rightarrow> 0
      | LinkAdd _ \<Rightarrow> 1
      | LinkSetMTU _ _ \<Rightarrow> 2
      | Execute r \<Rightarrow>
          (case request_vxlan_attrs (rq_attrs r) of
             [IFLA_VXLAN_LINK _] \<Rightarrow> 3
           | [IFLA_VXLAN_GROUP _] \<Rightarrow> 4
           | [IFLA_VXLAN_GROUP6 _] \<Rightarrow> 4
           | [IFLA_VXLAN_LEARNING _] \<Rightarrow> 5
           | _ \<Rightarrow> 9)
      | LinkSetMasterByIndex _ _ \<Rightarrow> 6
      | LinkSetUp _ \<Rightarrow> 7
      | LinkSetDown _ \<Rightarrow> 8)"

lemma call_phase_simps [simp]:
  "call_phase (LinkDel l) = 0" "call_phase (LinkAdd l) = 1" "call_phase (LinkSetMTU l m) = 2"
  "call_phase (LinkSetMasterByIndex l i) = 6" "call_phase (LinkSetUp l) = 7"
  "call_phase (Execute (vxlan_request NL l a (IFLA_VXLAN_LINK p))) = 3"
  "call_phase (Execute (vxlan_request NL l a (IFLA_VXLAN_GROUP p))) = 4"
  "call_phase (Execute (vxlan_request NL l a (IFLA_VXLAN_GROUP6 p))) = 4"
  "call_phase (Execute (vxlan_request NL l a (IFLA_VXLAN_LEARNING p))) = 5"
  by (simp_all add: call_phase_def vxlan_request_def)

text \<open>The run appended calls of strictly increasing phases, all from \<open>lo\<close> up to but not \<open>hi\<close>.\<close>

definition phased :: "nat \<Rightarrow> nat \<Rightarrow> 'k kworld \<Rightarrow> 'k kworld \<Rightarrow> bool" where
  "phased lo hi w w' \<longleftrightarrow>
     (\<exists>cs. nl_trace w' = nl_trace w @ cs \<and> sorted_wrt (<) (map call_phase cs) \<and>
        (\<forall>c \<in> set cs. lo \<le> call_phase c \<and> call_phase c < hi))"

lemma phased_refl [simp]: "phased lo hi w w"
  by (simp add: phased_def)

lemma phased_trans:
  assumes "phased lo mid w w1" and "phased mid hi w1 w2" and "lo \<le> mid" and "mid \<le> hi"
  shows "phased lo hi w w2"
proof -
  from assms(1) obtain cs where cs: "nl_trace w1 = nl_trace w @ cs" "sorted_wrt (<) (map call_phase cs)"
    "\<forall>c \<in> set cs. lo \<le> call_phase c \<and> call_phase c < mid" by (auto simp: phased_def)
  from assms(2) obtain ds where ds: "nl_trace w2 = nl_trace w1 @ ds" "sorted_wrt (<) (map call_phase ds)"
    "\<forall>c \<in> set ds. mid \<le> call_phase c \<and> call_phase c < hi" by (auto simp: phased_def)
  have "sorted_wrt (<) (map call_phase (cs @ ds))"
    using cs(2,3) ds(2,3) by (force simp: sorted_wrt_append)
  then show ?thesis using cs ds assms(3,4) by (auto simp: phased_def intro!: exI[of _ "cs @ ds"])
qed

lemma phased_and_then:
  assumes "and_then f g w = Some (r, w')" and "mid = Suc lo" and "Suc lo \<le> hi"
    and "\<And>e w1. f w = Some (e, w1) \<Longrightarrow> phased lo (Suc lo) w w1"
    and "\<And>w1 e w2. g w1 = Some (e, w2) \<Longrightarrow> phased mid hi w1 w2"
  shows "phased lo hi w w'"
  using assms(1)
proof (rule and_thenE)
  fix e assume "f w = Some (Some e, w')"
  then have "phased lo (Suc lo) w w'" by (rule assms(4))
  moreover have "phased (Suc lo) hi w' w'" by simp
  ultimately show ?thesis using phased_trans assms(3) by (metis le_SucI order_refl)
next
  fix w1 assume "f w = Some (None, w1)" "g w1 = Some (r, w')"
  then show ?thesis using assms(2-5) phased_trans by (metis le_SucI order_refl)
qed

lemma phased_nl_do: "nl_do NL c w = (e, w') \<Longrightarrow> call_phase c = p \<Longrightarrow> q = Suc p \<Longrightarrow> phased p q w w'"
  by (auto simp: phased_def dest: nl_do_eqD)

lemma phased_nl_do_snd: "call_phase c = p \<Longrightarrow> q = Suc p \<Longrightarrow> phased p q w (snd (nl_do NL c w))"
  by (auto simp: phased_def)

lemma vxlan_device_phased:
  assumes "vxlan_upsert_device NL nm vx l v links w = Some (e, w')"
  shows "phased 3 4 w w'"
proof -
  obtain r where "doesLinkRefNeedUpdate NL (kern w) (vx_Device vx) (vl_VtepDevIndex v) links = Some r"
    using assms by (auto simp: vxlan_upsert_device_def bind_eq_Some_conv)
  then show ?thesis using assms
    by (auto simp: vxlan_upsert_device_def linkSetVXLANVtepDevIndex_def wrap_err_def
        bind_eq_Some_conv intro!: phased_nl_do phased_nl_do_snd split: sum.splits bool.splits prod.splits)
qed

lemma vxlan_master_phased:
  assumes "vxlan_upsert_master NL nm vx l a links w = Some (e, w')"
  shows "phased 6 7 w w'"
proof -
  obtain r where "doesLinkRefNeedUpdate NL (kern w) (vx_Master vx) (la_MasterIndex a) links = Some r"
    using assms by (auto simp: vxlan_upsert_master_def bind_eq_Some_conv)
  then show ?thesis using assms
    by (auto simp: vxlan_upsert_master_def wrap_err_def intro!: phased_nl_do phased_nl_do_snd
        split: sum.splits bool.splits prod.splits)
qed

lemma vxlan_steps_phased:
  shows "vxlan_upsert_MTU NL nm vx l a w = Some (e, w') \<Longrightarrow> phased 2 3 w w'"
    and "vxlan_upsert_group NL nm vx l v w = Some (e, w') \<Longrightarrow> phased 4 5 w w'"
    and "vxlan_upsert_learning NL nm vx l v w = Some (e, w') \<Longrightarrow> phased 5 6 w w'"
    and "vxlan_upsert_up NL nm l w = Some (e, w') \<Longrightarrow> phased 7 8 w w'"
  by (auto simp: vxlan_upsert_MTU_def vxlan_upsert_group_def vxlan_upsert_learning_def vxlan_upsert_up_def
      linkSetVXLANGroup_def linkSetVXLANLearning_def Let_def wrap_err_def bind_eq_Some_conv
      intro: phased_nl_do phased_nl_do_snd
      split: option.splits if_splits prod.splits)

lemma vxlan_configure_phased:
  assumes "vxlan_configure NL n vx links a v w = Some (e, w')"
  shows "phased 2 8 w w'"
proof -
  let ?l = "NlVxlan a v"
  have 6: "phased 6 8 w1 w2"
    if "and_then (vxlan_upsert_master NL n vx ?l a links) (vxlan_upsert_up NL n ?l) w1 = Some (e', w2)" for w1 w2 e'
    using that by (rule phased_and_then) (auto intro: vxlan_master_phased vxlan_steps_phased)
  have 5: "phased 5 8 w1 w2"
    if "and_then (vxlan_upsert_learning NL n vx ?l v)
          (and_then (vxlan_upsert_master NL n vx ?l a links) (vxlan_upsert_up NL n ?l)) w1 = Some (e', w2)" for w1 w2 e'
    using that by (rule phased_and_then) (auto intro: 6 vxlan_steps_phased)
  have 4: "phased 4 8 w1 w2"
    if "and_then (vxlan_upsert_group NL n vx ?l v) (and_then (vxlan_upsert_learning NL n vx ?l v)
          (and_then (vxlan_upsert_master NL n vx ?l a links) (vxlan_upsert_up NL n ?l))) w1 = Some (e', w2)" for w1 w2 e'
    using that by (rule phased_and_then) (auto intro: 5 vxlan_steps_phased)
  have 3: "phased 3 8 w1 w2"
    if "and_then (vxlan_upsert_device NL n vx ?l v links) (and_then (vxlan_upsert_group NL n vx ?l v)
          (and_then (vxlan_upsert_learning NL n vx ?l v)
          (and_then (vxlan_upsert_master NL n vx ?l a links) (vxlan_upsert_up NL n ?l)))) w1 = Some (e', w2)" for w1 w2 e'
    using that by (rule phased_and_then) (auto intro: 4 vxlan_device_phased)
  show ?thesis using assms unfolding vxlan_configure_def Let_def
    by (rule phased_and_then) (auto intro: 3 vxlan_steps_phased)
qed

lemma create_link_phased: "create_link NL d n w = (r, w') \<Longrightarrow> phased 1 2 w w'"
  by (auto simp: create_link_def Let_def intro: phased_nl_do phased_nl_do_snd
      split: prod.splits option.splits sum.splits if_splits)

lemma phased_weaken: "phased lo hi w w' \<Longrightarrow> lo' \<le> lo \<Longrightarrow> hi \<le> hi' \<Longrightarrow> phased lo' hi' w w'"
  unfolding phased_def by fastforce

lemma basicUpsertWithCheck_phased:
  assumes run: "basicUpsertWithCheck NL d f w = (r, w')"
  shows "phased 0 2 w w'"
proof -
  have del: "phased 0 1 w w1" if "nl_do NL (LinkDel l) w = (e, w1)" for l e w1
    using that by (rule phased_nl_do) auto
  show ?thesis using run
    by (auto simp: basicUpsertWithCheck_def Let_def
        intro: phased_trans[OF del create_link_phased] phased_weaken[OF create_link_phased] phased_weaken[OF del]
        split: option.splits sum.splits if_splits prod.splits)
qed

lemma vxlan_Upsert_phased:
  assumes "vxlan_Upsert NL link links w = Some (e, w')"
  shows "phased 0 8 w w'"
proof -
  from assms obtain vx sp where specs: "Spec_VXLAN link = Some vx" "vx_SourcePort vx = Some sp"
    by (auto simp: vxlan_Upsert_def bind_eq_Some_conv)
  let ?d = "vxlan_desired NL link vx sp"
  obtain r w1 where up: "basicUpsertWithCheck NL ?d (vxlan_forceReplace NL ?d) w = (r, w1)" by fastforce
  note 1 = basicUpsertWithCheck_phased[OF up]
  have "phased 2 8 w1 w' \<or> w' = w1"
    using assms specs up by (auto simp: vxlan_Upsert_def intro: vxlan_configure_phased split: sum.splits nlink.splits)
  then show ?thesis using 1 by (auto intro: phased_trans phased_weaken)
qed

end
