(* ===== verification/Manager_Convergence.thy ===== *)
theory Manager_Convergence
  imports Manager_Traces
begin

text \<open>
  The desired state of a link, and the convergence of the managers: an upsert that returns no error
  leaves the link in the desired state, so that \<open>IsUpsertNeeded\<close> then says that nothing is to be done.
  The facts about the kernel used here are the laws \<open>netlink_laws\<close> of theory \<open>Netlink\<close>.
\<close>

subsection \<open>References\<close>

definition ref_resolved :: "'k netlink \<Rightarrow> 'k \<Rightarrow> LinkReference option \<Rightarrow> int \<Rightarrow> link_map \<Rightarrow> bool" where
  "ref_resolved NL k linkRef idx links \<longleftrightarrow>
     (case resolveLinkRef linkRef links of
        None \<Rightarrow> idx = 0
      | Some r \<Rightarrow> idx \<noteq> 0 \<and>
          (\<exists>l res. nl_LinkByIndex NL k idx = Inr l \<and> map_of links (ref_Name r) = Some res \<and>
             link_name NL l = Some (LinkName res)))"

lemma doesLinkRefNeedUpdate_False_iff:
  "doesLinkRefNeedUpdate NL k r i links = Some (Inr False) \<longleftrightarrow> ref_resolved NL k r i links"
  by (auto simp: doesLinkRefNeedUpdate_def ref_resolved_def link_name_def
      split: option.splits sum.splits)

lemma ref_resolved_kept:
  "ref_resolved NL k r i links \<Longrightarrow> index_names_kept NL k k' \<Longrightarrow> ref_resolved NL k' r i links"
  by (auto simp: ref_resolved_def split: option.splits elim!: index_names_keptD)

lemma ref_resolved_kept_but:
  "ref_resolved NL k r i links \<Longrightarrow> kept_but NL n k k' \<Longrightarrow> ref_resolved NL k' r i links"
  by (erule ref_resolved_kept) (simp add: kept_but_def)

lemma getDesiredReferencedLinkIndex_resolved:
  assumes laws: "netlink_laws NL" and get: "getDesiredReferencedLinkIndex NL k r links = Inr i"
  shows "ref_resolved NL k r i links \<and> 0 \<le> i \<and> i < 2 ^ 31"
proof (cases "resolveLinkRef r links")
  case None
  then show ?thesis using get by (simp add: getDesiredReferencedLinkIndex_def ref_resolved_def)
next
  case (Some ref)
  with get obtain res l a where *: "map_of links (ref_Name ref) = Some res"
    "nl_LinkByName NL k (LinkName res) = Inr l" "nl_Attrs NL l = Some a" "i = la_Index a"
    by (auto simp: getDesiredReferencedLinkIndex_def split: option.splits sum.splits)
  obtain l' where "nl_LinkByIndex NL k i = Inr l'" "link_name NL l' = Some (LinkName res)"
    using law_by_index[OF laws *(2,3)] *(4) by blast
  moreover have "0 < i \<and> i < 2 ^ 31" using law_lookup[OF laws *(2)] *(3,4) by auto
  ultimately show ?thesis using Some * by (auto simp: ref_resolved_def)
qed

definition index_ok :: "LinkAttrs \<Rightarrow> bool" where
  "index_ok a \<longleftrightarrow> 0 < la_Index a \<and> la_Index a < 2 ^ 31"

text \<open>A successful setter on the VXLAN of name \<open>n\<close>.\<close>

lemma vxlan_setter:
  assumes laws: "netlink_laws NL" and cfg: "configured NL (kern w) n (NlVxlan b u)"
    and run: "nl_do NL c w = (None, w')" and "is_setter c"
    and idx: "call_index NL c = Some (la_Index b)"
  shows "(\<exists>x. effect_of c (NlVxlan b u) x \<and> configured NL (kern w') n x) \<and> kept_but NL n (kern w) (kern w')"
proof -
  have "call_index NL c = map_option la_Index (nl_Attrs NL l')" if "same_config l' (NlVxlan b u)" for l'
    using that idx by (auto elim!: same_config_vxlanE simp: netlink_types_simps[OF netlink_laws_types[OF laws]])
  from configured_setter[OF laws cfg run \<open>is_setter c\<close> this] show ?thesis by blast
qed

lemma vxlan_request_index:
  "index_ok a \<Longrightarrow> call_index NL (Execute (vxlan_request NL l a d)) = Some (la_Index a)"
  by (simp add: call_index_def vxlan_request_def index_ok_def sint_index)

lemma vxlan_request_effect:
  "call_effect (Execute (vxlan_request NL l a d)) (NlVxlan b u) = NlVxlan b (apply_vxlan_attr d u)"
  by (simp add: call_effect_def vxlan_request_def)

text \<open>A request sets its attribute, and may change the MTU when the VXLAN then has a device.\<close>

definition not_request :: "nl_call \<Rightarrow> bool" where
  "not_request c \<longleftrightarrow> \<not> is_request c"

lemma vxlan_request_step:
  assumes laws: "netlink_laws NL" and cfg: "configured NL (kern w) n (NlVxlan b u)"
    and run: "nl_do NL (Execute (vxlan_request NL l a d)) w = (None, w')" and idx: "index_ok a" "la_Index b = la_Index a"
  obtains m where "configured NL (kern w') n (NlVxlan (b\<lparr>la_MTU := m\<rparr>) (apply_vxlan_attr d u))"
    "m = la_MTU b \<or> vl_VtepDevIndex (apply_vxlan_attr d u) \<noteq> 0" "kept_but NL n (kern w) (kern w')" "\<not> emits not_request w w'"
proof -
  let ?u = "apply_vxlan_attr d u"
  have e: "\<not> emits not_request w w'" using nl_do_eqD[OF run] by (auto simp: emits_def not_request_def)
  from vxlan_setter[OF laws cfg run] idx obtain x where x: "effect_of (Execute (vxlan_request NL l a d)) (NlVxlan b u) x"
    "configured NL (kern w') n x" and k: "kept_but NL n (kern w) (kern w')"
    by (auto simp: vxlan_request_index)
  from x(1) consider "x = NlVxlan b ?u" | m where "x = NlVxlan (b\<lparr>la_MTU := m\<rparr>) ?u" "vl_VtepDevIndex ?u \<noteq> 0"
    by (auto simp: effect_of_def vxlan_request_effect)
  then show thesis
  proof cases
    case 1
    then have "configured NL (kern w') n (NlVxlan (b\<lparr>la_MTU := la_MTU b\<rparr>) ?u)" using x(2) by simp
    then show thesis using that k e by blast
  next
    case (2 m)
    then show thesis using that x(2) k e by blast
  qed
qed

lemma vxlan_MTU_step:
  assumes laws: "netlink_laws NL" and run: "vxlan_upsert_MTU NL nm vx (NlVxlan a v) a w = Some (None, w')"
    and cfg: "configured NL (kern w) n (NlVxlan a u)"
  obtains m where "configured NL (kern w') n (NlVxlan (a\<lparr>la_MTU := m\<rparr>) u)"
    "case vx_MTU vx of None \<Rightarrow> True | Some x \<Rightarrow> m = sint x" "kept_but NL n (kern w) (kern w')"
proof (cases "case vx_MTU vx of None \<Rightarrow> False | Some x \<Rightarrow> la_MTU a \<noteq> sint x")
  case False
  then have "w' = w" "case vx_MTU vx of None \<Rightarrow> True | Some x \<Rightarrow> la_MTU a = sint x"
    using run by (auto simp: vxlan_upsert_MTU_def split: option.splits)
  then show thesis using that[of "la_MTU a"] cfg by simp
next
  case True
  then obtain x where x: "vx_MTU vx = Some x" "la_MTU a \<noteq> sint x" by (auto split: option.splits)
  then have "nl_do NL (LinkSetMTU (NlVxlan a v) (sint x)) w = (None, w')"
    using run by (auto simp: vxlan_upsert_MTU_def wrap_err_def prod_eq_iff)
  from vxlan_setter[OF laws cfg this] x that[of "sint x"] show thesis
    by (simp add: effect_of_exact call_index_def call_effect_def netlink_types_simps[OF netlink_laws_types[OF laws]])
qed

lemma vxlan_device_step:
  assumes laws: "netlink_laws NL" and run: "vxlan_upsert_device NL nm vx (NlVxlan a v) v links w = Some (None, w')"
    and cfg: "configured NL (kern w) n (NlVxlan b u)" and ok: "index_ok a" "la_Index b = la_Index a"
    and same: "vl_VtepDevIndex u = vl_VtepDevIndex v"
  obtains i m where "configured NL (kern w') n (NlVxlan (b\<lparr>la_MTU := m\<rparr>) (u\<lparr>vl_VtepDevIndex := i\<rparr>))"
    "m = la_MTU b \<or> i \<noteq> 0 \<and> \<not> emits not_request w w'"
    "ref_resolved NL (kern w') (vx_Device vx) i links" "kept_but NL n (kern w) (kern w')"
proof -
  obtain r where r: "doesLinkRefNeedUpdate NL (kern w) (vx_Device vx) (vl_VtepDevIndex v) links = Some r"
    using run by (auto simp: vxlan_upsert_device_def bind_eq_Some_conv)
  then obtain upd where upd: "r = Inr upd"
    using run by (cases r) (auto simp: vxlan_upsert_device_def)
  show thesis
  proof (cases upd)
    case False
    then have "w' = w" using run r upd by (simp add: vxlan_upsert_device_def)
    moreover have "ref_resolved NL (kern w) (vx_Device vx) (vl_VtepDevIndex v) links"
      using r upd False doesLinkRefNeedUpdate_False_iff by metis
    moreover have "u\<lparr>vl_VtepDevIndex := vl_VtepDevIndex v\<rparr> = u" by (simp add: same[symmetric])
    ultimately show thesis using that[of "la_MTU b" "vl_VtepDevIndex v"] cfg by simp
  next
    case True
    then obtain i where i: "getDesiredReferencedLinkIndex NL (kern w) (vx_Device vx) links = Inr i"
      and set: "linkSetVXLANVtepDevIndex NL (NlVxlan a v) i w = Some (None, w')"
      using run r upd by (auto simp: vxlan_upsert_device_def wrap_err_def prod_eq_iff split: sum.splits)
    note res = getDesiredReferencedLinkIndex_resolved[OF laws i]
    have u: "uint (word_of_int i :: int32) = i"
      using res by (simp add: uint_word_of_int take_bit_int_eq_self_iff)
    from set have "nl_do NL (Execute (vxlan_request NL (NlVxlan a v) a (IFLA_VXLAN_LINK (U32Payload (word_of_int i))))) w = (None, w')"
      by (simp add: linkSetVXLANVtepDevIndex_def netlink_types_simps[OF netlink_laws_types[OF laws]])
    from vxlan_request_step[OF laws cfg this ok] obtain m where "configured NL (kern w') n (NlVxlan (b\<lparr>la_MTU := m\<rparr>) (u\<lparr>vl_VtepDevIndex := i\<rparr>))"
      "m = la_MTU b \<or> i \<noteq> 0" "kept_but NL n (kern w) (kern w')" "\<not> emits not_request w w'"
      by (auto simp: u)
    then show thesis using that[of m i] res ref_resolved_kept_but by metis
  qed
qed

lemma vxlan_master_step:
  assumes laws: "netlink_laws NL" and run: "vxlan_upsert_master NL nm vx (NlVxlan a v) a links w = Some (None, w')"
    and cfg: "configured NL (kern w) n (NlVxlan b u)" and ok: "la_Index b = la_Index a"
    and same: "la_MasterIndex b = la_MasterIndex a"
  obtains i where "configured NL (kern w') n (NlVxlan (b\<lparr>la_MasterIndex := i\<rparr>) u)"
    "ref_resolved NL (kern w') (vx_Master vx) i links" "kept_but NL n (kern w) (kern w')"
proof -
  obtain r where r: "doesLinkRefNeedUpdate NL (kern w) (vx_Master vx) (la_MasterIndex a) links = Some r"
    using run by (auto simp: vxlan_upsert_master_def bind_eq_Some_conv)
  then obtain upd where upd: "r = Inr upd"
    using run by (cases r) (auto simp: vxlan_upsert_master_def)
  show thesis
  proof (cases upd)
    case False
    then have "w' = w" using run r upd by (simp add: vxlan_upsert_master_def)
    moreover have "ref_resolved NL (kern w) (vx_Master vx) (la_MasterIndex a) links"
      using r upd False doesLinkRefNeedUpdate_False_iff by metis
    moreover have "b\<lparr>la_MasterIndex := la_MasterIndex a\<rparr> = b" by (simp add: same[symmetric])
    ultimately show thesis using that[of "la_MasterIndex a"] cfg by simp
  next
    case True
    then obtain i where i: "getDesiredReferencedLinkIndex NL (kern w) (vx_Master vx) links = Inr i"
      and set: "nl_do NL (LinkSetMasterByIndex (NlVxlan a v) i) w = (None, w')"
      using run r upd by (auto simp: vxlan_upsert_master_def wrap_err_def prod_eq_iff split: sum.splits)
    from vxlan_setter[OF laws cfg set] ok have "configured NL (kern w') n (NlVxlan (b\<lparr>la_MasterIndex := i\<rparr>) u)"
      "kept_but NL n (kern w) (kern w')"
      by (simp_all add: effect_of_exact call_index_def call_effect_def netlink_types_simps[OF netlink_laws_types[OF laws]])
    then show thesis using that[of i] getDesiredReferencedLinkIndex_resolved[OF laws i] ref_resolved_kept_but by metis
  qed
qed

lemma vxlan_group_step:
  assumes laws: "netlink_laws NL" and run: "vxlan_upsert_group NL nm vx (NlVxlan a v) v w = Some (None, w')"
    and cfg: "configured NL (kern w) n (NlVxlan b u)" and ok: "index_ok a" "la_Index b = la_Index a"
    and same: "vl_Group u = vl_Group v"
  obtains g m where "configured NL (kern w') n (NlVxlan (b\<lparr>la_MTU := m\<rparr>) (u\<lparr>vl_Group := g\<rparr>))"
    "m = la_MTU b \<or> vl_VtepDevIndex u \<noteq> 0 \<and> \<not> emits not_request w w'"
    "ip_Equal g (ParseIP (vx_RemoteIPAddress vx))" "kept_but NL n (kern w) (kern w')"
proof (cases "ip_Equal (vl_Group v) (ParseIP (vx_RemoteIPAddress vx))")
  case True
  then have "w' = w" using run by (simp add: vxlan_upsert_group_def)
  moreover have "u\<lparr>vl_Group := vl_Group v\<rparr> = u" by (simp add: same[symmetric])
  ultimately show thesis using that[of "la_MTU b" "vl_Group v"] cfg True by simp
next
  case False
  let ?p = "ParseIP (vx_RemoteIPAddress vx)"
  note simps = vxlan_upsert_group_def linkSetVXLANGroup_def netlink_types_simps[OF netlink_laws_types[OF laws]]
    wrap_err_def prod_eq_iff Let_def
  obtain d g where d: "d = IFLA_VXLAN_GROUP (BytesPayload g) \<or> d = IFLA_VXLAN_GROUP6 (BytesPayload g)"
    and g: "ip_Equal g ?p" and set: "nl_do NL (Execute (vxlan_request NL (NlVxlan a v) a d)) w = (None, w')"
  proof (cases "To4 ?p = nil_ip")
    case False
    with \<open>\<not> ip_Equal (vl_Group v) ?p\<close> run show thesis
      by (intro that[of "IFLA_VXLAN_GROUP (BytesPayload (To4 ?p))" "To4 ?p"]) (auto simp: simps ip_Equal_To4)
  next
    case True
    with \<open>\<not> ip_Equal (vl_Group v) ?p\<close> run show thesis
      by (intro that[of "IFLA_VXLAN_GROUP6 (BytesPayload (To16 ?p))" "To16 ?p"])
        (auto simp: simps ip_Equal_To16 split: if_splits)
  qed
  have u: "apply_vxlan_attr d u = u\<lparr>vl_Group := g\<rparr>" using d by auto
  obtain m where m: "configured NL (kern w') n (NlVxlan (b\<lparr>la_MTU := m\<rparr>) (u\<lparr>vl_Group := g\<rparr>))"
    "m = la_MTU b \<or> vl_VtepDevIndex (u\<lparr>vl_Group := g\<rparr>) \<noteq> 0" "kept_but NL n (kern w) (kern w')" "\<not> emits not_request w w'"
    using vxlan_request_step[OF laws cfg set ok] unfolding u by blast
  have "m = la_MTU b \<or> vl_VtepDevIndex u \<noteq> 0 \<and> \<not> emits not_request w w'" using m(2,4) by simp
  with m(1) show thesis using that g m(3) by blast
qed

lemma vxlan_learning_step:
  assumes laws: "netlink_laws NL" and run: "vxlan_upsert_learning NL nm vx (NlVxlan a v) v w = Some (None, w')"
    and cfg: "configured NL (kern w) n (NlVxlan b u)" and ok: "index_ok a" "la_Index b = la_Index a"
    and same: "vl_Learning u = vl_Learning v"
  obtains m where "configured NL (kern w') n (NlVxlan (b\<lparr>la_MTU := m\<rparr>) (u\<lparr>vl_Learning := IsLearningEnabled vx\<rparr>))"
    "m = la_MTU b \<or> vl_VtepDevIndex u \<noteq> 0 \<and> \<not> emits not_request w w'" "kept_but NL n (kern w) (kern w')"
proof (cases "vl_Learning v = IsLearningEnabled vx")
  case True
  then have "w' = w" using run by (simp add: vxlan_upsert_learning_def)
  moreover have "u\<lparr>vl_Learning := IsLearningEnabled vx\<rparr> = u" using True same by simp
  ultimately show thesis using that[of "la_MTU b"] cfg by simp
next
  case False
  let ?d = "IFLA_VXLAN_LEARNING (U8Payload (if IsLearningEnabled vx then 1 else 0))"
  from False have set: "nl_do NL (Execute (vxlan_request NL (NlVxlan a v) a ?d)) w = (None, w')"
    using run by (auto simp: vxlan_upsert_learning_def linkSetVXLANLearning_def wrap_err_def prod_eq_iff
        netlink_types_simps[OF netlink_laws_types[OF laws]])
  let ?u = "u\<lparr>vl_Learning := IsLearningEnabled vx\<rparr>"
  have u: "apply_vxlan_attr ?d u = ?u" by simp
  obtain m where m: "configured NL (kern w') n (NlVxlan (b\<lparr>la_MTU := m\<rparr>) ?u)"
    "m = la_MTU b \<or> vl_VtepDevIndex ?u \<noteq> 0" "kept_but NL n (kern w) (kern w')" "\<not> emits not_request w w'"
    using vxlan_request_step[OF laws cfg set ok] unfolding u by blast
  have "m = la_MTU b \<or> vl_VtepDevIndex u \<noteq> 0 \<and> \<not> emits not_request w w'" using m(2,4) by simp
  with m(1) show thesis using that m(3) by blast
qed

lemma vxlan_up_step:
  assumes laws: "netlink_laws NL" and run: "vxlan_upsert_up NL nm (NlVxlan a v) w = Some (None, w')"
    and cfg: "configured NL (kern w) n (NlVxlan b u)" and ok: "la_Index b = la_Index a"
  shows "configured NL (kern w') n (NlVxlan (b\<lparr>la_FlagUp := True\<rparr>) u) \<and> kept_but NL n (kern w) (kern w')"
proof -
  have "nl_do NL (LinkSetUp (NlVxlan a v)) w = (None, w')"
    using run by (auto simp: vxlan_upsert_up_def wrap_err_def prod_eq_iff)
  from vxlan_setter[OF laws cfg this] ok show ?thesis
    by (simp add: effect_of_exact call_index_def call_effect_def netlink_types_simps[OF netlink_laws_types[OF laws]])
qed

definition mtu_matches :: "int32 option \<Rightarrow> LinkAttrs \<Rightarrow> bool" where
  "mtu_matches m a \<longleftrightarrow> (case m of None \<Rightarrow> True | Some x \<Rightarrow> la_MTU a = sint x)"

text \<open>A VXLAN as specified, but for its MTU, and with it.\<close>

definition vxlan_configured :: "'k netlink \<Rightarrow> VXLANSpecs \<Rightarrow> PortRange \<Rightarrow> LinkAttrs \<Rightarrow> Vxlan \<Rightarrow> 'k \<Rightarrow> link_map \<Rightarrow> bool" where
  "vxlan_configured NL vx sp a v k links \<longleftrightarrow>
     la_FlagUp a \<and>
     ref_resolved NL k (vx_Master vx) (la_MasterIndex a) links \<and>
     ref_resolved NL k (vx_Device vx) (vl_VtepDevIndex v) links \<and>
     ip_Equal (vl_Group v) (ParseIP (vx_RemoteIPAddress vx)) \<and>
     vl_VxlanId v = sint (vx_VNID vx) \<and> vl_Port v = sint (vx_RemotePort vx) \<and>
     vl_PortLow v = sint (pr_Start sp) \<and> vl_PortHigh v = sint (pr_End sp) \<and>
     vl_Learning v = IsLearningEnabled vx"

definition vxlan_matches :: "'k netlink \<Rightarrow> VXLANSpecs \<Rightarrow> PortRange \<Rightarrow> LinkAttrs \<Rightarrow> Vxlan \<Rightarrow> 'k \<Rightarrow> link_map \<Rightarrow> bool" where
  "vxlan_matches NL vx sp a v k links \<longleftrightarrow> mtu_matches (vx_MTU vx) a \<and> vxlan_configured NL vx sp a v k links"

lemmas vxlan_matches_defs = vxlan_matches_def vxlan_configured_def

lemma vxlan_check_existing_False_iff:
  assumes "vx_SourcePort vx = Some sp"
  shows "vxlan_check_existing NL vx a v k links = Some (Inr False) \<longleftrightarrow> vxlan_matches NL vx sp a v k links"
proof -
  have 1: "vxlan_check_existing NL vx a v k links = Some (Inr False) \<longleftrightarrow>
      mtu_matches (vx_MTU vx) a \<and>
      doesLinkRefNeedUpdate NL k (vx_Master vx) (la_MasterIndex a) links = Some (Inr False) \<and>
      ip_Equal (vl_Group v) (ParseIP (vx_RemoteIPAddress vx)) \<and>
      vl_VxlanId v = sint (vx_VNID vx) \<and> vl_Port v = sint (vx_RemotePort vx) \<and>
      vl_PortLow v = sint (pr_Start sp) \<and> vl_PortHigh v = sint (pr_End sp) \<and>
      vl_Learning v = IsLearningEnabled vx \<and>
      doesLinkRefNeedUpdate NL k (vx_Device vx) (vl_VtepDevIndex v) links = Some (Inr False) \<and> la_FlagUp a"
    unfolding vxlan_check_existing_def mtu_matches_def using assms
    by (cases "doesLinkRefNeedUpdate NL k (vx_Master vx) (la_MasterIndex a) links";
        cases "doesLinkRefNeedUpdate NL k (vx_Device vx) (vl_VtepDevIndex v) links")
      (auto split: option.splits sum.splits bool.splits)
  show ?thesis unfolding 1 vxlan_matches_defs doesLinkRefNeedUpdate_False_iff by blast
qed

lemma phased_extends: "phased lo hi w w' \<Longrightarrow> (\<And>cs. nl_trace w' = nl_trace w @ cs \<Longrightarrow> P) \<Longrightarrow> P"
  by (auto simp: phased_def)

lemma vxlan_configure_converges:
  assumes laws: "netlink_laws NL" and run: "vxlan_configure NL n vx links a v w = Some (None, w')"
    and cfg: "nl_LinkByName NL (kern w) n = Inr (NlVxlan a v)"
    and fixed: "vl_VxlanId v = sint (vx_VNID vx)" "vl_Port v = sint (vx_RemotePort vx)"
      "vl_PortLow v = sint (pr_Start sp)" "vl_PortHigh v = sint (pr_End sp)"
  shows "kept_but NL n (kern w) (kern w') \<and>
    (\<exists>b u. nl_LinkByName NL (kern w') n = Inr (NlVxlan b u) \<and> vxlan_configured NL vx sp b u (kern w') links \<and>
      (vx_Device vx = None \<or> emits not_request w w' \<longrightarrow> mtu_matches (vx_MTU vx) b))"
proof -
  let ?l = "NlVxlan a v"
  have ok: "index_ok a"
    using law_lookup[OF laws cfg] netlink_types_simps(4)[OF netlink_laws_types[OF laws]] by (auto simp: index_ok_def)
  from run obtain w1 w2 w3 w4 w5 where steps:
    "vxlan_upsert_MTU NL n vx ?l a w = Some (None, w1)"
    "vxlan_upsert_device NL n vx ?l v links w1 = Some (None, w2)"
    "vxlan_upsert_group NL n vx ?l v w2 = Some (None, w3)"
    "vxlan_upsert_learning NL n vx ?l v w3 = Some (None, w4)"
    "vxlan_upsert_master NL n vx ?l a links w4 = Some (None, w5)"
    "vxlan_upsert_up NL n ?l w5 = Some (None, w')"
    by (auto simp: vxlan_configure_def Let_def and_then_None_iff)
  obtain m where m: "configured NL (kern w1) n (NlVxlan (a\<lparr>la_MTU := m\<rparr>) v)"
    "case vx_MTU vx of None \<Rightarrow> True | Some x \<Rightarrow> m = sint x" "kept_but NL n (kern w) (kern w1)"
    by (rule vxlan_MTU_step[OF laws steps(1) configuredI[OF cfg]])
  obtain d m2 where d: "configured NL (kern w2) n (NlVxlan (a\<lparr>la_MTU := m2\<rparr>) (v\<lparr>vl_VtepDevIndex := d\<rparr>))"
    "m2 = m \<or> d \<noteq> 0 \<and> \<not> emits not_request w1 w2"
    "ref_resolved NL (kern w2) (vx_Device vx) d links" "kept_but NL n (kern w1) (kern w2)"
    by (rule vxlan_device_step[OF laws steps(2) m(1) ok]) auto
  obtain g m3 where g: "configured NL (kern w3) n (NlVxlan (a\<lparr>la_MTU := m3\<rparr>) (v\<lparr>vl_VtepDevIndex := d, vl_Group := g\<rparr>))"
    "m3 = m2 \<or> d \<noteq> 0 \<and> \<not> emits not_request w2 w3"
    "ip_Equal g (ParseIP (vx_RemoteIPAddress vx))" "kept_but NL n (kern w2) (kern w3)"
    by (rule vxlan_group_step[OF laws steps(3) d(1) ok]) auto
  let ?u = "v\<lparr>vl_VtepDevIndex := d, vl_Group := g, vl_Learning := IsLearningEnabled vx\<rparr>"
  obtain m4 where l: "configured NL (kern w4) n (NlVxlan (a\<lparr>la_MTU := m4\<rparr>) ?u)"
    "m4 = m3 \<or> d \<noteq> 0 \<and> \<not> emits not_request w3 w4" "kept_but NL n (kern w3) (kern w4)"
    by (rule vxlan_learning_step[OF laws steps(4) g(1) ok]) auto
  obtain i where i: "configured NL (kern w5) n (NlVxlan (a\<lparr>la_MTU := m4, la_MasterIndex := i\<rparr>) ?u)"
    "ref_resolved NL (kern w5) (vx_Master vx) i links" "kept_but NL n (kern w4) (kern w5)"
    by (rule vxlan_master_step[OF laws steps(5) l(1)]) auto
  let ?b = "a\<lparr>la_MTU := m4, la_MasterIndex := i, la_FlagUp := True\<rparr>"
  have up: "configured NL (kern w') n (NlVxlan ?b ?u)" "kept_but NL n (kern w5) (kern w')"
    using vxlan_up_step[OF laws steps(6) i(1)] by simp_all
  have dev: "ref_resolved NL (kern w') (vx_Device vx) d links"
    by (meson d(3) g(4) l(3) i(3) up(2) ref_resolved_kept_but)
  have mas: "ref_resolved NL (kern w') (vx_Master vx) i links"
    by (rule ref_resolved_kept_but[OF i(2) up(2)])
  from up(1) obtain b where b: "nl_LinkByName NL (kern w') n = Inr (NlVxlan b ?u)"
    "la_MTU b = m4" "la_MasterIndex b = i" "la_FlagUp b"
    by (auto simp: configured_def elim!: same_config_vxlanE)
  have conf: "vxlan_configured NL vx sp b ?u (kern w') links"
    using b(3,4) dev mas g(3) fixed by (simp add: vxlan_configured_def)
  have "mtu_matches (vx_MTU vx) b" if "vx_Device vx = None \<or> emits not_request w w'"
  proof -
    have "emits not_request w1 w2 \<and> emits not_request w2 w3 \<and> emits not_request w3 w4" if "emits not_request w w'"
      using that vxlan_steps_phased(1)[OF steps(1)] vxlan_device_phased[OF steps(2)] vxlan_steps_phased(2)[OF steps(3)]
        vxlan_steps_phased(3)[OF steps(4)] vxlan_master_phased[OF steps(5)] vxlan_steps_phased(4)[OF steps(6)]
      by (elim phased_extends) (simp add: emits_def)
    moreover have "d = 0" if "vx_Device vx = None"
      using dev that by (simp add: ref_resolved_def resolveLinkRef_def)
    ultimately have "m4 = m" using that d(2) g(2) l(2) by auto
    then show ?thesis using m(2) b(2) by (simp add: mtu_matches_def split: option.splits)
  qed
  moreover have "kept_but NL n (kern w) (kern w')"
    by (meson m(3) d(4) g(4) l(3) i(3) up(2) kept_but_trans)
  ultimately show ?thesis using b(1) conf by blast
qed

text \<open>What \<open>basicUpsertWithCheck\<close> returns: the link it kept, or the link it created.\<close>

lemma create_link_result:
  assumes laws: "netlink_laws NL" and run: "create_link NL d n w = (Inr l, w')"
    and absent: "\<And>e. nl_exec NL (kern w) (LinkAdd d) = (Some e, kern w') \<Longrightarrow> \<exists>e. nl_LinkByName NL (kern w) n = Inl e"
    and name: "link_name NL d = Some n"
  shows "nl_LinkByName NL (kern w') n = Inr l \<and> created_as d l"
proof -
  obtain e w1 where add: "nl_do NL (LinkAdd d) w = (e, w1)" by fastforce
  have w': "w' = w1" and l: "nl_LinkByName NL (kern w1) n = Inr l"
    using run add by (auto simp: create_link_def Let_def split: option.splits sum.splits if_splits)
  have ex: "nl_exec NL (kern w) (LinkAdd d) = (e, kern w1)" using add by (simp add: nl_do_eqD)
  have "e = None"
  proof (rule ccontr)
    assume "e \<noteq> None"
    then obtain x where "e = Some x" by blast
    with ex have "kern w1 = kern w" using law_failed_call[OF laws] by simp
    moreover from absent ex \<open>e = Some x\<close> w' obtain y where "nl_LinkByName NL (kern w) n = Inl y" by blast
    ultimately show False using l by simp
  qed
  moreover from name obtain a where "nl_Attrs NL d = Some a" "la_Name a = n" by (auto simp: link_name_def)
  ultimately have "created_as d l" using law_added[OF laws, of d a "kern w" "kern w1"] ex l by auto
  then show ?thesis using l w' by simp
qed

lemma basicUpsertWithCheck_result:
  assumes laws: "netlink_laws NL" and run: "basicUpsertWithCheck NL d f w = (Inr l, w')"
    and name: "link_name NL d = Some n"
  shows "nl_LinkByName NL (kern w') n = Inr l \<and> (created_as d l \<or> \<not> f l)"
proof -
  from name obtain a where a: "nl_Attrs NL d = Some a" "la_Name a = n" by (auto simp: link_name_def)
  show ?thesis
  proof (cases "nl_LinkByName NL (kern w) n")
    case (Inl e)
    then have "create_link NL d n w = (Inr l, w')"
      using run a by (auto simp: basicUpsertWithCheck_def split: if_splits)
    from create_link_result[OF laws this _ name] Inl show ?thesis by blast
  next
    case (Inr r)
    show ?thesis
    proof (cases "f r")
      case False
      then show ?thesis using run a Inr by (auto simp: basicUpsertWithCheck_def)
    next
      case True
      obtain e w1 where del: "nl_do NL (LinkDel r) w = (e, w1)" by fastforce
      have c: "create_link NL d n w1 = (Inr l, w')" and e: "e = None"
        using run a Inr True del by (auto simp: basicUpsertWithCheck_def split: option.splits)
      from del e have "nl_exec NL (kern w) (LinkDel r) = (None, kern w1)" by (simp add: nl_do_eqD)
      then obtain x where "nl_LinkByName NL (kern w1) n = Inl x" using law_deleted[OF laws Inr] by blast
      with create_link_result[OF laws c _ name] show ?thesis by blast
    qed
  qed
qed

text \<open>When it deletes nothing, it leaves the other links alone.\<close>

definition not_deletion :: "nl_call \<Rightarrow> bool" where
  "not_deletion c \<longleftrightarrow> (\<forall>l. c \<noteq> LinkDel l)"

lemma create_link_kept:
  assumes laws: "netlink_laws NL" "frame_law NL" and run: "create_link NL d n w = (r, w')" and name: "link_name NL d = Some n"
  shows "kept_but NL n (kern w) (kern w')"
proof -
  obtain e where "nl_do NL (LinkAdd d) w = (e, w')"
    using run by (auto simp: create_link_def Let_def split: prod.splits option.splits sum.splits if_splits)
  then have ex: "nl_exec NL (kern w) (LinkAdd d) = (e, kern w')" by (simp add: nl_do_eqD)
  show ?thesis
  proof (cases e)
    case None
    then show ?thesis using laws(2) ex name by (auto simp: frame_law_def kept_but_def)
  next
    case (Some x)
    then show ?thesis using law_failed_call[OF laws(1), of "kern w" "LinkAdd d" x "kern w'"] ex by simp
  qed
qed

lemma basicUpsertWithCheck_kept:
  assumes laws: "netlink_laws NL" "frame_law NL" and run: "basicUpsertWithCheck NL d f w = (r, w')"
    and name: "link_name NL d = Some n" and kept: "emits not_deletion w w'"
  shows "kept_but NL n (kern w) (kern w')"
proof -
  from name obtain a where a: "nl_Attrs NL d = Some a" "la_Name a = n" by (auto simp: link_name_def)
  show ?thesis
  proof (cases "nl_LinkByName NL (kern w) n")
    case (Inl e)
    then have "w' = w \<or> create_link NL d n w = (r, w')"
      using run a by (auto simp: basicUpsertWithCheck_def split: if_splits)
    then show ?thesis using create_link_kept[OF laws _ name] by auto
  next
    case (Inr x)
    show ?thesis
    proof (cases "f x")
      case False
      then show ?thesis using run a Inr by (auto simp: basicUpsertWithCheck_def)
    next
      case True
      obtain e w1 where del: "nl_do NL (LinkDel x) w = (e, w1)" by fastforce
      have "w' = w1 \<or> create_link NL d n w1 = (r, w')"
        using run a Inr True del by (auto simp: basicUpsertWithCheck_def split: option.splits)
      then have "emits (\<lambda>_. True) w1 w'" using create_link_emits[OF _ name, of w1] emits_mono by fastforce
      then have "LinkDel x \<in> set (drop (length (nl_trace w)) (nl_trace w'))"
        using nl_do_eqD[OF del] by (auto simp: emits_def)
      then show ?thesis using kept by (auto simp: emits_def not_deletion_def list_all_iff)
    qed
  qed
qed

end
