(* ===== verification/Manager_Contract.thy ===== *)
theory Manager_Contract
  imports Manager_Convergence
begin

text \<open>
  The contract of a link manager, as the interface \<open>Manager\<close> of \<open>linkmanager.go\<close> promises it to the
  NodeLinks controller: \<open>IsUpsertNeeded\<close> reports exactly the difference between the kernel and the
  resource, \<open>Upsert\<close> removes it, acts on no other link, and an unmanaged link is never touched. The
  locale \<open>link_manager\<close> states the interface; the three managers and their dispatch interpret it.
\<close>

subsection \<open>Bridges converge\<close>

definition bridge_matches :: "BridgeSpec \<Rightarrow> LinkAttrs \<Rightarrow> bool" where
  "bridge_matches br a \<longleftrightarrow> mtu_matches (br_MTU br) a \<and> la_FlagUp a"

lemma bridge_IsUpsertNeeded_False_iff:
  "bridge_IsUpsertNeeded NL link k links = Some (Inr False) \<longleftrightarrow>
     (\<exists>l a br. nl_LinkByName NL k (LinkName link) = Inr l \<and> nl_Type NL l = ''bridge'' \<and>
        nl_Attrs NL l = Some a \<and> Spec_Bridge link = Some br \<and> bridge_matches br a)"
  by (auto simp: bridge_IsUpsertNeeded_def bridge_matches_def mtu_matches_def bind_eq_Some_conv
      split: sum.splits option.splits if_splits)

lemma bridge_setter:
  assumes laws: "netlink_laws NL" and cfg: "configured NL (kern w) n (NlBridge b)"
    and run: "nl_do NL c w = (None, w')" and "is_setter c" "\<not> is_request c"
    and idx: "call_index NL c = Some (la_Index b)"
  shows "configured NL (kern w') n (call_effect c (NlBridge b))" "kept_but NL n (kern w) (kern w')"
proof -
  have "call_index NL c = map_option la_Index (nl_Attrs NL l')" if "same_config l' (NlBridge b)" for l'
    using that idx by (auto elim!: same_config_bridgeE simp: netlink_types_simps[OF netlink_laws_types[OF laws]])
  note configured_setter[OF laws cfg run \<open>is_setter c\<close> this]
  then show "configured NL (kern w') n (call_effect c (NlBridge b))" "kept_but NL n (kern w) (kern w')"
    by (simp_all add: effect_of_exact[OF \<open>\<not> is_request c\<close>])
qed

lemma bridge_Upsert_result:
  assumes laws: "netlink_laws NL" and run: "bridge_Upsert NL link links w = Some (None, w')"
  shows "(\<exists>a br. nl_LinkByName NL (kern w') (LinkName link) = Inr (NlBridge a) \<and>
      Spec_Bridge link = Some br \<and> bridge_matches br a) \<and>
    (\<exists>l w1. basicUpsert NL (bridge_desired NL link) w = (Inr l, w1) \<and> emits is_setter w1 w' \<and>
      kept_but NL (LinkName link) (kern w1) (kern w'))"
proof -
  let ?n = "LinkName link"
  note types = netlink_types_simps[OF netlink_laws_types[OF laws]]
  have name: "link_name NL (bridge_desired NL link) = Some ?n"
    by (simp add: link_name_def bridge_desired_def types)
  from run obtain a w1 br where up: "basicUpsert NL (bridge_desired NL link) w = (Inr (NlBridge a), w1)"
    and br: "Spec_Bridge link = Some br"
    and rest: "and_then (bridge_upsert_MTU NL ?n br (NlBridge a) a) (bridge_upsert_up NL ?n (NlBridge a)) w1 = Some (None, w')"
    by (auto simp: bridge_Upsert_def bind_eq_Some_conv split: prod.splits sum.splits nlink.splits)
  have found: "configured NL (kern w1) ?n (NlBridge a)"
    using basicUpsertWithCheck_result[OF laws _ name] up by (auto simp: basicUpsert_def intro: configuredI)
  from rest obtain w2 where mtu: "bridge_upsert_MTU NL ?n br (NlBridge a) a w1 = Some (None, w2)"
    and upc: "nl_do NL (LinkSetUp (NlBridge a)) w2 = (None, w')"
    by (auto simp: and_then_None_iff bridge_upsert_up_def wrap_err_def prod_eq_iff)
  obtain m where m: "configured NL (kern w2) ?n (NlBridge (a\<lparr>la_MTU := m\<rparr>))" "mtu_matches (br_MTU br) (a\<lparr>la_MTU := m\<rparr>)"
    "emits is_setter w1 w2" "kept_but NL ?n (kern w1) (kern w2)"
  proof (cases "mtu_matches (br_MTU br) a")
    case True
    then have "w2 = w1" using mtu by (auto simp: bridge_upsert_MTU_def mtu_matches_def split: option.splits)
    then show thesis using that[of "la_MTU a"] found True by simp
  next
    case False
    then obtain x where x: "br_MTU br = Some x" "la_MTU a \<noteq> sint x" by (auto simp: mtu_matches_def split: option.splits)
    then have do: "nl_do NL (LinkSetMTU (NlBridge a) (sint x)) w1 = (None, w2)"
      using mtu by (auto simp: bridge_upsert_MTU_def wrap_err_def prod_eq_iff)
    from bridge_setter[OF laws found do] nl_do_emits[OF do, of is_setter] x that[of "sint x"] show thesis
      by (simp add: call_index_def call_effect_def types mtu_matches_def)
  qed
  from bridge_setter[OF laws m(1) upc] have cfg: "configured NL (kern w') ?n (NlBridge (a\<lparr>la_MTU := m, la_FlagUp := True\<rparr>))"
    and k: "kept_but NL ?n (kern w2) (kern w')"
    by (simp_all add: call_index_def call_effect_def types)
  from cfg obtain b where "nl_LinkByName NL (kern w') ?n = Inr (NlBridge b)" "la_MTU b = m" "la_FlagUp b"
    by (auto simp: configured_def elim!: same_config_bridgeE)
  then have "\<exists>a br. nl_LinkByName NL (kern w') ?n = Inr (NlBridge a) \<and> Spec_Bridge link = Some br \<and> bridge_matches br a"
    using br m(2) by (auto simp: bridge_matches_def mtu_matches_def split: option.splits)
  moreover have "emits is_setter w1 w'" using emits_trans[OF m(3) nl_do_emits[OF upc]] by simp
  ultimately show ?thesis using up kept_but_trans[OF m(4) k] by blast
qed

subsection \<open>VXLANs converge\<close>

lemma vxlan_IsUpsertNeeded_False_iff:
  assumes "netlink_types NL" and "vx_SourcePort vx = Some sp" and "Spec_VXLAN link = Some vx"
  shows "vxlan_IsUpsertNeeded NL link k links = Some (Inr False) \<longleftrightarrow>
     (\<exists>a v. nl_LinkByName NL k (LinkName link) = Inr (NlVxlan a v) \<and> vxlan_matches NL vx sp a v k links)"
  using assms by (auto simp: vxlan_IsUpsertNeeded_def vxlan_check_existing_False_iff netlink_types_simps
      split: sum.splits nlink.splits if_splits)

lemma vxlan_forceReplace_vxlan:
  assumes "netlink_types NL"
  shows "vxlan_forceReplace NL (NlVxlan da dv) (NlVxlan ea ev) \<longleftrightarrow>
     \<not> (vl_VxlanId ev = vl_VxlanId dv \<and> vl_PortLow ev = vl_PortLow dv \<and> vl_PortHigh ev = vl_PortHigh dv \<and>
        vl_Port ev = vl_Port dv \<and> (length (vl_Group ev) = 4 \<or> vl_Group ev = []))"
  using assms by (auto simp: vxlan_forceReplace_def netlink_types_simps)

lemma vxlan_Upsert_cases:
  assumes "vxlan_Upsert NL link links w = Some (e, w')"
  obtains (failed) vx sp err where "Spec_VXLAN link = Some vx" "vx_SourcePort vx = Some sp"
      "basicUpsertWithCheck NL (vxlan_desired NL link vx sp) (vxlan_forceReplace NL (vxlan_desired NL link vx sp)) w = (Inl err, w')"
      "e = Some (Wrapf (LinksMsg (UpsertVxlan (LinkName link))) err)"
  | (wrong_type) vx sp l where "Spec_VXLAN link = Some vx" "vx_SourcePort vx = Some sp"
      "basicUpsertWithCheck NL (vxlan_desired NL link vx sp) (vxlan_forceReplace NL (vxlan_desired NL link vx sp)) w = (Inr l, w')"
      "e = Some (Errorf (LinksMsg (CastToVxlan (LinkName link))))"
  | (configured) vx sp a v w1 where "Spec_VXLAN link = Some vx" "vx_SourcePort vx = Some sp"
      "basicUpsertWithCheck NL (vxlan_desired NL link vx sp) (vxlan_forceReplace NL (vxlan_desired NL link vx sp)) w = (Inr (NlVxlan a v), w1)"
      "vxlan_configure NL (LinkName link) vx links a v w1 = Some (e, w')"
proof -
  from assms obtain vx sp where specs: "Spec_VXLAN link = Some vx" "vx_SourcePort vx = Some sp"
    by (auto simp: vxlan_Upsert_def bind_eq_Some_conv)
  obtain r w1 where "basicUpsertWithCheck NL (vxlan_desired NL link vx sp)
      (vxlan_forceReplace NL (vxlan_desired NL link vx sp)) w = (r, w1)" by fastforce
  then show thesis using assms specs that
    by (cases r) (auto simp: vxlan_Upsert_def split: nlink.splits)
qed

text \<open>The steps change the VXLAN in place.\<close>

definition in_place :: "nl_call \<Rightarrow> bool" where
  "in_place = is_setter"

lemma vxlan_device_in_place:
  assumes "vxlan_upsert_device NL nm vx l v links w = Some (e, w')"
  shows "emits in_place w w'"
proof -
  obtain r where r: "doesLinkRefNeedUpdate NL (kern w) (vx_Device vx) (vl_VtepDevIndex v) links = Some r"
    using assms(1) by (auto simp: vxlan_upsert_device_def bind_eq_Some_conv)
  then show ?thesis using assms(1)
    by (auto simp: vxlan_upsert_device_def linkSetVXLANVtepDevIndex_def in_place_def bind_eq_Some_conv
        wrap_err_def intro: nl_do_emits split: sum.splits bool.splits)
qed

lemma vxlan_master_in_place:
  assumes "vxlan_upsert_master NL nm vx l a' links w = Some (e, w')"
  shows "emits in_place w w'"
proof -
  obtain r where r: "doesLinkRefNeedUpdate NL (kern w) (vx_Master vx) (la_MasterIndex a') links = Some r"
    using assms(1) by (auto simp: vxlan_upsert_master_def bind_eq_Some_conv)
  then show ?thesis using assms
    by (auto simp: vxlan_upsert_master_def in_place_def split: sum.splits bool.splits elim!: wrapped_nl_do_emits)
qed

lemma vxlan_steps_in_place:
  shows "vxlan_upsert_MTU NL nm vx l a' w = Some (e, w') \<Longrightarrow> emits in_place w w'"
    and "vxlan_upsert_group NL nm vx l v w = Some (e, w') \<Longrightarrow> emits in_place w w'"
    and "vxlan_upsert_learning NL nm vx l v w = Some (e, w') \<Longrightarrow> emits in_place w w'"
    and "vxlan_upsert_up NL nm l w = Some (e, w') \<Longrightarrow> emits in_place w w'"
  by (auto simp: vxlan_upsert_MTU_def vxlan_upsert_group_def vxlan_upsert_learning_def bind_eq_Some_conv
      vxlan_upsert_up_def linkSetVXLANGroup_def linkSetVXLANLearning_def Let_def wrap_err_def in_place_def
      intro: nl_do_emits emits_nl_do split: option.splits if_splits prod.splits)

lemma vxlan_configure_in_place:
  assumes "vxlan_configure NL n vx links a v w = Some (e, w')"
  shows "emits in_place w w'"
  using assms unfolding vxlan_configure_def Let_def
  by (elim emits_and_then)
    (erule vxlan_steps_in_place vxlan_device_in_place vxlan_master_in_place | assumption)+

lemma vxlan_Upsert_result:
  assumes laws: "netlink_laws NL" and run: "vxlan_Upsert NL link links w = Some (None, w')"
  shows "\<exists>a v vx sp. nl_LinkByName NL (kern w') (LinkName link) = Inr (NlVxlan a v) \<and>
    Spec_VXLAN link = Some vx \<and> vx_SourcePort vx = Some sp \<and> vxlan_configured NL vx sp a v (kern w') links \<and>
    (vx_Device vx = None \<or> emits not_request w w' \<longrightarrow> mtu_matches (vx_MTU vx) a) \<and>
    (\<exists>l w1. basicUpsertWithCheck NL (vxlan_desired NL link vx sp) (vxlan_forceReplace NL (vxlan_desired NL link vx sp)) w = (Inr l, w1) \<and>
      emits is_setter w1 w' \<and> kept_but NL (LinkName link) (kern w1) (kern w'))"
  using run
proof (cases rule: vxlan_Upsert_cases)
  case (configured vx sp a v w1)
  let ?d = "vxlan_desired NL link vx sp"
  note types = netlink_laws_types[OF laws]
  have name: "link_name NL ?d = Some (LinkName link)"
    by (simp add: link_name_def vxlan_desired_def netlink_types_simps[OF types])
  have res: "nl_LinkByName NL (kern w1) (LinkName link) = Inr (NlVxlan a v)"
    "created_as ?d (NlVxlan a v) \<or> \<not> vxlan_forceReplace NL ?d (NlVxlan a v)"
    using basicUpsertWithCheck_result[OF laws configured(3) name] by simp_all
  then have fixed: "vl_VxlanId v = sint (vx_VNID vx)" "vl_Port v = sint (vx_RemotePort vx)"
      "vl_PortLow v = sint (pr_Start sp)" "vl_PortHigh v = sint (pr_End sp)"
    unfolding vxlan_desired_def vxlan_forceReplace_vxlan[OF types] by (auto simp: created_as_def)
  have "emits not_request w1 w'" if "emits not_request w w'"
    by (rule emits_split(2)[OF that conjunct1[OF basicUpsertWithCheck_emits[OF configured(3) name]]
        vxlan_configure_in_place[OF configured(4)]])
  then show ?thesis
    using vxlan_configure_converges[OF laws configured(4) res(1) fixed] configured(1-3)
      vxlan_configure_in_place[OF configured(4)] unfolding in_place_def by blast
qed simp_all

subsection \<open>In place or replaced\<close>

text \<open>An existing VXLAN of the same identity and an IPv4 group, or none, keeps its device.\<close>

lemma vxlan_Upsert_kept:
  assumes run: "vxlan_Upsert NL link links w = Some (e, w')" and types: "netlink_types NL"
    and specs: "Spec_VXLAN link = Some vx" "vx_SourcePort vx = Some sp"
    and found: "nl_LinkByName NL (kern w) (LinkName link) = Inr (NlVxlan a v)"
    and same: "vl_VxlanId v = sint (vx_VNID vx)" "vl_Port v = sint (vx_RemotePort vx)"
      "vl_PortLow v = sint (pr_Start sp)" "vl_PortHigh v = sint (pr_End sp)"
    and grp: "length (vl_Group v) = 4 \<or> vl_Group v = []"
  shows "emits in_place w w'"
proof -
  let ?d = "vxlan_desired NL link vx sp"
  have "\<not> vxlan_forceReplace NL ?d (NlVxlan a v)"
    using same grp unfolding vxlan_desired_def vxlan_forceReplace_vxlan[OF types] by auto
  then have "basicUpsertWithCheck NL ?d (vxlan_forceReplace NL ?d) w = (Inr (NlVxlan a v), w)"
    using found by (auto simp: basicUpsertWithCheck_def vxlan_desired_def netlink_types_simps[OF types])
  then show ?thesis using run specs vxlan_configure_in_place[of NL "LinkName link" vx links a v w]
    by (auto simp: vxlan_Upsert_def)
qed

lemma vxlan_Upsert_replaced:
  assumes run: "vxlan_Upsert NL link links w = Some (e, w')" and types: "netlink_types NL"
    and specs: "Spec_VXLAN link = Some vx" "vx_SourcePort vx = Some sp"
    and found: "nl_LinkByName NL (kern w) (LinkName link) = Inr l"
    and differs: "vxlan_forceReplace NL (vxlan_desired NL link vx sp) l"
  shows "(\<exists>cs. nl_trace w' = nl_trace w @ LinkDel l # LinkAdd (vxlan_desired NL link vx sp) # cs) \<or>
    nl_trace w' = nl_trace w @ [LinkDel l] \<and> e \<noteq> None"
proof -
  let ?d = "vxlan_desired NL link vx sp"
  obtain x w1 where del: "nl_do NL (LinkDel l) w = (x, w1)" by fastforce
  have t1: "nl_trace w1 = nl_trace w @ [LinkDel l]" using del by (simp add: nl_do_eqD)
  obtain r w2 where up: "basicUpsertWithCheck NL ?d (vxlan_forceReplace NL ?d) w = (r, w2)" by fastforce
  have attrs: "nl_Attrs NL ?d = Some ((nl_NewLinkAttrs NL)\<lparr>la_Name := LinkName link\<rparr>)"
    by (simp add: netlink_types_simps[OF types] vxlan_desired_def)
  have b: "(r, w2) = (case x of Some y \<Rightarrow> (Inl (Wrapf (LinksMsg (DeleteExistingLink (nl_Type NL l) (LinkName link))) y), w1)
      | None \<Rightarrow> create_link NL ?d (LinkName link) w1)"
    using up found differs del attrs by (simp add: basicUpsertWithCheck_def Let_def)
  have t3: "\<exists>cs. nl_trace w' = nl_trace w2 @ cs" using run
  proof (cases rule: vxlan_Upsert_cases)
    case (configured vx' sp' a v w3)
    then show ?thesis using up specs vxlan_configure_in_place[OF configured(4)] by (auto simp: emits_def)
  qed (use up specs in auto)
  show ?thesis
  proof (cases x)
    case None
    then have c: "create_link NL ?d (LinkName link) w1 = (r, w2)" using b by simp
    then have "nl_trace w2 = nl_trace w1 @ [LinkAdd ?d]"
      by (auto simp: create_link_def Let_def split: prod.splits option.splits sum.splits if_splits dest: nl_do_eqD)
    then show ?thesis using t1 t3 by auto
  next
    case (Some y)
    then have "r = Inl (Wrapf (LinksMsg (DeleteExistingLink (nl_Type NL l) (LinkName link))) y)" "w2 = w1"
      using b by simp_all
    then show ?thesis using run up specs t1 by (auto simp: vxlan_Upsert_def)
  qed
qed

subsection \<open>Others are left alone\<close>

text \<open>An upsert that deletes nothing leaves the links of other names alone.\<close>

lemma bridge_Upsert_keeps:
  assumes laws: "netlink_laws NL" "frame_law NL" and run: "bridge_Upsert NL link links w = Some (None, w')"
    and kept: "emits not_deletion w w'"
  shows "kept_but NL (LinkName link) (kern w) (kern w')"
proof -
  have name: "link_name NL (bridge_desired NL link) = Some (LinkName link)"
    by (simp add: link_name_def bridge_desired_def netlink_types_simps[OF netlink_laws_types[OF laws(1)]])
  from bridge_Upsert_result[OF laws(1) run] obtain l w1 where
    up: "basicUpsertWithCheck NL (bridge_desired NL link)
        (\<lambda>existingLink. nl_Type NL existingLink \<noteq> nl_Type NL (bridge_desired NL link)) w = (Inr l, w1)"
    and rest: "emits is_setter w1 w'" "kept_but NL (LinkName link) (kern w1) (kern w')"
    unfolding basicUpsert_def by blast
  have "emits not_deletion w w1"
    using emits_split(1)[OF kept _ rest(1)] basicUpsertWithCheck_emits[OF up name] by blast
  from kept_but_trans[OF basicUpsertWithCheck_kept[OF laws up name this] rest(2)] show ?thesis .
qed

lemma vxlan_Upsert_keeps:
  assumes laws: "netlink_laws NL" "frame_law NL" and run: "vxlan_Upsert NL link links w = Some (None, w')"
    and kept: "emits not_deletion w w'"
  shows "kept_but NL (LinkName link) (kern w) (kern w')"
proof -
  from vxlan_Upsert_result[OF laws(1) run] obtain vx sp l w1 where
    up: "basicUpsertWithCheck NL (vxlan_desired NL link vx sp) (vxlan_forceReplace NL (vxlan_desired NL link vx sp)) w = (Inr l, w1)"
    and rest: "emits is_setter w1 w'" "kept_but NL (LinkName link) (kern w1) (kern w')" by blast
  have name: "link_name NL (vxlan_desired NL link vx sp) = Some (LinkName link)"
    by (simp add: link_name_def vxlan_desired_def netlink_types_simps[OF netlink_laws_types[OF laws(1)]])
  have "emits not_deletion w w1"
    using emits_split(1)[OF kept _ rest(1)] basicUpsertWithCheck_emits[OF up name] by blast
  from kept_but_trans[OF basicUpsertWithCheck_kept[OF laws up name this] rest(2)] show ?thesis .
qed

text \<open>
  A settled link stays settled while links of other names are worked on: it is looked up as it was, and
  the indices it refers to keep their names. Only the MTU of a bridge, and of a VXLAN with a device, is not
  its own: the kernel adapts it to the ports and to the device.
\<close>

definition no_bridge_MTU :: "Link \<Rightarrow> bool" where
  "no_bridge_MTU link \<longleftrightarrow> (case Spec_Bridge link of None \<Rightarrow> True | Some br \<Rightarrow> br_MTU br = None)"

definition no_device_MTU :: "Link \<Rightarrow> bool" where
  "no_device_MTU link \<longleftrightarrow>
     (case Spec_VXLAN link of None \<Rightarrow> True | Some vx \<Rightarrow> vx_MTU vx = None \<or> vx_Device vx = None)"

definition still_there :: "'k netlink \<Rightarrow> string \<Rightarrow> 'k \<Rightarrow> 'k \<Rightarrow> bool" where
  "still_there NL n k k' \<longleftrightarrow> index_names_kept NL k k' \<and>
     (\<forall>x. nl_LinkByName NL k n = Inr x \<longrightarrow> (\<exists>x'. nl_LinkByName NL k' n = Inr x' \<and> alike NL x' x))"

lemma still_there_refl [simp]: "still_there NL n k k"
  by (auto simp: still_there_def intro: alike_refl)

lemma still_there_trans: "still_there NL n k1 k2 \<Longrightarrow> still_there NL n k2 k3 \<Longrightarrow> still_there NL n k1 k3"
  unfolding still_there_def by (meson alike_trans index_names_kept_trans)

lemma kept_but_still_there: "kept_but NL n k k' \<Longrightarrow> frame_law NL \<Longrightarrow> m \<noteq> n \<Longrightarrow> still_there NL m k k'"
  by (auto simp: kept_but_def still_there_def others_alike_def)

lemma alike_attrs:
  assumes "alike NL l l'" and "nl_Attrs NL l' = Some a"
  obtains b where "nl_Attrs NL l = Some b" "la_FlagUp b = la_FlagUp a"
proof -
  obtain b where b: "nl_Attrs NL l = Some b" "b\<lparr>la_OperState := OperUnknown, la_MTU := 0\<rparr> = a\<lparr>la_OperState := OperUnknown, la_MTU := 0\<rparr>"
    using assms by (cases "nl_Attrs NL l") (auto simp: alike_def)
  then have "la_FlagUp b = la_FlagUp a" by (cases a; cases b; simp)
  then show thesis using that b(1) by blast
qed

lemma bridge_stays_settled:
  assumes "bridge_IsUpsertNeeded NL link k links = Some (Inr False)" and "still_there NL (LinkName link) k k'" and "no_bridge_MTU link"
  shows "bridge_IsUpsertNeeded NL link k' links = Some (Inr False)"
proof -
  from assms(1)[unfolded bridge_IsUpsertNeeded_False_iff] obtain l a br where
    l: "nl_LinkByName NL k (LinkName link) = Inr l" "nl_Type NL l = ''bridge''" "nl_Attrs NL l = Some a"
      "Spec_Bridge link = Some br" "bridge_matches br a" by blast
  obtain x where x: "nl_LinkByName NL k' (LinkName link) = Inr x" "alike NL x l"
    using assms(2) l(1) by (auto simp: still_there_def)
  obtain b where "nl_Attrs NL x = Some b" "la_FlagUp b = la_FlagUp a" by (rule alike_attrs[OF x(2) l(3)])
  moreover have "br_MTU br = None" using assms(3) l(4) by (simp add: no_bridge_MTU_def)
  moreover have "nl_Type NL x = ''bridge''" using x(2) l(2) by (simp add: alike_def)
  ultimately show ?thesis using x(1) l(4,5)
    by (auto simp: bridge_IsUpsertNeeded_False_iff bridge_matches_def mtu_matches_def)
qed

lemma vxlan_stays_settled:
  assumes "vxlan_IsUpsertNeeded NL link k links = Some (Inr False)" and "still_there NL (LinkName link) k k'" and types: "netlink_types NL"
    and "no_device_MTU link"
  shows "vxlan_IsUpsertNeeded NL link k' links = Some (Inr False)"
proof -
  from assms(1) obtain a v vx where found: "nl_LinkByName NL k (LinkName link) = Inr (NlVxlan a v)" "Spec_VXLAN link = Some vx"
    and check: "vxlan_check_existing NL vx a v k links = Some (Inr False)"
    by (auto simp: vxlan_IsUpsertNeeded_def bind_eq_Some_conv split: sum.splits nlink.splits if_splits)
  have "vx_SourcePort vx \<noteq> None"
  proof
    assume "vx_SourcePort vx = None"
    then show False using check unfolding vxlan_check_existing_def
      by (cases "doesLinkRefNeedUpdate NL k (vx_Master vx) (la_MasterIndex a) links")
        (auto split: if_split_asm sum.split_asm bool.split_asm)
  qed
  then obtain sp where sp: "vx_SourcePort vx = Some sp" by blast
  note iff = vxlan_IsUpsertNeeded_False_iff[OF types sp found(2)]
  have m: "vxlan_matches NL vx sp a v k links" using assms(1) found(1) unfolding iff by simp
  obtain x where x: "nl_LinkByName NL k' (LinkName link) = Inr x" "alike NL x (NlVxlan a v)"
    using assms(2) found(1) by (auto simp: still_there_def)
  then have "same_config (without_shared_MTU x) (without_shared_MTU (NlVxlan a v))" by (simp add: alike_def)
  then obtain b where b: "x = NlVxlan b v" "la_MasterIndex b = la_MasterIndex a" "la_FlagUp b = la_FlagUp a"
    "vl_VtepDevIndex v = 0 \<Longrightarrow> la_MTU b = la_MTU a"
    by (rule same_but_MTU_vxlanE) (rule that)
  have kept: "index_names_kept NL k k'" using assms(2) by (simp add: still_there_def)
  have conf: "vxlan_configured NL vx sp b v k' links"
    using m ref_resolved_kept[OF _ kept] unfolding vxlan_matches_defs b(2,3) by simp
  have "vl_VtepDevIndex v = 0" if "vx_Device vx = None"
    using m that by (simp add: vxlan_matches_defs ref_resolved_def resolveLinkRef_def)
  then have "mtu_matches (vx_MTU vx) b"
    using m assms(4) b(4) found(2) by (auto simp: no_device_MTU_def vxlan_matches_def mtu_matches_def split: option.splits)
  with conf show ?thesis unfolding iff vxlan_matches_def using x(1) b(1) by blast
qed

subsection \<open>A second upsert\<close>

text \<open>
  An upsert of a VXLAN that is as specified but for its MTU, and that is not replaced, sends no request:
  the MTU it sets is the last word.
\<close>

lemma vxlan_configure_no_request:
  assumes laws: "netlink_laws NL" and conf: "vxlan_configured NL vx sp a v (kern w) links"
    and found: "nl_LinkByName NL (kern w) n = Inr (NlVxlan a v)"
    and run: "vxlan_configure NL n vx links a v w = Some (None, w')"
  shows "emits not_request w w'"
proof -
  let ?l = "NlVxlan a v"
  note conf = conf[unfolded vxlan_configured_def]
  from run obtain w1 w2 w3 w4 w5 where steps:
    "vxlan_upsert_MTU NL n vx ?l a w = Some (None, w1)"
    "vxlan_upsert_device NL n vx ?l v links w1 = Some (None, w2)"
    "vxlan_upsert_group NL n vx ?l v w2 = Some (None, w3)"
    "vxlan_upsert_learning NL n vx ?l v w3 = Some (None, w4)"
    "vxlan_upsert_master NL n vx ?l a links w4 = Some (None, w5)"
    "vxlan_upsert_up NL n ?l w5 = Some (None, w')"
    by (auto simp: vxlan_configure_def Let_def and_then_None_iff)
  obtain m where "kept_but NL n (kern w) (kern w1)"
    by (rule vxlan_MTU_step[OF laws steps(1) configuredI[OF found]])
  then have "ref_resolved NL (kern w1) (vx_Device vx) (vl_VtepDevIndex v) links"
    "ref_resolved NL (kern w1) (vx_Master vx) (la_MasterIndex a) links"
    using conf by (auto elim: ref_resolved_kept_but)
  note res = this[folded doesLinkRefNeedUpdate_False_iff]
  have 2: "w2 = w1" using steps(2) res(1) by (simp add: vxlan_upsert_device_def)
  have 3: "w3 = w2" using steps(3) conf by (simp add: vxlan_upsert_group_def)
  have 4: "w4 = w3" using steps(4) conf by (simp add: vxlan_upsert_learning_def)
  have 5: "w5 = w4" using steps(5) res(2) 2 3 4 by (simp add: vxlan_upsert_master_def)
  have "emits not_request w w1" using steps(1)
    by (auto simp: vxlan_upsert_MTU_def wrap_err_def not_request_def intro: nl_do_emits emits_nl_do
        split: option.splits if_splits prod.splits)
  moreover have "emits not_request w5 w'" using steps(6)
    by (auto simp: vxlan_upsert_up_def wrap_err_def not_request_def intro: nl_do_emits emits_nl_do split: prod.splits)
  ultimately show ?thesis unfolding 2 3 4 5 by (rule emits_trans)
qed

lemma basicUpsertWithCheck_kept_link:
  assumes "basicUpsertWithCheck NL d f w = (Inr l, w')" and "emits not_deletion w w'"
    and "link_name NL d = Some n" and found: "nl_LinkByName NL (kern w) n = Inr x"
  shows "l = x \<and> w' = w"
proof -
  from assms(3) obtain a where a: "nl_Attrs NL d = Some a" "la_Name a = n" by (auto simp: link_name_def)
  have "\<not> f x"
  proof
    assume "f x"
    obtain e w1 where del: "nl_do NL (LinkDel x) w = (e, w1)" by fastforce
    have "w' = w1 \<or> create_link NL d n w1 = (Inr l, w')"
      using assms(1) a found \<open>f x\<close> del by (auto simp: basicUpsertWithCheck_def split: option.splits)
    then have "emits (\<lambda>_. True) w1 w'" using create_link_emits[OF _ assms(3), of w1] emits_mono by fastforce
    then have "LinkDel x \<in> set (drop (length (nl_trace w)) (nl_trace w'))"
      using nl_do_eqD[OF del] by (auto simp: emits_def)
    then show False using assms(2) by (auto simp: emits_def not_deletion_def list_all_iff)
  qed
  then show ?thesis using assms(1) a found by (auto simp: basicUpsertWithCheck_def)
qed

lemma vxlan_Upsert_twice:
  assumes laws: "netlink_laws NL" and first: "vxlan_Upsert NL link links w = Some (None, w')"
    and second: "vxlan_Upsert NL link links w1 = Some (None, w2)" and same: "kern w1 = kern w'"
    and kept: "emits not_deletion w1 w2"
  shows "vxlan_IsUpsertNeeded NL link (kern w2) links = Some (Inr False)"
proof -
  note types = netlink_laws_types[OF laws]
  from vxlan_Upsert_result[OF laws first] obtain a v vx sp where
    found: "nl_LinkByName NL (kern w1) (LinkName link) = Inr (NlVxlan a v)"
    and specs: "Spec_VXLAN link = Some vx" "vx_SourcePort vx = Some sp" and conf: "vxlan_configured NL vx sp a v (kern w1) links"
    unfolding same by blast
  let ?d = "vxlan_desired NL link vx sp"
  have name: "link_name NL ?d = Some (LinkName link)"
    by (simp add: link_name_def vxlan_desired_def netlink_types_simps[OF types])
  have "emits not_request w1 w2" using second
  proof (cases rule: vxlan_Upsert_cases)
    case (configured vx' sp' a' v' w3)
    then have eq: "vx' = vx" "sp' = sp" using specs by simp_all
    have "emits not_deletion w1 w3"
      by (rule emits_split(1)[OF kept conjunct1[OF basicUpsertWithCheck_emits[OF configured(3) name[folded eq]]]
          vxlan_configure_in_place[OF configured(4)]])
    from basicUpsertWithCheck_kept_link[OF configured(3) this _ found] name eq have "a' = a" "v' = v" "w3 = w1" by simp_all
    then show ?thesis using vxlan_configure_no_request[OF laws conf found] configured(4) eq by simp
  qed simp_all
  then show ?thesis using vxlan_Upsert_result[OF laws second] specs
    unfolding vxlan_IsUpsertNeeded_False_iff[OF types specs(2,1)] vxlan_matches_def by auto
qed

subsection \<open>The interface\<close>

text \<open>
  \<open>upsert_ok\<close> is the guarantee on the kernel's side: the laws of theory \<open>Netlink\<close>.
\<close>

locale link_manager =
  fixes NL :: "'k netlink"
    and lname :: string
    and managed :: bool
    and needed :: "'k \<Rightarrow> link_map \<Rightarrow> (goerror + bool) option"
    and upsert :: "link_map \<Rightarrow> 'k kworld \<Rightarrow> (goerror option \<times> 'k kworld) option"
    and once :: bool
    and lasting :: bool
  assumes upsert_acts: "netlink_types NL \<Longrightarrow> upsert links w = Some (e, w') \<Longrightarrow> emits (acts_on NL lname) w w'"
    and upsert_unmanaged: "\<not> managed \<Longrightarrow> upsert links w = Some (None, w)"
    and needed_unmanaged: "\<not> managed \<Longrightarrow> needed k links = Some (Inr False)"
    and upsert_converges: "netlink_laws NL \<Longrightarrow> once \<Longrightarrow> upsert links w = Some (None, w') \<Longrightarrow>
      needed (kern w') links = Some (Inr False)"
    and upsert_converges_twice: "netlink_laws NL \<Longrightarrow> upsert links w = Some (None, w') \<Longrightarrow>
      upsert links w1 = Some (None, w2) \<Longrightarrow> kern w1 = kern w' \<Longrightarrow> emits not_deletion w1 w2 \<Longrightarrow>
      needed (kern w2) links = Some (Inr False)"
    and upsert_keeps: "netlink_laws NL \<Longrightarrow> frame_law NL \<Longrightarrow> upsert links w = Some (None, w') \<Longrightarrow> emits not_deletion w w' \<Longrightarrow>
      kept_but NL lname (kern w) (kern w')"
    and needed_stays: "netlink_laws NL \<Longrightarrow> lasting \<Longrightarrow> needed k links = Some (Inr False) \<Longrightarrow> still_there NL lname k k' \<Longrightarrow>
      needed k' links = Some (Inr False)"
begin

text \<open>What the controller does with a manager: check, and upsert only when the check says so.\<close>

definition ensure :: "link_map \<Rightarrow> 'k kworld \<Rightarrow> (goerror option \<times> 'k kworld) option" where
  "ensure links w =
     do {
       n \<leftarrow> needed (kern w) links;
       (case n of
          Inl e \<Rightarrow> Some (Some e, w)
        | Inr False \<Rightarrow> Some (None, w)
        | Inr True \<Rightarrow> upsert links w)
     }"

lemma ensure_cases:
  assumes "ensure links w = Some (e, w')"
  obtains (failed) x where "e = Some x" "w' = w"
  | (settled) "needed (kern w) links = Some (Inr False)" "e = None" "w' = w"
  | (upserted) "needed (kern w) links = Some (Inr True)" "upsert links w = Some (e, w')"
proof -
  from assms obtain r where r: "needed (kern w) links = Some r" by (auto simp: ensure_def bind_eq_Some_conv)
  consider x where "r = Inl x" | "r = Inr False" | "r = Inr True"
    by (metis (full_types) sum.exhaust)
  then show thesis
  proof cases
    case 1
    then show thesis using r assms by (intro that(1)) (auto simp: ensure_def)
  next
    case 2
    then show thesis using r assms by (intro that(2)) (auto simp: ensure_def)
  next
    case 3
    then show thesis using r assms by (intro that(3)) (auto simp: ensure_def)
  qed
qed

lemma ensure_settles:
  assumes "netlink_laws NL" "once" and "ensure links w = Some (None, w')"
  shows "ensure links w' = Some (None, w')"
proof -
  have "needed (kern w') links = Some (Inr False)"
    using assms(3) by (cases rule: ensure_cases) (auto dest: upsert_converges[OF assms(1,2)])
  then show ?thesis by (simp add: ensure_def)
qed

lemma ensure_acts:
  assumes "netlink_types NL" and "ensure links w = Some (e, w')"
  shows "emits (acts_on NL lname) w w'"
  using assms(2) by (cases rule: ensure_cases) (auto dest: upsert_acts[OF assms(1)])

lemma ensure_unmanaged: "\<not> managed \<Longrightarrow> ensure links w = Some (None, w)"
  by (simp add: ensure_def needed_unmanaged)

end

lemma bridge_Upsert_converges:
  assumes "netlink_laws NL" and "bridge_Upsert NL link links w = Some (None, w')"
  shows "bridge_IsUpsertNeeded NL link (kern w') links = Some (Inr False)"
  using bridge_Upsert_result[OF assms] netlink_types_simps[OF netlink_laws_types[OF assms(1)]]
  by (auto simp: bridge_IsUpsertNeeded_False_iff)

lemma vxlan_Upsert_converges:
  assumes "netlink_laws NL" and "no_device_MTU link" and "vxlan_Upsert NL link links w = Some (None, w')"
  shows "vxlan_IsUpsertNeeded NL link (kern w') links = Some (Inr False)"
proof -
  from vxlan_Upsert_result[OF assms(1,3)] obtain a v vx sp where r:
    "nl_LinkByName NL (kern w') (LinkName link) = Inr (NlVxlan a v)" "Spec_VXLAN link = Some vx" "vx_SourcePort vx = Some sp"
    "vxlan_configured NL vx sp a v (kern w') links" "vx_Device vx = None \<longrightarrow> mtu_matches (vx_MTU vx) a" by blast
  then have "mtu_matches (vx_MTU vx) a" using assms(2) by (auto simp: no_device_MTU_def mtu_matches_def)
  then show ?thesis using r
    unfolding vxlan_IsUpsertNeeded_False_iff[OF netlink_laws_types[OF assms(1)] r(3,2)] vxlan_matches_def by blast
qed

interpretation bridge_mgr: link_manager NL "LinkName link" bridge_IsManaged
    "bridge_IsUpsertNeeded NL link" "bridge_Upsert NL link" True "no_bridge_MTU link" for NL link
  by unfold_locales (auto simp: bridge_IsManaged_def intro: bridge_Upsert_emits bridge_Upsert_converges bridge_Upsert_keeps bridge_stays_settled)

interpretation vxlan_mgr: link_manager NL "LinkName link" vxlan_IsManaged
    "vxlan_IsUpsertNeeded NL link" "vxlan_Upsert NL link" "no_device_MTU link" "no_device_MTU link" for NL link
  by unfold_locales (auto simp: vxlan_IsManaged_def intro: vxlan_Upsert_emits vxlan_Upsert_converges vxlan_Upsert_twice
      vxlan_Upsert_keeps vxlan_stays_settled netlink_laws_types)

interpretation unmanaged_mgr: link_manager NL n unmanaged_IsManaged unmanaged_IsUpsertNeeded unmanaged_Upsert True True for NL n
  by unfold_locales (simp_all add: unmanaged_IsManaged_def unmanaged_IsUpsertNeeded_def unmanaged_Upsert_def)

lemma link_manager_weaken:
  "link_manager NL n managed needed upsert c d \<Longrightarrow> (a \<Longrightarrow> c) \<Longrightarrow> (b \<Longrightarrow> d) \<Longrightarrow> link_manager NL n managed needed upsert a b"
  by (auto simp: link_manager_def)

text \<open>The manager the controller picks for a resource, with the methods dispatched on it.\<close>

definition manager_of :: "Link \<Rightarrow> Manager" where
  "manager_of link = (case getLinkManager link of Inr m \<Rightarrow> m | Inl _ \<Rightarrow> UnmanagedManager)"

lemma manager_of_cases:
  obtains "manager_of link = BridgeManager link" | "manager_of link = VXLANManager link"
  | "manager_of link = UnmanagedManager"
  by (cases "Spec_Bridge link"; cases "Spec_VXLAN link"; cases "Spec_Unmanaged link")
    (simp_all add: manager_of_def getLinkManager_def)

lemma getLinkManager_manager_of: "getLinkManager link = Inr m \<Longrightarrow> m = manager_of link"
  by (simp add: manager_of_def)

lemma dispatch:
  "IsUpsertNeeded NL (BridgeManager l) = bridge_IsUpsertNeeded NL l" "Upsert NL (BridgeManager l) = bridge_Upsert NL l"
  "IsUpsertNeeded NL (VXLANManager l) = vxlan_IsUpsertNeeded NL l" "Upsert NL (VXLANManager l) = vxlan_Upsert NL l"
  "IsUpsertNeeded NL UnmanagedManager = unmanaged_IsUpsertNeeded" "Upsert NL UnmanagedManager = unmanaged_Upsert"
  by (simp_all add: fun_eq_iff)

text \<open>The links whose MTU, where one is asked for, is their own.\<close>

definition own_MTU :: "Link \<Rightarrow> bool" where
  "own_MTU link \<longleftrightarrow> no_bridge_MTU link \<and> no_device_MTU link"

interpretation mgr: link_manager NL "LinkName link" "IsManaged (manager_of link)"
    "IsUpsertNeeded NL (manager_of link)" "Upsert NL (manager_of link)" "no_device_MTU link" "own_MTU link" for NL link
proof (cases rule: manager_of_cases[of link])
  case 1
  show "link_manager NL (LinkName link) (IsManaged (manager_of link))
      (IsUpsertNeeded NL (manager_of link)) (Upsert NL (manager_of link)) (no_device_MTU link) (own_MTU link)"
    unfolding 1 dispatch IsManaged.simps by (rule link_manager_weaken[OF bridge_mgr.link_manager_axioms]) (simp_all add: own_MTU_def)
next
  case 2
  show "link_manager NL (LinkName link) (IsManaged (manager_of link))
      (IsUpsertNeeded NL (manager_of link)) (Upsert NL (manager_of link)) (no_device_MTU link) (own_MTU link)"
    unfolding 2 dispatch IsManaged.simps by (rule link_manager_weaken[OF vxlan_mgr.link_manager_axioms]) (simp_all add: own_MTU_def)
next
  case 3
  show "link_manager NL (LinkName link) (IsManaged (manager_of link))
      (IsUpsertNeeded NL (manager_of link)) (Upsert NL (manager_of link)) (no_device_MTU link) (own_MTU link)"
    unfolding 3 dispatch IsManaged.simps by (rule link_manager_weaken[OF unmanaged_mgr.link_manager_axioms]) simp_all
qed

subsection \<open>No panic\<close>

text \<open>Every link the library returns has attributes, as the library's own link types do.\<close>

definition attrs_present :: "'k netlink \<Rightarrow> bool" where
  "attrs_present NL \<longleftrightarrow> (\<forall>k i l. nl_LinkByIndex NL k i = Inr l \<longrightarrow> nl_Attrs NL l \<noteq> None)"

lemma doesLinkRefNeedUpdate_total:
  "attrs_present NL \<Longrightarrow> doesLinkRefNeedUpdate NL k ref i links \<noteq> None"
  unfolding doesLinkRefNeedUpdate_def attrs_present_def
  by (fastforce simp del: not_None_eq split: option.split sum.split)

lemma vxlan_steps_total:
  assumes "attrs_present NL" and "nl_Attrs NL l = Some a"
  shows "vxlan_upsert_MTU NL nm vx l a' w \<noteq> None" "vxlan_upsert_device NL nm vx l v links w \<noteq> None"
    "vxlan_upsert_group NL nm vx l v w \<noteq> None" "vxlan_upsert_learning NL nm vx l v w \<noteq> None"
    "vxlan_upsert_master NL nm vx l a' links w \<noteq> None" "vxlan_upsert_up NL nm l w \<noteq> None"
proof -
  obtain d where d: "doesLinkRefNeedUpdate NL (kern w) (vx_Device vx) (vl_VtepDevIndex v) links = Some d"
    using doesLinkRefNeedUpdate_total[OF assms(1)] by (meson not_None_eq)
  obtain m where m: "doesLinkRefNeedUpdate NL (kern w) (vx_Master vx) (la_MasterIndex a') links = Some m"
    using doesLinkRefNeedUpdate_total[OF assms(1)] by (meson not_None_eq)
  show "vxlan_upsert_device NL nm vx l v links w \<noteq> None"
    using d assms(2) by (auto simp del: not_None_eq simp: vxlan_upsert_device_def linkSetVXLANVtepDevIndex_def split: sum.splits bool.splits)
  show "vxlan_upsert_master NL nm vx l a' links w \<noteq> None"
    using m by (auto simp del: not_None_eq simp: vxlan_upsert_master_def split: sum.splits bool.splits)
qed (use assms(2) in \<open>auto simp del: not_None_eq simp: vxlan_upsert_MTU_def vxlan_upsert_group_def vxlan_upsert_learning_def
      vxlan_upsert_up_def linkSetVXLANGroup_def linkSetVXLANLearning_def Let_def\<close>)

lemma and_then_total':
  assumes "\<And>w. f w \<noteq> None" and "\<And>w. g w \<noteq> None"
  shows "and_then f g w \<noteq> None"
  using assms(1)[of w] assms(2)
  by (cases "f w") (auto simp del: not_None_eq simp: and_then_def split: prod.split option.split)

lemma vxlan_configure_total:
  assumes "attrs_present NL" and "netlink_types NL"
  shows "vxlan_configure NL n vx links a v w \<noteq> None"
proof -
  note total = vxlan_steps_total[OF assms(1) netlink_types_simps(4)[OF assms(2)]]
  show ?thesis unfolding vxlan_configure_def Let_def by (intro and_then_total' total)
qed

lemma valid_LinkSpec_manager:
  assumes "valid_LinkSpec (lk_Spec link)"
  obtains br where "manager_of link = BridgeManager link" "Spec_Bridge link = Some br"
  | vx sp where "manager_of link = VXLANManager link" "Spec_VXLAN link = Some vx" "vx_SourcePort vx = Some sp"
  | "manager_of link = UnmanagedManager" "Spec_Bridge link = None" "Spec_VXLAN link = None"
  using assms
  by (cases "Spec_Bridge link"; cases "Spec_VXLAN link"; cases "Spec_Unmanaged link")
    (auto simp: valid_LinkSpec_def exactly_one_spec_def valid_VXLANSpecs_def manager_of_def getLinkManager_def
      split: option.splits)

lemma bridge_Upsert_total: "Spec_Bridge link = Some br \<Longrightarrow> bridge_Upsert NL link links w \<noteq> None"
  by (auto simp del: not_None_eq simp: bridge_Upsert_def and_then_def bridge_upsert_MTU_def bridge_upsert_up_def
      split: prod.splits sum.splits nlink.splits option.splits)

lemma vxlan_Upsert_total:
  assumes "attrs_present NL" "netlink_types NL" "Spec_VXLAN link = Some vx" "vx_SourcePort vx = Some sp"
  shows "vxlan_Upsert NL link links w \<noteq> None"
  using assms(3,4) vxlan_configure_total[OF assms(1,2)]
  by (auto simp del: not_None_eq simp: vxlan_Upsert_def Let_def split: prod.splits sum.splits nlink.splits)

lemma vxlan_IsUpsertNeeded_total:
  assumes "attrs_present NL" "Spec_VXLAN link = Some vx" "vx_SourcePort vx = Some sp"
  shows "vxlan_IsUpsertNeeded NL link k links \<noteq> None"
proof -
  have "vxlan_check_existing NL vx a v k links \<noteq> None" for a v
  proof -
    obtain d m where "doesLinkRefNeedUpdate NL k (vx_Device vx) (vl_VtepDevIndex v) links = Some d"
      "doesLinkRefNeedUpdate NL k (vx_Master vx) (la_MasterIndex a) links = Some m"
      using doesLinkRefNeedUpdate_total[OF assms(1)] by (meson not_None_eq)
    then show ?thesis using assms(3)
      by (auto simp: vxlan_check_existing_def split: sum.splits bool.splits)
  qed
  then show ?thesis using assms(2) by (auto simp: vxlan_IsUpsertNeeded_def split: sum.splits nlink.splits)
qed

end
