(* ===== verification/Reference_Kernel.thy ===== *)
theory Reference_Kernel
  imports Managers
begin

text \<open>
  An instance of the netlink interface that satisfies its laws: a kernel whose state is the list of
  its links, with distinct names and distinct positive indices, and which fits a VXLAN to its device. It shows that \<open>netlink_laws\<close> can hold,
  and the concrete runs of the development evaluate on it. No definition that models the operator
  depends on it.
\<close>

type_synonym rk_state = "nlink list"

fun rk_attrs :: "nlink \<Rightarrow> LinkAttrs option" where
  "rk_attrs (NlBridge a) = Some a"
| "rk_attrs (NlVxlan a v) = Some a"
| "rk_attrs (NlOther t a) = a"

fun rk_type :: "nlink \<Rightarrow> string" where
  "rk_type (NlBridge a) = ''bridge''"
| "rk_type (NlVxlan a v) = ''vxlan''"
| "rk_type (NlOther t a) = t"

definition rk_index :: "nlink \<Rightarrow> int" where
  "rk_index l = (case rk_attrs l of Some a \<Rightarrow> la_Index a | None \<Rightarrow> 0)"

definition rk_name :: "nlink \<Rightarrow> string" where
  "rk_name l = (case rk_attrs l of Some a \<Rightarrow> la_Name a | None \<Rightarrow> '''')"

definition rk_wf :: "rk_state \<Rightarrow> bool" where
  "rk_wf k \<longleftrightarrow>
     list_all (\<lambda>l. rk_attrs l \<noteq> None \<and> 0 < rk_index l \<and> rk_index l < 2 ^ 31) k \<and>
     distinct (map rk_name k) \<and> distinct (map rk_index k)"

definition rk_default :: LinkAttrs where
  "rk_default = \<lparr>la_Index = 0, la_Name = '''', la_MTU = 1500, la_MasterIndex = 0,
     la_FlagUp = False, la_OperState = OtherOperState ''down''\<rparr>"

definition rk_by_name :: "rk_state \<Rightarrow> string \<Rightarrow> goerror + nlink" where
  "rk_by_name k n =
     (if rk_wf k then (case find (\<lambda>l. rk_name l = n) k of Some l \<Rightarrow> Inr l | None \<Rightarrow> Inl (LinkNotFoundError n))
      else Inl (OtherError ''kernel''))"

definition rk_by_index :: "rk_state \<Rightarrow> int \<Rightarrow> goerror + nlink" where
  "rk_by_index k i = (case find (\<lambda>l. rk_index l = i) k of Some l \<Rightarrow> Inr l | None \<Rightarrow> Inl (LinkNotFoundError ''''))"

definition rk_fresh :: "rk_state \<Rightarrow> int" where
  "rk_fresh k = fold (\<lambda>l i. max (rk_index l) i) k 0 + 1"

fun rk_addable :: "nlink \<Rightarrow> bool" where
  "rk_addable (NlOther t a) \<longleftrightarrow> False"
| "rk_addable _ \<longleftrightarrow> True"

text \<open>A VXLAN is at least 50 bytes smaller than its device, once it is configured over it.\<close>

definition rk_fit :: "rk_state \<Rightarrow> nlink \<Rightarrow> nlink" where
  "rk_fit k l =
     (case l of
        NlVxlan a v \<Rightarrow>
          (case find (\<lambda>x. rk_index x = vl_VtepDevIndex v) k of
             None \<Rightarrow> l
           | Some d \<Rightarrow>
               (case rk_attrs d of
                  Some b \<Rightarrow> if vl_VtepDevIndex v \<noteq> 0 \<and> la_MTU a > la_MTU b - 50 then with_MTU (la_MTU b - 50) l else l
                | None \<Rightarrow> l))
      | _ \<Rightarrow> l)"

definition rk_step :: "rk_state \<Rightarrow> nl_call \<Rightarrow> goerror + rk_state" where
  "rk_step k c =
     (case c of
        LinkAdd d \<Rightarrow>
          if list_ex (\<lambda>l. rk_name l = rk_name d) k then Inl (Errno EEXIST)
          else if rk_addable d
          then Inr (k @ [map_attrs (\<lambda>a. a\<lparr>la_Index := rk_fresh k\<rparr>) d])
          else Inl (OtherError ''type'')
      | LinkDel l \<Rightarrow>
          if list_ex (\<lambda>x. rk_index x = rk_index l) k then Inr (filter (\<lambda>x. rk_index x \<noteq> rk_index l) k)
          else Inl (Errno ENODEV)
      | LinkSetUp l \<Rightarrow> Inr (map (\<lambda>x. if rk_index x = rk_index l then call_effect c x else x) k)
      | LinkSetDown l \<Rightarrow> Inr (map (\<lambda>x. if rk_index x = rk_index l then call_effect c x else x) k)
      | LinkSetMTU l _ \<Rightarrow> Inr (map (\<lambda>x. if rk_index x = rk_index l then call_effect c x else x) k)
      | LinkSetMasterByIndex l _ \<Rightarrow> Inr (map (\<lambda>x. if rk_index x = rk_index l then call_effect c x else x) k)
      | Execute r \<Rightarrow> Inr (map (\<lambda>x. if rk_index x = sint (rq_index r) then rk_fit k (call_effect c x) else x) k))"

definition rk_exec :: "rk_state \<Rightarrow> nl_call \<Rightarrow> goerror option \<times> rk_state" where
  "rk_exec k c =
     (case rk_step k c of
        Inl e \<Rightarrow> (Some e, k)
      | Inr k' \<Rightarrow> if rk_wf k \<and> rk_wf k' then (None, k') else (Some (OtherError ''kernel''), k))"

definition RK :: "rk_state netlink" where
  "RK = \<lparr>nl_Type = rk_type, nl_Attrs = rk_attrs, nl_NewLinkAttrs = rk_default,
     nl_LinkByName = rk_by_name, nl_LinkByIndex = rk_by_index, nl_exec = rk_exec\<rparr>"

lemma RK_sel [simp]:
  "nl_Type RK = rk_type" "nl_Attrs RK = rk_attrs" "nl_NewLinkAttrs RK = rk_default"
  "nl_LinkByName RK = rk_by_name" "nl_LinkByIndex RK = rk_by_index" "nl_exec RK = rk_exec"
  by (simp_all add: RK_def)

subsection \<open>The laws\<close>

lemma rk_find_distinct:
  "distinct (map f k) \<Longrightarrow> l \<in> set k \<Longrightarrow> find (\<lambda>x. f x = f l) k = Some l"
  by (induction k) force+

lemma rk_by_name_Inr: "rk_by_name k n = Inr l \<longleftrightarrow> rk_wf k \<and> l \<in> set k \<and> rk_name l = n"
proof -
  have "find (\<lambda>l. rk_name l = n) k = Some l \<longleftrightarrow> l \<in> set k \<and> rk_name l = n" if "rk_wf k"
    using that rk_find_distinct[of rk_name k l] by (auto simp: rk_wf_def find_Some_iff)
  then show ?thesis by (auto simp: rk_by_name_def split: option.splits)
qed

lemma rk_by_index_Inr: "rk_wf k \<Longrightarrow> rk_by_index k i = Inr l \<longleftrightarrow> l \<in> set k \<and> rk_index l = i"
proof -
  assume "rk_wf k"
  then have "find (\<lambda>l. rk_index l = i) k = Some l \<longleftrightarrow> l \<in> set k \<and> rk_index l = i"
    using rk_find_distinct[of rk_index k l] by (auto simp: rk_wf_def find_Some_iff)
  then show ?thesis by (auto simp: rk_by_index_def split: option.splits)
qed

lemma rk_by_name_missing: "rk_wf k \<Longrightarrow> \<forall>l \<in> set k. rk_name l \<noteq> n \<Longrightarrow> rk_by_name k n = Inl (LinkNotFoundError n)"
  by (auto simp: rk_by_name_def find_None_iff split: option.splits dest: find_Some_iff[THEN iffD1])

lemma rk_exec_None: "rk_exec k c = (None, k') \<longleftrightarrow> rk_step k c = Inr k' \<and> rk_wf k \<and> rk_wf k'"
  by (auto simp: rk_exec_def split: sum.splits)

lemma rk_call_effect [simp]: "rk_name (call_effect c l) = rk_name l" "rk_index (call_effect c l) = rk_index l"
  by (cases l; cases c; simp add: call_effect_def rk_name_def rk_index_def split: option.splits)+

lemma rk_fit_cases: "rk_fit k l = l \<or> has_device l \<and> (\<exists>m. rk_fit k l = with_MTU m l)"
  by (cases l) (auto simp: rk_fit_def split: option.splits)

lemma rk_fit_name [simp]: "rk_name (rk_fit k l) = rk_name l" "rk_index (rk_fit k l) = rk_index l"
  using rk_fit_cases[of k l] by (cases l; auto simp: rk_name_def rk_index_def)+

lemma rk_attrs_call_index:
  "rk_attrs l = Some a \<Longrightarrow> rk_index l = la_Index a \<and> rk_name l = la_Name a"
  by (simp add: rk_index_def rk_name_def)

lemma rk_setter_step:
  assumes "rk_exec k c = (None, k')" and "is_setter c"
  obtains i f where "k' = map (\<lambda>x. if rk_index x = i then f x else x) k"
    "\<And>j. call_index RK c = Some j \<Longrightarrow> i = j" "\<And>x. effect_of c x (f x) \<and> rk_name (f x) = rk_name x \<and> rk_index (f x) = rk_index x"
proof (cases "is_request c")
  case True
  then obtain r where c: "c = Execute r" by (auto simp: is_request_def)
  have k': "k' = map (\<lambda>x. if rk_index x = sint (rq_index r) then rk_fit k (call_effect c x) else x) k"
    using assms(1) c by (auto simp: rk_exec_None rk_step_def)
  have "effect_of c x (rk_fit k (call_effect c x))" for x
    using rk_fit_cases[of k "call_effect c x"] True by (auto simp: effect_of_def)
  then show thesis using that[OF k'] c by (simp add: call_index_def)
next
  case False
  then obtain i where "k' = map (\<lambda>x. if rk_index x = i then call_effect c x else x) k"
    "\<And>j. call_index RK c = Some j \<Longrightarrow> i = j"
    using assms by (cases c) (fastforce simp: rk_exec_None rk_step_def call_index_def dest: rk_attrs_call_index)+
  then show thesis using that[of i "call_effect c"] by (simp add: effect_of_def)
qed

lemma RK_laws: "netlink_laws RK"
proof -
  have types: "netlink_types RK" by (simp add: netlink_types_def)
  have failed: "failed_call_law RK"
    by (auto simp: failed_call_law_def rk_exec_def split: sum.splits if_splits)
  have lookup: "lookup_law RK"
    by (fastforce simp: lookup_law_def rk_by_name_Inr rk_wf_def list_all_iff dest: rk_attrs_call_index)
  have delete: "delete_law RK"
  proof -
    have "rk_by_name k' n = Inl (LinkNotFoundError n)"
      if "rk_by_name k n = Inr l" and del: "rk_exec k (LinkDel l) = (None, k')" for k n l k'
    proof -
      from del have k': "rk_wf k'" "k' = filter (\<lambda>x. rk_index x \<noteq> rk_index l) k"
        by (auto simp: rk_exec_None rk_step_def split: if_splits)
      have "x = l" if "x \<in> set k" "rk_name x = n" for x
        using that \<open>rk_by_name k n = Inr l\<close> by (auto simp: rk_by_name_Inr rk_wf_def distinct_map inj_on_def)
      then show ?thesis using k' by (intro rk_by_name_missing) auto
    qed
    then show ?thesis unfolding delete_law_def by fastforce
  qed
  have add: "add_law RK"
  proof -
    have "\<exists>l. rk_by_name k' (la_Name a) = Inr l \<and> created_as d l"
      if "rk_attrs d = Some a" and "rk_exec k (LinkAdd d) = (None, k')" for k d a k'
    proof -
      let ?l = "map_attrs (\<lambda>a. a\<lparr>la_Index := rk_fresh k\<rparr>) d"
      have "?l \<in> set k'" "rk_wf k'" using that(2) by (auto simp: rk_exec_None rk_step_def split: if_splits)
      moreover have "rk_name ?l = la_Name a" using that(1) by (cases d) (auto simp: rk_name_def)
      moreover have "created_as d ?l"
        using that by (cases d) (auto simp: created_as_def rk_exec_None rk_step_def split: if_splits)
      ultimately show ?thesis using rk_by_name_Inr by blast
    qed
    then show ?thesis by (simp add: add_law_def)
  qed
  have setter: "setter_law RK"
  proof -
    have "\<exists>l' x. rk_by_name k' n = Inr l' \<and> same_config l' x \<and> effect_of c l x"
      if l: "rk_by_name k n = Inr l" and ex: "rk_exec k c = (None, k')" and "is_setter c"
        and idx: "call_index RK c = map_option la_Index (rk_attrs l)" for k n l c k'
    proof -
      from l have "rk_attrs l \<noteq> None" by (auto simp: rk_by_name_Inr rk_wf_def list_all_iff)
      then have "call_index RK c = Some (rk_index l)" using idx by (auto simp: rk_index_def)
      then obtain f where k': "k' = map (\<lambda>x. if rk_index x = rk_index l then f x else x) k"
        and f: "effect_of c l (f l)" "rk_name (f l) = rk_name l"
        using rk_setter_step[OF ex \<open>is_setter c\<close>] by metis
      have "f l \<in> set k'" using l by (force simp: rk_by_name_Inr k')
      moreover have "rk_wf k'" using ex by (simp add: rk_exec_None)
      ultimately have "rk_by_name k' n = Inr (f l)" using l f(2) by (simp add: rk_by_name_Inr)
      then show ?thesis using f(1) same_config_refl by blast
    qed
    then show ?thesis by (simp add: setter_law_def)
  qed
  have index: "index_law RK"
    by (fastforce simp: index_law_def link_name_def rk_by_name_Inr rk_by_index_Inr rk_index_def rk_name_def)
  have index_setter: "index_setter_law RK"
  proof -
    have "\<exists>l'. rk_by_index k' i = Inr l' \<and> map_option la_Name (rk_attrs l') = map_option la_Name (rk_attrs l)"
      if ex: "rk_exec k c = (None, k')" and "is_setter c" and l: "rk_by_index k i = Inr l" for k c k' i l
    proof -
      from ex have wf: "rk_wf k" "rk_wf k'" by (auto simp: rk_exec_None)
      obtain j f where k': "k' = map (\<lambda>x. if rk_index x = j then f x else x) k"
        and f: "rk_name (f l) = rk_name l" "rk_index (f l) = rk_index l"
        using rk_setter_step[OF ex \<open>is_setter c\<close>] by metis
      let ?l = "if rk_index l = j then f l else l"
      have lk: "l \<in> set k" "rk_index l = i" using l wf by (simp_all add: rk_by_index_Inr)
      then have "?l \<in> set k'" "rk_index ?l = i" "rk_name ?l = rk_name l" by (auto simp: k' f)
      moreover from this lk wf have "rk_attrs ?l \<noteq> None" "rk_attrs l \<noteq> None" by (auto simp: rk_wf_def list_all_iff)
      ultimately show ?thesis using wf by (intro exI[of _ ?l]) (auto simp: rk_by_index_Inr rk_name_def)
    qed
    then show ?thesis by (simp add: index_setter_law_def link_name_def)
  qed
  show ?thesis using types failed lookup delete add setter index index_setter by (simp add: netlink_laws_def)
qed


text \<open>The kernel of the list adapts nothing: links of other names are exactly as they were.\<close>

lemma rk_others_alike:
  assumes "rk_wf k'" and "\<And>x. x \<in> set k \<Longrightarrow> rk_name x \<noteq> n \<Longrightarrow> x \<in> set k'"
  shows "others_alike RK n k k'"
  using assms by (auto simp: others_alike_def rk_by_name_Inr intro: alike_refl)

lemma RK_frame: "frame_law RK"
proof -
  have "others_alike RK n k k'"
    if l: "rk_by_name k n = Inr l" and ex: "rk_exec k c = (None, k')" and "is_setter c"
      and idx: "call_index RK c = map_option la_Index (rk_attrs l)" for k n l c k'
  proof -
    from l have wf: "rk_wf k" and lk: "l \<in> set k" "rk_name l = n" by (simp_all add: rk_by_name_Inr)
    then obtain a where a: "rk_attrs l = Some a" by (auto simp: rk_wf_def list_all_iff)
    then have "call_index RK c = Some (rk_index l)" using idx by (simp add: rk_index_def)
    then obtain f where k': "k' = map (\<lambda>x. if rk_index x = rk_index l then f x else x) k"
      using rk_setter_step[OF ex \<open>is_setter c\<close>] by metis
    have "x \<in> set k'" if x: "x \<in> set k" "rk_name x \<noteq> n" for x
    proof -
      have "x \<noteq> l" using x(2) lk(2) by blast
      then have "rk_index x \<noteq> rk_index l" using x(1) lk(1) wf by (auto simp: rk_wf_def distinct_map inj_on_def)
      then show ?thesis using x(1) by (force simp: k')
    qed
    moreover have "rk_wf k'" using ex by (simp add: rk_exec_None)
    ultimately show ?thesis by (rule rk_others_alike[rotated])
  qed
  moreover have "others_alike RK n k k' \<and> index_names_kept RK k k'" if "rk_exec k (LinkAdd d) = (None, k')" for k d n k'
  proof -
    from that have wf: "rk_wf k" "rk_wf k'" and sub: "set k \<subseteq> set k'"
      by (auto simp: rk_exec_None rk_step_def split: if_splits)
    then have "index_names_kept RK k k'" by (auto simp: index_names_kept_def rk_by_index_Inr)
    then show ?thesis using rk_others_alike[OF wf(2)] sub by blast
  qed
  ultimately show ?thesis by (simp add: frame_law_def)
qed

end
