(* ===== verification/Manager_Properties.thy ===== *)
theory Manager_Properties
  imports Manager_Contract Reference_Kernel
begin

text \<open>
  The properties of the link managers, with concrete runs on the reference kernel: convergence of an
  upsert to the desired state, exactness of \<open>IsUpsertNeeded\<close>, the order of the calls that configure a
  VXLAN, which changes replace the device, and which links a manager acts on.
\<close>

subsection \<open>Concrete resources\<close>

definition ex_link :: "string \<Rightarrow> string \<Rightarrow> LinkSpecs \<Rightarrow> Link" where
  "ex_link res n specs =
     \<lparr>lk_Meta = named_meta res,
      lk_Spec = \<lparr>lk_LinkName = n, lk_NodeSelector = \<lparr>sel_MatchLabels = [], sel_MatchExpressions = []\<rparr>,
        lk_LinkSpecs = specs\<rparr>,
      lk_Status = \<lparr>ls_Conditions = [], ls_MatchedNodes = []\<rparr>\<rparr>"

definition ex_bridge :: Link where
  "ex_bridge = ex_link ''b'' ''br0'' \<lparr>sp_Bridge = Some \<lparr>br_MTU = Some 9000\<rparr>, sp_VXLAN = None, sp_Unmanaged = None\<rparr>"

definition ex_unmanaged :: Link where
  "ex_unmanaged = ex_link ''u'' ''eth0'' \<lparr>sp_Bridge = None, sp_VXLAN = None, sp_Unmanaged = Some UnmanagedSpec\<rparr>"

definition ex_ref :: "string \<Rightarrow> LinkReference" where
  "ex_ref n = \<lparr>ref_Name = n, ref_Optional = False, ref_SetDownOnDependencyChainUpdate = False\<rparr>"

definition ex_vxspecs :: VXLANSpecs where
  "ex_vxspecs = \<lparr>vx_VNID = 42, vx_RemoteIPAddress = ''10.0.0.9'', vx_RemotePort = 4789,
     vx_SourcePort = Some \<lparr>pr_Start = 4789, pr_End = 4790\<rparr>, vx_Device = Some (ex_ref ''u''),
     vx_Master = Some (ex_ref ''b''), vx_MTU = Some 1400, vx_Learning = Some False\<rparr>"

definition ex_vxlan :: Link where
  "ex_vxlan = ex_link ''v'' ''vx0'' \<lparr>sp_Bridge = None, sp_VXLAN = Some ex_vxspecs, sp_Unmanaged = None\<rparr>"

definition ex_links :: link_map where
  "ex_links = [(''b'', ex_bridge), (''u'', ex_unmanaged), (''v'', ex_vxlan)]"

definition rk_eth0 :: nlink where
  "rk_eth0 = NlOther ''device'' (Some (rk_default\<lparr>la_Index := 2, la_Name := ''eth0'', la_FlagUp := True\<rparr>))"

definition rk_br0 :: nlink where
  "rk_br0 = NlBridge (rk_default\<lparr>la_Index := 3, la_Name := ''br0'', la_FlagUp := True, la_MTU := 9000\<rparr>)"

definition rk_vx :: Vxlan where
  "rk_vx = \<lparr>vl_VxlanId = 42, vl_Port = 4789, vl_PortLow = 4789, vl_PortHigh = 4790, vl_Learning = True,
     vl_VtepDevIndex = 0, vl_Group = nil_ip\<rparr>"

definition rk_vx0 :: nlink where
  "rk_vx0 = NlVxlan (rk_default\<lparr>la_Index := 4, la_Name := ''vx0''\<rparr>) rk_vx"

definition rk_world :: "nlink list \<Rightarrow> rk_state kworld" where
  "rk_world ls = \<lparr>kern = ls, nl_trace = []\<rparr>"

lemmas ex_defs = ex_link_def ex_bridge_def ex_unmanaged_def ex_ref_def ex_vxspecs_def ex_vxlan_def ex_links_def
lemmas rk_defs = rk_eth0_def rk_br0_def rk_vx_def rk_vx0_def rk_world_def rk_by_name_def rk_by_index_def rk_step_def
  rk_exec_def rk_wf_def rk_index_def rk_name_def rk_default_def rk_fresh_def rk_fit_def call_effect_def nl_do_def
lemmas manager_defs = bridge_Upsert_def basicUpsert_def basicUpsertWithCheck_def bridge_desired_def create_link_def
  bridge_upsert_MTU_def bridge_upsert_up_def and_then_def Let_def bridge_IsUpsertNeeded_def
lemmas vxlan_defs = vxlan_Upsert_def vxlan_desired_def vxlan_forceReplace_def vxlan_configure_def vxlan_upsert_MTU_def
  vxlan_upsert_device_def vxlan_upsert_group_def vxlan_upsert_learning_def vxlan_upsert_master_def vxlan_upsert_up_def
  linkSetVXLANGroup_def linkSetVXLANVtepDevIndex_def linkSetVXLANLearning_def vxlan_request_def IsLearningEnabled_def
  doesLinkRefNeedUpdate_def resolveLinkRef_def getDesiredReferencedLinkIndex_def

lemma ex_bridge_run:
  "bridge_Upsert RK ex_bridge ex_links (rk_world []) =
     Some (None, \<lparr>kern = [NlBridge (rk_default\<lparr>la_Index := 1, la_Name := ''br0'', la_FlagUp := True, la_MTU := 9000\<rparr>)],
       nl_trace = [LinkAdd (NlBridge (rk_default\<lparr>la_Name := ''br0''\<rparr>)),
         LinkSetMTU (NlBridge (rk_default\<lparr>la_Index := 1, la_Name := ''br0''\<rparr>)) 9000,
         LinkSetUp (NlBridge (rk_default\<lparr>la_Index := 1, la_Name := ''br0''\<rparr>))]\<rparr>)"
  by (simp add: manager_defs ex_defs rk_defs)

lemma ex_remote: "ParseIP ''10.0.0.9'' = v4InV6Prefix @ [10, 0, 0, 9]"
  by (simp_all add: parse_eval)

lemma ex_vxlan_run:
  "\<exists>w'. vxlan_Upsert RK ex_vxlan ex_links (rk_world [rk_eth0, rk_br0, rk_vx0]) = Some (None, w')"
  by (simp add: manager_defs vxlan_defs ex_defs rk_defs ex_remote ip_Equal_def To4_def To16_def v4InV6Prefix_def)

lemma RK_types: "netlink_types RK"
  by (rule netlink_laws_types[OF RK_laws])

text \<open>The reference kernel with reads that never return a link without attributes.\<close>

definition RK_attrs :: "rk_state netlink" where
  "RK_attrs = RK\<lparr>nl_LinkByIndex := (\<lambda>k i. if rk_wf k then rk_by_index k i else Inl (OtherError ''kernel''))\<rparr>"

lemma RK_attrs_ok: "attrs_present RK_attrs" "netlink_types RK_attrs"
  by (auto simp: attrs_present_def RK_attrs_def netlink_types_def rk_by_index_Inr rk_wf_def list_all_iff)

lemma ex_manager_of:
  "manager_of ex_bridge = BridgeManager ex_bridge" "manager_of ex_vxlan = VXLANManager ex_vxlan"
  "manager_of ex_unmanaged = UnmanagedManager"
  by (simp_all add: manager_of_def getLinkManager_def ex_defs)

lemma ex_bridge_Upsert: "\<exists>w'. Upsert RK (manager_of ex_bridge) ex_links (rk_world []) = Some (None, w')"
  by (simp add: ex_manager_of ex_bridge_run)

text \<open>A VXLAN that asks for the MTU of its device: the kernel makes it 50 bytes smaller.\<close>

definition ex_large :: Link where
  "ex_large = ex_link ''v'' ''vx0'' \<lparr>sp_Bridge = None, sp_VXLAN = Some (ex_vxspecs\<lparr>vx_MTU := Some 1500\<rparr>), sp_Unmanaged = None\<rparr>"

definition ex_large_links :: link_map where
  "ex_large_links = [(''b'', ex_bridge), (''u'', ex_unmanaged), (''v'', ex_large)]"

definition rk_large :: "int \<Rightarrow> nlink" where
  "rk_large m = NlVxlan (rk_default\<lparr>la_Index := 4, la_Name := ''vx0'', la_FlagUp := True, la_MTU := m, la_MasterIndex := 3\<rparr>)
     (rk_vx\<lparr>vl_Learning := False, vl_VtepDevIndex := 2, vl_Group := [10, 0, 0, 9]\<rparr>)"

lemmas ex_large_defs = ex_large_def ex_large_links_def rk_large_def

lemma ex_manager_of_large: "manager_of ex_large = VXLANManager ex_large"
  by (simp add: manager_of_def getLinkManager_def ex_large_def ex_link_def)

lemma ex_large_first:
  "\<exists>w1. vxlan_Upsert RK ex_large ex_large_links (rk_world [rk_eth0, rk_br0]) = Some (None, w1) \<and> kern w1 = [rk_eth0, rk_br0, rk_large 1450]"
  by (simp add: manager_defs vxlan_defs ex_defs ex_large_defs rk_defs ex_remote ip_Equal_def To4_def To16_def v4InV6Prefix_def)

lemma ex_large_second:
  "\<exists>w2. vxlan_Upsert RK ex_large ex_large_links \<lparr>kern = [rk_eth0, rk_br0, rk_large 1450], nl_trace = tr\<rparr> = Some (None, w2) \<and>
     emits not_deletion \<lparr>kern = [rk_eth0, rk_br0, rk_large 1450], nl_trace = tr\<rparr> w2"
  by (simp add: manager_defs vxlan_defs ex_defs ex_large_defs rk_defs ex_remote ip_Equal_def To4_def To16_def v4InV6Prefix_def
      emits_def not_deletion_def)

lemma ex_large_needed: "vxlan_IsUpsertNeeded RK ex_large [rk_eth0, rk_br0, rk_large 1450] ex_large_links = Some (Inr True)"
  by (simp add: vxlan_IsUpsertNeeded_def vxlan_check_existing_def ex_defs ex_large_defs rk_defs)

lemma ex_large_run:
  "\<exists>w1 w2. Upsert RK (manager_of ex_large) ex_large_links (rk_world [rk_eth0, rk_br0]) = Some (None, w1) \<and>
     IsUpsertNeeded RK (manager_of ex_large) (kern w1) ex_large_links = Some (Inr True) \<and>
     Upsert RK (manager_of ex_large) ex_large_links w1 = Some (None, w2) \<and> emits not_deletion w1 w2"
proof -
  obtain w1 where w1: "vxlan_Upsert RK ex_large ex_large_links (rk_world [rk_eth0, rk_br0]) = Some (None, w1)"
    "kern w1 = [rk_eth0, rk_br0, rk_large 1450]" using ex_large_first by blast
  then have "w1 = \<lparr>kern = [rk_eth0, rk_br0, rk_large 1450], nl_trace = nl_trace w1\<rparr>" by (cases w1) simp
  then obtain w2 where "vxlan_Upsert RK ex_large ex_large_links w1 = Some (None, w2)" "emits not_deletion w1 w2"
    using ex_large_second by metis
  then show ?thesis using w1 ex_large_needed by (simp add: ex_manager_of_large)
qed

lemma ex_vxlan_specs:
  "Spec_VXLAN ex_vxlan = Some ex_vxspecs" "vx_SourcePort ex_vxspecs = Some \<lparr>pr_Start = 4789, pr_End = 4790\<rparr>"
  "LinkName ex_vxlan = ''vx0''"
  by (simp_all add: ex_defs)

lemma rk_vx0_found: "nl_LinkByName RK (kern (rk_world [rk_eth0, rk_br0, rk_vx0])) ''vx0'' =
    Inr (NlVxlan (rk_default\<lparr>la_Index := 4, la_Name := ''vx0''\<rparr>) rk_vx)"
  by (simp add: rk_defs)

subsection \<open>Convergence\<close>

text \<open>
  C23: upserts converge. When \<open>Upsert\<close> of the manager of a Link returns no error, \<open>IsUpsertNeeded\<close>
  of that manager answers false on the resulting kernel, for every kind of link and every state the
  upsert started from (link absent, of another type, of another configuration), unless the Link asks for
  an MTU of a VXLAN with an underlying device: the MTU is set before the device, and the kernel may then
  change it. A second upsert from there that succeeds and does not replace the link converges in any case.
\<close>

theorem upsert_converges:
  assumes "netlink_laws NL"
    and "Upsert NL (manager_of link) links w = Some (None, w')"
  shows "(no_device_MTU link \<longrightarrow> IsUpsertNeeded NL (manager_of link) (kern w') links = Some (Inr False)) \<and>
    (\<forall>w1 w2. kern w1 = kern w' \<and> Upsert NL (manager_of link) links w1 = Some (None, w2) \<and> emits not_deletion w1 w2 \<longrightarrow>
       IsUpsertNeeded NL (manager_of link) (kern w2) links = Some (Inr False))"
  using mgr.upsert_converges[OF assms(1) _ assms(2)] mgr.upsert_converges_twice[OF assms] by blast

theorem upsert_converges_witness:
  "(\<exists>w'. Upsert RK (manager_of ex_bridge) ex_links (rk_world []) = Some (None, w') \<and>
     IsUpsertNeeded RK (manager_of ex_bridge) (kern w') ex_links = Some (Inr False)) \<and>
   (\<exists>w1 w2. Upsert RK (manager_of ex_large) ex_large_links (rk_world [rk_eth0, rk_br0]) = Some (None, w1) \<and>
     IsUpsertNeeded RK (manager_of ex_large) (kern w1) ex_large_links = Some (Inr True) \<and>
     Upsert RK (manager_of ex_large) ex_large_links w1 = Some (None, w2) \<and>
     IsUpsertNeeded RK (manager_of ex_large) (kern w2) ex_large_links = Some (Inr False))"
proof
  have "no_device_MTU ex_bridge" by (simp add: no_device_MTU_def ex_defs)
  then show "\<exists>w'. Upsert RK (manager_of ex_bridge) ex_links (rk_world []) = Some (None, w') \<and>
     IsUpsertNeeded RK (manager_of ex_bridge) (kern w') ex_links = Some (Inr False)"
    using ex_bridge_Upsert upsert_converges[OF RK_laws] by blast
  obtain w1 w2 where run: "Upsert RK (manager_of ex_large) ex_large_links (rk_world [rk_eth0, rk_br0]) = Some (None, w1)"
    "Upsert RK (manager_of ex_large) ex_large_links w1 = Some (None, w2)"
    and kept: "emits not_deletion w1 w2" and needed: "IsUpsertNeeded RK (manager_of ex_large) (kern w1) ex_large_links = Some (Inr True)"
    using ex_large_run by blast
  have "IsUpsertNeeded RK (manager_of ex_large) (kern w2) ex_large_links = Some (Inr False)"
    using upsert_converges[OF RK_laws run(1)] run(2) kept by blast
  with run needed show "\<exists>w1 w2. Upsert RK (manager_of ex_large) ex_large_links (rk_world [rk_eth0, rk_br0]) = Some (None, w1) \<and>
     IsUpsertNeeded RK (manager_of ex_large) (kern w1) ex_large_links = Some (Inr True) \<and>
     Upsert RK (manager_of ex_large) ex_large_links w1 = Some (None, w2) \<and>
     IsUpsertNeeded RK (manager_of ex_large) (kern w2) ex_large_links = Some (Inr False)" by blast
qed

text \<open>
  C24: what a successful VXLAN upsert leaves in the kernel. Under the interface name of the resource
  there is a VXLAN with the VNID, ports, learning flag and remote address of the specification, up, whose
  master and underlying device are the links the references name, or none when a reference is absent or
  optional and not on the node. It has the MTU of the specification, when one is given, if it has no
  underlying device or the upsert changed neither device, address nor learning; otherwise the kernel had
  the last word, since the MTU is set first.
\<close>

theorem vxlan_upsert_configures:
  assumes "netlink_laws NL" and "vxlan_Upsert NL link links w = Some (None, w')"
    and "Spec_VXLAN link = Some vx" and "vx_SourcePort vx = Some sp"
  shows "\<exists>a v. nl_LinkByName NL (kern w') (LinkName link) = Inr (NlVxlan a v) \<and>
    vl_VxlanId v = sint (vx_VNID vx) \<and> vl_Port v = sint (vx_RemotePort vx) \<and>
    vl_PortLow v = sint (pr_Start sp) \<and> vl_PortHigh v = sint (pr_End sp) \<and>
    vl_Learning v = IsLearningEnabled vx \<and> ip_Equal (vl_Group v) (ParseIP (vx_RemoteIPAddress vx)) \<and>
    la_FlagUp a \<and>
    ref_resolved NL (kern w') (vx_Master vx) (la_MasterIndex a) links \<and>
    ref_resolved NL (kern w') (vx_Device vx) (vl_VtepDevIndex v) links \<and>
    (vx_Device vx = None \<or> (\<exists>cs. nl_trace w' = nl_trace w @ cs \<and> (\<forall>r. Execute r \<notin> set cs)) \<longrightarrow> mtu_matches (vx_MTU vx) a)"
proof -
  have e: "emits not_request w w' \<longleftrightarrow> (\<exists>cs. nl_trace w' = nl_trace w @ cs \<and> (\<forall>r. Execute r \<notin> set cs))"
    by (auto simp: emits_def not_request_def is_request_def list_all_iff)
  show ?thesis using vxlan_Upsert_result[OF assms(1,2)] assms(3,4) unfolding e[symmetric] vxlan_configured_def by fastforce
qed

theorem vxlan_upsert_configures_witness:
  "\<exists>w' a v. vxlan_Upsert RK ex_vxlan ex_links (rk_world [rk_eth0, rk_br0, rk_vx0]) = Some (None, w') \<and>
     rk_by_name (kern w') ''vx0'' = Inr (NlVxlan a v) \<and> vl_VxlanId v = 42 \<and> la_FlagUp a"
proof -
  obtain w' where w': "vxlan_Upsert RK ex_vxlan ex_links (rk_world [rk_eth0, rk_br0, rk_vx0]) = Some (None, w')"
    using ex_vxlan_run by blast
  show ?thesis
    using vxlan_upsert_configures[OF RK_laws w' ex_vxlan_specs(1,2)] w' by (auto simp: ex_vxspecs_def ex_vxlan_specs)
qed

text \<open>
  C25: \<open>IsUpsertNeeded\<close> of a VXLAN is exact: it answers false precisely when a VXLAN of that name
  matches the specification in every field that \<open>Upsert\<close> configures.
\<close>

theorem vxlan_upsert_needed_iff:
  assumes "netlink_types NL" and "Spec_VXLAN link = Some vx" and "vx_SourcePort vx = Some sp"
  shows "vxlan_IsUpsertNeeded NL link k links = Some (Inr False) \<longleftrightarrow>
    (\<exists>a v. nl_LinkByName NL k (LinkName link) = Inr (NlVxlan a v) \<and> vxlan_matches NL vx sp a v k links)"
  by (rule vxlan_IsUpsertNeeded_False_iff[OF assms(1,3,2)])

theorem vxlan_upsert_needed_iff_witness:
  "vxlan_IsUpsertNeeded RK ex_vxlan [] ex_links \<noteq> Some (Inr False)"
  unfolding vxlan_upsert_needed_iff[OF RK_types ex_vxlan_specs(1,2)] by (simp add: rk_by_name_def rk_wf_def)

subsection \<open>The calls\<close>

text \<open>
  A manager acts on its own link only: every call of an upsert addresses a link that was found
  under the interface name of the resource, or creates one of that name.
\<close>

theorem upsert_acts_on_own_link:
  assumes "netlink_types NL" and "Upsert NL (manager_of link) links w = Some (e, w')"
  shows "\<exists>cs. nl_trace w' = nl_trace w @ cs \<and> (\<forall>c \<in> set cs. acts_on NL (LinkName link) c)"
  using mgr.upsert_acts[OF assms] by (simp add: emits_def list_all_iff)

theorem upsert_acts_on_own_link_witness:
  "\<exists>w' cs. Upsert RK (manager_of ex_bridge) ex_links (rk_world []) = Some (None, w') \<and>
     nl_trace w' = cs \<and> length cs = 3 \<and> (\<forall>c \<in> set cs. acts_on RK ''br0'' c)"
proof -
  obtain w' where w': "Upsert RK (manager_of ex_bridge) ex_links (rk_world []) = Some (None, w')" "length (nl_trace w') = 3"
    by (simp add: ex_manager_of ex_bridge_run)
  show ?thesis using upsert_acts_on_own_link[OF RK_types w'(1)] w'
    by (auto simp: rk_world_def) (simp add: ex_defs)
qed

text \<open>
  The calls of a VXLAN upsert come in one order, each kind at most once, whatever fails: delete,
  create, MTU, underlying device, remote address, learning, master, up. The device is set before
  the address, because a multicast group is joined on the device.
\<close>

theorem vxlan_upsert_call_order:
  assumes "vxlan_Upsert NL link links w = Some (e, w')"
  shows "\<exists>cs. nl_trace w' = nl_trace w @ cs \<and> sorted_wrt (<) (map call_phase cs) \<and> (\<forall>c \<in> set cs. call_phase c \<le> 7)"
  using vxlan_Upsert_phased[OF assms] by (fastforce simp: phased_def)

theorem vxlan_upsert_call_order_witness:
  "\<exists>w'. vxlan_Upsert RK ex_vxlan ex_links (rk_world [rk_eth0, rk_br0, rk_vx0]) = Some (None, w') \<and>
     sorted_wrt (<) (map call_phase (nl_trace w'))"
  using ex_vxlan_run vxlan_upsert_call_order by (fastforce simp: rk_world_def)

text \<open>
  A VXLAN of the specified VNID and ports, with an IPv4 group or none, is updated in place: the
  upsert neither deletes nor creates a device, so the traffic of the existing one goes on.
\<close>

theorem vxlan_upsert_in_place:
  assumes "vxlan_Upsert NL link links w = Some (e, w')" and "netlink_types NL"
    and "Spec_VXLAN link = Some vx" and "vx_SourcePort vx = Some sp"
    and "nl_LinkByName NL (kern w) (LinkName link) = Inr (NlVxlan a v)"
    and "vl_VxlanId v = sint (vx_VNID vx)" and "vl_Port v = sint (vx_RemotePort vx)"
    and "vl_PortLow v = sint (pr_Start sp)" and "vl_PortHigh v = sint (pr_End sp)"
    and "length (vl_Group v) = 4 \<or> vl_Group v = []"
  shows "\<exists>cs. nl_trace w' = nl_trace w @ cs \<and> (\<forall>c \<in> set cs. is_setter c)"
  using vxlan_Upsert_kept[OF assms] by (simp add: emits_def list_all_iff in_place_def)

theorem vxlan_upsert_in_place_witness:
  "\<exists>w'. vxlan_Upsert RK ex_vxlan ex_links (rk_world [rk_eth0, rk_br0, rk_vx0]) = Some (None, w') \<and>
     (\<forall>c \<in> set (nl_trace w'). is_setter c)"
proof -
  obtain w' where w': "vxlan_Upsert RK ex_vxlan ex_links (rk_world [rk_eth0, rk_br0, rk_vx0]) = Some (None, w')"
    using ex_vxlan_run by blast
  have "\<exists>cs. nl_trace w' = nl_trace (rk_world [rk_eth0, rk_br0, rk_vx0]) @ cs \<and> (\<forall>c \<in> set cs. is_setter c)"
    by (rule vxlan_upsert_in_place[OF w' RK_types ex_vxlan_specs(1,2), unfolded ex_vxlan_specs(3),
        OF rk_vx0_found]) (simp_all add: rk_vx_def ex_vxspecs_def)
  then show ?thesis using w' by (simp add: rk_world_def)
qed

text \<open>
  Any other link of that name is replaced: another link type, another VNID or port, or a group
  that is not an IPv4 address. The upsert starts with the deletion of that very link and then
  creates the desired VXLAN; it stops when the deletion fails. In particular a VXLAN with an IPv6
  group is deleted and created anew by every upsert.
\<close>

theorem vxlan_upsert_replaces:
  assumes "vxlan_Upsert NL link links w = Some (e, w')" and "netlink_types NL"
    and "Spec_VXLAN link = Some vx" and "vx_SourcePort vx = Some sp"
    and "nl_LinkByName NL (kern w) (LinkName link) = Inr l"
    and "case l of NlVxlan a v \<Rightarrow> vl_VxlanId v \<noteq> sint (vx_VNID vx) \<or> vl_Port v \<noteq> sint (vx_RemotePort vx) \<or>
        vl_PortLow v \<noteq> sint (pr_Start sp) \<or> vl_PortHigh v \<noteq> sint (pr_End sp) \<or> length (vl_Group v) = 16
      | _ \<Rightarrow> True"
  shows "(\<exists>cs. nl_trace w' = nl_trace w @ LinkDel l # LinkAdd (vxlan_desired NL link vx sp) # cs) \<or>
    nl_trace w' = nl_trace w @ [LinkDel l] \<and> e \<noteq> None"
proof (rule vxlan_Upsert_replaced[OF assms(1-5)])
  show "vxlan_forceReplace NL (vxlan_desired NL link vx sp) l"
    using assms(6) by (cases l) (auto simp: vxlan_forceReplace_def vxlan_desired_def)
qed

theorem vxlan_upsert_replaces_witness:
  "\<exists>e w' t. vxlan_Upsert RK ex_vxlan ex_links (rk_world [NlVxlan (rk_default\<lparr>la_Index := 4, la_Name := ''vx0''\<rparr>) (rk_vx\<lparr>vl_VxlanId := 7\<rparr>)]) = Some (e, w') \<and>
     nl_trace w' = LinkDel (NlVxlan (rk_default\<lparr>la_Index := 4, la_Name := ''vx0''\<rparr>) (rk_vx\<lparr>vl_VxlanId := 7\<rparr>)) # t"
proof -
  let ?l = "NlVxlan (rk_default\<lparr>la_Index := 4, la_Name := ''vx0''\<rparr>) (rk_vx\<lparr>vl_VxlanId := 7\<rparr>)"
  have found: "nl_LinkByName RK (kern (rk_world [?l])) (LinkName ex_vxlan) = Inr ?l"
    by (simp add: rk_defs ex_vxlan_specs)
  obtain e w' where run: "vxlan_Upsert RK ex_vxlan ex_links (rk_world [?l]) = Some (e, w')"
    by (simp add: manager_defs vxlan_defs ex_defs rk_defs ex_remote ip_Equal_def To4_def To16_def v4InV6Prefix_def)
  from vxlan_upsert_replaces[OF run RK_types ex_vxlan_specs(1,2) found] show ?thesis
    using run by (fastforce simp: rk_world_def ex_vxspecs_def rk_vx_def)
qed

text \<open>
  C31: an admitted resource does not make a manager panic: for a Link that satisfies the rules of the
  API (exactly one kind of link, a source port range), \<open>GetDependencies\<close>, \<open>IsUpsertNeeded\<close> and \<open>Upsert\<close>
  return, provided the links that the library finds by index have attributes.
\<close>

theorem managers_do_not_panic:
  assumes "valid_LinkSpec (lk_Spec link)" and "attrs_present NL" and "netlink_types NL"
  shows "GetDependencies (manager_of link) \<noteq> None \<and> IsUpsertNeeded NL (manager_of link) k links \<noteq> None \<and>
    Upsert NL (manager_of link) links w \<noteq> None"
  using assms(1)
proof (cases rule: valid_LinkSpec_manager)
  case (1 br)
  then show ?thesis
    using bridge_Upsert_total by (auto simp: bridge_GetDependencies_def bridge_IsUpsertNeeded_def split: sum.splits option.splits)
next
  case (2 vx sp)
  then show ?thesis
    using vxlan_Upsert_total[OF assms(2,3)] vxlan_IsUpsertNeeded_total[OF assms(2)]
    by (simp add: vxlan_GetDependencies_def)
next
  case 3
  then show ?thesis by (simp add: unmanaged_GetDependencies_def unmanaged_IsUpsertNeeded_def unmanaged_Upsert_def)
qed

theorem managers_do_not_panic_witness:
  "Upsert RK_attrs (manager_of ex_vxlan) ex_links (rk_world []) \<noteq> None"
proof -
  have "valid_LinkSpec (lk_Spec ex_vxlan)"
    by (simp add: ex_defs valid_LinkSpec_def valid_VXLANSpecs_def valid_port_def valid_PortRange_def valid_MTU_def
        exactly_one_spec_def link_name_char_def)
  from managers_do_not_panic[OF this RK_attrs_ok] show ?thesis by blast
qed

text \<open>
  The guard against nil attributes does not guard. When the referenced link has nil attributes,
  \<open>doesLinkRefNeedUpdate\<close> panics, because the error message it builds reads the name from those nil
  attributes.
\<close>

lemma nil_attributes_panic:
  assumes "resolveLinkRef r links = Some ref" and "i \<noteq> 0" and "nl_LinkByIndex NL k i = Inr l"
    and "map_of links (ref_Name ref) = Some res" and "nl_Attrs NL l = None"
  shows "doesLinkRefNeedUpdate NL k r i links = None"
  using assms by (simp add: doesLinkRefNeedUpdate_def)

end
