(* ===== verification/Operator_Env.thy ===== *)
theory Operator_Env
  imports Managers "HOL-Library.Multiset"
begin

text \<open>
  What the two controllers use of code outside the repository: the Kubernetes API client and helper
  packages, the slice helpers of \<open>pie\<close> and the graph library. Each is a record of functions, an
  argument of every definition that uses it; what the operator relies on is a predicate on that
  record, stated from the documentation of the package. Nothing here is a model of those packages.
\<close>

subsection \<open>Kubernetes helper packages\<close>

record Node =
  nd_Meta :: ObjectMeta

abbreviation Node_Name :: "Node \<Rightarrow> string" where
  "Node_Name n \<equiv> m_Name (nd_Meta n)"

text \<open>
  \<open>meta.SetStatusCondition\<close>, \<open>meta.IsStatusConditionTrue\<close>, \<open>controllerutil.AddFinalizer\<close> and its
  companions (on the finalizers of an object), \<open>apierrors.IsNotFound\<close>, \<open>client.IgnoreNotFound\<close>,
  \<open>equality.Semantic.DeepEqual\<close> at the types it is used on, \<open>controllerutil.SetOwnerReference\<close>.
\<close>

record k8s_lib =
  lib_SetStatusCondition :: "Condition \<Rightarrow> Condition list \<Rightarrow> Condition list"
  lib_IsStatusConditionTrue :: "Condition list \<Rightarrow> cond_type \<Rightarrow> bool"
  lib_AddFinalizer :: "string \<Rightarrow> string list \<Rightarrow> bool \<times> string list"
  lib_RemoveFinalizer :: "string \<Rightarrow> string list \<Rightarrow> string list"
  lib_ContainsFinalizer :: "string list \<Rightarrow> string \<Rightarrow> bool"
  lib_IsNotFound :: "goerror \<Rightarrow> bool"
  lib_IgnoreNotFound :: "goerror \<Rightarrow> goerror option"
  lib_DeepEqual_NodeLinks :: "NodeLinks \<Rightarrow> NodeLinks \<Rightarrow> bool"
  lib_DeepEqual_NodeLinksStatus :: "NodeLinksStatus \<Rightarrow> NodeLinksStatus \<Rightarrow> bool"
  lib_DeepEqual_Link :: "Link \<Rightarrow> Link \<Rightarrow> bool"
  lib_DeepEqual_LinkStatus :: "LinkStatus \<Rightarrow> LinkStatus \<Rightarrow> bool"
  lib_SetOwnerReference :: "Node \<Rightarrow> NodeLinks \<Rightarrow> goerror + NodeLinks"

definition cond_of :: "cond_type \<Rightarrow> Condition list \<Rightarrow> Condition option" where
  "cond_of t cs = find (\<lambda>c. c_Type c = t) cs"

text \<open>A condition says what \<open>c\<close> says, up to the fields the library fills in.\<close>

definition says :: "Condition option \<Rightarrow> Condition \<Rightarrow> bool" where
  "says x c \<longleftrightarrow>
     (case x of None \<Rightarrow> False
      | Some d \<Rightarrow> c_Type d = c_Type c \<and> c_Status d = c_Status c \<and> c_Reason d = c_Reason c \<and> c_Message d = c_Message c)"

definition k8s_laws :: "k8s_lib \<Rightarrow> bool" where
  "k8s_laws L \<longleftrightarrow>
     (\<forall>c cs. says (cond_of (c_Type c) (lib_SetStatusCondition L c cs)) c) \<and>
     (\<forall>c cs t. t \<noteq> c_Type c \<longrightarrow> cond_of t (lib_SetStatusCondition L c cs) = cond_of t cs) \<and>
     (\<forall>cs t. lib_IsStatusConditionTrue L cs t \<longleftrightarrow>
        (case cond_of t cs of None \<Rightarrow> False | Some c \<Rightarrow> c_Status c = ConditionTrue)) \<and>
     (\<forall>f fs. lib_AddFinalizer L f fs = (if f \<in> set fs then (False, fs) else (True, fs @ [f]))) \<and>
     (\<forall>f fs. lib_RemoveFinalizer L f fs = filter (\<lambda>x. x \<noteq> f) fs) \<and>
     (\<forall>f fs. lib_ContainsFinalizer L fs f \<longleftrightarrow> f \<in> set fs) \<and>
     (\<forall>e. lib_IgnoreNotFound L e = (if lib_IsNotFound L e then None else Some e)) \<and>
     (\<forall>x y. lib_DeepEqual_NodeLinks L x y \<longleftrightarrow> x = y) \<and>
     (\<forall>x y. lib_DeepEqual_NodeLinksStatus L x y \<longleftrightarrow> x = y) \<and>
     (\<forall>x y. lib_DeepEqual_Link L x y \<longleftrightarrow> x = y) \<and>
     (\<forall>x y. lib_DeepEqual_LinkStatus L x y \<longleftrightarrow> x = y) \<and>
     (\<forall>n x y. lib_SetOwnerReference L n x = Inr y \<longrightarrow>
        nk_Spec y = nk_Spec x \<and> nk_Status y = nk_Status x \<and> Node_Name n \<in> or_Name ` set (m_OwnerReferences (nk_Meta y)) \<and>
        (\<exists>rs. nk_Meta y = (nk_Meta x)\<lparr>m_OwnerReferences := rs\<rparr>))"

lemma k8s_condition:
  assumes "k8s_laws L"
  shows "says (cond_of (c_Type c) (lib_SetStatusCondition L c cs)) c"
    and "t \<noteq> c_Type c \<Longrightarrow> cond_of t (lib_SetStatusCondition L c cs) = cond_of t cs"
    and "lib_IsStatusConditionTrue L cs t \<longleftrightarrow>
      (case cond_of t cs of None \<Rightarrow> False | Some d \<Rightarrow> c_Status d = ConditionTrue)"
  using assms by (simp_all add: k8s_laws_def)

lemma k8s_simps:
  assumes "k8s_laws L"
  shows "lib_AddFinalizer L f fs = (if f \<in> set fs then (False, fs) else (True, fs @ [f]))"
    and "lib_RemoveFinalizer L f fs = filter (\<lambda>x. x \<noteq> f) fs"
    and "lib_ContainsFinalizer L fs f \<longleftrightarrow> f \<in> set fs"
    and "lib_IgnoreNotFound L e = (if lib_IsNotFound L e then None else Some e)"
    and "lib_DeepEqual_NodeLinks L nx ny \<longleftrightarrow> nx = ny"
    and "lib_DeepEqual_NodeLinksStatus L sx sy \<longleftrightarrow> sx = sy"
    and "lib_DeepEqual_Link L lx ly \<longleftrightarrow> lx = ly"
    and "lib_DeepEqual_LinkStatus L tx ty \<longleftrightarrow> tx = ty"
  using assms by (simp_all add: k8s_laws_def)

lemma k8s_SetOwnerReference:
  assumes "k8s_laws L" and "lib_SetOwnerReference L n x = Inr y"
  shows "nk_Spec y = nk_Spec x" "nk_Status y = nk_Status x" "m_Name (nk_Meta y) = m_Name (nk_Meta x)"
    "m_DeletionTimestamp (nk_Meta y) = m_DeletionTimestamp (nk_Meta x)"
    "Node_Name n \<in> or_Name ` set (m_OwnerReferences (nk_Meta y))"
proof -
  from assms have y: "nk_Spec y = nk_Spec x \<and> nk_Status y = nk_Status x \<and> Node_Name n \<in> or_Name ` set (m_OwnerReferences (nk_Meta y)) \<and>
      (\<exists>rs. nk_Meta y = (nk_Meta x)\<lparr>m_OwnerReferences := rs\<rparr>)"
    unfolding k8s_laws_def by blast
  then obtain rs where "nk_Meta y = (nk_Meta x)\<lparr>m_OwnerReferences := rs\<rparr>" by blast
  then show "m_Name (nk_Meta y) = m_Name (nk_Meta x)" "m_DeletionTimestamp (nk_Meta y) = m_DeletionTimestamp (nk_Meta x)"
    by simp_all
  show "nk_Spec y = nk_Spec x" "nk_Status y = nk_Status x" "Node_Name n \<in> or_Name ` set (m_OwnerReferences (nk_Meta y))"
    using y by simp_all
qed

subsection \<open>The slice helpers (pie)\<close>

text \<open>
  The pure uses of \<open>pie.Map\<close>, \<open>pie.Filter\<close>, \<open>pie.Diff\<close>, \<open>pie.Unique\<close>, \<open>pie.Keys\<close>, \<open>pie.Values\<close>, at the
  types they are used on. \<open>pie.Diff\<close> treats slices as multisets. \<open>Keys\<close> and \<open>Values\<close> list a Go map in
  any order. The uses of \<open>pie.Map\<close> with a callback that has effects are parameters of the controllers.
\<close>

record pie_lib =
  pie_Map_refs :: "(LinkReference \<Rightarrow> string) \<Rightarrow> LinkReference list \<Rightarrow> string list"
  pie_Map_links :: "(Link \<Rightarrow> string) \<Rightarrow> Link list \<Rightarrow> string list"
  pie_Map_nodes :: "(Node \<Rightarrow> string) \<Rightarrow> Node list \<Rightarrow> string list"
  pie_Filter_refs :: "(LinkReference \<Rightarrow> bool) \<Rightarrow> LinkReference list \<Rightarrow> LinkReference list"
  pie_Filter_strings :: "(string \<Rightarrow> bool) \<Rightarrow> string list \<Rightarrow> string list"
  pie_Diff :: "string list \<Rightarrow> string list \<Rightarrow> string list \<times> string list"
  pie_Unique :: "string list \<Rightarrow> string list"
  pie_Keys :: "link_map \<Rightarrow> string list"
  pie_Values :: "link_map \<Rightarrow> Link list"

definition pie_laws :: "pie_lib \<Rightarrow> bool" where
  "pie_laws P \<longleftrightarrow>
     pie_Map_refs P = map \<and> pie_Map_links P = map \<and> pie_Map_nodes P = map \<and>
     pie_Filter_refs P = filter \<and> pie_Filter_strings P = filter \<and>
     (\<forall>xs ys. mset (fst (pie_Diff P xs ys)) = mset ys - mset xs \<and> mset (snd (pie_Diff P xs ys)) = mset xs - mset ys) \<and>
     (\<forall>xs. distinct (pie_Unique P xs) \<and> set (pie_Unique P xs) = set xs) \<and>
     (\<forall>m. mset (pie_Keys P m) = mset (map fst m)) \<and>
     (\<forall>m. mset (pie_Values P m) = mset (map snd m))"

lemma pie_simps:
  assumes "pie_laws P"
  shows "pie_Map_refs P f rs = map f rs" "pie_Map_links P g ls = map g ls" "pie_Map_nodes P h ns = map h ns"
    "pie_Filter_refs P p rs = filter p rs" "pie_Filter_strings P q xs = filter q xs"
  using assms by (simp_all add: pie_laws_def)

lemma pie_Diff_removed:
  "pie_laws P \<Longrightarrow> mset (snd (pie_Diff P xs ys)) = mset xs - mset ys"
  by (simp add: pie_laws_def)

lemma pie_Unique:
  "pie_laws P \<Longrightarrow> distinct (pie_Unique P xs)" "pie_laws P \<Longrightarrow> set (pie_Unique P xs) = set xs"
  by (simp_all add: pie_laws_def)

lemma pie_Keys: "pie_laws P \<Longrightarrow> mset (pie_Keys P m) = mset (map fst m)"
  by (simp add: pie_laws_def)

lemma pie_Values: "pie_laws P \<Longrightarrow> set (pie_Values P m) = snd ` set m"
  by (metis mset_eq_setD pie_laws_def set_map)

subsection \<open>The graph library\<close>

text \<open>
  \<open>EdgeProperties.Data\<close> is of type \<open>any\<close>; the operator stores a \<open>LinkReference\<close> there. \<open>None\<close> stands for
  data of any other dynamic type. An adjacency map is an association list of association lists, in
  the order in which \<open>range\<close> yields the entries.
\<close>

record EdgeProperties =
  ep_Data :: "LinkReference option"

record Edge =
  ed_Source :: string
  ed_Target :: string
  ed_Properties :: EdgeProperties

type_synonym adjacency_map = "(string \<times> (string \<times> Edge) list) list"

record 'g graph_lib =
  gr_New :: 'g
  gr_AddVertex :: "'g \<Rightarrow> string \<Rightarrow> goerror option \<times> 'g"
  gr_AddEdge :: "'g \<Rightarrow> string \<Rightarrow> string \<Rightarrow> (EdgeProperties option \<Rightarrow> EdgeProperties option) \<Rightarrow> goerror option \<times> 'g"
  gr_AdjacencyMap :: "'g \<Rightarrow> goerror + adjacency_map"
  gr_TopologicalSort :: "'g \<Rightarrow> goerror + string list"

text \<open>What a graph value contains: its vertices, and its edges with their data.\<close>

definition gr_vertices :: "'g graph_lib \<Rightarrow> 'g \<Rightarrow> string set" where
  "gr_vertices G g = (case gr_AdjacencyMap G g of Inl _ \<Rightarrow> {} | Inr m \<Rightarrow> fst ` set m)"

definition gr_edge :: "'g graph_lib \<Rightarrow> 'g \<Rightarrow> string \<Rightarrow> string \<Rightarrow> Edge option" where
  "gr_edge G g u v =
     (case gr_AdjacencyMap G g of Inl _ \<Rightarrow> None
      | Inr m \<Rightarrow> (case map_of m u of None \<Rightarrow> None | Some es \<Rightarrow> map_of es v))"

definition gr_edges :: "'g graph_lib \<Rightarrow> 'g \<Rightarrow> (string \<times> string) set" where
  "gr_edges G g = {(u, v). gr_edge G g u v \<noteq> None}"

text \<open>
  The documented behaviour of the in-memory directed graph with \<open>PreventCycles\<close>: vertices and edges
  are added unless they exist or an end is missing, an edge that closes a cycle is refused, the
  adjacency map has one entry per vertex, and \<open>TopologicalSort\<close> orders the vertices along the edges.
\<close>

definition gr_readable :: "'g graph_lib \<Rightarrow> 'g \<Rightarrow> bool" where
  "gr_readable G g \<longleftrightarrow> (\<exists>m. gr_AdjacencyMap G g = Inr m)"

definition graph_map_law :: "'g graph_lib \<Rightarrow> bool" where
  "graph_map_law G \<longleftrightarrow>
     gr_AdjacencyMap G (gr_New G) = Inr [] \<and>
     (\<forall>g m. gr_AdjacencyMap G g = Inr m \<longrightarrow> distinct (map fst m) \<and>
        (\<forall>u es. (u, es) \<in> set m \<longrightarrow> distinct (map fst es) \<and> fst ` set es \<subseteq> fst ` set m))"

definition graph_vertex_law :: "'g graph_lib \<Rightarrow> bool" where
  "graph_vertex_law G \<longleftrightarrow>
     (\<forall>g v e g'. gr_readable G g \<longrightarrow> gr_AddVertex G g v = (e, g') \<longrightarrow>
        (if v \<in> gr_vertices G g then e \<noteq> None
         else e = None \<and> gr_readable G g' \<and> gr_vertices G g' = insert v (gr_vertices G g) \<and> gr_edge G g' = gr_edge G g))"

text \<open>When \<open>AddEdge\<close> with these ends is accepted.\<close>

definition edge_allowed :: "'g graph_lib \<Rightarrow> 'g \<Rightarrow> string \<Rightarrow> string \<Rightarrow> bool" where
  "edge_allowed G g u v \<longleftrightarrow>
     u \<in> gr_vertices G g \<and> v \<in> gr_vertices G g \<and> gr_edge G g u v = None \<and> (v, u) \<notin> (gr_edges G g)\<^sup>*"

definition graph_edge_law :: "'g graph_lib \<Rightarrow> bool" where
  "graph_edge_law G \<longleftrightarrow>
     (\<forall>g u v f e g'. gr_readable G g \<longrightarrow> gr_AddEdge G g u v f = (e, g') \<longrightarrow>
        (if edge_allowed G g u v
         then e = None \<and> gr_readable G g' \<and> gr_vertices G g' = gr_vertices G g \<and>
           (\<forall>a b. gr_edge G g' a b =
              (if a = u \<and> b = v
               then map_option (\<lambda>p. \<lparr>ed_Source = u, ed_Target = v, ed_Properties = p\<rparr>) (f (Some \<lparr>ep_Data = None\<rparr>))
               else gr_edge G g a b))
         else e \<noteq> None))"

definition graph_sort_law :: "'g graph_lib \<Rightarrow> bool" where
  "graph_sort_law G \<longleftrightarrow>
     (\<forall>g. gr_readable G g \<longrightarrow> acyclic (gr_edges G g) \<longrightarrow>
        (\<exists>vs. gr_TopologicalSort G g = Inr vs \<and> distinct vs \<and> set vs = gr_vertices G g \<and>
           (\<forall>i j. i < length vs \<longrightarrow> j < length vs \<longrightarrow> (vs ! i, vs ! j) \<in> gr_edges G g \<longrightarrow> i < j)))"

definition graph_laws :: "'g graph_lib \<Rightarrow> bool" where
  "graph_laws G \<longleftrightarrow> graph_map_law G \<and> graph_vertex_law G \<and> graph_edge_law G \<and> graph_sort_law G"

subsection \<open>The Kubernetes API client\<close>

text \<open>
  The cluster behind the client is an abstract state \<open>'a\<close>. Reads are functions of it; writes change it
  and are recorded, oldest first. A patch replaces the object by the response of the server
  (\<open>Inr\<close>) or leaves it as it was (\<open>Inl\<close>). \<open>CreateOrPatch\<close> gets its mutation as an argument.
\<close>

datatype api_call =
    PatchNodeLinks NodeLinks NodeLinks
  | PatchNodeLinksStatus NodeLinks NodeLinks
  | PatchLink Link Link
  | PatchLinkStatus Link Link
  | DeleteNodeLinks NodeLinks
  | CreateOrPatchNodeLinks string

record 'a api_client =
  api_GetNodeLinks :: "'a \<Rightarrow> string \<Rightarrow> goerror + NodeLinks"
  api_GetLink :: "'a \<Rightarrow> string \<Rightarrow> goerror + Link"
  api_GetNode :: "'a \<Rightarrow> string \<Rightarrow> goerror + Node"
  api_ListNodes :: "'a \<Rightarrow> LabelSelector \<Rightarrow> goerror + Node list"
  api_ListLinks :: "'a \<Rightarrow> goerror + Link list"
  api_LabelSelectorError :: "LabelSelector \<Rightarrow> goerror option"
  api_PatchNodeLinks :: "'a \<Rightarrow> NodeLinks \<Rightarrow> NodeLinks \<Rightarrow> (goerror + NodeLinks) \<times> 'a"
  api_PatchNodeLinksStatus :: "'a \<Rightarrow> NodeLinks \<Rightarrow> NodeLinks \<Rightarrow> (goerror + NodeLinks) \<times> 'a"
  api_PatchLink :: "'a \<Rightarrow> Link \<Rightarrow> Link \<Rightarrow> (goerror + Link) \<times> 'a"
  api_PatchLinkStatus :: "'a \<Rightarrow> Link \<Rightarrow> Link \<Rightarrow> (goerror + Link) \<times> 'a"
  api_DeleteNodeLinks :: "'a \<Rightarrow> NodeLinks \<Rightarrow> goerror option \<times> 'a"
  api_CreateOrPatchNodeLinks :: "'a \<Rightarrow> string \<Rightarrow> (NodeLinks \<Rightarrow> goerror + NodeLinks) \<Rightarrow> goerror option \<times> 'a"

text \<open>A Get returns the object of the name that was asked for.\<close>

definition get_law :: "'a api_client \<Rightarrow> bool" where
  "get_law C \<longleftrightarrow>
     (\<forall>a n l. api_GetLink C a n = Inr l \<longrightarrow> Link_Name l = n) \<and>
     (\<forall>a n x. api_GetNodeLinks C a n = Inr x \<longrightarrow> m_Name (nk_Meta x) = n)"

record 'a aworld =
  store :: 'a
  api_trace :: "api_call list"

definition api_write :: "api_call \<Rightarrow> ('a \<Rightarrow> 'r \<times> 'a) \<Rightarrow> 'a aworld \<Rightarrow> 'r \<times> 'a aworld" where
  "api_write c f aw = (let (r, a) = f (store aw) in (r, aw\<lparr>store := a, api_trace := api_trace aw @ [c]\<rparr>))"

lemma api_write_trace: "api_write c f aw = (r, aw') \<Longrightarrow> api_trace aw' = api_trace aw @ [c]"
  by (auto simp: api_write_def split: prod.splits)

text \<open>The order in which a \<open>range\<close> over a Go map of Link resources visits the keys, by call site.\<close>

datatype range_site = RangeValidate | RangeVertices | RangeLastAttempted | RangeUndesired

definition range_map :: "(range_site \<Rightarrow> string list \<Rightarrow> string list) \<Rightarrow> range_site \<Rightarrow> link_map \<Rightarrow> (string \<times> Link) list" where
  "range_map rng site m = List.map_filter (\<lambda>k. map_option (Pair k) (map_of m k)) (rng site (map fst m))"

definition range_law :: "(range_site \<Rightarrow> string list \<Rightarrow> string list) \<Rightarrow> bool" where
  "range_law rng \<longleftrightarrow> (\<forall>site ks. mset (rng site ks) = mset ks)"

lemma range_map_set:
  assumes "range_law rng" and "distinct (map fst m)"
  shows "set (range_map rng site m) = set m"
proof -
  have "set (rng site (map fst m)) = fst ` set m"
    using assms(1) by (metis mset_eq_setD range_law_def set_map)
  then show ?thesis using assms(2)
    by (force simp: range_map_def map_filter_def image_iff)
qed

lemma map_fst_lookups:
  "map fst (List.map_filter (\<lambda>k. map_option (Pair k) (f k)) ks) = filter (\<lambda>k. f k \<noteq> None) ks"
  by (induction ks) (auto simp: map_filter_simps split: option.splits)

lemma range_map_keys_distinct:
  assumes "range_law rng" and "distinct (map fst m)"
  shows "distinct (map fst (range_map rng site m))"
proof -
  have "distinct (rng site (map fst m))"
    using assms by (metis mset_eq_imp_distinct_iff range_law_def)
  then have "distinct (filter (\<lambda>k. map_of m k \<noteq> None) (rng site (map fst m)))" by simp
  moreover have "map fst (range_map rng site m) = filter (\<lambda>k. map_of m k \<noteq> None) (rng site (map fst m))"
    unfolding range_map_def by (rule map_fst_lookups)
  ultimately show ?thesis by simp
qed

lemma map_of_range_map:
  assumes "range_law rng" and "distinct (map fst m)"
  shows "map_of (range_map rng site m) = map_of m"
  using range_map_set[OF assms] range_map_keys_distinct[OF assms] assms(2) by (metis map_of_inject_set)

end
