(* ===== verification/Graph_Search.thy ===== *)
theory Graph_Search
  imports Go_Errors
begin

text \<open>
  The breadth-first search of \<open>internal/graphsearch/bfs.go\<close>, with a visit callback that has effects on
  a state and can fail, and its characterisation: the search visits exactly the reachable vertices,
  each once, in the order of \<open>bfs_order\<close>, each with the edge by which it was first reached, and it
  stops at the first error of the callback.
\<close>

subsection \<open>The search\<close>

type_synonym ('v, 'e) adjacency = "('v \<times> ('v \<times> 'e) list) list"

text \<open>Go reads a missing key of the adjacency map as a nil map, which has no entries.\<close>

definition adjacent :: "('v, 'e) adjacency \<Rightarrow> 'v \<Rightarrow> ('v \<times> 'e) list" where
  "adjacent A v = (case map_of A v of None \<Rightarrow> [] | Some es \<Rightarrow> es)"

text \<open>The inner loop: unvisited neighbours are marked and appended to the queue with their edge.\<close>

fun bfs_enqueue :: "('v \<times> 'e) list \<Rightarrow> 'v set \<Rightarrow> ('v \<times> 'e option) list \<Rightarrow> 'v set \<times> ('v \<times> 'e option) list" where
  "bfs_enqueue [] visited queue = (visited, queue)"
| "bfs_enqueue ((v, e) # es) visited queue =
     (if v \<notin> visited then bfs_enqueue es (insert v visited) (queue @ [(v, Some e)])
      else bfs_enqueue es visited queue)"

definition bfs_targets :: "('v, 'e) adjacency \<Rightarrow> 'v set" where
  "bfs_targets A = (\<Union>(u, es) \<in> set A. fst ` set es)"

lemma bfs_enqueue_visited: "fst (bfs_enqueue es visited queue) = visited \<union> fst ` set es"
  by (induction es visited queue rule: bfs_enqueue.induct) auto

lemma bfs_enqueue_queue:
  "\<exists>new. snd (bfs_enqueue es visited queue) = queue @ new \<and> distinct (map fst new) \<and>
     fst ` set new = fst ` set es - visited \<and> (\<forall>x \<in> set new. \<exists>e. snd x = Some e \<and> (fst x, e) \<in> set es)"
proof (induction es visited queue rule: bfs_enqueue.induct)
  case (1 visited queue)
  show ?case by (rule exI[of _ "[]"]) simp
next
  case (2 v e es visited queue)
  show ?case
  proof (cases "v \<in> visited")
    case True
    with 2(2) obtain new where new: "snd (bfs_enqueue es visited queue) = queue @ new" "distinct (map fst new)"
      "fst ` set new = fst ` set es - visited" "\<forall>x \<in> set new. \<exists>e. snd x = Some e \<and> (fst x, e) \<in> set es" by blast
    show ?thesis
    proof (intro exI[of _ new] conjI)
      show "fst ` set new = fst ` set ((v, e) # es) - visited" using new(3) True by auto
      show "\<forall>x \<in> set new. \<exists>e'. snd x = Some e' \<and> (fst x, e') \<in> set ((v, e) # es)" using new(4) by (meson list.set_intros(2))
    qed (use True new in simp_all)
  next
    case False
    with 2(1) obtain new where new: "snd (bfs_enqueue es (insert v visited) (queue @ [(v, Some e)])) = (queue @ [(v, Some e)]) @ new"
      "distinct (map fst new)" "fst ` set new = fst ` set es - insert v visited"
      "\<forall>x \<in> set new. \<exists>e. snd x = Some e \<and> (fst x, e) \<in> set es" by blast
    show ?thesis
    proof (intro exI[of _ "(v, Some e) # new"] conjI)
      have "v \<notin> fst ` set new" unfolding new(3) by simp
      then show "distinct (map fst ((v, Some e) # new))" using new(2) by simp
      show "fst ` set ((v, Some e) # new) = fst ` set ((v, e) # es) - visited" using new(3) False by auto
      have "\<exists>e'. snd x = Some e' \<and> (fst x, e') \<in> set ((v, e) # es)" if "x \<in> set new" for x
        using new(4) that by (meson list.set_intros(2))
      then show "\<forall>x \<in> set ((v, Some e) # new). \<exists>e'. snd x = Some e' \<and> (fst x, e') \<in> set ((v, e) # es)" by simp
    qed (use False new(1) in simp)
  qed
qed

lemma bfs_enqueue_sub: "fst ` set (snd (bfs_enqueue es visited queue)) \<subseteq> fst ` set queue \<union> fst ` set es"
  by (induction es visited queue rule: bfs_enqueue.induct) auto

lemma adjacent_targets: "fst ` set (adjacent A v) \<subseteq> bfs_targets A"
proof (cases "map_of A v")
  case (Some es)
  then have "(v, es) \<in> set A" by (rule map_of_SomeD)
  then show ?thesis using Some by (auto simp: adjacent_def bfs_targets_def)
qed (simp add: adjacent_def)

lemma finite_bfs_targets [simp]: "finite (bfs_targets A)"
  by (auto simp: bfs_targets_def)

lemma bfs_enqueue_decreases:
  assumes "bfs_enqueue (adjacent A v) visited queue = (visited', queue')"
  shows "card (bfs_targets A - visited') < card (bfs_targets A - visited) \<or>
    visited' = visited \<and> queue' = queue"
proof (cases "fst ` set (adjacent A v) \<subseteq> visited")
  case True
  have none: "fst ` set (adjacent A v) - visited = {}" using True by blast
  have "visited' = visited" using True bfs_enqueue_visited[of "adjacent A v" visited queue] assms by auto
  moreover have "queue' = queue"
    using bfs_enqueue_queue[of "adjacent A v" visited queue] assms unfolding none by auto
  ultimately show ?thesis by simp
next
  case False
  then obtain u where u: "u \<in> fst ` set (adjacent A v)" "u \<notin> visited" by blast
  have v': "visited' = visited \<union> fst ` set (adjacent A v)"
    using bfs_enqueue_visited[of "adjacent A v" visited queue] assms by simp
  have "bfs_targets A - visited' \<subset> bfs_targets A - visited"
    using u v' adjacent_targets[of A v] by blast
  then show ?thesis by (simp add: psubset_card_mono)
qed

text \<open>The outer loop. The callback takes the vertex, the edge (nil for the start) and the state.\<close>

function bfs_loop ::
  "('v, 'e) adjacency \<Rightarrow> ('v \<Rightarrow> 'e option \<Rightarrow> 's \<Rightarrow> (goerror option \<times> 's) option) \<Rightarrow>
   ('v \<times> 'e option) list \<Rightarrow> 'v set \<Rightarrow> 's \<Rightarrow> (goerror option \<times> 's) option" where
  "bfs_loop A visit [] visited s = Some (None, s)"
| "bfs_loop A visit ((v, e) # queue) visited s =
     (case visit v e s of
        None \<Rightarrow> None
      | Some (Some err, s1) \<Rightarrow> Some (Some (Wrapf (GraphMsg VisitReturnedError) err), s1)
      | Some (None, s1) \<Rightarrow>
          (case bfs_enqueue (adjacent A v) visited queue of
             (visited', queue') \<Rightarrow> bfs_loop A visit queue' visited' s1))"
  by pat_completeness auto
termination
proof (relation "measures [\<lambda>(A, visit, queue, visited, s). card (bfs_targets A - visited),
    \<lambda>(A, visit, queue, visited, s). length queue]", goal_cases)
  case 1
  then show ?case by simp
next
  case (2 A visit v e queue visited s x a b visited' queue')
  then show ?case using bfs_enqueue_decreases[of A v visited queue visited' queue'] by auto
qed

definition BFSWithEdge ::
  "(goerror + ('v, 'e) adjacency) \<Rightarrow> ('v \<Rightarrow> string) \<Rightarrow> 'v \<Rightarrow>
   ('v \<Rightarrow> 'e option \<Rightarrow> 's \<Rightarrow> (goerror option \<times> 's) option) \<Rightarrow> 's \<Rightarrow> (goerror option \<times> 's) option" where
  "BFSWithEdge adjacencyMap show_vertex start visit s =
     (case adjacencyMap of
        Inl err \<Rightarrow> Some (Some (Wrapf (GraphMsg AdjacencyMapFailed) err), s)
      | Inr A \<Rightarrow>
          if start \<notin> fst ` set A then Some (Some (Errorf (GraphMsg (StartVertexMissing (show_vertex start)))), s)
          else bfs_loop A visit [(start, None)] {start} s)"

subsection \<open>The order of the visits\<close>

function bfs_order :: "('v, 'e) adjacency \<Rightarrow> ('v \<times> 'e option) list \<Rightarrow> 'v set \<Rightarrow> ('v \<times> 'e option) list" where
  "bfs_order A [] visited = []"
| "bfs_order A ((v, e) # queue) visited =
     (v, e) # (case bfs_enqueue (adjacent A v) visited queue of
                 (visited', queue') \<Rightarrow> bfs_order A queue' visited')"
  by pat_completeness auto
termination
proof (relation "measures [\<lambda>(A, queue, visited). card (bfs_targets A - visited), \<lambda>(A, queue, visited). length queue]",
    goal_cases)
  case 1
  then show ?case by simp
next
  case (2 A v e queue visited visited' queue')
  then show ?case using bfs_enqueue_decreases[of A v visited queue visited' queue'] by auto
qed

text \<open>Visiting a list of vertices in order, up to the first error.\<close>

fun visit_all :: "('v \<Rightarrow> 'e option \<Rightarrow> 's \<Rightarrow> (goerror option \<times> 's) option) \<Rightarrow> ('v \<times> 'e option) list \<Rightarrow> 's \<Rightarrow> (goerror option \<times> 's) option" where
  "visit_all visit [] s = Some (None, s)"
| "visit_all visit ((v, e) # xs) s =
     (case visit v e s of
        None \<Rightarrow> None
      | Some (Some err, s1) \<Rightarrow> Some (Some (Wrapf (GraphMsg VisitReturnedError) err), s1)
      | Some (None, s1) \<Rightarrow> visit_all visit xs s1)"

lemma bfs_loop_visit_all: "bfs_loop A visit queue visited s = visit_all visit (bfs_order A queue visited) s"
  by (induction A visit queue visited s rule: bfs_loop.induct)
    (auto split: option.splits prod.splits)

subsection \<open>Which vertices, how often, by which edge\<close>

definition bfs_edges :: "('v, 'e) adjacency \<Rightarrow> ('v \<times> 'v) set" where
  "bfs_edges A = {(u, v). v \<in> fst ` set (adjacent A u)}"

lemma bfs_order_reachable:
  "x \<in> set (bfs_order A queue visited) \<Longrightarrow> fst x \<in> (bfs_edges A)\<^sup>* `` (fst ` set queue)"
proof (induction A queue visited rule: bfs_order.induct)
  case (1 A visited)
  then show ?case by simp
next
  case (2 A v e queue visited)
  obtain vis q where enq: "bfs_enqueue (adjacent A v) visited queue = (vis, q)" by fastforce
  have sub: "fst ` set q \<subseteq> fst ` set queue \<union> fst ` set (adjacent A v)"
    using bfs_enqueue_sub[of "adjacent A v" visited queue] enq by simp
  have step: "(bfs_edges A)\<^sup>* `` (fst ` set q) \<subseteq> (bfs_edges A)\<^sup>* `` (insert v (fst ` set queue))"
  proof
    fix z assume "z \<in> (bfs_edges A)\<^sup>* `` (fst ` set q)"
    then obtain y where y: "y \<in> fst ` set q" "(y, z) \<in> (bfs_edges A)\<^sup>*" by blast
    then consider "y \<in> fst ` set queue" | "(v, y) \<in> bfs_edges A" using sub by (auto simp: bfs_edges_def)
    then show "z \<in> (bfs_edges A)\<^sup>* `` (insert v (fst ` set queue))"
      using y(2) by cases (auto intro: converse_rtrancl_into_rtrancl)
  qed
  have "fst x \<in> (bfs_edges A)\<^sup>* `` (insert v (fst ` set queue))"
  proof (cases "x = (v, e)")
    case False
    then have "x \<in> set (bfs_order A q vis)" using 2(2) enq by simp
    from 2(1)[OF enq[symmetric] this] step show ?thesis by blast
  qed auto
  then show ?case by simp
qed

lemma bfs_order_closed:
  assumes "fst ` set queue \<subseteq> visited" and "distinct (map fst queue)"
    and "bfs_edges A `` (visited - fst ` set queue) \<subseteq> visited"
  shows "visited \<subseteq> (visited - fst ` set queue) \<union> fst ` set (bfs_order A queue visited) \<and>
    bfs_edges A `` ((visited - fst ` set queue) \<union> fst ` set (bfs_order A queue visited)) \<subseteq>
      (visited - fst ` set queue) \<union> fst ` set (bfs_order A queue visited)"
  using assms
proof (induction A queue visited rule: bfs_order.induct)
  case (1 A visited)
  then show ?case by auto
next
  case (2 A v e queue visited)
  obtain vis q where enq: "bfs_enqueue (adjacent A v) visited queue = (vis, q)" by fastforce
  have vis: "vis = visited \<union> fst ` set (adjacent A v)"
    using bfs_enqueue_visited[of "adjacent A v" visited queue] enq by simp
  obtain new where q: "q = queue @ new" "distinct (map fst new)" "fst ` set new = fst ` set (adjacent A v) - visited"
    using bfs_enqueue_queue[of "adjacent A v" visited queue] enq by fastforce
  have d: "vis - fst ` set q = insert v (visited - fst ` set ((v, e) # queue))"
    using 2(2,3) vis q(1,3) by auto
  have adj: "bfs_edges A `` {v} = fst ` set (adjacent A v)" by (auto simp: bfs_edges_def)
  have "fst ` set q \<subseteq> vis" using 2(2) vis q by auto
  moreover have "distinct (map fst q)"
  proof -
    have "fst ` set queue \<inter> fst ` set new = {}" using 2(2) q(3) by auto
    then show ?thesis using 2(3) q(1,2) by auto
  qed
  moreover have "bfs_edges A `` (vis - fst ` set q) \<subseteq> vis"
    unfolding d using 2(4) vis adj by blast
  ultimately have IH: "vis \<subseteq> (vis - fst ` set q) \<union> fst ` set (bfs_order A q vis) \<and>
    bfs_edges A `` ((vis - fst ` set q) \<union> fst ` set (bfs_order A q vis)) \<subseteq>
      (vis - fst ` set q) \<union> fst ` set (bfs_order A q vis)"
    using 2(1)[OF enq[symmetric]] by simp
  have "(vis - fst ` set q) \<union> fst ` set (bfs_order A q vis) =
      (visited - fst ` set ((v, e) # queue)) \<union> fst ` set (bfs_order A ((v, e) # queue) visited)"
    using d enq by auto
  then show ?case using IH vis by auto
qed

lemma bfs_order_distinct:
  assumes "fst ` set queue \<subseteq> visited" and "distinct (map fst queue)"
  shows "distinct (map fst (bfs_order A queue visited)) \<and>
    fst ` set (bfs_order A queue visited) \<inter> (visited - fst ` set queue) = {}"
  using assms
proof (induction A queue visited rule: bfs_order.induct)
  case (1 A visited)
  then show ?case by simp
next
  case (2 A v e queue visited)
  obtain vis q where enq: "bfs_enqueue (adjacent A v) visited queue = (vis, q)" by fastforce
  have vis: "vis = visited \<union> fst ` set (adjacent A v)"
    using bfs_enqueue_visited[of "adjacent A v" visited queue] enq by simp
  obtain new where q: "q = queue @ new" "distinct (map fst new)" "fst ` set new = fst ` set (adjacent A v) - visited"
    using bfs_enqueue_queue[of "adjacent A v" visited queue] enq by fastforce
  have "fst ` set queue \<inter> fst ` set new = {}" using 2(2) q(3) by auto
  then have "distinct (map fst q)" "fst ` set q \<subseteq> vis" using 2(2,3) q vis by auto
  then have IH: "distinct (map fst (bfs_order A q vis)) \<and> fst ` set (bfs_order A q vis) \<inter> (vis - fst ` set q) = {}"
    using 2(1)[OF enq[symmetric]] by simp
  have "vis - fst ` set q = insert v (visited - fst ` set ((v, e) # queue))"
    using 2(2,3) vis q(1,3) by auto
  then show ?case using IH enq by auto
qed

lemma bfs_order_edges:
  "x \<in> set (bfs_order A queue visited) \<Longrightarrow>
     x \<in> set queue \<or> (\<exists>u e. snd x = Some e \<and> (fst x, e) \<in> set (adjacent A u))"
proof (induction A queue visited rule: bfs_order.induct)
  case (1 A visited)
  then show ?case by simp
next
  case (2 A v e queue visited)
  obtain vis q where enq: "bfs_enqueue (adjacent A v) visited queue = (vis, q)" by fastforce
  obtain new where q: "q = queue @ new" "\<forall>x \<in> set new. \<exists>e. snd x = Some e \<and> (fst x, e) \<in> set (adjacent A v)"
    using bfs_enqueue_queue[of "adjacent A v" visited queue] enq by fastforce
  show ?case
  proof (cases "x = (v, e)")
    case False
    then have "x \<in> set (bfs_order A q vis)" using 2(2) enq by simp
    from 2(1)[OF enq[symmetric] this] q show ?thesis by auto
  qed simp
qed

definition bfs_visits :: "('v, 'e) adjacency \<Rightarrow> 'v \<Rightarrow> ('v \<times> 'e option) list" where
  "bfs_visits A start = bfs_order A [(start, None)] {start}"

lemma bfs_visits_reachable: "fst ` set (bfs_visits A start) = (bfs_edges A)\<^sup>* `` {start}"
proof
  show "fst ` set (bfs_visits A start) \<subseteq> (bfs_edges A)\<^sup>* `` {start}"
    using bfs_order_reachable[of _ A "[(start, None)]" "{start}"] by (auto simp: bfs_visits_def)
  have c: "{start} \<subseteq> fst ` set (bfs_visits A start) \<and>
    bfs_edges A `` (fst ` set (bfs_visits A start)) \<subseteq> fst ` set (bfs_visits A start)"
    using bfs_order_closed[of "[(start, None)]" "{start}" A] by (simp add: bfs_visits_def)
  then show "(bfs_edges A)\<^sup>* `` {start} \<subseteq> fst ` set (bfs_visits A start)"
    by (metis Image_closed_trancl Image_mono subset_refl)
qed

lemma bfs_visits_distinct: "distinct (map fst (bfs_visits A start))"
  using bfs_order_distinct[of "[(start, None)]" "{start}" A] by (simp add: bfs_visits_def)

lemma bfs_visits_Cons: "\<exists>xs. bfs_visits A start = (start, None) # xs \<and> (\<forall>x \<in> set xs. \<exists>u e. snd x = Some e \<and> (fst x, e) \<in> set (adjacent A u))"
proof -
  obtain xs where xs: "bfs_visits A start = (start, None) # xs"
    by (auto simp: bfs_visits_def split: prod.splits)
  have "\<exists>u e. snd x = Some e \<and> (fst x, e) \<in> set (adjacent A u)" if "x \<in> set xs" for x
  proof -
    have "x \<noteq> (start, None)" using that bfs_visits_distinct[of A start] xs by force
    then show ?thesis using bfs_order_edges[of x A "[(start, None)]" "{start}"] that xs by (auto simp: bfs_visits_def)
  qed
  then show ?thesis using xs by blast
qed

lemma BFSWithEdge_visits:
  "start \<in> fst ` set A \<Longrightarrow> BFSWithEdge (Inr A) sh start visit s = visit_all visit (bfs_visits A start) s"
  by (simp add: BFSWithEdge_def bfs_loop_visit_all bfs_visits_def)

subsection \<open>Properties of the callback carry over\<close>

lemma visit_all_invariant:
  assumes "visit_all visit xs s = Some (r, s')" and "I s"
    and "\<And>v e s r s'. (v, e) \<in> set xs \<Longrightarrow> I s \<Longrightarrow> visit v e s = Some (r, s') \<Longrightarrow> I s'"
  shows "I s'"
  using assms
proof (induction visit xs s rule: visit_all.induct)
  case (1 visit s)
  then show ?case by simp
next
  case (2 visit v e xs s)
  from 2(2) obtain r1 s1 where step: "visit v e s = Some (r1, s1)" by (auto split: option.splits)
  have s1: "I s1" by (rule 2(4)[OF _ 2(3) step]) simp
  show ?case
  proof (cases r1)
    case None
    then have "visit_all visit xs s1 = Some (r, s')" using 2(2) step by simp
    then show ?thesis using 2(1)[OF step[unfolded None] refl refl] s1 2(4) None step by (meson list.set_intros(2))
  next
    case (Some err)
    then show ?thesis using 2(2) step s1 by simp
  qed
qed

lemma visit_all_total:
  assumes "I s" and "\<And>v e s. (v, e) \<in> set xs \<Longrightarrow> I s \<Longrightarrow> \<exists>r s'. visit v e s = Some (r, s') \<and> I s'"
  shows "\<exists>r s'. visit_all visit xs s = Some (r, s') \<and> I s'"
  using assms
proof (induction xs arbitrary: s)
  case Nil
  then show ?case by simp
next
  case (Cons x xs)
  obtain v e where x: "x = (v, e)" by fastforce
  from Cons.prems x obtain r s1 where step: "visit v e s = Some (r, s1)" "I s1"
    by (meson list.set_intros(1))
  show ?case
  proof (cases r)
    case None
    then show ?thesis using Cons.IH[OF step(2)] Cons.prems(2) step x by simp
  next
    case (Some err)
    then show ?thesis using step x by simp
  qed
qed

lemma BFSWithEdge_invariant:
  assumes "BFSWithEdge am sh start visit s = Some (r, s')" and "I s"
    and "\<And>v e s r s'. I s \<Longrightarrow> visit v e s = Some (r, s') \<Longrightarrow> I s'"
  shows "I s'"
proof -
  have "s' = s \<or> (\<exists>A. visit_all visit (bfs_visits A start) s = Some (r, s'))"
    using assms(1) by (simp add: BFSWithEdge_def bfs_loop_visit_all bfs_visits_def split: sum.splits if_splits) blast
  then show ?thesis using assms(2,3) visit_all_invariant[of visit _ s r s' I] by metis
qed

end
