(* ===== verification/NodeLinks_State.thy ===== *)
theory NodeLinks_State
  imports Operator_Env Graph_Search
begin

text \<open>
  The state of one reconciliation of the NodeLinks controller (\<open>nodelinks_controller.go\<close>) and the
  operations on it that every other step uses: the conditions of a link and of the resource, the two
  patches of \<open>patchResource\<close>, \<open>handleError\<close>.
\<close>

subsection \<open>State\<close>

text \<open>
  \<open>nodeLinks\<close> and \<open>clusterStateNodeLinks\<close> are the two objects the reconciler passes by pointer to every
  function; \<open>allDependenciesExist\<close> is the local variable that a closure of
  \<open>updateDependentsMissingDependencies\<close> captures. Logging is left out; events are recorded by the
  error they report.
\<close>

record ('k, 'a) nstate =
  nn_world :: "'k kworld"
  nn_api :: "'a aworld"
  nn_watched :: "string set"
  nn_events :: "goerror list"
  nn_nodeLinks :: NodeLinks
  nn_clusterState :: NodeLinks
  nn_allDependenciesExist :: bool

type_synonym ('k, 'a) nstep = "('k, 'a) nstate \<Rightarrow> (goerror option \<times> ('k, 'a) nstate) option"

text \<open>
  The libraries and the fields of the reconciler that do not change. \<open>ne_pie_Map\<close> is \<open>pie.Map\<close> on a
  slice of names with a callback that has effects on the state.
\<close>

record ('k, 'g, 'a) nenv =
  ne_netlink :: "'k netlink"
  ne_graph :: "'g graph_lib"
  ne_client :: "'a api_client"
  ne_k8s :: k8s_lib
  ne_pie :: pie_lib
  ne_pie_Map :: "(string \<Rightarrow> ('k, 'a) nstep) \<Rightarrow> string list \<Rightarrow> ('k, 'a) nstate \<Rightarrow> (goerror option list \<times> ('k, 'a) nstate) option"
  ne_range :: "range_site \<Rightarrow> string list \<Rightarrow> string list"
  ne_nodeName :: string
  ne_ResyncInterval :: int

definition nodeLinksFinalizerName :: string where
  "nodeLinksFinalizerName = ''nodelinks.nodenetworkoperator.soliddowant.dev/finalizer''"

text \<open>
  What the controller relies on. \<open>pie.Map\<close> calls its callback on the elements from first to last:
  \<open>traverse\<close> of theory \<open>Prelude\<close>.
\<close>

definition nenv_ok :: "('k, 'g, 'a) nenv \<Rightarrow> bool" where
  "nenv_ok E \<longleftrightarrow>
     netlink_types (ne_netlink E) \<and> k8s_laws (ne_k8s E) \<and> pie_laws (ne_pie E) \<and>
     ne_pie_Map E = traverse \<and> range_law (ne_range E)"

lemma nenv_okD:
  assumes "nenv_ok E"
  shows "netlink_types (ne_netlink E)" "k8s_laws (ne_k8s E)" "pie_laws (ne_pie E)"
    "ne_pie_Map E = traverse" "range_law (ne_range E)"
  using assms by (simp_all add: nenv_ok_def)

subsection \<open>Conditions\<close>

definition set_NodeLinks_condition :: "k8s_lib \<Rightarrow> Condition \<Rightarrow> NodeLinks \<Rightarrow> NodeLinks" where
  "set_NodeLinks_condition L c n =
     n\<lparr>nk_Status := (nk_Status n)\<lparr>ns_Conditions := lib_SetStatusCondition L c (ns_Conditions (nk_Status n))\<rparr>\<rparr>"

definition setLinkCondition :: "k8s_lib \<Rightarrow> string \<Rightarrow> Condition \<Rightarrow> NodeLinks \<Rightarrow> NodeLinks" where
  "setLinkCondition L netlinkLinkName c n =
     (let linkConditions = (case NetlinkLinkConditions n netlinkLinkName of None \<Rightarrow> [] | Some cs \<Rightarrow> cs) in
      n\<lparr>nk_Status := (nk_Status n)\<lparr>ns_NetlinkLinkConditions :=
        (NetlinkLinkConditions n)(netlinkLinkName \<mapsto> lib_SetStatusCondition L c linkConditions)\<rparr>\<rparr>)"

definition upd_nodeLinks :: "(NodeLinks \<Rightarrow> NodeLinks) \<Rightarrow> ('k, 'a) nstate \<Rightarrow> ('k, 'a) nstate" where
  "upd_nodeLinks f s = s\<lparr>nn_nodeLinks := f (nn_nodeLinks s)\<rparr>"

lemma upd_nodeLinks_sel [simp]:
  "nn_nodeLinks (upd_nodeLinks f s) = f (nn_nodeLinks s)" "nn_world (upd_nodeLinks f s) = nn_world s"
  "nn_api (upd_nodeLinks f s) = nn_api s" "nn_clusterState (upd_nodeLinks f s) = nn_clusterState s"
  "nn_watched (upd_nodeLinks f s) = nn_watched s" "nn_events (upd_nodeLinks f s) = nn_events s"
  "nn_allDependenciesExist (upd_nodeLinks f s) = nn_allDependenciesExist s"
  by (simp_all add: upd_nodeLinks_def)

text \<open>The condition of type \<open>t\<close> of the link \<open>n\<close>, as the status of the resource has it.\<close>

definition link_cond :: "NodeLinks \<Rightarrow> string \<Rightarrow> cond_type \<Rightarrow> Condition option" where
  "link_cond x n t = (case NetlinkLinkConditions x n of None \<Rightarrow> None | Some cs \<Rightarrow> cond_of t cs)"

lemma cond_of_Nil [simp]: "cond_of t [] = None"
  by (simp add: cond_of_def)

lemma link_cond_set:
  assumes "k8s_laws L"
  shows "says (link_cond (setLinkCondition L n c x) n (c_Type c)) c"
    and "m \<noteq> n \<or> t \<noteq> c_Type c \<Longrightarrow> link_cond (setLinkCondition L n c x) m t = link_cond x m t"
  using k8s_condition[OF assms] by (auto simp: link_cond_def setLinkCondition_def Let_def split: option.splits)

lemma setLinkCondition_frame [frame_simps]:
  "nk_Meta (setLinkCondition L n c x) = nk_Meta x" "nk_Spec (setLinkCondition L n c x) = nk_Spec x"
  "ns_Conditions (nk_Status (setLinkCondition L n c x)) = ns_Conditions (nk_Status x)"
  "LastAttempted (setLinkCondition L n c x) = LastAttempted x"
  by (simp_all add: setLinkCondition_def Let_def)

lemma set_NodeLinks_condition_frame [frame_simps]:
  "nk_Meta (set_NodeLinks_condition L c x) = nk_Meta x" "nk_Spec (set_NodeLinks_condition L c x) = nk_Spec x"
  "NetlinkLinkConditions (set_NodeLinks_condition L c x) = NetlinkLinkConditions x"
  "LastAttempted (set_NodeLinks_condition L c x) = LastAttempted x"
  "link_cond (set_NodeLinks_condition L c x) n t = link_cond x n t"
  by (simp_all add: set_NodeLinks_condition_def link_cond_def)

lemma resource_cond_set:
  assumes "k8s_laws L"
  shows "says (cond_of (c_Type c) (ns_Conditions (nk_Status (set_NodeLinks_condition L c x)))) c"
    and "t \<noteq> c_Type c \<Longrightarrow>
      cond_of t (ns_Conditions (nk_Status (set_NodeLinks_condition L c x))) = cond_of t (ns_Conditions (nk_Status x))"
  using k8s_condition[OF assms] by (simp_all add: set_NodeLinks_condition_def)

subsection \<open>Patching the resource\<close>

definition NodeLinks_patchFailed :: "goerror \<Rightarrow> ('k, 'a) nstate \<Rightarrow> goerror option \<times> ('k, 'a) nstate" where
  "NodeLinks_patchFailed err s =
     (Some (Wrapf (NodeLinksMsg PatchNodeLinksFailed) err), s\<lparr>nn_events := nn_events s @ [err]\<rparr>)"

text \<open>
  The main resource first: \<open>nodeLinks\<close> with the status of the cluster is compared and patched, and the
  desired status is put back on \<open>nodeLinks\<close> afterwards, whether the patch failed or not.
\<close>

definition NodeLinks_patch_main :: "('k, 'g, 'a) nenv \<Rightarrow> ('k, 'a) nstate \<Rightarrow> goerror option \<times> ('k, 'a) nstate" where
  "NodeLinks_patch_main E s =
     (let desiredStatus = nk_Status (nn_nodeLinks s);
          cluster = nn_clusterState s;
          obj = (nn_nodeLinks s)\<lparr>nk_Status := nk_Status cluster\<rparr>
      in
        if \<not> lib_DeepEqual_NodeLinks (ne_k8s E) cluster obj
        then (case api_write (PatchNodeLinks obj cluster) (\<lambda>a. api_PatchNodeLinks (ne_client E) a obj cluster) (nn_api s) of
            (Inl err, aw) \<Rightarrow> (Some err, s\<lparr>nn_api := aw, nn_nodeLinks := obj\<lparr>nk_Status := desiredStatus\<rparr>\<rparr>)
          | (Inr resp, aw) \<Rightarrow>
              (None, s\<lparr>nn_api := aw, nn_clusterState := resp, nn_nodeLinks := resp\<lparr>nk_Status := desiredStatus\<rparr>\<rparr>))
        else (None, s\<lparr>nn_nodeLinks := obj\<lparr>nk_Status := desiredStatus\<rparr>\<rparr>))"

definition NodeLinks_patch_status :: "('k, 'g, 'a) nenv \<Rightarrow> ('k, 'a) nstate \<Rightarrow> goerror option \<times> ('k, 'a) nstate" where
  "NodeLinks_patch_status E s =
     (let cluster = nn_clusterState s; obj = nn_nodeLinks s in
      if \<not> lib_DeepEqual_NodeLinksStatus (ne_k8s E) (nk_Status cluster) (nk_Status obj)
      then (case api_write (PatchNodeLinksStatus obj cluster) (\<lambda>a. api_PatchNodeLinksStatus (ne_client E) a obj cluster) (nn_api s) of
          (Inl err, aw) \<Rightarrow>
            (if lib_IsNotFound (ne_k8s E) err \<and> \<not> DeletionTimestamp_IsZero (nk_Meta obj) then None else Some err,
             s\<lparr>nn_api := aw\<rparr>)
        | (Inr resp, aw) \<Rightarrow> (None, s\<lparr>nn_api := aw, nn_nodeLinks := resp\<rparr>))
      else (None, s))"

definition NodeLinks_patchResource :: "('k, 'g, 'a) nenv \<Rightarrow> ('k, 'a) nstate \<Rightarrow> goerror option \<times> ('k, 'a) nstate" where
  "NodeLinks_patchResource E s =
     (case NodeLinks_patch_main E s of
        (Some err, s1) \<Rightarrow> NodeLinks_patchFailed err s1
      | (None, s1) \<Rightarrow>
          (case NodeLinks_patch_status E s1 of
             (Some err, s2) \<Rightarrow> NodeLinks_patchFailed err s2
           | (None, s2) \<Rightarrow> (None, s2\<lparr>nn_clusterState := nn_nodeLinks s2\<rparr>)))"

text \<open>The result of a reconciliation is \<open>RequeueAfter\<close> (0 when not set) and an error.\<close>

type_synonym ('k, 'a) nresult = "(int \<times> goerror option) \<times> ('k, 'a) nstate"

definition NodeLinks_handleError :: "('k, 'g, 'a) nenv \<Rightarrow> Condition option \<Rightarrow> goerror \<Rightarrow> ('k, 'a) nstate \<Rightarrow> ('k, 'a) nresult" where
  "NodeLinks_handleError E cond err s =
     (let s1 = (case cond of None \<Rightarrow> s | Some c \<Rightarrow> upd_nodeLinks (set_NodeLinks_condition (ne_k8s E) c) s);
          (perr, s2) = NodeLinks_patchResource E s1
      in ((0, errors_Join [Some err, perr]), s2))"

subsection \<open>What patching leaves alone\<close>

lemma NodeLinks_patch_main_frame:
  assumes "NodeLinks_patch_main E s = (e, s')"
  shows "nn_world s' = nn_world s \<and> nn_watched s' = nn_watched s \<and>
    nn_allDependenciesExist s' = nn_allDependenciesExist s \<and> nk_Status (nn_nodeLinks s') = nk_Status (nn_nodeLinks s)"
  using assms by (auto simp: NodeLinks_patch_main_def Let_def split: prod.splits sum.splits if_splits)

lemma NodeLinks_patch_status_frame:
  assumes "NodeLinks_patch_status E s = (e, s')"
  shows "nn_world s' = nn_world s \<and> nn_watched s' = nn_watched s \<and>
    nn_allDependenciesExist s' = nn_allDependenciesExist s"
  using assms by (auto simp: NodeLinks_patch_status_def Let_def split: prod.splits sum.splits if_splits)

lemma NodeLinks_patchResource_cases:
  assumes "NodeLinks_patchResource E s = (e, s')"
  obtains (main_failed) err s1 where "NodeLinks_patch_main E s = (Some err, s1)"
      "e = Some (Wrapf (NodeLinksMsg PatchNodeLinksFailed) err)" "s' = s1\<lparr>nn_events := nn_events s1 @ [err]\<rparr>"
  | (status_failed) s1 err s2 where "NodeLinks_patch_main E s = (None, s1)" "NodeLinks_patch_status E s1 = (Some err, s2)"
      "e = Some (Wrapf (NodeLinksMsg PatchNodeLinksFailed) err)" "s' = s2\<lparr>nn_events := nn_events s2 @ [err]\<rparr>"
  | (patched) s1 s2 where "NodeLinks_patch_main E s = (None, s1)" "NodeLinks_patch_status E s1 = (None, s2)"
      "e = None" "s' = s2\<lparr>nn_clusterState := nn_nodeLinks s2\<rparr>"
proof -
  obtain m s1 where 1: "NodeLinks_patch_main E s = (m, s1)" by fastforce
  obtain t s2 where 2: "NodeLinks_patch_status E s1 = (t, s2)" by fastforce
  note defs = NodeLinks_patchResource_def NodeLinks_patchFailed_def
  show thesis
  proof (cases m)
    case (Some err)
    show thesis by (rule main_failed[OF 1[unfolded Some]]) (use assms 1 Some in \<open>simp_all add: defs\<close>)
  next
    case m: None
    show thesis
    proof (cases t)
      case (Some err)
      show thesis by (rule status_failed[OF 1[unfolded m] 2[unfolded Some]]) (use assms 1 2 m Some in \<open>simp_all add: defs\<close>)
    next
      case None
      show thesis by (rule patched[OF 1[unfolded m] 2[unfolded None]]) (use assms 1 2 m None in \<open>simp_all add: defs\<close>)
    qed
  qed
qed

lemma NodeLinks_patchResource_frame [frame_simps]:
  "nn_world (snd (NodeLinks_patchResource E s)) = nn_world s"
  "nn_watched (snd (NodeLinks_patchResource E s)) = nn_watched s"
  "nn_allDependenciesExist (snd (NodeLinks_patchResource E s)) = nn_allDependenciesExist s"
proof -
  obtain e s' where p: "NodeLinks_patchResource E s = (e, s')" by fastforce
  then have "nn_world s' = nn_world s \<and> nn_watched s' = nn_watched s \<and> nn_allDependenciesExist s' = nn_allDependenciesExist s"
  proof (cases rule: NodeLinks_patchResource_cases)
    case (main_failed err s1)
    then show ?thesis using NodeLinks_patch_main_frame[OF main_failed(1)] by simp
  next
    case (status_failed s1 err s2)
    then show ?thesis
      using NodeLinks_patch_main_frame[OF status_failed(1)] NodeLinks_patch_status_frame[OF status_failed(2)] by simp
  next
    case (patched s1 s2)
    then show ?thesis
      using NodeLinks_patch_main_frame[OF patched(1)] NodeLinks_patch_status_frame[OF patched(2)] by simp
  qed
  then show "nn_world (snd (NodeLinks_patchResource E s)) = nn_world s"
    "nn_watched (snd (NodeLinks_patchResource E s)) = nn_watched s"
    "nn_allDependenciesExist (snd (NodeLinks_patchResource E s)) = nn_allDependenciesExist s"
    using p by simp_all
qed

lemma NodeLinks_patchResource_world: "NodeLinks_patchResource E s = (e, s') \<Longrightarrow> nn_world s' = nn_world s"
  using NodeLinks_patchResource_frame(1)[of E s] by simp

lemma NodeLinks_handleErrorE:
  assumes "NodeLinks_handleError E c err s = (r, s')"
  obtains perr s1 where "NodeLinks_patchResource E s1 = (perr, s')" "r = (0, errors_Join [Some err, perr])"
    "s1 = (case c of None \<Rightarrow> s | Some c \<Rightarrow> upd_nodeLinks (set_NodeLinks_condition (ne_k8s E) c) s)"
proof -
  obtain perr s2 where "NodeLinks_patchResource E
      (case c of None \<Rightarrow> s | Some c \<Rightarrow> upd_nodeLinks (set_NodeLinks_condition (ne_k8s E) c) s) = (perr, s2)" by fastforce
  then show thesis using assms that by (simp add: NodeLinks_handleError_def)
qed

lemma NodeLinks_handleError_world:
  assumes "NodeLinks_handleError E c err s = (r, s')"
  shows "nn_world s' = nn_world s" "fst r = 0" "\<exists>e. snd r = Some e"
proof -
  from assms obtain perr s1 where p: "NodeLinks_patchResource E s1 = (perr, s')" "r = (0, errors_Join [Some err, perr])"
    "s1 = (case c of None \<Rightarrow> s | Some c \<Rightarrow> upd_nodeLinks (set_NodeLinks_condition (ne_k8s E) c) s)"
    by (rule NodeLinks_handleErrorE)
  show "nn_world s' = nn_world s"
    using NodeLinks_patchResource_world[OF p(1)] p(3) by (simp split: option.splits)
  show "fst r = 0" "\<exists>e. snd r = Some e" using p(2) by (simp_all add: errors_Join_def)
qed

subsection \<open>What patching does\<close>

text \<open>
  This controller is the only writer of the status of its resource: the response to a status patch
  carries the status that was sent.
\<close>

definition status_patch_law :: "'a api_client \<Rightarrow> bool" where
  "status_patch_law C \<longleftrightarrow>
     (\<forall>a obj base resp a'. api_PatchNodeLinksStatus C a obj base = (Inr resp, a') \<longrightarrow> nk_Status resp = nk_Status obj)"

lemma status_patch_lawD:
  "status_patch_law C \<Longrightarrow> api_PatchNodeLinksStatus C a obj base = (Inr resp, a') \<Longrightarrow> nk_Status resp = nk_Status obj"
  unfolding status_patch_law_def by blast

lemma NodeLinks_patchResource_status:
  assumes "NodeLinks_patchResource E s = (e, s')" and "status_patch_law (ne_client E)"
  shows "nk_Status (nn_nodeLinks s') = nk_Status (nn_nodeLinks s)"
proof -
  have st: "nk_Status (nn_nodeLinks s2) = nk_Status (nn_nodeLinks s1)" if "NodeLinks_patch_status E s1 = (x, s2)" for x s1 s2
    using that assms(2)
    by (auto simp: NodeLinks_patch_status_def api_write_def Let_def dest: status_patch_lawD[OF assms(2)]
        split: prod.splits sum.splits if_splits)
  from assms(1) show ?thesis
  proof (cases rule: NodeLinks_patchResource_cases)
    case (main_failed err s1)
    then show ?thesis using NodeLinks_patch_main_frame[OF main_failed(1)] by simp
  next
    case (status_failed s1 err s2)
    then show ?thesis using NodeLinks_patch_main_frame[OF status_failed(1)] st[OF status_failed(2)] by simp
  next
    case (patched s1 s2)
    then show ?thesis using NodeLinks_patch_main_frame[OF patched(1)] st[OF patched(2)] by simp
  qed
qed

lemma NodeLinks_patchResource_synced:
  "NodeLinks_patchResource E s = (None, s') \<Longrightarrow> nn_clusterState s' = nn_nodeLinks s'"
  by (erule NodeLinks_patchResource_cases) auto

lemma NodeLinks_handleError_status:
  assumes "NodeLinks_handleError E c err s = (r, s')" and "status_patch_law (ne_client E)"
  shows "NetlinkLinkConditions (nn_nodeLinks s') = NetlinkLinkConditions (nn_nodeLinks s)"
    "LastAttempted (nn_nodeLinks s') = LastAttempted (nn_nodeLinks s)"
proof -
  from assms(1) obtain perr s1 where p: "NodeLinks_patchResource E s1 = (perr, s')"
    "s1 = (case c of None \<Rightarrow> s | Some c \<Rightarrow> upd_nodeLinks (set_NodeLinks_condition (ne_k8s E) c) s)"
    by (rule NodeLinks_handleErrorE)
  then show "NetlinkLinkConditions (nn_nodeLinks s') = NetlinkLinkConditions (nn_nodeLinks s)"
    "LastAttempted (nn_nodeLinks s') = LastAttempted (nn_nodeLinks s)"
    using NodeLinks_patchResource_status[OF p(1) assms(2)] by (simp_all add: frame_simps split: option.splits)
qed

end
