(* ===== verification/NodeLinks_Plan.thy ===== *)
theory NodeLinks_Plan
  imports NodeLinks_State "HOL-Library.AList" "HOL-Library.Char_ord" "HOL-Library.List_Lexorder"
begin

text \<open>
  The first half of a reconciliation, which reads and decides but touches no link: retrieving the Link
  resources, validating them against each other, building the dependency graph and sorting it
  (\<open>getLinkResources\<close>, \<open>validateLinks\<close>, \<open>buildDesiredLinkGraph\<close>, \<open>getTopolgicallySortedLinkNames\<close>).
\<close>

subsection \<open>Retrieving the Link resources\<close>

fun get_link_resources :: "'a api_client \<Rightarrow> 'a \<Rightarrow> string list \<Rightarrow> link_map \<Rightarrow> goerror + link_map" where
  "get_link_resources C a [] linkResources = Inr linkResources"
| "get_link_resources C a (linkName # names) linkResources =
     (case api_GetLink C a linkName of
        Inl err \<Rightarrow> Inl (Wrapf (NodeLinksMsg (GetLinkResource linkName)) err)
      | Inr link \<Rightarrow> get_link_resources C a names (AList.update (Link_Name link) link linkResources))"

definition getLinkResources :: "('k, 'g, 'a) nenv \<Rightarrow> ('k, 'a) nstate \<Rightarrow> goerror + link_map" where
  "getLinkResources E s =
     get_link_resources (ne_client E) (store (nn_api s)) (pie_Unique (ne_pie E) (MatchingLinks (nn_nodeLinks s))) []"

lemma get_link_resources_keys:
  "get_link_resources C a names m = Inr links \<Longrightarrow> distinct (map fst m) \<Longrightarrow> distinct (map fst links)"
proof (induction C a names m rule: get_link_resources.induct)
  case (2 C a n ns m)
  then obtain link where "api_GetLink C a n = Inr link" by (auto split: sum.splits)
  with 2 show ?case by (auto simp: distinct_update)
qed simp

lemma get_link_resources_map_of:
  assumes "get_law C" and "get_link_resources C a names m = Inr links"
  shows "map_of links n =
    (if n \<in> set names then (case api_GetLink C a n of Inr l \<Rightarrow> Some l | Inl e \<Rightarrow> None) else map_of m n) \<and>
    (n \<in> set names \<longrightarrow> (\<exists>l. api_GetLink C a n = Inr l))"
  using assms(2)
proof (induction names arbitrary: m)
  case Nil
  then show ?case by simp
next
  case (Cons x xs)
  then obtain link where x: "api_GetLink C a x = Inr link" by (auto split: sum.splits)
  then have "Link_Name link = x" using assms(1) by (simp add: get_law_def)
  then show ?case using Cons.IH[of "AList.update (Link_Name link) link m"] Cons.prems x
    by (auto simp: update_conv)
qed

subsection \<open>Validation\<close>

text \<open>
  The anonymous function of \<open>validateLinks\<close>, with the map of the names seen so far. A name is recorded
  before the dependencies are checked.
\<close>

definition validate_link ::
  "string \<Rightarrow> Link \<Rightarrow> (string \<rightharpoonup> string) \<Rightarrow> (goerror option \<times> (string \<rightharpoonup> string)) option" where
  "validate_link resourceName linkResource seen =
     (case getLinkManager linkResource of
        Inl err \<Rightarrow> Some (Some (Wrapf (NodeLinksMsg (GetLinkManager resourceName)) err), seen)
      | Inr linkManager \<Rightarrow>
          (case (if IsManaged linkManager
                 then (case seen (LinkName linkResource) of
                     Some other \<Rightarrow> Inl (Errorf (NodeLinksMsg (DuplicateLinkName (LinkName linkResource) other resourceName)))
                   | None \<Rightarrow> Inr (seen(LinkName linkResource \<mapsto> resourceName)))
                 else Inr seen) of
             Inl err \<Rightarrow> Some (Some err, seen)
           | Inr seen' \<Rightarrow>
               do {
                 deps \<leftarrow> GetDependencies linkManager;
                 Some (if list_ex (\<lambda>d. ref_Name d = resourceName) deps
                       then Some (Errorf (NodeLinksMsg (SelfReferential resourceName))) else None, seen')
               }))"

definition validConfig_condition :: "goerror option \<Rightarrow> Condition" where
  "validConfig_condition err =
     (case err of
        None \<Rightarrow> condition ValidConfiguration ConditionTrue ConfigurationValidated NoMessage
      | Some e \<Rightarrow> condition ValidConfiguration ConditionFalse InvalidConfiguration (WithError e))"

definition validReady_condition :: "goerror option \<Rightarrow> Condition" where
  "validReady_condition err =
     (case err of
        None \<Rightarrow> condition Ready ConditionUnknown ConfigurationValidated FixedText
      | Some e \<Rightarrow> condition Ready ConditionFalse InvalidConfiguration FixedText)"

fun validate_loop ::
  "k8s_lib \<Rightarrow> (string \<times> Link) list \<Rightarrow> (string \<rightharpoonup> string) \<Rightarrow> goerror list \<Rightarrow> NodeLinks \<Rightarrow> (goerror list \<times> NodeLinks) option" where
  "validate_loop L [] seen errs n = Some (errs, n)"
| "validate_loop L ((resourceName, linkResource) # rest) seen errs n =
     do {
       (err, seen') \<leftarrow> validate_link resourceName linkResource seen;
       validate_loop L rest seen' (case err of None \<Rightarrow> errs | Some e \<Rightarrow> errs @ [e])
         (setLinkCondition L (LinkName linkResource) (validReady_condition err)
           (setLinkCondition L (LinkName linkResource) (validConfig_condition err) n))
     }"

definition validateLinks :: "('k, 'g, 'a) nenv \<Rightarrow> link_map \<Rightarrow> ('k, 'a) nstep" where
  "validateLinks E linkResources s =
     do {
       (errs, n) \<leftarrow> validate_loop (ne_k8s E) (range_map (ne_range E) RangeValidate linkResources) Map.empty [] (nn_nodeLinks s);
       (case errors_Join (map Some errs) of
          None \<Rightarrow> Some (None, s\<lparr>nn_nodeLinks := n\<rparr>)
        | Some err \<Rightarrow>
            Some (Some (Wrapf (NodeLinksMsg ConfigurationsInvalid) err),
              s\<lparr>nn_nodeLinks := set_NodeLinks_condition (ne_k8s E)
                 (condition Ready ConditionFalse InvalidConfiguration FixedText) n\<rparr>))
     }"

subsection \<open>The dependency graph\<close>

definition setData :: "LinkReference \<Rightarrow> EdgeProperties option \<Rightarrow> EdgeProperties option" where
  "setData dependencyLink p = (case p of None \<Rightarrow> None | Some props \<Rightarrow> Some (props\<lparr>ep_Data := Some dependencyLink\<rparr>))"

fun add_vertices :: "'g graph_lib \<Rightarrow> string list \<Rightarrow> 'g \<Rightarrow> goerror + 'g" where
  "add_vertices G [] g = Inr g"
| "add_vertices G (linkName # names) g =
     (case gr_AddVertex G g linkName of
        (Some err, _) \<Rightarrow> Inl (Wrapf (NodeLinksMsg (AddVertexFailed linkName)) err)
      | (None, g') \<Rightarrow> add_vertices G names g')"

fun add_dependencies :: "'g graph_lib \<Rightarrow> link_map \<Rightarrow> string \<Rightarrow> LinkReference list \<Rightarrow> 'g \<Rightarrow> goerror + 'g" where
  "add_dependencies G linkResources dependent [] g = Inr g"
| "add_dependencies G linkResources dependent (dependencyLink # deps) g =
     (if map_of linkResources (ref_Name dependencyLink) = None
      then add_dependencies G linkResources dependent deps g
      else (case gr_AddEdge G g (ref_Name dependencyLink) dependent (setData dependencyLink) of
          (Some err, _) \<Rightarrow> Inl (Wrapf (NodeLinksMsg (AddEdgeFailed (ref_Name dependencyLink) dependent)) err)
        | (None, g') \<Rightarrow> add_dependencies G linkResources dependent deps g'))"

fun add_dependents :: "'g graph_lib \<Rightarrow> link_map \<Rightarrow> string list \<Rightarrow> 'g \<Rightarrow> (goerror + 'g) option" where
  "add_dependents G linkResources [] g = Some (Inr g)"
| "add_dependents G linkResources (dependentLinkName # names) g =
     do {
       link \<leftarrow> map_of linkResources dependentLinkName;
       (case getLinkManager link of
          Inl err \<Rightarrow> Some (Inl (Wrapf (NodeLinksMsg (GetLinkManager dependentLinkName)) err))
        | Inr linkManager \<Rightarrow>
            do {
              deps \<leftarrow> GetDependencies linkManager;
              (case add_dependencies G linkResources dependentLinkName deps g of
                 Inl err \<Rightarrow> Some (Inl err)
               | Inr g' \<Rightarrow> add_dependents G linkResources names g')
            })
     }"

definition buildDesiredLinkGraph :: "('k, 'g, 'a) nenv \<Rightarrow> link_map \<Rightarrow> (goerror + 'g) option" where
  "buildDesiredLinkGraph E linkResources =
     (case add_vertices (ne_graph E) (map fst (range_map (ne_range E) RangeVertices linkResources)) (gr_New (ne_graph E)) of
        Inl err \<Rightarrow> Some (Inl err)
      | Inr g \<Rightarrow> add_dependents (ne_graph E) linkResources (sort (pie_Keys (ne_pie E) linkResources)) g)"

definition getTopolgicallySortedLinkNames :: "('k, 'g, 'a) nenv \<Rightarrow> 'g \<Rightarrow> goerror + string list" where
  "getTopolgicallySortedLinkNames E g = gr_TopologicalSort (ne_graph E) g"

subsection \<open>What validation accepts\<close>

definition is_managed :: "Link \<Rightarrow> bool" where
  "is_managed l \<longleftrightarrow> (case getLinkManager l of Inr m \<Rightarrow> IsManaged m | Inl _ \<Rightarrow> False)"

definition deps_of :: "Link \<Rightarrow> LinkReference list" where
  "deps_of l = (case getLinkManager l of
     Inr m \<Rightarrow> (case GetDependencies m of Some ds \<Rightarrow> ds | None \<Rightarrow> []) | Inl _ \<Rightarrow> [])"

text \<open>The resource has a manager, whose \<open>GetDependencies\<close> does not panic.\<close>

definition has_manager :: "Link \<Rightarrow> bool" where
  "has_manager l \<longleftrightarrow> (\<exists>m ds. getLinkManager l = Inr m \<and> GetDependencies m = Some ds)"

definition valid_links :: "link_map \<Rightarrow> bool" where
  "valid_links links \<longleftrightarrow>
     (\<forall>(n, l) \<in> set links. has_manager l \<and> n \<notin> ref_Name ` set (deps_of l)) \<and>
     (\<forall>(n, l) \<in> set links. \<forall>(n', l') \<in> set links.
        is_managed l \<longrightarrow> is_managed l' \<longrightarrow> LinkName l = LinkName l' \<longrightarrow> n = n')"

lemma validate_link_ok_iff:
  "validate_link n l seen = Some (None, seen') \<longleftrightarrow>
     has_manager l \<and> n \<notin> ref_Name ` set (deps_of l) \<and> (is_managed l \<longrightarrow> seen (LinkName l) = None) \<and>
     seen' = (if is_managed l then seen(LinkName l \<mapsto> n) else seen)"
proof (cases "getLinkManager l")
  case (Inl e)
  then show ?thesis by (simp add: validate_link_def has_manager_def)
next
  case (Inr m)
  then show ?thesis
    by (cases "GetDependencies m"; cases "IsManaged m"; cases "seen (LinkName l)")
      (auto simp: validate_link_def has_manager_def deps_of_def is_managed_def list_ex_iff)
qed

lemma validate_loop_errs:
  "validate_loop L xs seen errs n = Some (errs', n') \<Longrightarrow> errs \<noteq> [] \<Longrightarrow> errs' \<noteq> []"
proof (induction L xs seen errs n rule: validate_loop.induct)
  case (2 L r l rest seen errs n)
  from 2(2) obtain err seen' where step: "validate_link r l seen = Some (err, seen')"
    by (auto simp: bind_eq_Some_conv)
  show ?case using 2(1)[OF step refl] 2(2,3) step by (auto split: option.splits)
qed simp

text \<open>The names the managed resources of a list use, with the resource of each.\<close>

definition managed_names :: "(string \<times> Link) list \<Rightarrow> string list" where
  "managed_names xs = map (\<lambda>(n, l). LinkName l) (filter (\<lambda>(n, l). is_managed l) xs)"

lemma managed_names_simps [simp]:
  "managed_names [] = []"
  "managed_names ((n, l) # xs) = (if is_managed l then LinkName l # managed_names xs else managed_names xs)"
  by (simp_all add: managed_names_def)

lemma managed_names_set: "set (managed_names xs) = {LinkName l | n l. (n, l) \<in> set xs \<and> is_managed l}"
  by (force simp: managed_names_def)

lemma validate_loop_ok_iff:
  assumes "validate_loop L xs seen [] n = Some (errs, n')"
  shows "errs = [] \<longleftrightarrow>
    (\<forall>(r, l) \<in> set xs. has_manager l \<and> r \<notin> ref_Name ` set (deps_of l)) \<and>
    distinct (managed_names xs) \<and> (\<forall>x \<in> set (managed_names xs). seen x = None)"
  using assms
proof (induction xs arbitrary: seen n)
  case Nil
  then show ?case by simp
next
  case (Cons x xs)
  obtain r l where x: "x = (r, l)" by fastforce
  from Cons.prems obtain err seen' where step: "validate_link r l seen = Some (err, seen')"
    by (auto simp: bind_eq_Some_conv x)
  show ?case
  proof (cases err)
    case (Some e)
    then have "errs \<noteq> []" using Cons.prems step validate_loop_errs x by fastforce
    moreover have "\<not> (has_manager l \<and> r \<notin> ref_Name ` set (deps_of l) \<and> (is_managed l \<longrightarrow> seen (LinkName l) = None))"
      using step Some validate_link_ok_iff[of r l seen] by auto
    ultimately show ?thesis by (auto simp: x)
  next
    case None
    note ok = step[unfolded None validate_link_ok_iff]
    have "validate_loop L xs seen' [] (setLinkCondition L (LinkName l) (validReady_condition None)
        (setLinkCondition L (LinkName l) (validConfig_condition None) n)) = Some (errs, n')"
      using Cons.prems step None by (simp add: x)
    from Cons.IH[OF this] ok show ?thesis by (auto simp: x)
  qed
qed

lemma distinct_managed_names:
  assumes "distinct (map fst xs)"
  shows "distinct (managed_names xs) \<longleftrightarrow>
    (\<forall>(n, l) \<in> set xs. \<forall>(n', l') \<in> set xs. is_managed l \<longrightarrow> is_managed l' \<longrightarrow> LinkName l = LinkName l' \<longrightarrow> n = n')"
  using assms
proof (induction xs)
  case Nil
  then show ?case by simp
next
  case (Cons x xs)
  obtain n l where x: "x = (n, l)" by fastforce
  have IH: "distinct (managed_names xs) \<longleftrightarrow>
    (\<forall>(n, l) \<in> set xs. \<forall>(n', l') \<in> set xs. is_managed l \<longrightarrow> is_managed l' \<longrightarrow> LinkName l = LinkName l' \<longrightarrow> n = n')"
    using Cons by simp
  have n: "\<And>l'. (n, l') \<notin> set xs" using Cons.prems x by force
  show ?case unfolding x using IH n by (auto simp: managed_names_set)
qed

lemma validateLinks_ok_iff:
  assumes "nenv_ok E" and "distinct (map fst links)" and run: "validateLinks E links s = Some (err, s')"
  shows "err = None \<longleftrightarrow> valid_links links"
proof -
  let ?xs = "range_map (ne_range E) RangeValidate links"
  note range = nenv_okD(5)[OF assms(1)]
  from run obtain errs n where loop: "validate_loop (ne_k8s E) ?xs Map.empty [] (nn_nodeLinks s) = Some (errs, n)"
    by (auto simp: validateLinks_def bind_eq_Some_conv)
  have "err = None \<longleftrightarrow> errs = []"
    using run loop by (auto simp: validateLinks_def errors_Join_def Let_def split: if_splits)
  also have "\<dots> \<longleftrightarrow> valid_links links"
    unfolding validate_loop_ok_iff[OF loop] valid_links_def
      distinct_managed_names[OF range_map_keys_distinct[OF range assms(2)]] range_map_set[OF range assms(2)] by auto
  finally show ?thesis .
qed

lemma validateLinks_frame:
  assumes "validateLinks E links s = Some (err, s')"
  shows "nn_world s' = nn_world s" "nn_api s' = nn_api s" "nn_clusterState s' = nn_clusterState s"
    "nn_watched s' = nn_watched s"
proof -
  from assms obtain errs n where
    "validate_loop (ne_k8s E) (range_map (ne_range E) RangeValidate links) Map.empty [] (nn_nodeLinks s) = Some (errs, n)"
    by (auto simp: validateLinks_def bind_eq_Some_conv)
  with assms show "nn_world s' = nn_world s" "nn_api s' = nn_api s" "nn_clusterState s' = nn_clusterState s"
    "nn_watched s' = nn_watched s"
    by (auto simp: validateLinks_def split: option.splits)
qed

lemma validate_loop_frame:
  "validate_loop L xs seen errs n = Some (errs', n') \<Longrightarrow>
     nk_Meta n' = nk_Meta n \<and> nk_Spec n' = nk_Spec n \<and> LastAttempted n' = LastAttempted n \<and>
     ns_Conditions (nk_Status n') = ns_Conditions (nk_Status n)"
proof (induction L xs seen errs n rule: validate_loop.induct)
  case (2 L r l rest seen errs n)
  from 2(2) obtain err seen' where step: "validate_link r l seen = Some (err, seen')"
    by (auto simp: bind_eq_Some_conv)
  show ?case using 2(1)[OF step refl] 2(2) step by (simp add: frame_simps)
qed simp

lemma validateLinks_tracked:
  assumes "validateLinks E links s = Some (err, s')"
  shows "LastAttempted (nn_nodeLinks s') = LastAttempted (nn_nodeLinks s) \<and>
    nk_Meta (nn_nodeLinks s') = nk_Meta (nn_nodeLinks s) \<and> nk_Spec (nn_nodeLinks s') = nk_Spec (nn_nodeLinks s)"
proof -
  from assms obtain errs n where loop:
    "validate_loop (ne_k8s E) (range_map (ne_range E) RangeValidate links) Map.empty [] (nn_nodeLinks s) = Some (errs, n)"
    by (auto simp: validateLinks_def bind_eq_Some_conv)
  with assms show ?thesis using validate_loop_frame[OF loop]
    by (auto simp: validateLinks_def frame_simps split: option.splits)
qed

lemma validateLinks_rejected:
  assumes "validateLinks E links s = Some (Some e, s')" and "k8s_laws (ne_k8s E)"
  shows "says (cond_of Ready (ns_Conditions (nk_Status (nn_nodeLinks s'))))
    (condition Ready ConditionFalse InvalidConfiguration FixedText)"
proof -
  from assms(1) obtain errs n where loop:
    "validate_loop (ne_k8s E) (range_map (ne_range E) RangeValidate links) Map.empty [] (nn_nodeLinks s) = Some (errs, n)"
    by (auto simp: validateLinks_def bind_eq_Some_conv)
  with assms(1) have "nn_nodeLinks s' = set_NodeLinks_condition (ne_k8s E) (condition Ready ConditionFalse InvalidConfiguration FixedText) n"
    by (cases "errors_Join (map Some errs)") (auto simp: validateLinks_def simp del: errors_Join_None)
  then show ?thesis
    using resource_cond_set(1)[OF assms(2), of "condition Ready ConditionFalse InvalidConfiguration FixedText" n] by simp
qed

end
