(* ===== verification/NodeLinks_Actions.thy ===== *)
theory NodeLinks_Actions
  imports NodeLinks_Plan
begin

text \<open>
  The second half of a reconciliation, which acts on the links of the node: bringing links down,
  deleting undesired ones, handling missing dependencies, and upserting in topological order
  (\<open>bringDownLink\<close> to \<open>updateLastAttemptedLinks\<close> of \<open>nodelinks_controller.go\<close>).
\<close>

subsection \<open>One link\<close>

text \<open>A call of the netlink library on the state of the controller.\<close>

definition nn_nl_do :: "('k, 'g, 'a) nenv \<Rightarrow> nl_call \<Rightarrow> ('k, 'a) nstate \<Rightarrow> goerror option \<times> ('k, 'a) nstate" where
  "nn_nl_do E c s = (let (e, w) = nl_do (ne_netlink E) c (nn_world s) in (e, s\<lparr>nn_world := w\<rparr>))"

abbreviation set_link :: "('k, 'g, 'a) nenv \<Rightarrow> string \<Rightarrow> Condition \<Rightarrow> ('k, 'a) nstate \<Rightarrow> ('k, 'a) nstate" where
  "set_link E n c \<equiv> upd_nodeLinks (setLinkCondition (ne_k8s E) n c)"

abbreviation set_resource :: "('k, 'g, 'a) nenv \<Rightarrow> Condition \<Rightarrow> ('k, 'a) nstate \<Rightarrow> ('k, 'a) nstate" where
  "set_resource E c \<equiv> upd_nodeLinks (set_NodeLinks_condition (ne_k8s E) c)"

definition bringDownLink :: "('k, 'g, 'a) nenv \<Rightarrow> string \<Rightarrow> ('k, 'a) nstate \<Rightarrow> goerror option \<times> ('k, 'a) nstate" where
  "bringDownLink E linkName s =
     (case nl_LinkByName (ne_netlink E) (kern (nn_world s)) linkName of
        Inl err \<Rightarrow>
          if IsLinkNotFoundError err then (None, s)
          else (Some (Wrapf (LinksMsg (GetNetlinkLink linkName)) err), s)
      | Inr link \<Rightarrow>
          (case nn_nl_do E (LinkSetDown link) s of
             (Some err, s1) \<Rightarrow> (Some (Wrapf (NodeLinksMsg (SetLinkDown linkName)) err), s1)
           | (None, s1) \<Rightarrow>
               (None, set_link E linkName (condition OperationallyUp ConditionFalse LinkBroughtDown NoMessage) s1)))"

definition deleteLink :: "('k, 'g, 'a) nenv \<Rightarrow> string \<Rightarrow> ('k, 'a) nstate \<Rightarrow> goerror option \<times> ('k, 'a) nstate" where
  "deleteLink E linkName s =
     (case nl_LinkByName (ne_netlink E) (kern (nn_world s)) linkName of
        Inl err \<Rightarrow>
          if IsLinkNotFoundError err then (None, s)
          else (Some (Wrapf (LinksMsg (GetNetlinkLink linkName)) err), s)
      | Inr link \<Rightarrow>
          (case nn_nl_do E (LinkDel link) s of
             (Some err, s1) \<Rightarrow> (Some (Wrapf (NodeLinksMsg (DeleteNetlinkLink linkName)) err), s1)
           | (None, s1) \<Rightarrow> (None, s1)))"

text \<open>\<open>attrs.OperState\<close> is read without a check for nil attributes.\<close>

definition getOperationalCondition :: "'k netlink \<Rightarrow> 'k \<Rightarrow> string \<Rightarrow> Condition option" where
  "getOperationalCondition NL k linkName =
     (case nl_LinkByName NL k linkName of
        Inl err \<Rightarrow> Some (condition OperationallyUp ConditionUnknown LinkStateUnavailable (WithError err))
      | Inr link \<Rightarrow>
          do {
            attrs \<leftarrow> nl_Attrs NL link;
            Some (if la_OperState attrs = OperUp \<or> la_OperState attrs = OperUnknown \<and> la_FlagUp attrs
                  then condition OperationallyUp ConditionTrue LinkUp FixedText
                  else condition OperationallyUp ConditionFalse LinkDown
                    (WithNames [case la_OperState attrs of OtherOperState n \<Rightarrow> n | OperUp \<Rightarrow> ''up'' | OperUnknown \<Rightarrow> ''unknown'']))
          })"

subsection \<open>Deleting undesired links\<close>

definition delete_bring_down :: "('k, 'g, 'a) nenv \<Rightarrow> string \<Rightarrow> ('k, 'a) nstep" where
  "delete_bring_down E linkName s =
     (case bringDownLink E linkName s of
        (Some err, s1) \<Rightarrow>
          Some (Some (Wrapf (NodeLinksMsg (BringDownUndesired linkName)) err),
            set_link E linkName (condition Ready ConditionFalse LinkSetDownFailed (WithError err)) s1)
      | (None, s1) \<Rightarrow>
          Some (None, set_link E linkName (condition Ready ConditionFalse LinkBeingDeleted FixedText) s1))"

definition forget_link :: "string \<Rightarrow> NodeLinks \<Rightarrow> NodeLinks" where
  "forget_link linkName n =
     n\<lparr>nk_Status := (nk_Status n)\<lparr>ns_NetlinkLinkConditions := (NetlinkLinkConditions n)(linkName := None)\<rparr>\<rparr>"

definition delete_delete :: "('k, 'g, 'a) nenv \<Rightarrow> string \<Rightarrow> ('k, 'a) nstep" where
  "delete_delete E linkName s =
     (case deleteLink E linkName s of
        (Some err, s1) \<Rightarrow>
          Some (Some (Wrapf (NodeLinksMsg DeleteUndesired) err),
            set_link E linkName (condition Ready ConditionFalse LinkDeletionFailed (WithError err)) s1)
      | (None, s1) \<Rightarrow> Some (None, upd_nodeLinks (forget_link linkName) s1))"

definition deleteLinks :: "('k, 'g, 'a) nenv \<Rightarrow> string list \<Rightarrow> ('k, 'a) nstep" where
  "deleteLinks E linkNamesToRemove s =
     do {
       (errs, s1) \<leftarrow> ne_pie_Map E (delete_bring_down E) linkNamesToRemove s;
       (case errors_Join errs of
          Some err \<Rightarrow>
            Some (Some (Wrapf (NodeLinksMsg BringDownAllUndesired) err),
              set_resource E (condition Ready ConditionFalse LinkSetDownFailed FixedText) s1)
        | None \<Rightarrow>
            do {
              (errs, s2) \<leftarrow> ne_pie_Map E (delete_delete E) linkNamesToRemove s1;
              (case errors_Join errs of
                 Some err \<Rightarrow>
                   Some (Some (Wrapf (NodeLinksMsg DeleteAllUndesired) err),
                     set_resource E (condition Ready ConditionFalse LinkDeletionFailed FixedText) s2)
               | None \<Rightarrow> Some (None, s2))
            })
     }"

definition getUndesiredLinks :: "('k, 'g, 'a) nenv \<Rightarrow> NodeLinks \<Rightarrow> link_map \<Rightarrow> string list" where
  "getUndesiredLinks E n linkResources =
     (let desiredNetlinkLinkNames = map (\<lambda>(_, link). LinkName link) (range_map (ne_range E) RangeUndesired linkResources)
      in snd (pie_Diff (ne_pie E) (LastAttempted n) desiredNetlinkLinkNames))"

definition deleteUndesiredLinks :: "('k, 'g, 'a) nenv \<Rightarrow> link_map \<Rightarrow> ('k, 'a) nstep" where
  "deleteUndesiredLinks E linkResources s = deleteLinks E (getUndesiredLinks E (nn_nodeLinks s) linkResources) s"

subsection \<open>Tracking what is attempted\<close>

fun last_attempted_names :: "(string \<times> Link) list \<Rightarrow> goerror + string list" where
  "last_attempted_names [] = Inr []"
| "last_attempted_names ((k, link) # rest) =
     (case getLinkManager link of
        Inl err \<Rightarrow> Inl (Wrapf (NodeLinksMsg (GetLinkManager (Link_Name link))) err)
      | Inr linkManager \<Rightarrow>
          (case last_attempted_names rest of
             Inl err \<Rightarrow> Inl err
           | Inr names \<Rightarrow> Inr (if IsManaged linkManager then LinkName link # names else names)))"

definition updateLastAttemptedLinks :: "('k, 'g, 'a) nenv \<Rightarrow> link_map \<Rightarrow> ('k, 'a) nstep" where
  "updateLastAttemptedLinks E linkResources s =
     (case last_attempted_names (range_map (ne_range E) RangeLastAttempted linkResources) of
        Inl err \<Rightarrow> Some (Some err, s)
      | Inr names \<Rightarrow>
          (case NodeLinks_patchResource E
             (upd_nodeLinks (\<lambda>n. n\<lparr>nk_Status := (nk_Status n)\<lparr>ns_LastAttemptedNetlinkLinks := names\<rparr>\<rparr>) s) of
             (Some err, s1) \<Rightarrow>
               Some (Some (Wrapf (NodeLinksMsg UpdateLastAttempted) err),
                 set_resource E (condition Ready ConditionFalse StatusUpdateFailed (WithError err)) s1)
           | (None, s1) \<Rightarrow> Some (None, s1)))"

subsection \<open>Missing dependencies\<close>

definition requiredLinkReferences :: "('k, 'g, 'a) nenv \<Rightarrow> LinkReference list \<Rightarrow> LinkReference list" where
  "requiredLinkReferences E dependencies = pie_Filter_refs (ne_pie E) (\<lambda>d. \<not> ref_Optional d) dependencies"

definition missingRequiredDependencyNames :: "('k, 'g, 'a) nenv \<Rightarrow> link_map \<Rightarrow> LinkReference list \<Rightarrow> string list" where
  "missingRequiredDependencyNames E linkResources dependencies =
     pie_Map_refs (ne_pie E) ref_Name
       (pie_Filter_refs (ne_pie E) (\<lambda>d. map_of linkResources (ref_Name d) = None) (requiredLinkReferences E dependencies))"

definition update_dependent :: "('k, 'g, 'a) nenv \<Rightarrow> link_map \<Rightarrow> string \<Rightarrow> ('k, 'a) nstep" where
  "update_dependent E linkResources linkResourceName s =
     do {
       linkResource \<leftarrow> map_of linkResources linkResourceName;
       (case getLinkManager linkResource of
          Inl err \<Rightarrow> Some (Some (Wrapf (NodeLinksMsg (GetLinkManager linkResourceName)) err), s)
        | Inr linkManager \<Rightarrow>
            do {
              dependencies \<leftarrow> GetDependencies linkManager;
              let name = LinkName linkResource;
              let missing = missingRequiredDependencyNames E linkResources dependencies;
              (if missing \<noteq> [] then
                 (case (if IsManaged linkManager then bringDownLink E name (s\<lparr>nn_allDependenciesExist := False\<rparr>)
                        else (None, s\<lparr>nn_allDependenciesExist := False\<rparr>)) of
                    (Some err, s1) \<Rightarrow> Some (Some (Wrapf (NodeLinksMsg (BringDownMissingDependencies name)) err), s1)
                  | (None, s1) \<Rightarrow>
                      Some (None,
                        set_link E name (condition DependencyLinksAvailable ConditionFalse MissingDependencyLinks (WithNames missing))
                          (set_link E name (condition Ready ConditionFalse MissingDependencyLinks FixedText) s1)))
               else
                 Some (None,
                   set_link E name (condition DependencyLinksAvailable ConditionTrue AllDependencyLinksAvailable
                       (WithNames (pie_Map_refs (ne_pie E) ref_Name (requiredLinkReferences E dependencies))))
                     (set_link E name (condition Ready ConditionUnknown AllDependencyLinksAvailable FixedText) s)))
            })
     }"

definition updateDependentsMissingDependencies :: "('k, 'g, 'a) nenv \<Rightarrow> string list \<Rightarrow> link_map \<Rightarrow> ('k, 'a) nstep" where
  "updateDependentsMissingDependencies E sortedLinkResourceNames linkResources s =
     do {
       (errs, s1) \<leftarrow> ne_pie_Map E (update_dependent E linkResources) sortedLinkResourceNames (s\<lparr>nn_allDependenciesExist := True\<rparr>);
       (case errors_Join errs of
          Some err \<Rightarrow>
            Some (Some (Wrapf (NodeLinksMsg MissingDependenciesFailed) err),
              set_resource E (condition Ready ConditionFalse DependencyCheckFailed FixedText) s1)
        | None \<Rightarrow>
            if \<not> nn_allDependenciesExist s1
            then Some (None, set_resource E (condition Ready ConditionFalse MissingDependencyLinks FixedText) s1)
            else Some (None, s1))
     }"

subsection \<open>Bringing down dependents\<close>

definition bring_down_dependent ::
  "('k, 'g, 'a) nenv \<Rightarrow> link_map \<Rightarrow> Link \<Rightarrow> string \<Rightarrow> Edge option \<Rightarrow> ('k, 'a) nstep" where
  "bring_down_dependent E linkResources linkResource dependentResourceName edge s =
     (if dependentResourceName = Link_Name linkResource then Some (None, s)
      else (case edge of
          None \<Rightarrow> Some (Some (Errorf (NodeLinksMsg (EdgeNil (Link_Name linkResource) dependentResourceName))), s)
        | Some e \<Rightarrow>
            (case ep_Data (ed_Properties e) of
               None \<Rightarrow> Some (Some (Errorf (NodeLinksMsg (EdgeDataMissing (Link_Name linkResource) dependentResourceName))), s)
             | Some dependencyLinkRef \<Rightarrow>
                 if \<not> ref_SetDownOnDependencyChainUpdate dependencyLinkRef then Some (None, s)
                 else (case map_of linkResources dependentResourceName of
                     None \<Rightarrow> Some (Some (Errorf (NodeLinksMsg (DependentResourceMissing dependentResourceName))), s)
                   | Some dependentLinkResource \<Rightarrow>
                       (case getLinkManager dependentLinkResource of
                          Inl err \<Rightarrow> Some (Some (Wrapf (NodeLinksMsg (GetLinkManager dependentResourceName)) err), s)
                        | Inr linkManager \<Rightarrow>
                            if \<not> IsManaged linkManager
                            then Some (Some (Errorf (NodeLinksMsg (UnmanagedWithSetDown (Link_Name dependentLinkResource)))), s)
                            else Some (wrap_err (Wrapf (NodeLinksMsg (BringDownDependent (LinkName dependentLinkResource))))
                              (bringDownLink E (LinkName dependentLinkResource) s)))))))"

definition bringDownDependents :: "('k, 'g, 'a) nenv \<Rightarrow> string \<Rightarrow> link_map \<Rightarrow> 'g \<Rightarrow> ('k, 'a) nstep" where
  "bringDownDependents E linkResourceName linkResources linkGraph s =
     do {
       linkResource \<leftarrow> map_of linkResources linkResourceName;
       BFSWithEdge (gr_AdjacencyMap (ne_graph E) linkGraph) (\<lambda>v. v) (Link_Name linkResource)
         (bring_down_dependent E linkResources linkResource) s
     }"

subsection \<open>Upserting\<close>

text \<open>The manager's \<open>Upsert\<close> on the state of the controller.\<close>

definition nn_upsert :: "('k, 'g, 'a) nenv \<Rightarrow> Manager \<Rightarrow> link_map \<Rightarrow> ('k, 'a) nstep" where
  "nn_upsert E m linkResources s =
     do {
       (e, w) \<leftarrow> Upsert (ne_netlink E) m linkResources (nn_world s);
       Some (e, s\<lparr>nn_world := w\<rparr>)
     }"

definition upsert_finish :: "('k, 'g, 'a) nenv \<Rightarrow> string \<Rightarrow> ('k, 'a) nstep" where
  "upsert_finish E name s =
     do {
       let s1 = set_link E name (condition Ready ConditionTrue ReconcileSuccessful FixedText) s;
       c \<leftarrow> getOperationalCondition (ne_netlink E) (kern (nn_world s1)) name;
       Some (None, set_link E name c s1)
     }"

definition upsert_needed_link :: "('k, 'g, 'a) nenv \<Rightarrow> string \<Rightarrow> Link \<Rightarrow> Manager \<Rightarrow> link_map \<Rightarrow> 'g \<Rightarrow> ('k, 'a) nstep" where
  "upsert_needed_link E linkResourceName linkResource linkManager linkResources linkGraph s =
     do {
       (derr, s1) \<leftarrow> bringDownDependents E linkResourceName linkResources linkGraph s;
       (case derr of
          Some err \<Rightarrow>
            Some (Some (Wrapf (NodeLinksMsg (BringDownDependentsOf (Link_Name linkResource))) err),
              set_link E (LinkName linkResource) (condition Ready ConditionFalse DependentLinkSetDownFailed (WithError err)) s1)
        | None \<Rightarrow>
            do {
              (uerr, s2) \<leftarrow> nn_upsert E linkManager linkResources s1;
              (case uerr of
                 Some err \<Rightarrow>
                   Some (Some (Wrapf (NodeLinksMsg (UpsertOfLink (Link_Name linkResource))) err),
                     set_link E (LinkName linkResource) (condition Ready ConditionFalse UpsertFailed (WithError err)) s2)
               | None \<Rightarrow> upsert_finish E (LinkName linkResource) s2)
            })
     }"

definition upsertLink :: "('k, 'g, 'a) nenv \<Rightarrow> link_map \<Rightarrow> 'g \<Rightarrow> string \<Rightarrow> ('k, 'a) nstep" where
  "upsertLink E linkResources linkGraph linkResourceName s =
     do {
       linkResource \<leftarrow> map_of linkResources linkResourceName;
       let name = LinkName linkResource;
       (case getLinkManager linkResource of
          Inl err \<Rightarrow> Some (Some (Wrapf (NodeLinksMsg (GetLinkManager (Link_Name linkResource))) err), s)
        | Inr linkManager \<Rightarrow>
            (case NetlinkLinkConditions (nn_nodeLinks s) name of
               None \<Rightarrow>
                 Some (Some (Errorf (NodeLinksMsg (NoConditionsForLink name))),
                   set_link E name (condition Ready ConditionUnknown MaybeMissingDependencyLinks FixedText) s)
             | Some linkConditions \<Rightarrow>
                 if \<not> lib_IsStatusConditionTrue (ne_k8s E) linkConditions DependencyLinksAvailable
                 then Some (Some (Errorf (NodeLinksMsg (LinkMissingDependencies name))), s)
                 else do {
                   needed \<leftarrow> IsUpsertNeeded (ne_netlink E) linkManager (kern (nn_world s)) linkResources;
                   (case needed of
                      Inl err \<Rightarrow>
                        Some (Some (Wrapf (NodeLinksMsg (UpsertCheck (Link_Name linkResource))) err),
                          set_link E name (condition Ready ConditionFalse UpsertCheckFailed (WithError err)) s)
                    | Inr upsertNeeded \<Rightarrow>
                        if upsertNeeded
                        then upsert_needed_link E linkResourceName linkResource linkManager linkResources linkGraph s
                        else upsert_finish E name s)
                 }))
     }"

definition upsertLinks :: "('k, 'g, 'a) nenv \<Rightarrow> string list \<Rightarrow> link_map \<Rightarrow> 'g \<Rightarrow> ('k, 'a) nstep" where
  "upsertLinks E sortedLinkResourceNames linkResources linkGraph s =
     do {
       (errs, s1) \<leftarrow> ne_pie_Map E (upsertLink E linkResources linkGraph) sortedLinkResourceNames s;
       (case errors_Join errs of
          Some err \<Rightarrow> Some (Some err, set_resource E (condition Ready ConditionFalse UpsertFailed FixedText) s1)
        | None \<Rightarrow> Some (None, s1))
     }"

end
