(* ===== verification/NodeLinks_Reconcile.thy ===== *)
theory NodeLinks_Reconcile
  imports NodeLinks_Actions
begin

text \<open>
  The reconciler of NodeLinks resources: \<open>handleUpsert\<close>, \<open>handleDeletion\<close> and \<open>Reconcile\<close> of
  \<open>nodelinks_controller.go\<close>, composed of the steps of the theories before in the order of the source,
  with every early return.
\<close>

subsection \<open>handleUpsert\<close>

definition add_finalizer :: "('k, 'g, 'a) nenv \<Rightarrow> ('k, 'a) nstate \<Rightarrow> bool \<times> ('k, 'a) nstate" where
  "add_finalizer E s =
     (case lib_AddFinalizer (ne_k8s E) nodeLinksFinalizerName (m_Finalizers (nk_Meta (nn_nodeLinks s))) of
        (added, fs) \<Rightarrow> (added, upd_nodeLinks (\<lambda>n. n\<lparr>nk_Meta := (nk_Meta n)\<lparr>m_Finalizers := fs\<rparr>\<rparr>) s))"

text \<open>
  The phases of \<open>handleUpsert\<close> after the finalizer, one per guarded call of the source. A phase that
  returns an error ends the reconciliation in \<open>handleError\<close>, with the condition the source builds for
  it or with none.
\<close>

definition ready_error :: "cond_reason \<Rightarrow> goerror \<Rightarrow> Condition" where
  "ready_error reason err = condition Ready ConditionFalse reason (WithError err)"

definition upsert_and_report ::
  "('k, 'g, 'a) nenv \<Rightarrow> link_map \<Rightarrow> 'g \<Rightarrow> string list \<Rightarrow> ('k, 'a) nstate \<Rightarrow> ('k, 'a) nresult option" where
  "upsert_and_report E linkResources linkGraph sortedNames s =
     do {
       (err, s1) \<leftarrow> upsertLinks E sortedNames linkResources linkGraph s;
       (case err of
          Some e \<Rightarrow> Some (NodeLinks_handleError E None e s1)
        | None \<Rightarrow>
            (case NodeLinks_patchResource E (set_resource E (condition Ready ConditionTrue ReconcileSuccessful NoMessage) s1) of
               (Some e, s2) \<Rightarrow> Some ((0, Some e), s2)
             | (None, s2) \<Rightarrow> Some ((ne_ResyncInterval E, None), s2)))
     }"

definition clean_and_upsert ::
  "('k, 'g, 'a) nenv \<Rightarrow> link_map \<Rightarrow> 'g \<Rightarrow> string list \<Rightarrow> ('k, 'a) nstate \<Rightarrow> ('k, 'a) nresult option" where
  "clean_and_upsert E linkResources linkGraph sortedNames s =
     do {
       (err, s1) \<leftarrow> updateDependentsMissingDependencies E sortedNames linkResources s;
       (case err of
          Some e \<Rightarrow> Some (NodeLinks_handleError E None e s1)
        | None \<Rightarrow>
            do {
              (err, s2) \<leftarrow> deleteUndesiredLinks E linkResources s1;
              (case err of
                 Some e \<Rightarrow> Some (NodeLinks_handleError E None e s2)
               | None \<Rightarrow>
                   do {
                     (err, s3) \<leftarrow> updateLastAttemptedLinks E linkResources
                       (set_resource E (condition Ready ConditionUnknown ReadyForUpsert FixedText) s2);
                     (case err of
                        Some e \<Rightarrow> Some (NodeLinks_handleError E None e s3)
                      | None \<Rightarrow> upsert_and_report E linkResources linkGraph sortedNames s3)
                   })
            })
     }"

definition validate_and_plan ::
  "('k, 'g, 'a) nenv \<Rightarrow> link_map \<Rightarrow> ('k, 'a) nstate \<Rightarrow> ('k, 'a) nresult option" where
  "validate_and_plan E linkResources s =
     do {
       (err, s1) \<leftarrow> validateLinks E linkResources s;
       (case err of
          Some e \<Rightarrow> Some (NodeLinks_handleError E None e s1)
        | None \<Rightarrow>
            do {
              r \<leftarrow> buildDesiredLinkGraph E linkResources;
              (case r of
                 Inl e \<Rightarrow> Some (NodeLinks_handleError E (Some (ready_error LinkGraphBuildFailed e)) e s1)
               | Inr linkGraph \<Rightarrow>
                   (case getTopolgicallySortedLinkNames E linkGraph of
                      Inl e \<Rightarrow> Some (NodeLinks_handleError E (Some (ready_error LinkGraphTopologicalSortFailed e)) e s1)
                    | Inr sortedNames \<Rightarrow> clean_and_upsert E linkResources linkGraph sortedNames s1))
            })
     }"

definition retrieve_and_upsert :: "('k, 'g, 'a) nenv \<Rightarrow> ('k, 'a) nstate \<Rightarrow> ('k, 'a) nresult option" where
  "retrieve_and_upsert E s =
     (case getLinkResources E s of
        Inl e \<Rightarrow> Some (NodeLinks_handleError E (Some (ready_error LinkRetrievalFailed e)) e s)
      | Inr linkResources \<Rightarrow>
          validate_and_plan E linkResources
            (s\<lparr>nn_watched := set (pie_Map_links (ne_pie E) LinkName (pie_Values (ne_pie E) linkResources))\<rparr>))"

definition NodeLinks_handleUpsert :: "('k, 'g, 'a) nenv \<Rightarrow> ('k, 'a) nstate \<Rightarrow> ('k, 'a) nresult option" where
  "NodeLinks_handleUpsert E s =
     (case add_finalizer E s of
        (added, s1) \<Rightarrow>
          if added then
            (case NodeLinks_patchResource E s1 of
               (Some e, s2) \<Rightarrow> Some (NodeLinks_handleError E (Some (ready_error FinalizerUpdateFailed e)) e s2)
             | (None, s2) \<Rightarrow> retrieve_and_upsert E s2)
          else retrieve_and_upsert E s1)"

subsection \<open>handleDeletion\<close>

definition NodeLinks_handleDeletion :: "('k, 'g, 'a) nenv \<Rightarrow> ('k, 'a) nstate \<Rightarrow> ('k, 'a) nresult option" where
  "NodeLinks_handleDeletion E s =
     (if \<not> lib_ContainsFinalizer (ne_k8s E) (m_Finalizers (nk_Meta (nn_nodeLinks s))) nodeLinksFinalizerName
      then Some ((0, None), s)
      else do {
        (err, s1) \<leftarrow> deleteLinks E (LastAttempted (nn_nodeLinks s)) s;
        (case err of
           Some e \<Rightarrow> Some (NodeLinks_handleError E None e s1)
         | None \<Rightarrow>
             (let s2 = upd_nodeLinks (\<lambda>n. n\<lparr>nk_Meta := (nk_Meta n)\<lparr>m_Finalizers :=
                   lib_RemoveFinalizer (ne_k8s E) nodeLinksFinalizerName (m_Finalizers (nk_Meta n))\<rparr>\<rparr>)
                   (s1\<lparr>nn_watched := {}\<rparr>) in
              (case NodeLinks_patchResource E s2 of
                 (Some e, s3) \<Rightarrow> Some (NodeLinks_handleError E (Some (ready_error FinalizerUpdateFailed e)) e s3)
               | (None, s3) \<Rightarrow> Some ((0, None), s3))))
      })"

subsection \<open>Reconcile\<close>

text \<open>
  A reconciliation starts from the world it finds; the two copies of the resource are those of the
  cluster. When there is no such resource nothing is done.
\<close>

definition NodeLinks_Reconcile :: "('k, 'g, 'a) nenv \<Rightarrow> string \<Rightarrow> ('k, 'a) nstate \<Rightarrow> ('k, 'a) nresult option" where
  "NodeLinks_Reconcile E name s =
     (case api_GetNodeLinks (ne_client E) (store (nn_api s)) name of
        Inl err \<Rightarrow> Some ((0, lib_IgnoreNotFound (ne_k8s E) err), s)
      | Inr nodeLinks \<Rightarrow>
          (let s1 = s\<lparr>nn_nodeLinks := nodeLinks, nn_clusterState := nodeLinks\<rparr> in
           if \<not> DeletionTimestamp_IsZero (nk_Meta nodeLinks) then NodeLinks_handleDeletion E s1
           else NodeLinks_handleUpsert E s1))"

subsection \<open>What triggers a reconciliation\<close>

text \<open>
  The predicates and the map function of \<open>SetupWithManager\<close>: NodeLinks events of this node only, and
  Link events of links whose status lists this node.
\<close>

definition nodelinks_event_for_node :: "('k, 'g, 'a) nenv \<Rightarrow> NodeLinks \<Rightarrow> bool" where
  "nodelinks_event_for_node E object \<longleftrightarrow> m_Name (nk_Meta object) = ne_nodeName E"

definition link_event_requests :: "('k, 'g, 'a) nenv \<Rightarrow> Link \<Rightarrow> string list" where
  "link_event_requests E link =
     (if ne_nodeName E \<notin> set (ls_MatchedNodes (lk_Status link)) then [] else [ne_nodeName E])"

end
