(* ===== verification/NodeLinks_Safety.thy ===== *)
theory NodeLinks_Safety
  imports NodeLinks_Reconcile Manager_Contract
begin

text \<open>
  What a reconciliation does to the node: which links its netlink calls act on, and which part of the
  controller's state each step leaves alone. The relation \<open>acts E P s s'\<close> says that the run from \<open>s\<close>
  to \<open>s'\<close> made only calls in \<open>P\<close>, and changed no more of the controller's state than the conditions of
  the resource under reconciliation.
\<close>

subsection \<open>Runs that act on the node only\<close>

definition status_frame :: "NodeLinks \<Rightarrow> NodeLinks \<Rightarrow> bool" where
  "status_frame x y \<longleftrightarrow> nk_Meta y = nk_Meta x \<and> nk_Spec y = nk_Spec x \<and> LastAttempted y = LastAttempted x"

definition acts :: "(nl_call \<Rightarrow> bool) \<Rightarrow> ('k, 'a) nstate \<Rightarrow> ('k, 'a) nstate \<Rightarrow> bool" where
  "acts P s s' \<longleftrightarrow>
     emits P (nn_world s) (nn_world s') \<and> status_frame (nn_nodeLinks s) (nn_nodeLinks s') \<and>
     nn_api s' = nn_api s \<and> nn_clusterState s' = nn_clusterState s \<and> nn_watched s' = nn_watched s"

lemma status_frame_refl [simp]: "status_frame x x"
  by (simp add: status_frame_def)

lemma status_frame_trans: "status_frame x y \<Longrightarrow> status_frame y z \<Longrightarrow> status_frame x z"
  by (simp add: status_frame_def)

lemma status_frame_set [simp]:
  "status_frame x (setLinkCondition L n c x)" "status_frame x (set_NodeLinks_condition L c x)"
  "status_frame x (forget_link n x)"
  by (simp_all add: status_frame_def frame_simps forget_link_def)

lemma acts_refl [simp]: "acts P s s"
  by (simp add: acts_def)

lemma acts_trans [trans]: "acts P s t \<Longrightarrow> acts P t u \<Longrightarrow> acts P s u"
  unfolding acts_def using emits_trans[of P "nn_world s" "nn_world t" "nn_world u"]
    status_frame_trans[of "nn_nodeLinks s" "nn_nodeLinks t" "nn_nodeLinks u"] by simp

lemma acts_mono: "acts P s t \<Longrightarrow> (\<And>c. P c \<Longrightarrow> Q c) \<Longrightarrow> acts Q s t"
  unfolding acts_def using emits_mono by blast

lemma acts_set [simp]:
  "acts P s (upd_nodeLinks (setLinkCondition L n c) s)"
  "acts P s (upd_nodeLinks (set_NodeLinks_condition L c) s)"
  "acts P s (upd_nodeLinks (forget_link n) s)"
  "acts P s (s\<lparr>nn_allDependenciesExist := b\<rparr>)"
  by (simp_all add: acts_def)

lemma acts_then_set:
  "acts P s t \<Longrightarrow> acts P s (upd_nodeLinks (setLinkCondition L n c) t)"
  "acts P s t \<Longrightarrow> acts P s (upd_nodeLinks (set_NodeLinks_condition L c) t)"
  "acts P s t \<Longrightarrow> acts P s (upd_nodeLinks (forget_link n) t)"
  using acts_trans acts_set by blast+

lemma acts_nl_do: "nn_nl_do E c s = (e, s') \<Longrightarrow> P c \<Longrightarrow> acts P s s'"
  by (auto simp: nn_nl_do_def acts_def intro: nl_do_emits split: prod.splits)

text \<open>A step that acts by \<open>P\<close> wherever it returns.\<close>

definition step_acts :: "(nl_call \<Rightarrow> bool) \<Rightarrow> ('k, 'a) nstep \<Rightarrow> bool" where
  "step_acts P f \<longleftrightarrow> (\<forall>s e s'. f s = Some (e, s') \<longrightarrow> acts P s s')"

lemma step_actsI: "(\<And>s e s'. f s = Some (e, s') \<Longrightarrow> acts P s s') \<Longrightarrow> step_acts P f"
  by (simp add: step_acts_def)

lemma step_actsD: "step_acts P f \<Longrightarrow> f s = Some (e, s') \<Longrightarrow> acts P s s'"
  by (simp add: step_acts_def)

lemma traverse_acts:
  assumes "traverse f xs s = Some (es, t)" and "\<And>x. x \<in> set xs \<Longrightarrow> step_acts P (f x)"
  shows "acts P s t"
  using assms(1) by (rule traverse_invariant) (use assms(2) acts_trans in \<open>auto simp: step_acts_def\<close>, blast)

subsection \<open>The calls on one link\<close>

definition downs :: "'k netlink \<Rightarrow> string \<Rightarrow> nl_call \<Rightarrow> bool" where
  "downs NL n c \<longleftrightarrow> (\<exists>l. c = LinkSetDown l \<and> found_as NL n l)"

definition dels :: "'k netlink \<Rightarrow> string \<Rightarrow> nl_call \<Rightarrow> bool" where
  "dels NL n c \<longleftrightarrow> (\<exists>l. c = LinkDel l \<and> found_as NL n l)"

lemma downs_acts_on: "downs NL n c \<Longrightarrow> acts_on NL n c"
  by (auto simp: downs_def)

lemma dels_acts_on: "dels NL n c \<Longrightarrow> acts_on NL n c"
  by (auto simp: dels_def)

lemma bringDownLink_acts:
  assumes "bringDownLink E n s = (e, s')"
  shows "acts (downs (ne_netlink E) n) s s'"
proof (cases "nl_LinkByName (ne_netlink E) (kern (nn_world s)) n")
  case (Inl err)
  then show ?thesis using assms by (auto simp: bringDownLink_def split: if_splits)
next
  case (Inr l)
  obtain x s1 where step: "nn_nl_do E (LinkSetDown l) s = (x, s1)" by fastforce
  have "acts (downs (ne_netlink E) n) s s1"
    using acts_nl_do[OF step, of "downs (ne_netlink E) n"] Inr by (auto simp: downs_def found_as_def)
  then show ?thesis using assms step Inr
    by (auto simp: bringDownLink_def intro: acts_then_set split: option.splits)
qed

lemma deleteLink_acts:
  assumes "deleteLink E n s = (e, s')"
  shows "acts (dels (ne_netlink E) n) s s'"
proof (cases "nl_LinkByName (ne_netlink E) (kern (nn_world s)) n")
  case (Inl err)
  then show ?thesis using assms by (auto simp: deleteLink_def split: if_splits)
next
  case (Inr l)
  obtain x s1 where step: "nn_nl_do E (LinkDel l) s = (x, s1)" by fastforce
  have "acts (dels (ne_netlink E) n) s s1"
    using acts_nl_do[OF step, of "dels (ne_netlink E) n"] Inr by (auto simp: dels_def found_as_def)
  then show ?thesis using assms step Inr by (auto simp: deleteLink_def split: option.splits)
qed

lemma delete_bring_down_acts: "step_acts (downs (ne_netlink E) n) (delete_bring_down E n)"
  by (rule step_actsI) (auto simp: delete_bring_down_def intro: acts_then_set bringDownLink_acts
      split: prod.splits option.splits)

lemma delete_delete_acts: "step_acts (dels (ne_netlink E) n) (delete_delete E n)"
  by (rule step_actsI) (auto simp: delete_delete_def intro: acts_then_set deleteLink_acts
      split: prod.splits option.splits)

subsection \<open>Deleting links: all down first\<close>

lemma deleteLinks_cases:
  assumes "deleteLinks E names s = Some (e, s')" and "nenv_ok E"
  obtains (not_down) errs s1 err where "traverse (delete_bring_down E) names s = Some (errs, s1)"
      "errors_Join errs = Some err" "e = Some (Wrapf (NodeLinksMsg BringDownAllUndesired) err)"
      "s' = set_resource E (condition Ready ConditionFalse LinkSetDownFailed FixedText) s1"
  | (not_deleted) errs s1 errs2 s2 err where "traverse (delete_bring_down E) names s = Some (errs, s1)"
      "errors_Join errs = None" "traverse (delete_delete E) names s1 = Some (errs2, s2)"
      "errors_Join errs2 = Some err" "e = Some (Wrapf (NodeLinksMsg DeleteAllUndesired) err)"
      "s' = set_resource E (condition Ready ConditionFalse LinkDeletionFailed FixedText) s2"
  | (deleted) errs s1 errs2 where "traverse (delete_bring_down E) names s = Some (errs, s1)"
      "errors_Join errs = None" "traverse (delete_delete E) names s1 = Some (errs2, s')"
      "errors_Join errs2 = None" "e = None"
proof -
  note pie = nenv_okD(4)[OF assms(2)]
  from assms(1) obtain errs s1 where 1: "traverse (delete_bring_down E) names s = Some (errs, s1)"
    by (auto simp: deleteLinks_def pie bind_eq_Some_conv)
  show thesis
  proof (cases "errors_Join errs")
    case (Some err)
    then show thesis using not_down[OF 1 Some] assms(1) 1 by (simp add: deleteLinks_def pie)
  next
    case None
    with assms(1) 1 obtain errs2 s2 where 2: "traverse (delete_delete E) names s1 = Some (errs2, s2)"
      by (auto simp del: errors_Join_None simp: deleteLinks_def pie bind_eq_Some_conv)
    show thesis
    proof (cases "errors_Join errs2")
      case (Some err)
      then show thesis using not_deleted[OF 1 None 2 Some] assms(1) 1 2 None
        by (simp add: deleteLinks_def pie del: errors_Join_None)
    next
      case None': None
      then show thesis using deleted[OF 1 None] assms(1) 1 2 None
        by (simp add: deleteLinks_def pie del: errors_Join_None)
    qed
  qed
qed

lemma traverse_downs:
  "traverse (delete_bring_down E) names s = Some (errs, s1) \<Longrightarrow>
     acts (\<lambda>c. \<exists>n \<in> set names. downs (ne_netlink E) n c) s s1"
  by (erule traverse_acts) (rule step_actsI, rule acts_mono[OF step_actsD[OF delete_bring_down_acts]], auto)

lemma traverse_dels:
  "traverse (delete_delete E) names s = Some (errs, s1) \<Longrightarrow>
     acts (\<lambda>c. \<exists>n \<in> set names. dels (ne_netlink E) n c) s s1"
  by (erule traverse_acts) (rule step_actsI, rule acts_mono[OF step_actsD[OF delete_delete_acts]], auto)

lemma deleteLinks_acts:
  assumes "deleteLinks E names s = Some (e, s')" and "nenv_ok E"
  shows "acts (\<lambda>c. \<exists>n \<in> set names. downs (ne_netlink E) n c \<or> dels (ne_netlink E) n c) s s'"
proof -
  let ?P = "\<lambda>c. \<exists>n \<in> set names. downs (ne_netlink E) n c \<or> dels (ne_netlink E) n c"
  have down: "acts ?P s s1" if "traverse (delete_bring_down E) names s = Some (errs, s1)" for errs s1
    using traverse_downs[OF that] by (rule acts_mono) blast
  have del: "acts ?P s1 s2" if "traverse (delete_delete E) names s1 = Some (errs, s2)" for errs s1 s2
    using traverse_dels[OF that] by (rule acts_mono) blast
  from assms show ?thesis
    by (cases rule: deleteLinks_cases) (auto intro!: acts_then_set intro: down acts_trans[OF down del])
qed

subsection \<open>Missing dependencies and dependents\<close>

lemma is_managed_iff: "getLinkManager l = Inr m \<Longrightarrow> is_managed l \<longleftrightarrow> IsManaged m"
  by (simp add: is_managed_def)

lemma update_dependent_acts:
  "step_acts (\<lambda>c. \<exists>n l. (n, l) \<in> set links \<and> is_managed l \<and> downs (ne_netlink E) (LinkName l) c) (update_dependent E links r)"
proof (rule step_actsI)
  fix s e s'
  assume run: "update_dependent E links r s = Some (e, s')"
  let ?P = "\<lambda>c. \<exists>n l. (n, l) \<in> set links \<and> is_managed l \<and> downs (ne_netlink E) (LinkName l) c"
  from run obtain l where l: "map_of links r = Some l" by (auto simp: update_dependent_def bind_eq_Some_conv)
  show "acts ?P s s'"
  proof (cases "getLinkManager l")
    case (Inl err)
    then show ?thesis using run l by (simp add: update_dependent_def)
  next
    case (Inr m)
    with run l obtain ds where ds: "GetDependencies m = Some ds" by (auto simp: update_dependent_def bind_eq_Some_conv)
    have down: "acts ?P s s1" if "bringDownLink E (LinkName l) (s\<lparr>nn_allDependenciesExist := False\<rparr>) = (x, s1)" "IsManaged m" for x s1
    proof -
      have "acts (downs (ne_netlink E) (LinkName l)) (s\<lparr>nn_allDependenciesExist := False\<rparr>) s1"
        by (rule bringDownLink_acts[OF that(1)])
      then have "acts ?P (s\<lparr>nn_allDependenciesExist := False\<rparr>) s1"
        by (rule acts_mono) (use that(2) map_of_SomeD[OF l] is_managed_iff[OF Inr] in blast)
      then show ?thesis using acts_set(4) acts_trans by blast
    qed
    show ?thesis using run l Inr ds
      by (auto simp: update_dependent_def Let_def intro!: acts_then_set intro: down
          split: if_splits prod.splits option.splits)
  qed
qed

lemma updateDependents_acts:
  assumes "updateDependentsMissingDependencies E names links s = Some (e, s')" and "nenv_ok E"
  shows "acts (\<lambda>c. \<exists>n l. (n, l) \<in> set links \<and> is_managed l \<and> downs (ne_netlink E) (LinkName l) c) s s'"
proof -
  let ?P = "\<lambda>c. \<exists>n l. (n, l) \<in> set links \<and> is_managed l \<and> downs (ne_netlink E) (LinkName l) c"
  note pie = nenv_okD(4)[OF assms(2)]
  from assms(1) obtain errs s1 where 1: "traverse (update_dependent E links) names (s\<lparr>nn_allDependenciesExist := True\<rparr>) = Some (errs, s1)"
    by (auto simp: updateDependentsMissingDependencies_def pie bind_eq_Some_conv)
  have "acts ?P (s\<lparr>nn_allDependenciesExist := True\<rparr>) s1"
    using 1 by (rule traverse_acts) (rule update_dependent_acts)
  then have "acts ?P s s1" using acts_set(4) acts_trans by blast
  then show ?thesis using assms(1) 1
    by (auto simp: updateDependentsMissingDependencies_def pie intro: acts_then_set split: option.splits if_splits)
qed

lemma bring_down_dependent_acts:
  "step_acts (\<lambda>c. \<exists>n l. (n, l) \<in> set links \<and> is_managed l \<and> downs (ne_netlink E) (LinkName l) c)
     (bring_down_dependent E links link v edge)"
proof (rule step_actsI)
  fix s e s'
  assume run: "bring_down_dependent E links link v edge s = Some (e, s')"
  let ?P = "\<lambda>c. \<exists>n l. (n, l) \<in> set links \<and> is_managed l \<and> downs (ne_netlink E) (LinkName l) c"
  have down: "acts ?P s s1"
    if "wrap_err f (bringDownLink E (LinkName l) s) = (x, s1)" "getLinkManager l = Inr m" "IsManaged m" "map_of links v = Some l"
    for f l x s1 m
  proof -
    have "bringDownLink E (LinkName l) s = (fst (bringDownLink E (LinkName l) s), s1)"
      using that(1) by (metis prod.collapse snd_conv wrap_err_simps(4))
    then have "acts (downs (ne_netlink E) (LinkName l)) s s1" by (rule bringDownLink_acts)
    then show ?thesis
      by (rule acts_mono) (use that(3) map_of_SomeD[OF that(4)] is_managed_iff[OF that(2)] in blast)
  qed
  show "acts ?P s s'" using run
    by (auto simp: bring_down_dependent_def intro: down split: if_splits option.splits sum.splits)
qed

lemma bringDownDependents_acts:
  assumes "bringDownDependents E r links g s = Some (e, s')"
  shows "acts (\<lambda>c. \<exists>n l. (n, l) \<in> set links \<and> is_managed l \<and> downs (ne_netlink E) (LinkName l) c) s s'"
proof -
  from assms obtain l where "map_of links r = Some l"
    and "BFSWithEdge (gr_AdjacencyMap (ne_graph E) g) (\<lambda>v. v) (Link_Name l) (bring_down_dependent E links l) s = Some (e, s')"
    by (auto simp: bringDownDependents_def bind_eq_Some_conv)
  from this(2) show ?thesis
    by (rule BFSWithEdge_invariant) (auto intro: acts_trans step_actsD[OF bring_down_dependent_acts])
qed

subsection \<open>Upserting\<close>

text \<open>The calls on the links of managed resources.\<close>

definition on_managed :: "'k netlink \<Rightarrow> link_map \<Rightarrow> nl_call \<Rightarrow> bool" where
  "on_managed NL links c \<longleftrightarrow> (\<exists>n l. (n, l) \<in> set links \<and> is_managed l \<and> acts_on NL (LinkName l) c)"

lemma downs_on_managed:
  "\<exists>n l. (n, l) \<in> set links \<and> is_managed l \<and> downs NL (LinkName l) c \<Longrightarrow> on_managed NL links c"
  using downs_acts_on by (fastforce simp: on_managed_def)

lemma nn_upsert_acts:
  assumes "nn_upsert E m links s = Some (e, s')" and "getLinkManager l = Inr m" and "netlink_types (ne_netlink E)"
  shows "acts (acts_on (ne_netlink E) (LinkName l)) s s'" and "\<not> is_managed l \<Longrightarrow> s' = s"
proof -
  have m: "m = manager_of l" by (rule getLinkManager_manager_of[OF assms(2)])
  from assms(1) obtain w where w: "Upsert (ne_netlink E) m links (nn_world s) = Some (e, w)" "s' = s\<lparr>nn_world := w\<rparr>"
    by (auto simp: nn_upsert_def bind_eq_Some_conv)
  show "acts (acts_on (ne_netlink E) (LinkName l)) s s'"
    using mgr.upsert_acts[OF assms(3) w(1)[unfolded m]] w(2) by (simp add: acts_def)
  assume "\<not> is_managed l"
  then have "\<not> IsManaged (manager_of l)" using assms(2) m by (simp add: is_managed_def)
  then show "s' = s" using mgr.upsert_unmanaged[of l "ne_netlink E" links "nn_world s"] w m by simp
qed

lemma upsert_finish_acts: "step_acts P (upsert_finish E name)"
  by (rule step_actsI) (auto simp: upsert_finish_def bind_eq_Some_conv Let_def intro: acts_then_set)

lemma upsert_needed_link_cases:
  assumes "upsert_needed_link E r l m links g s = Some (e, s')"
  obtains (dependents) err s1 where "bringDownDependents E r links g s = Some (Some err, s1)"
      "e = Some (Wrapf (NodeLinksMsg (BringDownDependentsOf (Link_Name l))) err)"
      "s' = set_link E (LinkName l) (condition Ready ConditionFalse DependentLinkSetDownFailed (WithError err)) s1"
  | (upsert) s1 err s2 where "bringDownDependents E r links g s = Some (None, s1)"
      "nn_upsert E m links s1 = Some (Some err, s2)"
      "e = Some (Wrapf (NodeLinksMsg (UpsertOfLink (Link_Name l))) err)"
      "s' = set_link E (LinkName l) (condition Ready ConditionFalse UpsertFailed (WithError err)) s2"
  | (upserted) s1 s2 where "bringDownDependents E r links g s = Some (None, s1)"
      "nn_upsert E m links s1 = Some (None, s2)" "upsert_finish E (LinkName l) s2 = Some (e, s')"
proof -
  from assms obtain derr s1 where 1: "bringDownDependents E r links g s = Some (derr, s1)"
    by (auto simp: upsert_needed_link_def bind_eq_Some_conv)
  show thesis
  proof (cases derr)
    case (Some err)
    then show thesis using dependents[of err s1] assms 1 by (simp add: upsert_needed_link_def)
  next
    case None
    with assms 1 obtain uerr s2 where 2: "nn_upsert E m links s1 = Some (uerr, s2)"
      by (auto simp: upsert_needed_link_def bind_eq_Some_conv)
    then show thesis using upsert[of s1] upserted[of s1 s2] assms 1 None
      by (cases uerr) (simp_all add: upsert_needed_link_def)
  qed
qed

end
