(* ===== verification/NodeLinks_Effects.thy ===== *)
theory NodeLinks_Effects
  imports NodeLinks_Safety
begin

text \<open>
  The effects of a whole reconciliation: from the calls of one link to the calls of \<open>upsertLinks\<close>,
  \<open>handleUpsert\<close>, \<open>handleDeletion\<close> and \<open>Reconcile\<close>, and the order of the phases.
\<close>

subsection \<open>Upserting all links\<close>

lemma upsertLink_cases:
  assumes "upsertLink E links g r s = Some (e, s')"
  obtains (no_manager) l err where "map_of links r = Some l" "getLinkManager l = Inl err"
      "e = Some (Wrapf (NodeLinksMsg (GetLinkManager (Link_Name l))) err)" "s' = s"
  | (no_conditions) l m where "map_of links r = Some l" "getLinkManager l = Inr m"
      "NetlinkLinkConditions (nn_nodeLinks s) (LinkName l) = None"
      "e = Some (Errorf (NodeLinksMsg (NoConditionsForLink (LinkName l))))"
      "s' = set_link E (LinkName l) (condition Ready ConditionUnknown MaybeMissingDependencyLinks FixedText) s"
  | (missing) l m cs where "map_of links r = Some l" "getLinkManager l = Inr m"
      "NetlinkLinkConditions (nn_nodeLinks s) (LinkName l) = Some cs"
      "\<not> lib_IsStatusConditionTrue (ne_k8s E) cs DependencyLinksAvailable"
      "e = Some (Errorf (NodeLinksMsg (LinkMissingDependencies (LinkName l))))" "s' = s"
  | (check_failed) l m cs err where "map_of links r = Some l" "getLinkManager l = Inr m"
      "NetlinkLinkConditions (nn_nodeLinks s) (LinkName l) = Some cs"
      "lib_IsStatusConditionTrue (ne_k8s E) cs DependencyLinksAvailable"
      "IsUpsertNeeded (ne_netlink E) m (kern (nn_world s)) links = Some (Inl err)"
      "e = Some (Wrapf (NodeLinksMsg (UpsertCheck (Link_Name l))) err)"
      "s' = set_link E (LinkName l) (condition Ready ConditionFalse UpsertCheckFailed (WithError err)) s"
  | (settled) l m cs where "map_of links r = Some l" "getLinkManager l = Inr m"
      "NetlinkLinkConditions (nn_nodeLinks s) (LinkName l) = Some cs"
      "lib_IsStatusConditionTrue (ne_k8s E) cs DependencyLinksAvailable"
      "IsUpsertNeeded (ne_netlink E) m (kern (nn_world s)) links = Some (Inr False)"
      "upsert_finish E (LinkName l) s = Some (e, s')"
  | (needed) l m cs where "map_of links r = Some l" "getLinkManager l = Inr m"
      "NetlinkLinkConditions (nn_nodeLinks s) (LinkName l) = Some cs"
      "lib_IsStatusConditionTrue (ne_k8s E) cs DependencyLinksAvailable"
      "IsUpsertNeeded (ne_netlink E) m (kern (nn_world s)) links = Some (Inr True)"
      "upsert_needed_link E r l m links g s = Some (e, s')"
proof -
  from assms obtain l where l: "map_of links r = Some l" by (auto simp: upsertLink_def Let_def bind_eq_Some_conv)
  show thesis
  proof (cases "getLinkManager l")
    case (Inl err)
    then show thesis using no_manager[OF l Inl] assms l by (simp add: upsertLink_def Let_def)
  next
    case m: (Inr m)
    show thesis
    proof (cases "NetlinkLinkConditions (nn_nodeLinks s) (LinkName l)")
      case None
      then show thesis using no_conditions[OF l m None] assms l m by (simp add: upsertLink_def Let_def)
    next
      case cs: (Some cs)
      show thesis
      proof (cases "lib_IsStatusConditionTrue (ne_k8s E) cs DependencyLinksAvailable")
        case False
        then show thesis using missing[OF l m cs False] assms l m cs by (simp add: upsertLink_def Let_def)
      next
        case dep: True
        from assms l m cs dep obtain n where n: "IsUpsertNeeded (ne_netlink E) m (kern (nn_world s)) links = Some n"
          by (auto simp: upsertLink_def Let_def bind_eq_Some_conv)
        consider (1) err where "n = Inl err" | (2) "n = Inr False" | (3) "n = Inr True"
          by (metis (full_types) sum.exhaust)
        then show thesis
        proof cases
          case (1 err)
          then show thesis using check_failed[OF l m cs dep] assms l m cs dep n by (simp add: upsertLink_def Let_def)
        next
          case 2
          then show thesis using settled[OF l m cs dep] assms l m cs dep n by (simp add: upsertLink_def Let_def)
        next
          case 3
          then show thesis using needed[OF l m cs dep] assms l m cs dep n by (simp add: upsertLink_def Let_def)
        qed
      qed
    qed
  qed
qed

text \<open>An unmanaged link needs no upsert, so only managed links reach \<open>Upsert\<close>.\<close>

lemma needed_managed:
  assumes "getLinkManager l = Inr m" and "IsUpsertNeeded NL m k links = Some (Inr True)"
  shows "is_managed l"
  using assms mgr.needed_unmanaged[of l NL k links] getLinkManager_manager_of[OF assms(1)]
  by (auto simp: is_managed_def)

lemma upsert_needed_link_acts:
  assumes "upsert_needed_link E r l m links g s = Some (e, s')" and "map_of links r = Some l"
    and "getLinkManager l = Inr m" and "is_managed l" and "netlink_types (ne_netlink E)"
  shows "acts (on_managed (ne_netlink E) links) s s'"
proof -
  let ?P = "on_managed (ne_netlink E) links"
  have down: "acts ?P s s1" if "bringDownDependents E r links g s = Some (x, s1)" for x s1
    using bringDownDependents_acts[OF that] by (rule acts_mono) (rule downs_on_managed)
  have up: "acts ?P s1 s2" if "nn_upsert E m links s1 = Some (x, s2)" for x s1 s2
    using nn_upsert_acts(1)[OF that assms(3,5)]
    by (rule acts_mono) (use map_of_SomeD[OF assms(2)] assms(4) in \<open>auto simp: on_managed_def\<close>)
  from assms(1) show ?thesis
  proof (cases rule: upsert_needed_link_cases)
    case (dependents err s1)
    then show ?thesis using down by (auto intro: acts_then_set)
  next
    case (upsert s1 err s2)
    then show ?thesis using acts_trans[OF down up] by (auto intro: acts_then_set)
  next
    case (upserted s1 s2)
    then show ?thesis using acts_trans[OF acts_trans[OF down up] step_actsD[OF upsert_finish_acts]] by blast
  qed
qed

lemma upsertLink_acts:
  assumes "netlink_types (ne_netlink E)"
  shows "step_acts (on_managed (ne_netlink E) links) (upsertLink E links g r)"
proof (rule step_actsI)
  fix s e s'
  assume "upsertLink E links g r s = Some (e, s')"
  then show "acts (on_managed (ne_netlink E) links) s s'"
  proof (cases rule: upsertLink_cases)
    case (settled l m cs)
    then show ?thesis using step_actsD[OF upsert_finish_acts] by blast
  next
    case (needed l m cs)
    then show ?thesis using upsert_needed_link_acts[OF needed(6,1,2) needed_managed[OF needed(2,5)] assms] by blast
  qed auto
qed

lemma upsertLinks_acts:
  assumes "upsertLinks E names links g s = Some (e, s')" and "nenv_ok E"
  shows "acts (on_managed (ne_netlink E) links) s s'"
proof -
  note pie = nenv_okD(4)[OF assms(2)]
  from assms(1) obtain errs s1 where 1: "traverse (upsertLink E links g) names s = Some (errs, s1)"
    by (auto simp: upsertLinks_def pie bind_eq_Some_conv)
  then have "acts (on_managed (ne_netlink E) links) s s1"
    by (rule traverse_acts) (rule upsertLink_acts[OF nenv_okD(1)[OF assms(2)]])
  then show ?thesis using assms(1) 1 by (auto simp: upsertLinks_def pie intro: acts_then_set split: option.splits)
qed

subsection \<open>Which names are undesired, which are tracked\<close>

lemma getUndesiredLinks_subset:
  assumes "nenv_ok E"
  shows "set (getUndesiredLinks E n links) \<subseteq> set (LastAttempted n)"
proof -
  have "mset (getUndesiredLinks E n links) \<subseteq># mset (LastAttempted n)"
    using pie_Diff_removed[OF nenv_okD(3)[OF assms]] by (simp add: getUndesiredLinks_def Let_def)
  then show ?thesis by (metis set_mset_mono set_mset_mset)
qed

text \<open>When no name is tracked twice, nothing that is desired is removed.\<close>

lemma getUndesiredLinks_undesired:
  assumes "nenv_ok E" and "distinct (map fst links)" and "distinct (LastAttempted n)"
  shows "set (getUndesiredLinks E n links) = set (LastAttempted n) - LinkName ` snd ` set links"
proof -
  let ?d = "map (\<lambda>(_, link). LinkName link) (range_map (ne_range E) RangeUndesired links)"
  have d: "set ?d = LinkName ` snd ` set links"
    using range_map_set[OF nenv_okD(5)[OF assms(1)] assms(2)] by (force simp: image_iff)
  have "mset (getUndesiredLinks E n links) = mset (LastAttempted n) - mset ?d"
    using pie_Diff_removed[OF nenv_okD(3)[OF assms(1)]] by (simp add: getUndesiredLinks_def Let_def)
  then have "set (getUndesiredLinks E n links) = set_mset (mset (LastAttempted n) - mset ?d)"
    by (metis set_mset_mset)
  also have "\<dots> = set (LastAttempted n) - set ?d"
  proof -
    have "x \<in># mset (LastAttempted n) - mset ?d \<longleftrightarrow> x \<in> set (LastAttempted n) \<and> x \<notin> set ?d" for x
    proof -
      have "count (mset (LastAttempted n)) x = (if x \<in> set (LastAttempted n) then 1 else 0)"
        using assms(3) by (simp add: distinct_count_atmost_1)
      moreover have "count (mset ?d) x = 0 \<longleftrightarrow> x \<notin> set ?d" by (metis count_eq_zero_iff set_mset_mset)
      ultimately show ?thesis by (auto simp: in_diff_count)
    qed
    then show ?thesis by blast
  qed
  finally show ?thesis using d by simp
qed

lemma last_attempted_names_eq:
  "last_attempted_names xs = Inr names \<Longrightarrow> names = managed_names xs"
proof (induction xs arbitrary: names)
  case (Cons x xs)
  then show ?case by (cases x) (auto simp: is_managed_def split: sum.splits if_splits)
qed simp

lemma updateLastAttemptedLinks_cases:
  assumes "updateLastAttemptedLinks E links s = Some (e, s')"
  obtains (no_manager) err where "e = Some err" "s' = s"
  | (patch_failed) names err s1 where "names = managed_names (range_map (ne_range E) RangeLastAttempted links)"
      "NodeLinks_patchResource E (upd_nodeLinks (\<lambda>n. n\<lparr>nk_Status := (nk_Status n)\<lparr>ns_LastAttemptedNetlinkLinks := names\<rparr>\<rparr>) s) = (Some err, s1)"
      "e = Some (Wrapf (NodeLinksMsg UpdateLastAttempted) err)"
      "s' = set_resource E (condition Ready ConditionFalse StatusUpdateFailed (WithError err)) s1"
  | (recorded) names where "names = managed_names (range_map (ne_range E) RangeLastAttempted links)"
      "NodeLinks_patchResource E (upd_nodeLinks (\<lambda>n. n\<lparr>nk_Status := (nk_Status n)\<lparr>ns_LastAttemptedNetlinkLinks := names\<rparr>\<rparr>) s) = (None, s')"
      "e = None"
proof (cases "last_attempted_names (range_map (ne_range E) RangeLastAttempted links)")
  case (Inl err)
  then show thesis using no_manager[of err] assms by (simp add: updateLastAttemptedLinks_def)
next
  case (Inr names)
  obtain x s1 where p: "NodeLinks_patchResource E
      (upd_nodeLinks (\<lambda>n. n\<lparr>nk_Status := (nk_Status n)\<lparr>ns_LastAttemptedNetlinkLinks := names\<rparr>\<rparr>) s) = (x, s1)" by fastforce
  show thesis using assms Inr p patch_failed[OF last_attempted_names_eq[OF Inr]] recorded[OF last_attempted_names_eq[OF Inr]]
    by (cases x) (simp_all add: updateLastAttemptedLinks_def)
qed

lemma updateLastAttemptedLinks_world:
  assumes "updateLastAttemptedLinks E links s = Some (e, s')"
  shows "nn_world s' = nn_world s"
  using assms by (cases rule: updateLastAttemptedLinks_cases) (simp_all add: NodeLinks_patchResource_world)

subsection \<open>The phases of handleUpsert\<close>

lemma upsert_and_report_cases:
  assumes "upsert_and_report E links g names s = Some (r, s')"
  obtains (failed) e s1 where "upsertLinks E names links g s = Some (Some e, s1)" "NodeLinks_handleError E None e s1 = (r, s')"
  | (unreported) s1 e where "upsertLinks E names links g s = Some (None, s1)"
      "NodeLinks_patchResource E (set_resource E (condition Ready ConditionTrue ReconcileSuccessful NoMessage) s1) = (Some e, s')"
      "r = (0, Some e)"
  | (reported) s1 where "upsertLinks E names links g s = Some (None, s1)"
      "NodeLinks_patchResource E (set_resource E (condition Ready ConditionTrue ReconcileSuccessful NoMessage) s1) = (None, s')"
      "r = (ne_ResyncInterval E, None)"
  using assms unfolding upsert_and_report_def
proof (rule guardE)
  fix e s1
  assume "upsertLinks E names links g s = Some (Some e, s1)" "Some (NodeLinks_handleError E None e s1) = Some (r, s')"
  then show thesis using failed by blast
next
  fix s1
  assume up: "upsertLinks E names links g s = Some (None, s1)"
    and rest: "(case NodeLinks_patchResource E (set_resource E (condition Ready ConditionTrue ReconcileSuccessful NoMessage) s1) of
      (None, s2) \<Rightarrow> Some ((ne_ResyncInterval E, None), s2) | (Some e, s2) \<Rightarrow> Some ((0, Some e), s2)) = Some (r, s')"
  obtain x s2 where p: "NodeLinks_patchResource E (set_resource E (condition Ready ConditionTrue ReconcileSuccessful NoMessage) s1) = (x, s2)"
    by fastforce
  show thesis
    by (cases x) (use unreported[OF up] reported[OF up] rest p in auto)
qed

lemma clean_and_upsert_cases:
  assumes "clean_and_upsert E links g names s = Some (r, s')"
  obtains (dependencies) e s1 where "updateDependentsMissingDependencies E names links s = Some (Some e, s1)"
      "NodeLinks_handleError E None e s1 = (r, s')"
  | (undesired) s1 e s2 where "updateDependentsMissingDependencies E names links s = Some (None, s1)"
      "deleteUndesiredLinks E links s1 = Some (Some e, s2)" "NodeLinks_handleError E None e s2 = (r, s')"
  | (unrecorded) s1 s2 e s3 where "updateDependentsMissingDependencies E names links s = Some (None, s1)"
      "deleteUndesiredLinks E links s1 = Some (None, s2)"
      "updateLastAttemptedLinks E links (set_resource E (condition Ready ConditionUnknown ReadyForUpsert FixedText) s2) = Some (Some e, s3)"
      "NodeLinks_handleError E None e s3 = (r, s')"
  | (recorded) s1 s2 s3 where "updateDependentsMissingDependencies E names links s = Some (None, s1)"
      "deleteUndesiredLinks E links s1 = Some (None, s2)"
      "updateLastAttemptedLinks E links (set_resource E (condition Ready ConditionUnknown ReadyForUpsert FixedText) s2) = Some (None, s3)"
      "upsert_and_report E links g names s3 = Some (r, s')"
  using assms unfolding clean_and_upsert_def
  apply (elim guardE)
     apply (erule dependencies, simp)
    apply (erule undesired, assumption, simp)
   apply (erule unrecorded, assumption, assumption, simp)
  apply (erule recorded, assumption, assumption, simp)
  done

lemma validate_and_plan_cases:
  assumes "validate_and_plan E links s = Some (r, s')"
  obtains (invalid) e s1 where "validateLinks E links s = Some (Some e, s1)" "NodeLinks_handleError E None e s1 = (r, s')"
  | (unplanned) s1 c e where "validateLinks E links s = Some (None, s1)" "NodeLinks_handleError E (Some (ready_error c e)) e s1 = (r, s')"
  | (planned) s1 g names where "validateLinks E links s = Some (None, s1)" "buildDesiredLinkGraph E links = Some (Inr g)"
      "getTopolgicallySortedLinkNames E g = Inr names" "clean_and_upsert E links g names s1 = Some (r, s')"
  using assms unfolding validate_and_plan_def
proof (rule guardE)
  fix e s1
  assume "validateLinks E links s = Some (Some e, s1)" "Some (NodeLinks_handleError E None e s1) = Some (r, s')"
  then show thesis using invalid by blast
next
  fix s1
  assume v: "validateLinks E links s = Some (None, s1)"
    and rest: "buildDesiredLinkGraph E links \<bind> (\<lambda>r. case r of
        Inl e \<Rightarrow> Some (NodeLinks_handleError E (Some (ready_error LinkGraphBuildFailed e)) e s1)
      | Inr g \<Rightarrow> (case getTopolgicallySortedLinkNames E g of
          Inl e \<Rightarrow> Some (NodeLinks_handleError E (Some (ready_error LinkGraphTopologicalSortFailed e)) e s1)
        | Inr names \<Rightarrow> clean_and_upsert E links g names s1)) = Some (r, s')"
  then obtain x where b: "buildDesiredLinkGraph E links = Some x" by (auto simp: bind_eq_Some_conv)
  show thesis
  proof (cases x)
    case (Inl e)
    then show thesis using unplanned[OF v] rest b by simp
  next
    case (Inr g)
    show thesis
    proof (cases "getTopolgicallySortedLinkNames E g")
      case (Inl e)
      then show thesis using unplanned[OF v] rest b Inr by simp
    next
      case names: (Inr names)
      then show thesis using planned[OF v b[unfolded Inr] names] rest b Inr by simp
    qed
  qed
qed

subsection \<open>The calls of a reconciliation\<close>

text \<open>The calls on managed links of the given resources, or on links the status tracks.\<close>

definition on_tracked :: "'k netlink \<Rightarrow> link_map \<Rightarrow> string list \<Rightarrow> nl_call \<Rightarrow> bool" where
  "on_tracked NL links tracked c \<longleftrightarrow> on_managed NL links c \<or> (\<exists>n \<in> set tracked. acts_on NL n c)"

lemma upsert_and_report_emits:
  assumes "upsert_and_report E links g names s = Some (r, s')" and "nenv_ok E"
  shows "emits (on_managed (ne_netlink E) links) (nn_world s) (nn_world s')"
proof -
  have up: "emits (on_managed (ne_netlink E) links) (nn_world s) (nn_world s1)"
    if "upsertLinks E names links g s = Some (x, s1)" for x s1
    using upsertLinks_acts[OF that assms(2)] by (simp add: acts_def)
  from assms(1) show ?thesis
  proof (cases rule: upsert_and_report_cases)
    case (failed e s1)
    then show ?thesis using up[OF failed(1)] NodeLinks_handleError_world(1)[OF failed(2)] by simp
  next
    case (unreported s1 e)
    then show ?thesis using up[OF unreported(1)] NodeLinks_patchResource_world[OF unreported(2)] by simp
  next
    case (reported s1)
    then show ?thesis using up[OF reported(1)] NodeLinks_patchResource_world[OF reported(2)] by simp
  qed
qed

lemma deleteUndesiredLinks_acts:
  assumes "deleteUndesiredLinks E links s = Some (e, s')" and "nenv_ok E"
  shows "acts (\<lambda>c. \<exists>n \<in> set (getUndesiredLinks E (nn_nodeLinks s) links).
    downs (ne_netlink E) n c \<or> dels (ne_netlink E) n c) s s'"
  using deleteLinks_acts[OF _ assms(2)] assms(1) by (simp add: deleteUndesiredLinks_def)

text \<open>Up to the recording of the attempted links, nothing is created.\<close>

lemma clean_emits:
  assumes "updateDependentsMissingDependencies E names links s = Some (e1, s1)"
    and "deleteUndesiredLinks E links s1 = Some (e2, s2)" and "nenv_ok E"
  shows "acts (\<lambda>c. on_tracked (ne_netlink E) links (LastAttempted (nn_nodeLinks s)) c \<and> (\<forall>l. c \<noteq> LinkAdd l)) s s2"
proof -
  let ?P = "\<lambda>c. on_tracked (ne_netlink E) links (LastAttempted (nn_nodeLinks s)) c \<and> (\<forall>l. c \<noteq> LinkAdd l)"
  have 1: "acts ?P s s1"
    using updateDependents_acts[OF assms(1,3)]
    by (rule acts_mono) (auto simp: on_tracked_def on_managed_def downs_def)
  then have la: "LastAttempted (nn_nodeLinks s1) = LastAttempted (nn_nodeLinks s)"
    by (simp add: acts_def status_frame_def)
  have "acts ?P s1 s2"
    using deleteUndesiredLinks_acts[OF assms(2,3)]
    by (rule acts_mono) (use getUndesiredLinks_subset[OF assms(3), of "nn_nodeLinks s1" links] la in
        \<open>auto simp: on_tracked_def downs_def dels_def\<close>)
  with 1 show ?thesis by (rule acts_trans)
qed

lemma clean_and_upsert_emits:
  assumes "clean_and_upsert E links g names s = Some (r, s')" and "nenv_ok E"
  shows "emits (on_tracked (ne_netlink E) links (LastAttempted (nn_nodeLinks s))) (nn_world s) (nn_world s')"
proof -
  let ?P = "on_tracked (ne_netlink E) links (LastAttempted (nn_nodeLinks s))"
  have dep: "emits ?P (nn_world s) (nn_world s1)"
    if "updateDependentsMissingDependencies E names links s = Some (x, s1)" for x s1
    using updateDependents_acts[OF that assms(2)] emits_mono[of _ "nn_world s" "nn_world s1" ?P]
    by (fastforce simp: acts_def on_tracked_def on_managed_def downs_def)
  have clean: "emits ?P (nn_world s) (nn_world s2)"
    if "updateDependentsMissingDependencies E names links s = Some (x, s1)" "deleteUndesiredLinks E links s1 = Some (y, s2)" for x s1 y s2
    using clean_emits[OF that assms(2)] emits_mono[of _ "nn_world s" "nn_world s2" ?P] by (fastforce simp: acts_def)
  from assms(1) show ?thesis
  proof (cases rule: clean_and_upsert_cases)
    case (dependencies e s1)
    then show ?thesis using dep[OF dependencies(1)] NodeLinks_handleError_world(1)[OF dependencies(2)] by simp
  next
    case (undesired s1 e s2)
    then show ?thesis using clean[OF undesired(1,2)] NodeLinks_handleError_world(1)[OF undesired(3)] by simp
  next
    case (unrecorded s1 s2 e s3)
    then show ?thesis using clean[OF unrecorded(1,2)] NodeLinks_handleError_world(1)[OF unrecorded(4)]
        updateLastAttemptedLinks_world[OF unrecorded(3)] by simp
  next
    case (recorded s1 s2 s3)
    have "emits ?P (nn_world s3) (nn_world s')"
      using upsert_and_report_emits[OF recorded(4) assms(2)] by (rule emits_mono) (simp add: on_tracked_def)
    then show ?thesis using clean[OF recorded(1,2)] updateLastAttemptedLinks_world[OF recorded(3)] emits_trans by fastforce
  qed
qed

subsection \<open>Reconcile\<close>

lemma getLinkResources_resource:
  assumes "getLinkResources E s = Inr links" and "get_law (ne_client E)" and "nenv_ok E"
  shows "distinct (map fst links)"
    and "(n, l) \<in> set links \<Longrightarrow> n \<in> set (MatchingLinks (nn_nodeLinks s)) \<and>
      api_GetLink (ne_client E) (store (nn_api s)) n = Inr l \<and> Link_Name l = n"
    and "n \<in> set (MatchingLinks (nn_nodeLinks s)) \<Longrightarrow> \<exists>l. (n, l) \<in> set links"
proof -
  let ?names = "pie_Unique (ne_pie E) (MatchingLinks (nn_nodeLinks s))"
  have get: "get_link_resources (ne_client E) (store (nn_api s)) ?names [] = Inr links"
    using assms(1) by (simp add: getLinkResources_def)
  show d: "distinct (map fst links)" using get_link_resources_keys[OF get] by simp
  have names: "set ?names = set (MatchingLinks (nn_nodeLinks s))" by (rule pie_Unique(2)[OF nenv_okD(3)[OF assms(3)]])
  note mo = get_link_resources_map_of[OF assms(2) get, of n, unfolded names]
  show "n \<in> set (MatchingLinks (nn_nodeLinks s)) \<and> api_GetLink (ne_client E) (store (nn_api s)) n = Inr l \<and> Link_Name l = n"
    if "(n, l) \<in> set links"
  proof -
    have "map_of links n = Some l" using d that by simp
    then show ?thesis using mo assms(2) by (auto simp: get_law_def split: if_splits)
  qed
  show "\<exists>l. (n, l) \<in> set links" if "n \<in> set (MatchingLinks (nn_nodeLinks s))"
  proof -
    from mo that obtain l where "map_of links n = Some l" by auto
    then show ?thesis by (blast dest: map_of_SomeD)
  qed
qed

text \<open>
  The calls a reconciliation may make that reads the resource \<open>x\<close> and finds the API in state \<open>a\<close>: on
  links the status of \<open>x\<close> tracks, and on links of managed Link resources that \<open>x\<close> lists.
\<close>

definition may_touch :: "('k, 'g, 'a) nenv \<Rightarrow> 'a \<Rightarrow> NodeLinks \<Rightarrow> nl_call \<Rightarrow> bool" where
  "may_touch E a x c \<longleftrightarrow>
     (\<exists>n. acts_on (ne_netlink E) n c \<and>
        (n \<in> set (LastAttempted x) \<or>
         (\<exists>r \<in> set (MatchingLinks x). \<exists>l. api_GetLink (ne_client E) a r = Inr l \<and> is_managed l \<and> LinkName l = n)))"

lemma retrieve_and_upsert_emits:
  assumes "retrieve_and_upsert E s = Some (r, s')" and "nenv_ok E" and "get_law (ne_client E)"
  shows "emits (may_touch E (store (nn_api s)) (nn_nodeLinks s)) (nn_world s) (nn_world s')"
proof (cases "getLinkResources E s")
  case (Inl e)
  then have "NodeLinks_handleError E (Some (ready_error LinkRetrievalFailed e)) e s = (r, s')"
    using assms(1) by (simp add: retrieve_and_upsert_def)
  then show ?thesis using NodeLinks_handleError_world(1) by fastforce
next
  case (Inr links)
  let ?s = "s\<lparr>nn_watched := set (pie_Map_links (ne_pie E) LinkName (pie_Values (ne_pie E) links))\<rparr>"
  let ?x = "nn_nodeLinks s"
  have run: "validate_and_plan E links ?s = Some (r, s')"
    using assms(1) Inr by (simp add: retrieve_and_upsert_def)
  have mono: "may_touch E (store (nn_api s)) ?x c" if "on_tracked (ne_netlink E) links (LastAttempted ?x) c" for c
    using that getLinkResources_resource(2)[OF Inr assms(3,2)]
    unfolding on_tracked_def on_managed_def may_touch_def by blast
  show ?thesis using run
  proof (cases rule: validate_and_plan_cases)
    case (invalid e s1)
    then show ?thesis using validateLinks_frame(1)[OF invalid(1)] NodeLinks_handleError_world(1)[OF invalid(2)] by simp
  next
    case (unplanned s1 c e)
    then show ?thesis using validateLinks_frame(1)[OF unplanned(1)] NodeLinks_handleError_world(1)[OF unplanned(2)] by simp
  next
    case (planned s1 g names)
    have "LastAttempted (nn_nodeLinks s1) = LastAttempted ?x"
      using validateLinks_tracked[OF planned(1)] by simp
    then have "emits (on_tracked (ne_netlink E) links (LastAttempted ?x)) (nn_world s1) (nn_world s')"
      using clean_and_upsert_emits[OF planned(4) assms(2)] by simp
    then have "emits (may_touch E (store (nn_api s)) ?x) (nn_world s1) (nn_world s')" by (rule emits_mono) (rule mono)
    then show ?thesis using validateLinks_frame(1)[OF planned(1)] by simp
  qed
qed

lemma add_finalizer_frame:
  "add_finalizer E s = (added, s') \<Longrightarrow>
     nn_world s' = nn_world s \<and> nn_api s' = nn_api s \<and> nk_Status (nn_nodeLinks s') = nk_Status (nn_nodeLinks s) \<and>
     nn_clusterState s' = nn_clusterState s \<and> nk_Spec (nn_nodeLinks s') = nk_Spec (nn_nodeLinks s)"
  by (auto simp: add_finalizer_def split: prod.splits)

lemma NodeLinks_handleUpsert_cases:
  assumes "NodeLinks_handleUpsert E s = Some (r, s')"
  obtains (present) s1 where "add_finalizer E s = (False, s1)" "retrieve_and_upsert E s1 = Some (r, s')"
  | (not_added) s1 e s2 where "add_finalizer E s = (True, s1)" "NodeLinks_patchResource E s1 = (Some e, s2)"
      "NodeLinks_handleError E (Some (ready_error FinalizerUpdateFailed e)) e s2 = (r, s')"
  | (added) s1 s2 where "add_finalizer E s = (True, s1)" "NodeLinks_patchResource E s1 = (None, s2)"
      "retrieve_and_upsert E s2 = Some (r, s')"
proof -
  obtain b s1 where a: "add_finalizer E s = (b, s1)" by fastforce
  obtain x s2 where p: "NodeLinks_patchResource E s1 = (x, s2)" by fastforce
  note run = assms[unfolded NodeLinks_handleUpsert_def a prod.case]
  show thesis
  proof (cases b)
    case False
    then show thesis using present[of s1] a run by simp
  next
    case b: True
    note run = run[unfolded b p if_True prod.case]
    show thesis
    proof (cases x)
      case (Some e)
      then show thesis using not_added[of s1 e s2] p a b run by simp
    next
      case None
      then show thesis using added[of s1 s2] p a b run by simp
    qed
  qed
qed

text \<open>Before the resources are read, the finalizer may be added, which changes the API only.\<close>

definition same_plan :: "('k, 'g, 'a) nenv \<Rightarrow> ('k, 'a) nstate \<Rightarrow> ('k, 'a) nstate \<Rightarrow> bool" where
  "same_plan E s t \<longleftrightarrow>
     nn_world t = nn_world s \<and> nk_Status (nn_nodeLinks t) = nk_Status (nn_nodeLinks s) \<and>
     (nodeLinksFinalizerName \<in> set (m_Finalizers (nk_Meta (nn_nodeLinks s))) \<longrightarrow>
        nn_api t = nn_api s \<and> nk_Spec (nn_nodeLinks t) = nk_Spec (nn_nodeLinks s) \<and> nn_clusterState t = nn_clusterState s)"

lemma NodeLinks_handleUpsert_plan:
  assumes "NodeLinks_handleUpsert E s = Some (r, s')" and "nenv_ok E" and "status_patch_law (ne_client E)"
  obtains (failed) "nn_world s' = nn_world s" "fst r = 0" "snd r \<noteq> None"
  | (planned) t where "same_plan E s t" "retrieve_and_upsert E t = Some (r, s')"
proof (cases rule: NodeLinks_handleUpsert_cases[OF assms(1)])
  case (1 s1)
  show thesis by (rule planned[OF _ 1(2)]) (use add_finalizer_frame[OF 1(1)] in \<open>simp add: same_plan_def\<close>)
next
  case (2 s1 e s2)
  show thesis
    by (rule failed) (use add_finalizer_frame[OF 2(1)] NodeLinks_patchResource_world[OF 2(2)]
      NodeLinks_handleError_world[OF 2(3)] in auto)
next
  case (3 s1 s2)
  have "nodeLinksFinalizerName \<notin> set (m_Finalizers (nk_Meta (nn_nodeLinks s)))"
    using 3(1) by (auto simp: add_finalizer_def k8s_simps[OF nenv_okD(2)[OF assms(2)]] split: if_splits)
  then show thesis
    by (intro planned[OF _ 3(3)]) (use add_finalizer_frame[OF 3(1)] NodeLinks_patchResource_world[OF 3(2)]
      NodeLinks_patchResource_status[OF 3(2) assms(3)] in \<open>simp add: same_plan_def\<close>)
qed

lemma NodeLinks_handleDeletion_cases:
  assumes "NodeLinks_handleDeletion E s = Some (r, s')"
  obtains (foreign) "\<not> lib_ContainsFinalizer (ne_k8s E) (m_Finalizers (nk_Meta (nn_nodeLinks s))) nodeLinksFinalizerName"
      "r = (0, None)" "s' = s"
  | (not_deleted) e s1 where "lib_ContainsFinalizer (ne_k8s E) (m_Finalizers (nk_Meta (nn_nodeLinks s))) nodeLinksFinalizerName"
      "deleteLinks E (LastAttempted (nn_nodeLinks s)) s = Some (Some e, s1)" "NodeLinks_handleError E None e s1 = (r, s')"
  | (deleted) s1 x s3 where "lib_ContainsFinalizer (ne_k8s E) (m_Finalizers (nk_Meta (nn_nodeLinks s))) nodeLinksFinalizerName"
      "deleteLinks E (LastAttempted (nn_nodeLinks s)) s = Some (None, s1)"
      "NodeLinks_patchResource E (upd_nodeLinks (\<lambda>n. n\<lparr>nk_Meta := (nk_Meta n)\<lparr>m_Finalizers :=
          lib_RemoveFinalizer (ne_k8s E) nodeLinksFinalizerName (m_Finalizers (nk_Meta n))\<rparr>\<rparr>) (s1\<lparr>nn_watched := {}\<rparr>)) = (x, s3)"
      "case x of Some e \<Rightarrow> NodeLinks_handleError E (Some (ready_error FinalizerUpdateFailed e)) e s3 = (r, s')
        | None \<Rightarrow> r = (0, None) \<and> s' = s3"
proof (cases "lib_ContainsFinalizer (ne_k8s E) (m_Finalizers (nk_Meta (nn_nodeLinks s))) nodeLinksFinalizerName")
  case False
  then show thesis using foreign assms by (simp add: NodeLinks_handleDeletion_def)
next
  case True
  with assms obtain err s1 where d: "deleteLinks E (LastAttempted (nn_nodeLinks s)) s = Some (err, s1)"
    by (auto simp: NodeLinks_handleDeletion_def bind_eq_Some_conv)
  show thesis
  proof (cases err)
    case (Some e)
    then show thesis using not_deleted[OF True] assms True d by (simp add: NodeLinks_handleDeletion_def)
  next
    case None
    obtain x s3 where p: "NodeLinks_patchResource E (upd_nodeLinks (\<lambda>n. n\<lparr>nk_Meta := (nk_Meta n)\<lparr>m_Finalizers :=
          lib_RemoveFinalizer (ne_k8s E) nodeLinksFinalizerName (m_Finalizers (nk_Meta n))\<rparr>\<rparr>) (s1\<lparr>nn_watched := {}\<rparr>)) = (x, s3)"
      by fastforce
    show thesis
      by (rule deleted[OF True d[unfolded None] p])
        (use assms True d p None in \<open>cases x; simp add: NodeLinks_handleDeletion_def Let_def\<close>)
  qed
qed

lemma NodeLinks_handleDeletion_emits:
  assumes "NodeLinks_handleDeletion E s = Some (r, s')" and "nenv_ok E"
  shows "emits (\<lambda>c. \<exists>n \<in> set (LastAttempted (nn_nodeLinks s)). downs (ne_netlink E) n c \<or> dels (ne_netlink E) n c)
    (nn_world s) (nn_world s')"
proof -
  let ?P = "\<lambda>c. \<exists>n \<in> set (LastAttempted (nn_nodeLinks s)). downs (ne_netlink E) n c \<or> dels (ne_netlink E) n c"
  have del: "emits ?P (nn_world s) (nn_world s1)" if "deleteLinks E (LastAttempted (nn_nodeLinks s)) s = Some (x, s1)" for x s1
    using deleteLinks_acts[OF that assms(2)] by (simp add: acts_def)
  from assms(1) show ?thesis
  proof (cases rule: NodeLinks_handleDeletion_cases)
    case (not_deleted e s1)
    then show ?thesis using del[OF not_deleted(2)] NodeLinks_handleError_world(1)[OF not_deleted(3)] by simp
  next
    case (deleted s1 x s3)
    have "nn_world s3 = nn_world s1" using NodeLinks_patchResource_world[OF deleted(3)] by simp
    moreover have "nn_world s' = nn_world s3"
      using deleted(4) NodeLinks_handleError_world(1)[of E _ _ s3 r s'] by (cases x) auto
    ultimately show ?thesis using del[OF deleted(2)] by simp
  qed simp
qed

end
