(* ===== verification/NodeLinks_Graph.thy ===== *)
theory NodeLinks_Graph
  imports NodeLinks_Plan
begin

text \<open>
  The dependency graph of \<open>buildDesiredLinkGraph\<close>: its vertices are the given resources, its edges the
  dependencies between them, each edge carries the reference it stands for, and the sorted names list
  every resource once, after the resources it depends on.
\<close>

definition graph_ok :: "'g graph_lib \<Rightarrow> 'g \<Rightarrow> bool" where
  "graph_ok G g \<longleftrightarrow> gr_readable G g \<and> acyclic (gr_edges G g)"

subsection \<open>The laws, one operation at a time\<close>

lemma graph_new:
  assumes "graph_laws G"
  shows "graph_ok G (gr_New G)" "gr_vertices G (gr_New G) = {}" "gr_edge G (gr_New G) u v = None"
proof -
  have new: "gr_AdjacencyMap G (gr_New G) = Inr []" using assms by (simp add: graph_laws_def graph_map_law_def)
  then have e: "gr_edge G (gr_New G) u v = None" for u v by (simp add: gr_edge_def)
  show "gr_edge G (gr_New G) u v = None" by (rule e)
  show "gr_vertices G (gr_New G) = {}" using new by (simp add: gr_vertices_def)
  have "gr_edges G (gr_New G) = {}" using e by (auto simp: gr_edges_def)
  then show "graph_ok G (gr_New G)" using new by (simp add: graph_ok_def gr_readable_def acyclic_def)
qed

lemma graph_AddVertex:
  assumes "graph_laws G" and ok: "graph_ok G g" and add: "gr_AddVertex G g v = (None, g')"
  shows "graph_ok G g'" "gr_vertices G g' = insert v (gr_vertices G g)" "gr_edge G g' = gr_edge G g"
proof -
  have "graph_vertex_law G" using assms(1) by (simp add: graph_laws_def)
  from this[unfolded graph_vertex_law_def, rule_format, OF _ add] ok
  have *: "gr_readable G g'" "gr_vertices G g' = insert v (gr_vertices G g)" "gr_edge G g' = gr_edge G g"
    by (simp_all add: graph_ok_def split: if_splits)
  then show "gr_vertices G g' = insert v (gr_vertices G g)" "gr_edge G g' = gr_edge G g" by blast+
  from * have "gr_edges G g' = gr_edges G g" by (simp add: gr_edges_def)
  then show "graph_ok G g'" using * ok by (simp add: graph_ok_def)
qed

lemma graph_AddEdge:
  assumes "graph_laws G" and ok: "graph_ok G g" and add: "gr_AddEdge G g u v (setData d) = (None, g')"
  shows "graph_ok G g'" "gr_vertices G g' = gr_vertices G g" "edge_allowed G g u v"
    "gr_edge G g' a b = (if a = u \<and> b = v
       then Some \<lparr>ed_Source = u, ed_Target = v, ed_Properties = \<lparr>ep_Data = Some d\<rparr>\<rparr> else gr_edge G g a b)"
proof -
  have "graph_edge_law G" using assms(1) by (simp add: graph_laws_def)
  from this[unfolded graph_edge_law_def, rule_format, OF _ add] ok
  have *: "edge_allowed G g u v" "gr_readable G g'" "gr_vertices G g' = gr_vertices G g"
    and e: "\<And>a b. gr_edge G g' a b = (if a = u \<and> b = v
       then Some \<lparr>ed_Source = u, ed_Target = v, ed_Properties = \<lparr>ep_Data = Some d\<rparr>\<rparr> else gr_edge G g a b)"
    by (simp_all add: graph_ok_def setData_def split: if_splits)
  show "gr_vertices G g' = gr_vertices G g" "edge_allowed G g u v" by (fact *)+
  show "gr_edge G g' a b = (if a = u \<and> b = v
       then Some \<lparr>ed_Source = u, ed_Target = v, ed_Properties = \<lparr>ep_Data = Some d\<rparr>\<rparr> else gr_edge G g a b)" by (rule e)
  have "gr_edges G g' = insert (u, v) (gr_edges G g)" using e by (auto simp: gr_edges_def)
  then show "graph_ok G g'" using *(1,2) ok by (simp add: graph_ok_def edge_allowed_def)
qed

lemma graph_sort_total:
  assumes "graph_laws G" and "graph_ok G g"
  shows "\<exists>vs. gr_TopologicalSort G g = Inr vs \<and> distinct vs \<and> set vs = gr_vertices G g \<and>
           (\<forall>i j. i < length vs \<longrightarrow> j < length vs \<longrightarrow> (vs ! i, vs ! j) \<in> gr_edges G g \<longrightarrow> i < j)"
proof -
  have "graph_sort_law G" using assms(1) by (simp add: graph_laws_def)
  from this[unfolded graph_sort_law_def, rule_format] assms(2) show ?thesis by (simp add: graph_ok_def)
qed

lemma graph_sort:
  assumes "graph_laws G" and "graph_ok G g" and "gr_TopologicalSort G g = Inr vs"
  shows "distinct vs" "set vs = gr_vertices G g"
    "i < length vs \<Longrightarrow> j < length vs \<Longrightarrow> (vs ! i, vs ! j) \<in> gr_edges G g \<Longrightarrow> i < j"
  using graph_sort_total[OF assms(1,2)] assms(3) by auto

subsection \<open>Vertices\<close>

lemma add_vertices_ok:
  assumes "graph_laws G" and "add_vertices G names g = Inr g'" and "graph_ok G g"
  shows "graph_ok G g' \<and> gr_vertices G g' = gr_vertices G g \<union> set names \<and> gr_edge G g' = gr_edge G g"
  using assms(2,3)
proof (induction names arbitrary: g)
  case Nil
  then show ?case by simp
next
  case (Cons n ns)
  from Cons.prems(1) obtain g1 where g1: "gr_AddVertex G g n = (None, g1)" "add_vertices G ns g1 = Inr g'"
    by (auto split: prod.splits option.splits)
  show ?case using Cons.IH[OF g1(2)] graph_AddVertex[OF assms(1) Cons.prems(2) g1(1)] by auto
qed

subsection \<open>Edges\<close>

text \<open>The edges of a graph carry, on each edge into \<open>v\<close>, one of the references of \<open>v\<close>.\<close>

definition carries :: "Edge \<Rightarrow> string \<Rightarrow> string \<Rightarrow> LinkReference \<Rightarrow> bool" where
  "carries e u v d \<longleftrightarrow>
     e = \<lparr>ed_Source = u, ed_Target = v, ed_Properties = \<lparr>ep_Data = Some d\<rparr>\<rparr> \<and> ref_Name d = u"

lemma add_dependencies_ok:
  assumes "graph_laws G" and "add_dependencies G links v ds g = Inr g'" and "graph_ok G g"
  shows "graph_ok G g' \<and> gr_vertices G g' = gr_vertices G g \<and>
    (\<forall>a b. b \<noteq> v \<longrightarrow> gr_edge G g' a b = gr_edge G g a b) \<and>
    (\<forall>a. (gr_edge G g' a v \<noteq> None \<longleftrightarrow> gr_edge G g a v \<noteq> None \<or> a \<in> ref_Name ` set ds \<and> map_of links a \<noteq> None)) \<and>
    (\<forall>a e. gr_edge G g' a v = Some e \<longrightarrow> gr_edge G g a v = Some e \<or> (\<exists>d \<in> set ds. carries e a v d))"
  using assms(2,3)
proof (induction ds arbitrary: g)
  case Nil
  then show ?case by simp
next
  case (Cons d ds)
  show ?case
  proof (cases "map_of links (ref_Name d)")
    case None
    then show ?thesis using Cons.IH[of g] Cons.prems by auto
  next
    case (Some l)
    with Cons.prems(1) obtain g1 where g1: "gr_AddEdge G g (ref_Name d) v (setData d) = (None, g1)"
      "add_dependencies G links v ds g1 = Inr g'"
      by (auto split: prod.splits option.splits)
    note e = graph_AddEdge[OF assms(1) Cons.prems(2) g1(1)]
    note IH = Cons.IH[OF g1(2) e(1)]
    note ok = IH[THEN conjunct1] and vs = IH[THEN conjunct2, THEN conjunct1]
      and other = IH[THEN conjunct2, THEN conjunct2, THEN conjunct1, rule_format]
      and iff = IH[THEN conjunct2, THEN conjunct2, THEN conjunct2, THEN conjunct1, rule_format]
      and data = IH[THEN conjunct2, THEN conjunct2, THEN conjunct2, THEN conjunct2, rule_format]
    have "(gr_edge G g' a v \<noteq> None \<longleftrightarrow>
        gr_edge G g a v \<noteq> None \<or> a \<in> ref_Name ` set (d # ds) \<and> map_of links a \<noteq> None)" for a
      unfolding iff[of a] e(4) using Some by simp
    moreover have "gr_edge G g a v = Some x \<or> (\<exists>d' \<in> set (d # ds). carries x a v d')"
      if "gr_edge G g' a v = Some x" for a x
      using data[OF that] unfolding e(4) by (auto simp: carries_def split: if_splits)
    moreover have "gr_edge G g' a b = gr_edge G g a b" if "b \<noteq> v" for a b
      using other[OF that, of a] that unfolding e(4) by simp
    moreover have "gr_vertices G g' = gr_vertices G g" using vs e(2) by simp
    ultimately show ?thesis using ok by (intro conjI allI impI)
  qed
qed

lemma add_dependents_ok:
  assumes "graph_laws G" and "add_dependents G links names g = Some (Inr g')" and "graph_ok G g"
    and "distinct names" and "\<And>a b. b \<in> set names \<Longrightarrow> gr_edge G g a b = None"
  shows "graph_ok G g' \<and> gr_vertices G g' = gr_vertices G g \<and>
    (\<forall>a b. b \<notin> set names \<longrightarrow> gr_edge G g' a b = gr_edge G g a b) \<and>
    (\<forall>a. \<forall>b \<in> set names. (gr_edge G g' a b \<noteq> None \<longleftrightarrow>
       (\<exists>l. map_of links b = Some l \<and> a \<in> ref_Name ` set (deps_of l) \<and> map_of links a \<noteq> None))) \<and>
    (\<forall>a e. \<forall>b \<in> set names. gr_edge G g' a b = Some e \<longrightarrow>
       (\<exists>l. map_of links b = Some l \<and> (\<exists>d \<in> set (deps_of l). carries e a b d)))"
  using assms(2-5)
proof (induction names arbitrary: g)
  case Nil
  then show ?case by simp
next
  case (Cons v names)
  from Cons.prems(1) obtain l where l: "map_of links v = Some l" by (auto simp: bind_eq_Some_conv)
  with Cons.prems(1) obtain m where m: "getLinkManager l = Inr m" by (auto split: sum.splits)
  with Cons.prems(1) l obtain ds where ds: "GetDependencies m = Some ds" by (auto simp: bind_eq_Some_conv)
  with Cons.prems(1) l m obtain g1 where g1: "add_dependencies G links v ds g = Inr g1"
    "add_dependents G links names g1 = Some (Inr g')" by (auto split: sum.splits)
  have deps: "deps_of l = ds" using m ds by (simp add: deps_of_def)
  note D = add_dependencies_ok[OF assms(1) g1(1) Cons.prems(2)]
  have none: "gr_edge G g1 a b = None" if "b \<in> set names" for a b
  proof -
    have "b \<noteq> v" using that Cons.prems(3) by auto
    then show ?thesis using D Cons.prems(4)[of b a] that by simp
  qed
  note IH = Cons.IH[OF g1(2) conjunct1[OF D] _ none]
  have IH: "graph_ok G g' \<and> gr_vertices G g' = gr_vertices G g1 \<and>
    (\<forall>a b. b \<notin> set names \<longrightarrow> gr_edge G g' a b = gr_edge G g1 a b) \<and>
    (\<forall>a. \<forall>b \<in> set names. (gr_edge G g' a b \<noteq> None \<longleftrightarrow>
       (\<exists>l. map_of links b = Some l \<and> a \<in> ref_Name ` set (deps_of l) \<and> map_of links a \<noteq> None))) \<and>
    (\<forall>a e. \<forall>b \<in> set names. gr_edge G g' a b = Some e \<longrightarrow>
       (\<exists>l. map_of links b = Some l \<and> (\<exists>d \<in> set (deps_of l). carries e a b d)))"
    using IH Cons.prems(3) by simp
  have v: "v \<notin> set names" using Cons.prems(3) by simp
  have "gr_edge G g' a v = gr_edge G g1 a v" for a using IH v by blast
  moreover have "gr_edge G g a v = None" for a using Cons.prems(4) by simp
  ultimately have "gr_edge G g' a v \<noteq> None \<longleftrightarrow> a \<in> ref_Name ` set (deps_of l) \<and> map_of links a \<noteq> None"
    and "gr_edge G g' a v = Some e \<longrightarrow> (\<exists>d \<in> set (deps_of l). carries e a v d)" for a e
    using D deps by (simp_all del: not_None_eq)
  moreover have "gr_edge G g' a b = gr_edge G g a b" if "b \<notin> set (v # names)" for a b
    using IH D that by simp
  ultimately show ?case using IH D l by (simp del: not_None_eq) 
qed

lemma buildDesiredLinkGraph_ok:
  assumes "nenv_ok E" and laws: "graph_laws (ne_graph E)" and "distinct (map fst links)"
    and build: "buildDesiredLinkGraph E links = Some (Inr g)"
  shows "graph_ok (ne_graph E) g" "gr_vertices (ne_graph E) g = fst ` set links"
    "(u, v) \<in> gr_edges (ne_graph E) g \<longleftrightarrow>
       (\<exists>l. map_of links v = Some l \<and> u \<in> ref_Name ` set (deps_of l) \<and> map_of links u \<noteq> None)"
    "gr_edge (ne_graph E) g u v = Some e \<Longrightarrow>
       \<exists>l. map_of links v = Some l \<and> (\<exists>d \<in> set (deps_of l). carries e u v d)"
proof -
  let ?G = "ne_graph E"
  let ?names = "sort (pie_Keys (ne_pie E) links)"
  from build obtain g1 where g1: "add_vertices ?G (map fst (range_map (ne_range E) RangeVertices links)) (gr_New ?G) = Inr g1"
    "add_dependents ?G links ?names g1 = Some (Inr g)"
    by (auto simp: buildDesiredLinkGraph_def split: sum.splits)
  have keys: "mset (pie_Keys (ne_pie E) links) = mset (map fst links)" by (rule pie_Keys[OF nenv_okD(3)[OF assms(1)]])
  then have set: "set ?names = fst ` set links" by (metis list.set_map set_mset_mset set_sort)
  have "distinct (pie_Keys (ne_pie E) links)" using keys assms(3) mset_eq_imp_distinct_iff by blast
  then have dist: "distinct ?names" by simp
  note new = graph_new[OF laws]
  note V = add_vertices_ok[OF laws g1(1) new(1)]
  have vs: "set (map fst (range_map (ne_range E) RangeVertices links)) = fst ` set links"
    using range_map_set[OF nenv_okD(5)[OF assms(1)] assms(3)] by simp
  have none: "gr_edge ?G g1 a b = None" for a b using V new(3) by simp
  note D = add_dependents_ok[OF laws g1(2) _ dist none]
  show "graph_ok ?G g" using D V by blast
  show "gr_vertices ?G g = fst ` set links" using D V new(2) vs by simp
  have edge: "gr_edge ?G g u v \<noteq> None \<longleftrightarrow>
       (\<exists>l. map_of links v = Some l \<and> u \<in> ref_Name ` set (deps_of l) \<and> map_of links u \<noteq> None)" for u v
  proof (cases "v \<in> set ?names")
    case True
    then show ?thesis using D V by blast
  next
    case False
    then have "gr_edge ?G g u v = None" using D V none by simp
    moreover have "map_of links v = None" using False set by (simp add: map_of_eq_None_iff)
    ultimately show ?thesis by simp
  qed
  then show "(u, v) \<in> gr_edges ?G g \<longleftrightarrow>
       (\<exists>l. map_of links v = Some l \<and> u \<in> ref_Name ` set (deps_of l) \<and> map_of links u \<noteq> None)"
    by (simp add: gr_edges_def)
  show "\<exists>l. map_of links v = Some l \<and> (\<exists>d \<in> set (deps_of l). carries e u v d)" if "gr_edge ?G g u v = Some e"
  proof -
    have "v \<in> fst ` set links" using edge[of u v] that by (force dest: map_of_SomeD)
    then show ?thesis using D V that set by blast
  qed
qed

subsection \<open>The order of reconciliation\<close>

lemma sorted_names_ok:
  assumes "nenv_ok E" and "graph_laws (ne_graph E)" and "distinct (map fst links)"
    and "buildDesiredLinkGraph E links = Some (Inr g)" and "getTopolgicallySortedLinkNames E g = Inr names"
  shows "distinct names" "set names = fst ` set links"
    "i < length names \<Longrightarrow> j < length names \<Longrightarrow> map_of links (names ! j) = Some l \<Longrightarrow>
       names ! i \<in> ref_Name ` set (deps_of l) \<Longrightarrow> i < j"
proof -
  note B = buildDesiredLinkGraph_ok[OF assms(1-4)]
  note S = graph_sort[OF assms(2) B(1) assms(5)[unfolded getTopolgicallySortedLinkNames_def]]
  show "distinct names" by (rule S(1))
  show set: "set names = fst ` set links" using S(2) B(2) by simp
  assume ij: "i < length names" "j < length names" and l: "map_of links (names ! j) = Some l"
    and dep: "names ! i \<in> ref_Name ` set (deps_of l)"
  have "names ! i \<in> fst ` set links" using ij(1) set nth_mem by blast
  then have "map_of links (names ! i) \<noteq> None" by (simp add: map_of_eq_None_iff)
  then show "i < j" using S(3)[OF ij] B(3) l dep by blast
qed

end
