(* ===== verification/NodeLinks_Outcome.thy ===== *)
theory NodeLinks_Outcome
  imports NodeLinks_Effects NodeLinks_Graph
begin

text \<open>
  What the conditions in the status say after the steps of a reconciliation: a link is reported ready
  only after its upsert succeeded, a link with a missing required dependency is reported so and is not
  upserted, and a reconciliation succeeds only when every link is ready.
\<close>

subsection \<open>Conditions that later steps keep\<close>

definition ready_ok :: "NodeLinks \<Rightarrow> string \<Rightarrow> bool" where
  "ready_ok x n \<longleftrightarrow> says (link_cond x n Ready) (condition Ready ConditionTrue ReconcileSuccessful FixedText)"

definition deps_ok :: "NodeLinks \<Rightarrow> string \<Rightarrow> bool" where
  "deps_ok x n \<longleftrightarrow>
     (case link_cond x n DependencyLinksAvailable of None \<Rightarrow> False | Some c \<Rightarrow> c_Status c = ConditionTrue)"

definition same_but_oper :: "NodeLinks \<Rightarrow> NodeLinks \<Rightarrow> bool" where
  "same_but_oper x y \<longleftrightarrow> (\<forall>n t. t \<noteq> OperationallyUp \<longrightarrow> link_cond y n t = link_cond x n t)"

lemma same_but_oper_refl [simp]: "same_but_oper x x"
  by (simp add: same_but_oper_def)

lemma same_but_oper_trans: "same_but_oper x y \<Longrightarrow> same_but_oper y z \<Longrightarrow> same_but_oper x z"
  by (simp add: same_but_oper_def)

lemma same_but_oper_ok:
  "same_but_oper x y \<Longrightarrow> ready_ok y n = ready_ok x n" "same_but_oper x y \<Longrightarrow> deps_ok y n = deps_ok x n"
  by (simp_all add: same_but_oper_def ready_ok_def deps_ok_def)

lemma set_oper_same:
  "k8s_laws L \<Longrightarrow> c_Type c = OperationallyUp \<Longrightarrow> same_but_oper x (setLinkCondition L n c x)"
  using link_cond_set(2)[of L _ n _ c x] by (auto simp: same_but_oper_def)

lemma nn_nl_do_nodeLinks: "nn_nl_do E c s = (e, s') \<Longrightarrow> nn_nodeLinks s' = nn_nodeLinks s"
  by (auto simp: nn_nl_do_def split: prod.splits)

lemma bringDownLink_same:
  assumes "bringDownLink E n s = (e, s')" and "k8s_laws (ne_k8s E)"
  shows "same_but_oper (nn_nodeLinks s) (nn_nodeLinks s')"
proof (cases "nl_LinkByName (ne_netlink E) (kern (nn_world s)) n")
  case (Inl err)
  then show ?thesis using assms by (auto simp: bringDownLink_def split: if_splits)
next
  case (Inr l)
  obtain x s1 where step: "nn_nl_do E (LinkSetDown l) s = (x, s1)" by fastforce
  show ?thesis using assms step Inr nn_nl_do_nodeLinks[OF step]
    by (auto simp: bringDownLink_def intro!: set_oper_same[OF assms(2)] split: option.splits)
qed

lemma bring_down_dependent_same:
  assumes "bring_down_dependent E links link v edge s = Some (e, s')" and "k8s_laws (ne_k8s E)"
  shows "same_but_oper (nn_nodeLinks s) (nn_nodeLinks s')"
proof -
  have down: "same_but_oper (nn_nodeLinks s) (nn_nodeLinks s1)" if "wrap_err f (bringDownLink E n s) = (x, s1)" for f n x s1
    by (rule bringDownLink_same[OF _ assms(2), of n s "fst (bringDownLink E n s)"])
      (use that in \<open>metis prod.collapse snd_conv wrap_err_simps(4)\<close>)
  show ?thesis using assms(1)
    by (auto simp: bring_down_dependent_def intro: down split: if_splits option.splits sum.splits)
qed

lemma bringDownDependents_same:
  assumes "bringDownDependents E r links g s = Some (e, s')" and "k8s_laws (ne_k8s E)"
  shows "same_but_oper (nn_nodeLinks s) (nn_nodeLinks s')"
proof -
  from assms(1) obtain l where "BFSWithEdge (gr_AdjacencyMap (ne_graph E) g) (\<lambda>v. v) (Link_Name l)
      (bring_down_dependent E links l) s = Some (e, s')"
    by (auto simp: bringDownDependents_def bind_eq_Some_conv)
  then show ?thesis
    by (rule BFSWithEdge_invariant) (auto intro: same_but_oper_trans bring_down_dependent_same[OF _ assms(2)])
qed

lemma getOperationalCondition_type: "getOperationalCondition NL k n = Some c \<Longrightarrow> c_Type c = OperationallyUp"
  by (auto simp: getOperationalCondition_def bind_eq_Some_conv split: sum.splits)

lemma upsert_finish_ok:
  assumes "upsert_finish E n s = Some (e, s')" and "k8s_laws (ne_k8s E)"
  shows "e = None" "ready_ok (nn_nodeLinks s') n" "nn_world s' = nn_world s"
    "t \<noteq> OperationallyUp \<Longrightarrow> m \<noteq> n \<or> t \<noteq> Ready \<Longrightarrow> link_cond (nn_nodeLinks s') m t = link_cond (nn_nodeLinks s) m t"
proof -
  let ?r = "condition Ready ConditionTrue ReconcileSuccessful FixedText"
  from assms(1) obtain c where c: "getOperationalCondition (ne_netlink E) (kern (nn_world s)) n = Some c"
    and e: "e = None" and s': "s' = set_link E n c (set_link E n ?r s)"
    by (auto simp: upsert_finish_def Let_def bind_eq_Some_conv)
  show "e = None" by (rule e)
  show "nn_world s' = nn_world s" by (simp add: s')
  note c = getOperationalCondition_type[OF c]
  have "says (link_cond (setLinkCondition (ne_k8s E) n ?r (nn_nodeLinks s)) n Ready) ?r"
    using link_cond_set(1)[OF assms(2), of n ?r "nn_nodeLinks s"] by simp
  then show "ready_ok (nn_nodeLinks s') n"
    using link_cond_set(2)[OF assms(2), of n n Ready c] c by (simp add: s' ready_ok_def)
  show "link_cond (nn_nodeLinks s') m t = link_cond (nn_nodeLinks s) m t"
    if "t \<noteq> OperationallyUp" "m \<noteq> n \<or> t \<noteq> Ready"
    using link_cond_set(2)[OF assms(2)] that c by (simp add: s')
qed

lemma nn_upsert_nodeLinks: "nn_upsert E m links s = Some (e, s') \<Longrightarrow> nn_nodeLinks s' = nn_nodeLinks s"
  by (auto simp: nn_upsert_def bind_eq_Some_conv)

subsection \<open>One link upserted\<close>

lemma upsertLink_ok:
  assumes "upsertLink E links g r s = Some (None, s')" and "k8s_laws (ne_k8s E)"
  shows "\<exists>l. map_of links r = Some l \<and> deps_ok (nn_nodeLinks s) (LinkName l) \<and> ready_ok (nn_nodeLinks s') (LinkName l) \<and>
    (\<forall>n t. t \<noteq> OperationallyUp \<longrightarrow> n \<noteq> LinkName l \<or> t \<noteq> Ready \<longrightarrow>
       link_cond (nn_nodeLinks s') n t = link_cond (nn_nodeLinks s) n t)"
proof -
  have dep: "deps_ok (nn_nodeLinks s) n"
    if "NetlinkLinkConditions (nn_nodeLinks s) n = Some cs" "lib_IsStatusConditionTrue (ne_k8s E) cs DependencyLinksAvailable" for n cs
    using that k8s_condition(3)[OF assms(2)] by (simp add: deps_ok_def link_cond_def)
  from assms(1) show ?thesis
  proof (cases rule: upsertLink_cases)
    case (settled l m cs)
    note f = upsert_finish_ok[OF settled(6) assms(2)]
    show ?thesis using settled(1) dep[OF settled(3,4)] f(2,4) by blast
  next
    case (needed l m cs)
    from needed(6) obtain s1 s2 where run: "bringDownDependents E r links g s = Some (None, s1)"
      "nn_upsert E m links s1 = Some (None, s2)" "upsert_finish E (LinkName l) s2 = Some (None, s')"
      by (cases rule: upsert_needed_link_cases) auto
    note f = upsert_finish_ok[OF run(3) assms(2)]
    have "same_but_oper (nn_nodeLinks s) (nn_nodeLinks s2)"
      using bringDownDependents_same[OF run(1) assms(2)] nn_upsert_nodeLinks[OF run(2)] by simp
    then have "link_cond (nn_nodeLinks s') n t = link_cond (nn_nodeLinks s) n t"
      if "t \<noteq> OperationallyUp" "n \<noteq> LinkName l \<or> t \<noteq> Ready" for n t
      using f(4)[OF that] that by (simp add: same_but_oper_def)
    then show ?thesis using needed(1) dep[OF needed(3,4)] f(2) by blast
  qed auto
qed

text \<open>After a successful upsert the link is in the desired state, in the kernel of that moment, but for an MTU its device limits.\<close>

lemma upsertLink_converges:
  assumes "upsertLink E links g r s = Some (None, s')" and "netlink_laws (ne_netlink E)" and "k8s_laws (ne_k8s E)"
    and "\<And>l. map_of links r = Some l \<Longrightarrow> no_device_MTU l"
  shows "\<exists>l m. map_of links r = Some l \<and> getLinkManager l = Inr m \<and>
    IsUpsertNeeded (ne_netlink E) m (kern (nn_world s')) links = Some (Inr False)"
  using assms(1)
proof (cases rule: upsertLink_cases)
  case (settled l m cs)
  then show ?thesis using upsert_finish_ok(3)[OF settled(6) assms(3)] by auto
next
  case (needed l m cs)
  from needed(6) obtain s1 s2 where run: "bringDownDependents E r links g s = Some (None, s1)"
    "nn_upsert E m links s1 = Some (None, s2)" "upsert_finish E (LinkName l) s2 = Some (None, s')"
    by (cases rule: upsert_needed_link_cases) auto
  from run(2) obtain w where w: "Upsert (ne_netlink E) m links (nn_world s1) = Some (None, w)" "s2 = s1\<lparr>nn_world := w\<rparr>"
    by (auto simp: nn_upsert_def bind_eq_Some_conv)
  have "m = manager_of l" by (rule getLinkManager_manager_of[OF needed(2)])
  then have "IsUpsertNeeded (ne_netlink E) m (kern w) links = Some (Inr False)"
    using mgr.upsert_converges[OF assms(2) assms(4)[OF needed(1)]] w(1) by simp
  then show ?thesis using needed(1,2) upsert_finish_ok(3)[OF run(3) assms(3)] w(2) by auto
qed auto

text \<open>All links upserted: every one ready, and none of its required dependencies missing.\<close>

lemma upsert_all_ok:
  assumes "traverse (upsertLink E links g) names s = Some (errs, s')" and "\<forall>e \<in> set errs. e = None"
    and "k8s_laws (ne_k8s E)"
  shows "(\<forall>r \<in> set names. \<exists>l. map_of links r = Some l \<and> ready_ok (nn_nodeLinks s') (LinkName l) \<and>
      deps_ok (nn_nodeLinks s) (LinkName l)) \<and>
    (\<forall>n. link_cond (nn_nodeLinks s') n DependencyLinksAvailable = link_cond (nn_nodeLinks s) n DependencyLinksAvailable) \<and>
    (\<forall>n. ready_ok (nn_nodeLinks s) n \<longrightarrow> ready_ok (nn_nodeLinks s') n)"
  using assms(1,2)
proof (induction names arbitrary: s errs)
  case Nil
  then show ?case by simp
next
  case (Cons r rs)
  from Cons.prems(1) obtain e s1 es where step: "upsertLink E links g r s = Some (e, s1)"
    and rest: "traverse (upsertLink E links g) rs s1 = Some (es, s')" and errs: "errs = e # es"
    by (rule traverse_Cons_SomeE)
  have e: "upsertLink E links g r s = Some (None, s1)" using step errs Cons.prems(2) by simp
  from upsertLink_ok[OF e assms(3)] obtain l where l: "map_of links r = Some l"
    "deps_ok (nn_nodeLinks s) (LinkName l)" "ready_ok (nn_nodeLinks s1) (LinkName l)"
    and keep: "\<And>n t. t \<noteq> OperationallyUp \<Longrightarrow> n \<noteq> LinkName l \<or> t \<noteq> Ready \<Longrightarrow>
       link_cond (nn_nodeLinks s1) n t = link_cond (nn_nodeLinks s) n t" by blast
  have IH: "(\<forall>r \<in> set rs. \<exists>l. map_of links r = Some l \<and> ready_ok (nn_nodeLinks s') (LinkName l) \<and>
      deps_ok (nn_nodeLinks s1) (LinkName l)) \<and>
    (\<forall>n. link_cond (nn_nodeLinks s') n DependencyLinksAvailable = link_cond (nn_nodeLinks s1) n DependencyLinksAvailable) \<and>
    (\<forall>n. ready_ok (nn_nodeLinks s1) n \<longrightarrow> ready_ok (nn_nodeLinks s') n)"
    by (rule Cons.IH[OF rest]) (use Cons.prems(2) errs in simp)
  have deps: "link_cond (nn_nodeLinks s1) n DependencyLinksAvailable = link_cond (nn_nodeLinks s) n DependencyLinksAvailable" for n
    by (rule keep) simp_all
  have "ready_ok (nn_nodeLinks s1) n" if "ready_ok (nn_nodeLinks s) n" for n
    using that l(3) keep[of Ready n] by (cases "n = LinkName l") (simp_all add: ready_ok_def)
  moreover have "deps_ok (nn_nodeLinks s1) n = deps_ok (nn_nodeLinks s) n" for n
    using deps[of n] by (simp add: deps_ok_def)
  ultimately show ?case using IH l deps by simp
qed

subsection \<open>Missing dependencies\<close>

definition no_missing :: "link_map \<Rightarrow> Link \<Rightarrow> bool" where
  "no_missing links l \<longleftrightarrow> (\<forall>d \<in> set (deps_of l). ref_Optional d \<or> map_of links (ref_Name d) \<noteq> None)"

lemma missing_Nil_iff:
  assumes "pie_laws (ne_pie E)" and "getLinkManager l = Inr m" and "GetDependencies m = Some ds"
  shows "missingRequiredDependencyNames E links ds = [] \<longleftrightarrow> no_missing links l"
proof -
  have "deps_of l = ds" using assms(2,3) by (simp add: deps_of_def)
  then show ?thesis
    by (auto simp: missingRequiredDependencyNames_def requiredLinkReferences_def pie_simps[OF assms(1)]
        no_missing_def filter_empty_conv)
qed

lemma set_deps_ok:
  assumes "k8s_laws L" and "c_Type c = DependencyLinksAvailable"
  shows "deps_ok (setLinkCondition L n c x) n \<longleftrightarrow> c_Status c = ConditionTrue"
  using link_cond_set(1)[OF assms(1), of n c x] assms(2) by (auto simp: deps_ok_def says_def split: option.splits)

lemma update_dependent_deps:
  assumes "update_dependent E links r s = Some (None, s')" and "k8s_laws (ne_k8s E)" and "pie_laws (ne_pie E)"
  shows "\<exists>l. map_of links r = Some l \<and> (deps_ok (nn_nodeLinks s') (LinkName l) \<longleftrightarrow> no_missing links l) \<and>
    (\<forall>n t. n \<noteq> LinkName l \<longrightarrow> t \<noteq> OperationallyUp \<longrightarrow> link_cond (nn_nodeLinks s') n t = link_cond (nn_nodeLinks s) n t)"
proof -
  from assms(1) obtain l where l: "map_of links r = Some l" by (auto simp: update_dependent_def bind_eq_Some_conv)
  with assms(1) obtain m where m: "getLinkManager l = Inr m" by (auto simp: update_dependent_def split: sum.splits)
  with assms(1) l obtain ds where ds: "GetDependencies m = Some ds" by (auto simp: update_dependent_def bind_eq_Some_conv)
  note miss = missing_Nil_iff[OF assms(3) m ds, of links]
  note run = assms(1)[unfolded update_dependent_def l option.simps bind.simps m sum.simps ds Let_def]
  show ?thesis
  proof (cases "missingRequiredDependencyNames E links ds = []")
    case True
    have s': "nn_nodeLinks s' = setLinkCondition (ne_k8s E) (LinkName l)
        (condition DependencyLinksAvailable ConditionTrue AllDependencyLinksAvailable
           (WithNames (pie_Map_refs (ne_pie E) ref_Name (requiredLinkReferences E ds))))
        (setLinkCondition (ne_k8s E) (LinkName l) (condition Ready ConditionUnknown AllDependencyLinksAvailable FixedText) (nn_nodeLinks s))"
      using run True by auto
    have "deps_ok (nn_nodeLinks s') (LinkName l)" unfolding s' by (subst set_deps_ok[OF assms(2)]) simp_all
    then show ?thesis using l miss True link_cond_set(2)[OF assms(2)] by (simp add: s')
  next
    case False
    obtain y where down: "same_but_oper (nn_nodeLinks s) y"
      and s': "nn_nodeLinks s' = setLinkCondition (ne_k8s E) (LinkName l)
        (condition DependencyLinksAvailable ConditionFalse MissingDependencyLinks (WithNames (missingRequiredDependencyNames E links ds)))
        (setLinkCondition (ne_k8s E) (LinkName l) (condition Ready ConditionFalse MissingDependencyLinks FixedText) y)"
    proof (cases "IsManaged m")
      case True
      obtain x s1 where b: "bringDownLink E (LinkName l) (s\<lparr>nn_allDependenciesExist := False\<rparr>) = (x, s1)" by fastforce
      show thesis
        using that[of "nn_nodeLinks s1"] bringDownLink_same[OF b assms(2)] run False True b by (auto split: option.splits)
    next
      case unmanaged: False
      show thesis using that[of "nn_nodeLinks s"] run False unmanaged by auto
    qed
    have "\<not> deps_ok (nn_nodeLinks s') (LinkName l)" unfolding s' by (subst set_deps_ok[OF assms(2)]) simp_all
    then show ?thesis using l miss False link_cond_set(2)[OF assms(2)] down by (simp add: s' same_but_oper_def)
  qed
qed

text \<open>When no two resources share an interface name, every link is marked by its own dependencies.\<close>

definition distinct_interfaces :: "link_map \<Rightarrow> bool" where
  "distinct_interfaces links \<longleftrightarrow>
     (\<forall>n l n' l'. map_of links n = Some l \<longrightarrow> map_of links n' = Some l' \<longrightarrow> LinkName l = LinkName l' \<longrightarrow> n = n')"

lemma update_dependents_deps:
  assumes "traverse (update_dependent E links) names s = Some (errs, s')" and "\<forall>e \<in> set errs. e = None"
    and "distinct names" and "distinct_interfaces links" and "k8s_laws (ne_k8s E)" and "pie_laws (ne_pie E)"
  shows "\<forall>r \<in> set names. \<exists>l. map_of links r = Some l \<and> (deps_ok (nn_nodeLinks s') (LinkName l) \<longleftrightarrow> no_missing links l)"
    and "\<And>n l. map_of links n = Some l \<Longrightarrow> n \<notin> set names \<Longrightarrow>
      deps_ok (nn_nodeLinks s') (LinkName l) = deps_ok (nn_nodeLinks s) (LinkName l)"
proof -
  have "(\<forall>r \<in> set names. \<exists>l. map_of links r = Some l \<and> (deps_ok (nn_nodeLinks s') (LinkName l) \<longleftrightarrow> no_missing links l)) \<and>
    (\<forall>n l. map_of links n = Some l \<longrightarrow> n \<notin> set names \<longrightarrow>
      deps_ok (nn_nodeLinks s') (LinkName l) = deps_ok (nn_nodeLinks s) (LinkName l))"
    using assms(1,2,3)
  proof (induction names arbitrary: s errs)
    case Nil
    then show ?case by simp
  next
    case (Cons r rs)
    from Cons.prems(1) obtain e s1 es where step: "update_dependent E links r s = Some (e, s1)"
      and rest: "traverse (update_dependent E links) rs s1 = Some (es, s')" and errs: "errs = e # es"
      by (rule traverse_Cons_SomeE)
    have e: "update_dependent E links r s = Some (None, s1)" using step errs Cons.prems(2) by simp
    from update_dependent_deps[OF e assms(5,6)] obtain l where l: "map_of links r = Some l"
      "deps_ok (nn_nodeLinks s1) (LinkName l) \<longleftrightarrow> no_missing links l"
      and keep: "\<And>n t. n \<noteq> LinkName l \<Longrightarrow> t \<noteq> OperationallyUp \<Longrightarrow> link_cond (nn_nodeLinks s1) n t = link_cond (nn_nodeLinks s) n t"
      by blast
    have IH: "(\<forall>r \<in> set rs. \<exists>l. map_of links r = Some l \<and> (deps_ok (nn_nodeLinks s') (LinkName l) \<longleftrightarrow> no_missing links l)) \<and>
      (\<forall>n l. map_of links n = Some l \<longrightarrow> n \<notin> set rs \<longrightarrow>
        deps_ok (nn_nodeLinks s') (LinkName l) = deps_ok (nn_nodeLinks s1) (LinkName l))"
      by (rule Cons.IH[OF rest]) (use Cons.prems(2,3) errs in simp_all)
    have "deps_ok (nn_nodeLinks s1) (LinkName l') = deps_ok (nn_nodeLinks s) (LinkName l')"
      if "map_of links n = Some l'" "n \<noteq> r" for n l'
    proof -
      have "LinkName l' \<noteq> LinkName l" using assms(4) that l(1) unfolding distinct_interfaces_def by blast
      then show ?thesis using keep[of "LinkName l'" DependencyLinksAvailable] by (simp add: deps_ok_def)
    qed
    moreover have "r \<notin> set rs" using Cons.prems(3) by simp
    ultimately show ?case using IH l by simp
  qed
  then show "\<forall>r \<in> set names. \<exists>l. map_of links r = Some l \<and> (deps_ok (nn_nodeLinks s') (LinkName l) \<longleftrightarrow> no_missing links l)"
    and "\<And>n l. map_of links n = Some l \<Longrightarrow> n \<notin> set names \<Longrightarrow>
      deps_ok (nn_nodeLinks s') (LinkName l) = deps_ok (nn_nodeLinks s) (LinkName l)" by blast+
qed

text \<open>Deleting undesired links marks no link as having its dependencies.\<close>

definition deps_mono :: "NodeLinks \<Rightarrow> NodeLinks \<Rightarrow> bool" where
  "deps_mono x y \<longleftrightarrow> (\<forall>n. deps_ok y n \<longrightarrow> deps_ok x n)"

lemma deps_mono_refl [simp]: "deps_mono x x"
  by (simp add: deps_mono_def)

lemma deps_mono_trans: "deps_mono x y \<Longrightarrow> deps_mono y z \<Longrightarrow> deps_mono x z"
  by (simp add: deps_mono_def)

lemma deps_mono_set:
  assumes "k8s_laws L" and "c_Type c \<noteq> DependencyLinksAvailable"
  shows "deps_mono x (setLinkCondition L n c x)"
  using link_cond_set(2)[OF assms(1)] assms(2) by (simp add: deps_mono_def deps_ok_def)

lemma deps_mono_forget: "deps_mono x (forget_link n x)"
  by (auto simp: deps_mono_def deps_ok_def link_cond_def forget_link_def)

lemma same_but_oper_mono: "same_but_oper x y \<Longrightarrow> deps_mono x y"
  by (simp add: deps_mono_def same_but_oper_ok)

lemma delete_bring_down_mono:
  assumes "delete_bring_down E n s = Some (e, s')" and "k8s_laws (ne_k8s E)"
  shows "deps_mono (nn_nodeLinks s) (nn_nodeLinks s')"
proof -
  obtain x s1 where b: "bringDownLink E n s = (x, s1)" by fastforce
  have "deps_mono (nn_nodeLinks s) (nn_nodeLinks s1)"
    by (rule same_but_oper_mono[OF bringDownLink_same[OF b assms(2)]])
  moreover have "deps_mono (nn_nodeLinks s1) (nn_nodeLinks s')"
    using assms(1) b by (cases x) (auto simp: delete_bring_down_def intro!: deps_mono_set[OF assms(2)])
  ultimately show ?thesis by (rule deps_mono_trans)
qed

lemma delete_delete_mono:
  assumes "delete_delete E n s = Some (e, s')" and "k8s_laws (ne_k8s E)"
  shows "deps_mono (nn_nodeLinks s) (nn_nodeLinks s')"
proof -
  obtain x s1 where d: "deleteLink E n s = (x, s1)" by fastforce
  then have "nn_nodeLinks s1 = nn_nodeLinks s"
    by (auto simp: deleteLink_def dest: nn_nl_do_nodeLinks split: sum.splits if_splits prod.splits option.splits)
  then show ?thesis
    using assms(1) d by (cases x) (auto simp: delete_delete_def intro!: deps_mono_set[OF assms(2)] deps_mono_forget)
qed

lemma deleteUndesiredLinks_mono:
  assumes "deleteUndesiredLinks E links s = Some (None, s')" and "nenv_ok E"
  shows "deps_mono (nn_nodeLinks s) (nn_nodeLinks s')"
proof -
  note k8s = nenv_okD(2)[OF assms(2)]
  have down: "deps_mono (nn_nodeLinks s) (nn_nodeLinks s1)" if "traverse (delete_bring_down E) names s = Some (errs, s1)" for names errs s1
    by (rule traverse_invariant[OF that, where I = "\<lambda>t. deps_mono (nn_nodeLinks s) (nn_nodeLinks t)"])
      (auto intro: deps_mono_trans delete_bring_down_mono[OF _ k8s])
  have del: "deps_mono (nn_nodeLinks s1) (nn_nodeLinks s2)" if "traverse (delete_delete E) names s1 = Some (errs, s2)" for names errs s1 s2
    by (rule traverse_invariant[OF that, where I = "\<lambda>t. deps_mono (nn_nodeLinks s1) (nn_nodeLinks t)"])
      (auto intro: deps_mono_trans delete_delete_mono[OF _ k8s])
  from assms show ?thesis unfolding deleteUndesiredLinks_def
    by (elim deleteLinks_cases) (auto intro: deps_mono_trans[OF down del])
qed

subsection \<open>A successful reconciliation\<close>

lemma upsertLinks_ok:
  assumes "upsertLinks E names links g s = Some (None, s')" and "nenv_ok E"
  shows "(\<forall>r \<in> set names. \<exists>l. map_of links r = Some l \<and> ready_ok (nn_nodeLinks s') (LinkName l) \<and>
      deps_ok (nn_nodeLinks s) (LinkName l) \<and> deps_ok (nn_nodeLinks s') (LinkName l))"
proof -
  note pie = nenv_okD(4)[OF assms(2)]
  from assms(1) obtain errs s1 where 1: "traverse (upsertLink E links g) names s = Some (errs, s1)"
    by (auto simp: upsertLinks_def pie bind_eq_Some_conv)
  with assms(1) have "\<forall>e \<in> set errs. e = None" "s' = s1"
    by (auto simp: upsertLinks_def pie split: option.splits)
  from upsert_all_ok[OF 1 this(1) nenv_okD(2)[OF assms(2)]] this(2) show ?thesis
    by (fastforce simp: deps_ok_def)
qed

lemma clean_and_upsert_success:
  assumes run: "clean_and_upsert E links g names s = Some ((d, None), s')" and ok: "nenv_ok E"
    and law: "status_patch_law (ne_client E)" and dist: "distinct names"
  shows "d = ne_ResyncInterval E \<and> nn_clusterState s' = nn_nodeLinks s' \<and>
    says (cond_of Ready (ns_Conditions (nk_Status (nn_nodeLinks s')))) (condition Ready ConditionTrue ReconcileSuccessful NoMessage) \<and>
    (\<forall>r \<in> set names. \<exists>l. map_of links r = Some l \<and> ready_ok (nn_nodeLinks s') (LinkName l) \<and>
      deps_ok (nn_nodeLinks s') (LinkName l) \<and> (distinct_interfaces links \<longrightarrow> no_missing links l))"
proof -
  note k8s = nenv_okD(2)[OF ok] and pie = nenv_okD(4)[OF ok]
  from run obtain s1 s2 s3 where 1: "updateDependentsMissingDependencies E names links s = Some (None, s1)"
    and 2: "deleteUndesiredLinks E links s1 = Some (None, s2)"
    and 3: "updateLastAttemptedLinks E links (set_resource E (condition Ready ConditionUnknown ReadyForUpsert FixedText) s2) = Some (None, s3)"
    and 4: "upsert_and_report E links g names s3 = Some ((d, None), s')"
    by (cases rule: clean_and_upsert_cases) (auto dest: NodeLinks_handleError_world(3))
  from 4 obtain s4 where up: "upsertLinks E names links g s3 = Some (None, s4)"
    and patch: "NodeLinks_patchResource E (set_resource E (condition Ready ConditionTrue ReconcileSuccessful NoMessage) s4) = (None, s')"
    and d: "d = ne_ResyncInterval E"
    by (cases rule: upsert_and_report_cases) (auto dest: NodeLinks_handleError_world(3))
  have status: "nk_Status (nn_nodeLinks s') = nk_Status (set_NodeLinks_condition (ne_k8s E) (condition Ready ConditionTrue ReconcileSuccessful NoMessage) (nn_nodeLinks s4))"
    using NodeLinks_patchResource_status[OF patch law] by simp
  have conds: "link_cond (nn_nodeLinks s') n t = link_cond (nn_nodeLinks s4) n t" for n t
    unfolding link_cond_def status by (simp add: frame_simps)
  have "says (cond_of Ready (ns_Conditions (nk_Status (nn_nodeLinks s')))) (condition Ready ConditionTrue ReconcileSuccessful NoMessage)"
    unfolding status using resource_cond_set(1)[OF k8s, of "condition Ready ConditionTrue ReconcileSuccessful NoMessage"] by simp
  moreover have "nn_clusterState s' = nn_nodeLinks s'" by (rule NodeLinks_patchResource_synced[OF patch])
  moreover have "no_missing links l" if "r \<in> set names" "map_of links r = Some l" "deps_ok (nn_nodeLinks s3) (LinkName l)"
    "distinct_interfaces links" for r l
  proof -
    from 1 obtain errs t where tr: "traverse (update_dependent E links) names (s\<lparr>nn_allDependenciesExist := True\<rparr>) = Some (errs, t)"
      by (auto simp: updateDependentsMissingDependencies_def pie bind_eq_Some_conv)
    with 1 have none: "\<forall>e \<in> set errs. e = None" and s1: "\<And>n t'. link_cond (nn_nodeLinks s1) n t' = link_cond (nn_nodeLinks t) n t'"
      by (auto simp: updateDependentsMissingDependencies_def pie frame_simps split: option.splits if_splits)
    have "deps_ok (nn_nodeLinks s2) (LinkName l)"
    proof -
      from 3 have "nk_Status (nn_nodeLinks s3) = (nk_Status (set_NodeLinks_condition (ne_k8s E)
          (condition Ready ConditionUnknown ReadyForUpsert FixedText) (nn_nodeLinks s2)))\<lparr>ns_LastAttemptedNetlinkLinks :=
            managed_names (range_map (ne_range E) RangeLastAttempted links)\<rparr>"
        by (cases rule: updateLastAttemptedLinks_cases) (auto dest: NodeLinks_patchResource_status[OF _ law])
      then have "link_cond (nn_nodeLinks s3) n t' = link_cond (nn_nodeLinks s2) n t'" for n t'
        by (simp add: link_cond_def frame_simps)
      then show ?thesis using that(3) by (simp add: deps_ok_def)
    qed
    then have "deps_ok (nn_nodeLinks s1) (LinkName l)"
      using deleteUndesiredLinks_mono[OF 2 ok] by (simp add: deps_mono_def)
    then have "deps_ok (nn_nodeLinks t) (LinkName l)" using s1 by (simp add: deps_ok_def)
    then show ?thesis
      using update_dependents_deps(1)[OF tr none dist that(4) k8s nenv_okD(3)[OF ok]] that(1,2) by auto
  qed
  ultimately show ?thesis using d upsertLinks_ok[OF up ok] conds unfolding ready_ok_def deps_ok_def by fastforce
qed

end
