(* ===== verification/NodeLinks_Repeat.thy ===== *)
theory NodeLinks_Repeat
  imports NodeLinks_Outcome
begin

text \<open>
  What a reconciliation achieves and that it then stays away from the node: the links of a deleted
  NodeLinks resource are gone, a reconciliation that succeeds reports every link, and one that finds
  the node in the desired state makes no netlink call.
\<close>

subsection \<open>Deleted links are gone\<close>

definition absent :: "'k netlink \<Rightarrow> 'k \<Rightarrow> string \<Rightarrow> bool" where
  "absent NL k n \<longleftrightarrow> (\<exists>e. nl_LinkByName NL k n = Inl e \<and> IsLinkNotFoundError e)"

text \<open>Only the creation of a link makes a name appear.\<close>

definition absent_law :: "'k netlink \<Rightarrow> bool" where
  "absent_law NL \<longleftrightarrow>
     (\<forall>k n c k'. absent NL k n \<longrightarrow> nl_exec NL k c = (None, k') \<longrightarrow> (\<forall>l. c \<noteq> LinkAdd l) \<longrightarrow> absent NL k' n)"

lemma deleteLink_gone:
  assumes "deleteLink E n s = (None, s')" and "netlink_laws (ne_netlink E)" and "absent_law (ne_netlink E)"
  shows "absent (ne_netlink E) (kern (nn_world s')) n"
    and "absent (ne_netlink E) (kern (nn_world s)) m \<Longrightarrow> absent (ne_netlink E) (kern (nn_world s')) m"
proof -
  have "absent (ne_netlink E) (kern (nn_world s')) n \<and>
    (absent (ne_netlink E) (kern (nn_world s)) m \<longrightarrow> absent (ne_netlink E) (kern (nn_world s')) m)"
  proof (cases "nl_LinkByName (ne_netlink E) (kern (nn_world s)) n")
    case (Inl err)
    then show ?thesis using assms(1) by (auto simp: deleteLink_def absent_def split: if_splits)
  next
    case (Inr l)
    obtain x s1 where step: "nn_nl_do E (LinkDel l) s = (x, s1)" by fastforce
    with assms(1) Inr have x: "x = None" "s' = s1" by (auto simp: deleteLink_def split: option.splits)
    obtain w where "nl_do (ne_netlink E) (LinkDel l) (nn_world s) = (None, w)" "nn_world s' = w"
      using step x by (auto simp: nn_nl_do_def split: prod.splits)
    then have ex: "nl_exec (ne_netlink E) (kern (nn_world s)) (LinkDel l) = (None, kern (nn_world s'))"
      by (simp add: nl_do_eqD)
    have "absent (ne_netlink E) (kern (nn_world s')) n"
      using law_deleted[OF assms(2) Inr ex] by (auto simp: absent_def)
    moreover have "absent (ne_netlink E) (kern (nn_world s')) m" if "absent (ne_netlink E) (kern (nn_world s)) m"
      using assms(3)[unfolded absent_law_def, rule_format, OF that ex] by simp
    ultimately show ?thesis by blast
  qed
  then show "absent (ne_netlink E) (kern (nn_world s')) n"
    and "absent (ne_netlink E) (kern (nn_world s)) m \<Longrightarrow> absent (ne_netlink E) (kern (nn_world s')) m" by blast+
qed

lemma delete_delete_gone:
  assumes "delete_delete E n s = Some (None, s')" and "netlink_laws (ne_netlink E)" and "absent_law (ne_netlink E)"
  shows "absent (ne_netlink E) (kern (nn_world s')) n"
    and "absent (ne_netlink E) (kern (nn_world s)) m \<Longrightarrow> absent (ne_netlink E) (kern (nn_world s')) m"
proof -
  obtain x s1 where d: "deleteLink E n s = (x, s1)" by fastforce
  with assms(1) have "x = None" "nn_world s' = nn_world s1" by (auto simp: delete_delete_def split: option.splits)
  then show "absent (ne_netlink E) (kern (nn_world s')) n"
    and "absent (ne_netlink E) (kern (nn_world s)) m \<Longrightarrow> absent (ne_netlink E) (kern (nn_world s')) m"
    using deleteLink_gone[OF _ assms(2,3), of n s s1] d by simp_all
qed

lemma delete_all_gone:
  assumes "traverse (delete_delete E) names s = Some (errs, s')" and "\<forall>e \<in> set errs. e = None"
    and "netlink_laws (ne_netlink E)" and "absent_law (ne_netlink E)"
  shows "(\<forall>n \<in> set names. absent (ne_netlink E) (kern (nn_world s')) n) \<and>
    (\<forall>m. absent (ne_netlink E) (kern (nn_world s)) m \<longrightarrow> absent (ne_netlink E) (kern (nn_world s')) m)"
  using assms(1,2)
proof (induction names arbitrary: s errs)
  case Nil
  then show ?case by simp
next
  case (Cons n ns)
  from Cons.prems(1) obtain e s1 es where step: "delete_delete E n s = Some (e, s1)"
    and rest: "traverse (delete_delete E) ns s1 = Some (es, s')" and errs: "errs = e # es"
    by (rule traverse_Cons_SomeE)
  have "delete_delete E n s = Some (None, s1)" using step errs Cons.prems(2) by simp
  note g = delete_delete_gone[OF this assms(3,4)]
  have "(\<forall>n \<in> set ns. absent (ne_netlink E) (kern (nn_world s')) n) \<and>
    (\<forall>m. absent (ne_netlink E) (kern (nn_world s1)) m \<longrightarrow> absent (ne_netlink E) (kern (nn_world s')) m)"
    by (rule Cons.IH[OF rest]) (use Cons.prems(2) errs in simp)
  then show ?case using g by auto
qed

lemma deleteLinks_gone:
  assumes "deleteLinks E names s = Some (None, s')" and "nenv_ok E"
    and "netlink_laws (ne_netlink E)" and "absent_law (ne_netlink E)" and "n \<in> set names"
  shows "absent (ne_netlink E) (kern (nn_world s')) n"
  using assms(1,2)
proof (cases rule: deleteLinks_cases)
  case (deleted errs s1 errs2)
  then have "\<forall>e \<in> set errs2. e = None" by simp
  from delete_all_gone[OF deleted(3) this assms(3,4)] assms(5) show ?thesis by blast
qed simp_all

subsection \<open>Success, from the retrieved resources on\<close>

lemma retrieve_and_upsert_success:
  assumes run: "retrieve_and_upsert E s = Some ((d, None), s')" and ok: "nenv_ok E"
    and get: "get_law (ne_client E)" and law: "status_patch_law (ne_client E)" and graph: "graph_laws (ne_graph E)"
  shows "\<exists>links. getLinkResources E s = Inr links \<and> valid_links links \<and> d = ne_ResyncInterval E \<and>
    nn_clusterState s' = nn_nodeLinks s' \<and>
    says (cond_of Ready (ns_Conditions (nk_Status (nn_nodeLinks s')))) (condition Ready ConditionTrue ReconcileSuccessful NoMessage) \<and>
    (\<forall>(r, l) \<in> set links. ready_ok (nn_nodeLinks s') (LinkName l) \<and> deps_ok (nn_nodeLinks s') (LinkName l) \<and>
      (distinct_interfaces links \<longrightarrow> no_missing links l))"
proof (cases "getLinkResources E s")
  case (Inl e)
  then have "NodeLinks_handleError E (Some (ready_error LinkRetrievalFailed e)) e s = ((d, None), s')"
    using run by (simp add: retrieve_and_upsert_def)
  then show ?thesis using NodeLinks_handleError_world(3) by fastforce
next
  case (Inr links)
  let ?s = "s\<lparr>nn_watched := set (pie_Map_links (ne_pie E) LinkName (pie_Values (ne_pie E) links))\<rparr>"
  note dist = getLinkResources_resource(1)[OF Inr get ok]
  from run Inr have "validate_and_plan E links ?s = Some ((d, None), s')" by (simp add: retrieve_and_upsert_def)
  then obtain s1 g names where v: "validateLinks E links ?s = Some (None, s1)"
    and b: "buildDesiredLinkGraph E links = Some (Inr g)" and t: "getTopolgicallySortedLinkNames E g = Inr names"
    and c: "clean_and_upsert E links g names s1 = Some ((d, None), s')"
    by (cases rule: validate_and_plan_cases) (auto dest: NodeLinks_handleError_world(3))
  note S = sorted_names_ok(1,2)[OF ok graph dist b t]
  have "valid_links links" using validateLinks_ok_iff[OF ok dist v] by simp
  moreover have "map_of links r = Some l" if "(r, l) \<in> set links" for r l using dist that by simp
  moreover have "r \<in> set names" if "(r, l) \<in> set links" for r l using S(2) that by force
  ultimately show ?thesis using clean_and_upsert_success[OF c ok law S(1)] Inr by fastforce
qed

subsection \<open>A node in the desired state is left alone\<close>

lemma update_dependent_settled:
  assumes "update_dependent E links r s = Some (e, s')" and "pie_laws (ne_pie E)"
    and "\<And>l. map_of links r = Some l \<Longrightarrow> no_missing links l"
  shows "nn_world s' = nn_world s"
proof -
  from assms(1) obtain l where l: "map_of links r = Some l" by (auto simp: update_dependent_def bind_eq_Some_conv)
  show ?thesis
  proof (cases "getLinkManager l")
    case (Inl err)
    then show ?thesis using assms(1) l by (simp add: update_dependent_def)
  next
    case (Inr m)
    with assms(1) l obtain ds where ds: "GetDependencies m = Some ds" by (auto simp: update_dependent_def bind_eq_Some_conv)
    have "missingRequiredDependencyNames E links ds = []"
      using missing_Nil_iff[OF assms(2) Inr ds] assms(3)[OF l] by simp
    then show ?thesis using assms(1) l Inr ds by (auto simp: update_dependent_def Let_def)
  qed
qed

lemma upsertLink_settled:
  assumes "upsertLink E links g r s = Some (e, s')" and "k8s_laws (ne_k8s E)"
    and "\<And>l. map_of links r = Some l \<Longrightarrow> IsUpsertNeeded (ne_netlink E) (manager_of l) (kern (nn_world s)) links = Some (Inr False)"
  shows "nn_world s' = nn_world s"
  using assms(1)
proof (cases rule: upsertLink_cases)
  case (settled l m cs)
  then show ?thesis using upsert_finish_ok(3)[OF settled(6) assms(2)] by simp
next
  case (needed l m cs)
  then show ?thesis using assms(3)[OF needed(1)] getLinkManager_manager_of[OF needed(2)] by simp
qed simp_all

lemma traverse_world:
  assumes "traverse f xs s = Some (es, t)"
    and "\<And>x u e u'. x \<in> set xs \<Longrightarrow> nn_world u = nn_world s \<Longrightarrow> f x u = Some (e, u') \<Longrightarrow> nn_world u' = nn_world u"
  shows "nn_world t = nn_world s"
  using assms
proof (induction xs arbitrary: es s)
  case Nil
  then show ?case by simp
next
  case (Cons x xs)
  from Cons.prems(1) obtain e u es' where step: "f x s = Some (e, u)" and rest: "traverse f xs u = Some (es', t)"
    by (rule traverse_Cons_SomeE)
  have u: "nn_world u = nn_world s" by (rule Cons.prems(2)[OF _ _ step]) simp_all
  have "nn_world t = nn_world u"
    by (rule Cons.IH[OF rest], erule Cons.prems(2)[rotated 2]) (use u in simp_all)
  then show ?case using u by simp
qed

lemma clean_and_upsert_settled:
  assumes run: "clean_and_upsert E links g names s = Some (r, s')" and ok: "nenv_ok E"
    and keys: "distinct (map fst links)"
    and desired: "\<And>n l. (n, l) \<in> set links \<Longrightarrow>
      no_missing links l \<and> IsUpsertNeeded (ne_netlink E) (manager_of l) (kern (nn_world s)) links = Some (Inr False)"
    and tracked: "distinct (LastAttempted (nn_nodeLinks s))" "set (LastAttempted (nn_nodeLinks s)) \<subseteq> LinkName ` snd ` set links"
  shows "nn_world s' = nn_world s"
proof -
  note k8s = nenv_okD(2)[OF ok] and pie = nenv_okD(4)[OF ok]
  have dep: "nn_world s1 = nn_world s \<and> getUndesiredLinks E (nn_nodeLinks s1) links = []"
    if 1: "updateDependentsMissingDependencies E names links s = Some (e, s1)" for e s1
  proof -
    from 1 obtain errs t where tr: "traverse (update_dependent E links) names (s\<lparr>nn_allDependenciesExist := True\<rparr>) = Some (errs, t)"
      by (auto simp: updateDependentsMissingDependencies_def pie bind_eq_Some_conv)
    have "nn_world t = nn_world (s\<lparr>nn_allDependenciesExist := True\<rparr>)"
      using tr by (rule traverse_world) (use desired map_of_SomeD update_dependent_settled[OF _ nenv_okD(3)[OF ok]] in metis)
    then have "nn_world s1 = nn_world s" using 1 tr
      by (auto simp: updateDependentsMissingDependencies_def pie split: option.splits if_splits)
    moreover have "LastAttempted (nn_nodeLinks s1) = LastAttempted (nn_nodeLinks s)"
      using updateDependents_acts[OF 1 ok] by (simp add: acts_def status_frame_def)
    then have "set (getUndesiredLinks E (nn_nodeLinks s1) links) = {}"
      using getUndesiredLinks_undesired[OF ok keys] tracked by simp
    ultimately show ?thesis by simp
  qed
  have del: "nn_world s2 = nn_world s \<and> e = None" if "updateDependentsMissingDependencies E names links s = Some (None, s1)"
    "deleteUndesiredLinks E links s1 = Some (e, s2)" for s1 e s2
    using that(2) dep[OF that(1)] by (auto simp: deleteUndesiredLinks_def deleteLinks_def pie)
  from run show ?thesis
  proof (cases rule: clean_and_upsert_cases)
    case (dependencies e s1)
    then show ?thesis using dep[OF dependencies(1)] NodeLinks_handleError_world(1)[OF dependencies(2)] by simp
  next
    case (undesired s1 e s2)
    then show ?thesis using del[OF undesired(1,2)] by simp
  next
    case (unrecorded s1 s2 e s3)
    then show ?thesis using del[OF unrecorded(1,2)] updateLastAttemptedLinks_world[OF unrecorded(3)]
        NodeLinks_handleError_world(1)[OF unrecorded(4)] by simp
  next
    case (recorded s1 s2 s3)
    have w3: "nn_world s3 = nn_world s"
      using del[OF recorded(1,2)] updateLastAttemptedLinks_world[OF recorded(3)] by simp
    have up: "nn_world s4 = nn_world s" if 4: "upsertLinks E names links g s3 = Some (e, s4)" for e s4
    proof -
      from 4 obtain errs t where tr: "traverse (upsertLink E links g) names s3 = Some (errs, t)"
        by (auto simp: upsertLinks_def pie bind_eq_Some_conv)
      have "nn_world t = nn_world s3"
        using tr by (rule traverse_world) (use desired map_of_SomeD w3 upsertLink_settled[OF _ k8s] in metis)
      then show ?thesis using 4 tr w3 by (auto simp: upsertLinks_def pie split: option.splits)
    qed
    from recorded(4) show ?thesis
    proof (cases rule: upsert_and_report_cases)
      case (failed e s4)
      then show ?thesis using up[OF failed(1)] NodeLinks_handleError_world(1)[OF failed(2)] by simp
    next
      case (unreported s4 e)
      then show ?thesis using up[OF unreported(1)] NodeLinks_patchResource_world[OF unreported(2)] by simp
    next
      case (reported s4)
      then show ?thesis using up[OF reported(1)] NodeLinks_patchResource_world[OF reported(2)] by simp
    qed
  qed
qed

lemma retrieve_and_upsert_settled:
  assumes run: "retrieve_and_upsert E s = Some (r, s')" and links: "getLinkResources E s = Inr links"
    and ok: "nenv_ok E" "get_law (ne_client E)"
    and desired: "\<And>n l. (n, l) \<in> set links \<Longrightarrow>
      no_missing links l \<and> IsUpsertNeeded (ne_netlink E) (manager_of l) (kern (nn_world s)) links = Some (Inr False)"
    and tracked: "distinct (LastAttempted (nn_nodeLinks s))" "set (LastAttempted (nn_nodeLinks s)) \<subseteq> LinkName ` snd ` set links"
  shows "nn_world s' = nn_world s"
proof -
  let ?s = "s\<lparr>nn_watched := set (pie_Map_links (ne_pie E) LinkName (pie_Values (ne_pie E) links))\<rparr>"
  note dist = getLinkResources_resource(1)[OF links ok(2,1)]
  have run: "validate_and_plan E links ?s = Some (r, s')" using run links by (simp add: retrieve_and_upsert_def)
  then show ?thesis
  proof (cases rule: validate_and_plan_cases)
    case (invalid e s1)
    then show ?thesis using validateLinks_frame(1)[OF invalid(1)] NodeLinks_handleError_world(1)[OF invalid(2)] by simp
  next
    case (unplanned s1 c e)
    then show ?thesis using validateLinks_frame(1)[OF unplanned(1)] NodeLinks_handleError_world(1)[OF unplanned(2)] by simp
  next
    case (planned s1 g names)
    have w: "nn_world s1 = nn_world s" using validateLinks_frame(1)[OF planned(1)] by simp
    have la: "LastAttempted (nn_nodeLinks s1) = LastAttempted (nn_nodeLinks s)" using validateLinks_tracked[OF planned(1)] by simp
    have "nn_world s' = nn_world s1"
      by (rule clean_and_upsert_settled[OF planned(4) ok(1) dist]) (use desired tracked w la in simp_all)
    then show ?thesis using w by simp
  qed
qed

end
