(* ===== verification/Resource_Patch.thy ===== *)
theory Resource_Patch
  imports Operator_Env
begin

text \<open>
  The interface both reconcilers have for writing their resource: \<open>patchResource\<close>, which the source
  repeats per resource type, as a locale. A client sees two copies of the resource, the one at hand
  and the one of the cluster, and the requests sent so far. \<open>lawful\<close> is what the provider assumes of the
  libraries it calls.
\<close>

locale resource_patch =
  fixes lawful :: bool
    and patch :: "'s \<Rightarrow> goerror option \<times> 's"
    and at_hand :: "'s \<Rightarrow> 'r"
    and in_cluster :: "'s \<Rightarrow> 'r"
    and status :: "'r \<Rightarrow> 'st"
    and sent :: "'s \<Rightarrow> api_call list"
  assumes keeps_status: "lawful \<Longrightarrow> patch s = (e, s') \<Longrightarrow> status (at_hand s') = status (at_hand s)"
    and synced: "patch s = (None, s') \<Longrightarrow> in_cluster s' = at_hand s'"
    and nothing_to_do: "lawful \<Longrightarrow> in_cluster s = at_hand s \<Longrightarrow> patch s = (None, s)"
    and sends_at_most_two: "lawful \<Longrightarrow> patch s = (e, s') \<Longrightarrow> \<exists>cs. sent s' = sent s @ cs \<and> length cs \<le> 2"
begin

lemma patch_again: "lawful \<Longrightarrow> patch s = (None, s') \<Longrightarrow> patch s' = (None, s')"
  by (rule nothing_to_do) (auto dest: synced)

lemma status_in_cluster: "lawful \<Longrightarrow> patch s = (None, s') \<Longrightarrow> status (in_cluster s') = status (at_hand s)"
  using keeps_status synced by metis

text \<open>What a reconciler does with an error: it joins the error of the patch to it.\<close>

definition report :: "goerror \<Rightarrow> 's \<Rightarrow> goerror option \<times> 's" where
  "report err s = (case patch s of (perr, s') \<Rightarrow> (errors_Join [Some err, perr], s'))"

lemma report_result:
  assumes "report err s = (e, s')"
  shows "e \<noteq> None"
    and "lawful \<Longrightarrow> status (at_hand s') = status (at_hand s)"
    and "lawful \<Longrightarrow> \<exists>cs. sent s' = sent s @ cs \<and> length cs \<le> 2"
proof -
  obtain perr where p: "patch s = (perr, s')" "e = errors_Join [Some err, perr]"
    using assms by (auto simp: report_def split: prod.splits)
  show "e \<noteq> None" using p(2) by (simp add: errors_Join_def)
  show "lawful \<Longrightarrow> status (at_hand s') = status (at_hand s)" by (rule keeps_status[OF _ p(1)])
  show "lawful \<Longrightarrow> \<exists>cs. sent s' = sent s @ cs \<and> length cs \<le> 2" by (rule sends_at_most_two[OF _ p(1)])
qed

end

end
