(* ===== verification/Api_Store.thy ===== *)
theory Api_Store
  imports Operator_Env
begin

text \<open>
  What the operator relies on of the API server as a store: requests answered one after the other, a
  request that returns an error changes nothing, a request changes the object it names and no other,
  the main endpoint of a Link ignores its status and the status endpoint ignores the rest, a merge
  patch replaces the list of links of a NodeLinks resource when it was changed, and a deleted object
  is gone or marked as being deleted. Then the relation between Links and NodeLinks that the
  operator keeps in that store.
\<close>

subsection \<open>Objects\<close>

abbreviation live :: "NodeLinks \<Rightarrow> bool" where
  "live x \<equiv> DeletionTimestamp_IsZero (nk_Meta x)"

abbreviation NodeLinks_Name :: "NodeLinks \<Rightarrow> string" where
  "NodeLinks_Name x \<equiv> m_Name (nk_Meta x)"

definition gone :: "'a api_client \<Rightarrow> k8s_lib \<Rightarrow> 'a \<Rightarrow> string \<Rightarrow> bool" where
  "gone C L a n \<longleftrightarrow> (\<exists>e. api_GetNodeLinks C a n = Inl e \<and> lib_IsNotFound L e)"

text \<open>The object \<open>x\<close> lists the links \<open>ms\<close> and is being deleted when \<open>old\<close> is.\<close>

definition relists :: "NodeLinks \<Rightarrow> string list \<Rightarrow> NodeLinks \<Rightarrow> bool" where
  "relists old ms x \<longleftrightarrow> MatchingLinks x = ms \<and> live x = live old"

subsection \<open>Requests on Links\<close>

definition only_link :: "'a api_client \<Rightarrow> string \<Rightarrow> 'a \<Rightarrow> 'a \<Rightarrow> bool" where
  "only_link C n a a' \<longleftrightarrow>
     api_GetNodeLinks C a' = api_GetNodeLinks C a \<and> (\<forall>m. m \<noteq> n \<longrightarrow> api_GetLink C a' m = api_GetLink C a m)"

definition link_main_law :: "'a api_client \<Rightarrow> bool" where
  "link_main_law C \<longleftrightarrow>
     (\<forall>a obj base r a'. api_PatchLink C a obj base = (r, a') \<longrightarrow> only_link C (Link_Name obj) a a' \<and>
        (case r of Inl e \<Rightarrow> api_GetLink C a' = api_GetLink C a
         | Inr resp \<Rightarrow> (\<exists>old. api_GetLink C a (Link_Name obj) = Inr old \<and> lk_Status resp = lk_Status old) \<and>
             Link_Name resp = Link_Name obj \<and> m_Finalizers (lk_Meta resp) = m_Finalizers (lk_Meta obj) \<and>
             (api_GetLink C a' (Link_Name obj) = Inr resp \<or> m_Finalizers (lk_Meta obj) = [])))"

definition link_status_law :: "'a api_client \<Rightarrow> k8s_lib \<Rightarrow> bool" where
  "link_status_law C L \<longleftrightarrow>
     (\<forall>a obj base r a'. api_PatchLinkStatus C a obj base = (r, a') \<longrightarrow> only_link C (Link_Name obj) a a' \<and>
        (case r of Inl e \<Rightarrow> api_GetLink C a' = api_GetLink C a \<and>
             (lib_IsNotFound L e \<longrightarrow> (\<exists>e'. api_GetLink C a (Link_Name obj) = Inl e'))
         | Inr resp \<Rightarrow> (\<exists>old. api_GetLink C a (Link_Name obj) = Inr old \<and>
               m_Finalizers (lk_Meta resp) = m_Finalizers (lk_Meta old)) \<and>
             Link_Name resp = Link_Name obj \<and> lk_Status resp = lk_Status obj \<and>
             api_GetLink C a' (Link_Name obj) = Inr resp))"

text \<open>
  A patch of a Link leaves the nodes alone, and when it does not change the specification the response
  has that of the stored Link.
\<close>

definition selection_law :: "'a api_client \<Rightarrow> bool" where
  "selection_law C \<longleftrightarrow>
     (\<forall>a obj base resp a'. api_PatchLink C a obj base = (Inr resp, a') \<or> api_PatchLinkStatus C a obj base = (Inr resp, a') \<longrightarrow>
        api_ListNodes C a' = api_ListNodes C a \<and>
        (\<forall>old. api_GetLink C a (Link_Name obj) = Inr old \<longrightarrow> lk_Spec base = lk_Spec old \<longrightarrow> lk_Spec obj = lk_Spec base \<longrightarrow>
           lk_Spec resp = lk_Spec old))"

lemma selection_lawD:
  assumes "selection_law C" and "api_PatchLink C a obj base = (Inr resp, a') \<or> api_PatchLinkStatus C a obj base = (Inr resp, a')"
  shows "api_ListNodes C a' = api_ListNodes C a"
    and "api_GetLink C a (Link_Name obj) = Inr old \<Longrightarrow> lk_Spec base = lk_Spec old \<Longrightarrow> lk_Spec obj = lk_Spec base \<Longrightarrow>
      lk_Spec resp = lk_Spec old"
  using assms unfolding selection_law_def by blast+

subsection \<open>Requests on NodeLinks\<close>

definition only_nodeLinks :: "'a api_client \<Rightarrow> string \<Rightarrow> 'a \<Rightarrow> 'a \<Rightarrow> bool" where
  "only_nodeLinks C n a a' \<longleftrightarrow>
     api_GetLink C a' = api_GetLink C a \<and> (\<forall>m. m \<noteq> n \<longrightarrow> api_GetNodeLinks C a' m = api_GetNodeLinks C a m)"

text \<open>A refused request, with the object missing when the error says so.\<close>

definition refused :: "'a api_client \<Rightarrow> k8s_lib \<Rightarrow> string \<Rightarrow> goerror \<Rightarrow> 'a \<Rightarrow> 'a \<Rightarrow> bool" where
  "refused C L n e a a' \<longleftrightarrow>
     api_GetNodeLinks C a' = api_GetNodeLinks C a \<and> (lib_IsNotFound L e \<longrightarrow> gone C L a n)"

definition nodeLinks_patch_law :: "'a api_client \<Rightarrow> k8s_lib \<Rightarrow> bool" where
  "nodeLinks_patch_law C L \<longleftrightarrow>
     (\<forall>a obj base r a'. api_PatchNodeLinks C a obj base = (r, a') \<longrightarrow> only_nodeLinks C (NodeLinks_Name obj) a a' \<and>
        (case r of Inl e \<Rightarrow> refused C L (NodeLinks_Name obj) e a a'
         | Inr resp \<Rightarrow> \<exists>old. api_GetNodeLinks C a (NodeLinks_Name obj) = Inr old \<and>
             (gone C L a' (NodeLinks_Name obj) \<and> \<not> live old \<or>
              (\<exists>x. api_GetNodeLinks C a' (NodeLinks_Name obj) = Inr x \<and>
                 relists old (if MatchingLinks obj = MatchingLinks base then MatchingLinks old else MatchingLinks obj) x))))"

definition nodeLinks_status_law :: "'a api_client \<Rightarrow> k8s_lib \<Rightarrow> bool" where
  "nodeLinks_status_law C L \<longleftrightarrow>
     (\<forall>a obj base r a'. api_PatchNodeLinksStatus C a obj base = (r, a') \<longrightarrow> only_nodeLinks C (NodeLinks_Name obj) a a' \<and>
        (case r of Inl e \<Rightarrow> refused C L (NodeLinks_Name obj) e a a'
         | Inr resp \<Rightarrow> \<exists>old x. api_GetNodeLinks C a (NodeLinks_Name obj) = Inr old \<and>
             api_GetNodeLinks C a' (NodeLinks_Name obj) = Inr x \<and> relists old (MatchingLinks old) x))"

definition nodeLinks_delete_law :: "'a api_client \<Rightarrow> k8s_lib \<Rightarrow> bool" where
  "nodeLinks_delete_law C L \<longleftrightarrow>
     (\<forall>a obj r a'. api_DeleteNodeLinks C a obj = (r, a') \<longrightarrow> only_nodeLinks C (NodeLinks_Name obj) a a' \<and>
        (case r of Some e \<Rightarrow> refused C L (NodeLinks_Name obj) e a a'
         | None \<Rightarrow> gone C L a' (NodeLinks_Name obj) \<or>
             (\<exists>x. api_GetNodeLinks C a' (NodeLinks_Name obj) = Inr x \<and> \<not> live x)))"

text \<open>The object that \<open>CreateOrPatch\<close> starts from: the stored one, or a new one that lists no link.\<close>

definition starts_from :: "'a api_client \<Rightarrow> k8s_lib \<Rightarrow> 'a \<Rightarrow> string \<Rightarrow> NodeLinks \<Rightarrow> bool" where
  "starts_from C L a n x \<longleftrightarrow>
     api_GetNodeLinks C a n = Inr x \<or> gone C L a n \<and> MatchingLinks x = [] \<and> live x"

definition nodeLinks_create_law :: "'a api_client \<Rightarrow> k8s_lib \<Rightarrow> bool" where
  "nodeLinks_create_law C L \<longleftrightarrow>
     (\<forall>a n f r a'. api_CreateOrPatchNodeLinks C a n f = (r, a') \<longrightarrow> only_nodeLinks C n a a' \<and>
        (case r of Some e \<Rightarrow> api_GetNodeLinks C a' = api_GetNodeLinks C a
         | None \<Rightarrow> \<exists>x y z. starts_from C L a n x \<and> f x = Inr y \<and>
             api_GetNodeLinks C a' n = Inr z \<and> relists y (MatchingLinks y) z))"

text \<open>\<open>CreateOrPatch\<close> sends nothing when the mutation leaves the stored object as it is.\<close>

definition unchanged_law :: "'a api_client \<Rightarrow> bool" where
  "unchanged_law C \<longleftrightarrow>
     (\<forall>a n f x. api_GetNodeLinks C a n = Inr x \<longrightarrow> f x = Inr x \<longrightarrow> api_CreateOrPatchNodeLinks C a n f = (None, a))"

lemma unchanged_lawD:
  "unchanged_law C \<Longrightarrow> api_GetNodeLinks C a n = Inr x \<Longrightarrow> f x = Inr x \<Longrightarrow> api_CreateOrPatchNodeLinks C a n f = (None, a)"
  by (simp add: unchanged_law_def)

definition store_laws :: "'a api_client \<Rightarrow> k8s_lib \<Rightarrow> bool" where
  "store_laws C L \<longleftrightarrow> get_law C \<and> link_main_law C \<and> link_status_law C L \<and> nodeLinks_patch_law C L \<and>
     nodeLinks_status_law C L \<and> nodeLinks_delete_law C L \<and> nodeLinks_create_law C L"

text \<open>
  Which names the status of a stored resource records as attempted: the main endpoint keeps them (an
  object that is sent with finalizers stays), the status endpoint takes those it is sent when the
  caller started from the stored ones. Both answer with the object they stored.
\<close>

definition attempts_law :: "'a api_client \<Rightarrow> bool" where
  "attempts_law C \<longleftrightarrow>
     (\<forall>a obj base resp a' old. api_GetNodeLinks C a (NodeLinks_Name obj) = Inr old \<longrightarrow>
        (api_PatchNodeLinks C a obj base = (Inr resp, a') \<longrightarrow> m_Finalizers (nk_Meta obj) \<noteq> [] \<longrightarrow>
           NodeLinks_Name resp = NodeLinks_Name obj \<and> LastAttempted resp = LastAttempted old \<and>
           (\<exists>x. api_GetNodeLinks C a' (NodeLinks_Name obj) = Inr x \<and> LastAttempted x = LastAttempted old)) \<and>
        (api_PatchNodeLinksStatus C a obj base = (Inr resp, a') \<longrightarrow> LastAttempted base = LastAttempted old \<longrightarrow>
           NodeLinks_Name resp = NodeLinks_Name obj \<and>
           (\<exists>x. api_GetNodeLinks C a' (NodeLinks_Name obj) = Inr x \<and> LastAttempted x = LastAttempted obj)))"

lemma attempts_lawD:
  assumes "attempts_law C" and "api_GetNodeLinks C a (NodeLinks_Name obj) = Inr old"
  shows "api_PatchNodeLinks C a obj base = (Inr resp, a') \<Longrightarrow> m_Finalizers (nk_Meta obj) \<noteq> [] \<Longrightarrow>
      NodeLinks_Name resp = NodeLinks_Name obj \<and> LastAttempted resp = LastAttempted old \<and>
      (\<exists>x. api_GetNodeLinks C a' (NodeLinks_Name obj) = Inr x \<and> LastAttempted x = LastAttempted old)"
    and "api_PatchNodeLinksStatus C a obj base = (Inr resp, a') \<Longrightarrow> LastAttempted base = LastAttempted old \<Longrightarrow>
      NodeLinks_Name resp = NodeLinks_Name obj \<and>
      (\<exists>x. api_GetNodeLinks C a' (NodeLinks_Name obj) = Inr x \<and> LastAttempted x = LastAttempted obj)"
  using assms unfolding attempts_law_def by blast+

lemma store_lawsD:
  assumes "store_laws C L"
  shows "api_GetLink C a n = Inr l \<Longrightarrow> Link_Name l = n"
    and "api_GetNodeLinks C a n = Inr x \<Longrightarrow> NodeLinks_Name x = n"
    and "link_main_law C" "link_status_law C L" "nodeLinks_patch_law C L" "nodeLinks_status_law C L"
      "nodeLinks_delete_law C L" "nodeLinks_create_law C L"
  using assms by (simp_all add: store_laws_def get_law_def)

subsection \<open>Which nodes list a link\<close>

definition listed :: "'a api_client \<Rightarrow> 'a \<Rightarrow> string \<Rightarrow> string set" where
  "listed C a l = {n. \<exists>x. api_GetNodeLinks C a n = Inr x \<and> live x \<and> l \<in> set (MatchingLinks x)}"

text \<open>
  The relation the operator keeps: a Link that is listed anywhere exists, has the finalizer, and its
  status names every node that lists it, so that its deletion will find them all.
\<close>

definition tracks :: "string \<Rightarrow> string set \<Rightarrow> Link \<Rightarrow> bool" where
  "tracks fin ns l \<longleftrightarrow> ns \<subseteq> set (ls_MatchedNodes (lk_Status l)) \<and> fin \<in> set (m_Finalizers (lk_Meta l))"

definition tracked :: "'a api_client \<Rightarrow> string \<Rightarrow> 'a \<Rightarrow> string \<Rightarrow> bool" where
  "tracked C fin a l \<longleftrightarrow> listed C a l = {} \<or> (\<exists>x. api_GetLink C a l = Inr x \<and> tracks fin (listed C a l) x)"

lemma listed_cong: "api_GetNodeLinks C a' = api_GetNodeLinks C a \<Longrightarrow> listed C a' l = listed C a l"
  by (simp add: listed_def)

lemma tracked_cong:
  "listed C a' l = listed C a l \<Longrightarrow> api_GetLink C a' l = api_GetLink C a l \<Longrightarrow> tracked C fin a' l = tracked C fin a l"
  by (simp add: tracked_def)

lemma listed_at: "n \<in> listed C a l \<longleftrightarrow> (\<exists>x. api_GetNodeLinks C a n = Inr x \<and> live x \<and> l \<in> set (MatchingLinks x))"
  by (simp add: listed_def)

lemma listed_other: "only_nodeLinks C n a a' \<Longrightarrow> m \<noteq> n \<Longrightarrow> m \<in> listed C a' l \<longleftrightarrow> m \<in> listed C a l"
  by (simp add: listed_def only_nodeLinks_def)

lemma gone_not_listed: "gone C L a n \<Longrightarrow> n \<notin> listed C a l"
  by (auto simp: gone_def listed_def)

end
