(* ===== verification/NodeLinks_Patches.thy ===== *)
theory NodeLinks_Patches
  imports NodeLinks_Effects Resource_Patch Api_Store
begin

text \<open>
  What a reconciliation sends to the API server: the calls of \<open>patchResource\<close>, their order, and what
  the patched objects carry.
\<close>

subsection \<open>The calls of patchResource\<close>

text \<open>The object of the main patch, and when each patch is sent.\<close>

definition main_object :: "('k, 'a) nstate \<Rightarrow> NodeLinks" where
  "main_object s = (nn_nodeLinks s)\<lparr>nk_Status := nk_Status (nn_clusterState s)\<rparr>"

lemma NodeLinks_patch_main_calls:
  assumes "NodeLinks_patch_main E s = (e, s')" and "k8s_laws (ne_k8s E)"
  shows "api_trace (nn_api s') = api_trace (nn_api s) @
      (if main_object s = nn_clusterState s then [] else [PatchNodeLinks (main_object s) (nn_clusterState s)])"
  using assms
  by (auto simp: NodeLinks_patch_main_def main_object_def Let_def k8s_simps[OF assms(2)] dest: api_write_trace
      split: prod.splits sum.splits if_splits)

lemma NodeLinks_patch_status_calls:
  assumes "NodeLinks_patch_status E s = (e, s')" and "k8s_laws (ne_k8s E)"
  shows "api_trace (nn_api s') = api_trace (nn_api s) @
      (if nk_Status (nn_clusterState s) = nk_Status (nn_nodeLinks s) then []
       else [PatchNodeLinksStatus (nn_nodeLinks s) (nn_clusterState s)])"
  using assms
  by (auto simp: NodeLinks_patch_status_def Let_def k8s_simps[OF assms(2)] dest: api_write_trace
      split: prod.splits sum.splits if_splits)

text \<open>What may be sent from the state \<open>s\<close>: the metadata and specification, then the status, of \<open>nodeLinks\<close>.\<close>

fun sent_from :: "('k, 'a) nstate \<Rightarrow> api_call \<Rightarrow> bool" where
  "sent_from s (PatchNodeLinks obj base) \<longleftrightarrow> obj = main_object s \<and> base = nn_clusterState s"
| "sent_from s (PatchNodeLinksStatus obj base) \<longleftrightarrow> nk_Status obj = nk_Status (nn_nodeLinks s)"
| "sent_from s _ \<longleftrightarrow> False"

lemma NodeLinks_patchResource_calls:
  assumes "NodeLinks_patchResource E s = (e, s')" and k8s: "k8s_laws (ne_k8s E)"
  shows "\<exists>main status. api_trace (nn_api s') = api_trace (nn_api s) @ main @ status \<and>
    main = (if main_object s = nn_clusterState s then [] else [PatchNodeLinks (main_object s) (nn_clusterState s)]) \<and>
    (status = [] \<or> (\<exists>obj base. status = [PatchNodeLinksStatus obj base] \<and> nk_Status obj = nk_Status (nn_nodeLinks s)))"
  using assms(1)
proof (cases rule: NodeLinks_patchResource_cases)
  case (main_failed err s1)
  then show ?thesis using NodeLinks_patch_main_calls[OF main_failed(1) k8s] by simp
next
  case (status_failed s1 err s2)
  have "nk_Status (nn_nodeLinks s1) = nk_Status (nn_nodeLinks s)" using NodeLinks_patch_main_frame[OF status_failed(1)] by simp
  then show ?thesis
    using NodeLinks_patch_main_calls[OF status_failed(1) k8s] NodeLinks_patch_status_calls[OF status_failed(2) k8s] status_failed(4)
    by simp
next
  case (patched s1 s2)
  have "nk_Status (nn_nodeLinks s1) = nk_Status (nn_nodeLinks s)" using NodeLinks_patch_main_frame[OF patched(1)] by simp
  then show ?thesis
    using NodeLinks_patch_main_calls[OF patched(1) k8s] NodeLinks_patch_status_calls[OF patched(2) k8s] patched(4)
    by simp
qed

lemma NodeLinks_patchResource_sent:
  assumes "NodeLinks_patchResource E s = (e, s')" and "k8s_laws (ne_k8s E)"
  shows "\<exists>cs. api_trace (nn_api s') = api_trace (nn_api s) @ cs \<and> (\<forall>c \<in> set cs. sent_from s c)"
proof -
  from NodeLinks_patchResource_calls[OF assms] obtain main status where
    t: "api_trace (nn_api s') = api_trace (nn_api s) @ main @ status"
    and m: "main = (if main_object s = nn_clusterState s then [] else [PatchNodeLinks (main_object s) (nn_clusterState s)])"
    and st: "status = [] \<or> (\<exists>obj base. status = [PatchNodeLinksStatus obj base] \<and> nk_Status obj = nk_Status (nn_nodeLinks s))"
    by blast
  have "\<forall>c \<in> set (main @ status). sent_from s c" using m st by (auto split: if_splits)
  then show ?thesis using t by blast
qed

interpretation NodeLinks_patch: resource_patch "k8s_laws (ne_k8s E) \<and> status_patch_law (ne_client E)"
    "NodeLinks_patchResource E" nn_nodeLinks nn_clusterState nk_Status "\<lambda>s. api_trace (nn_api s)" for E :: "('k, 'g, 'a) nenv"
proof unfold_locales
  fix s s' :: "('k, 'a) nstate" and e
  assume laws: "k8s_laws (ne_k8s E) \<and> status_patch_law (ne_client E)"
  {
    assume run: "NodeLinks_patchResource E s = (e, s')"
    show "nk_Status (nn_nodeLinks s') = nk_Status (nn_nodeLinks s)"
      by (rule NodeLinks_patchResource_status[OF run conjunct2[OF laws]])
    from NodeLinks_patchResource_calls[OF run conjunct1[OF laws]] obtain main status :: "api_call list"
      where t: "api_trace (nn_api s') = api_trace (nn_api s) @ main @ status"
      and m: "main = (if main_object s = nn_clusterState s then [] else [PatchNodeLinks (main_object s) (nn_clusterState s)])"
      and st: "status = [] \<or> (\<exists>obj base. status = [PatchNodeLinksStatus obj base] \<and> nk_Status obj = nk_Status (nn_nodeLinks s))"
      by blast
    have "length (main @ status) \<le> 2" using m st by auto
    then show "\<exists>cs. api_trace (nn_api s') = api_trace (nn_api s) @ cs \<and> length cs \<le> 2"
      using t by (intro exI[of _ "main @ status"]) simp
  next
    assume "nn_clusterState s = nn_nodeLinks s"
    then show "NodeLinks_patchResource E s = (None, s)"
      by (simp add: NodeLinks_patchResource_def NodeLinks_patch_main_def NodeLinks_patch_status_def Let_def
          k8s_simps[OF conjunct1[OF laws]])
  }
qed (rule NodeLinks_patchResource_synced)

subsection \<open>The names in the cluster\<close>

text \<open>The stored resource records the attempted names that the controller has for the cluster state.\<close>

definition attempts_stored :: "'a api_client \<Rightarrow> ('k, 'a) nstate \<Rightarrow> bool" where
  "attempts_stored C s \<longleftrightarrow>
     (\<exists>x. api_GetNodeLinks C (store (nn_api s)) (NodeLinks_Name (nn_nodeLinks s)) = Inr x \<and>
        LastAttempted x = LastAttempted (nn_clusterState s))"

lemma NodeLinks_patch_main_stored:
  assumes "NodeLinks_patch_main E s = (None, s')" and "attempts_stored (ne_client E) s" and "k8s_laws (ne_k8s E)"
    and "attempts_law (ne_client E)" and "m_Finalizers (nk_Meta (nn_nodeLinks s)) \<noteq> []"
  shows "attempts_stored (ne_client E) s' \<and> NodeLinks_Name (nn_nodeLinks s') = NodeLinks_Name (nn_nodeLinks s)"
proof (cases "main_object s = nn_clusterState s")
  case True
  then have "nk_Meta (nn_clusterState s) = nk_Meta (nn_nodeLinks s)" by (auto simp: main_object_def dest: arg_cong[of _ _ nk_Meta])
  then show ?thesis using assms(1,2) True
    by (auto simp: NodeLinks_patch_main_def main_object_def attempts_stored_def Let_def k8s_simps[OF assms(3)])
next
  case False
  let ?C = "ne_client E" and ?n = "NodeLinks_Name (main_object s)"
  have obj: "?n = NodeLinks_Name (nn_nodeLinks s)" "m_Finalizers (nk_Meta (main_object s)) \<noteq> []"
    using assms(5) by (simp_all add: main_object_def)
  from assms(2) obtain old where old: "api_GetNodeLinks ?C (store (nn_api s)) ?n = Inr old"
    "LastAttempted old = LastAttempted (nn_clusterState s)" by (auto simp: attempts_stored_def obj(1))
  obtain r a' where p: "api_PatchNodeLinks ?C (store (nn_api s)) (main_object s) (nn_clusterState s) = (r, a')" by fastforce
  have main: "NodeLinks_patch_main E s = (case api_write (PatchNodeLinks (main_object s) (nn_clusterState s))
        (\<lambda>a. api_PatchNodeLinks ?C a (main_object s) (nn_clusterState s)) (nn_api s) of
        (Inl err, aw) \<Rightarrow>
          (Some err, s\<lparr>nn_api := aw, nn_nodeLinks := (nn_nodeLinks s)
            \<lparr>nk_Status := nk_Status (nn_clusterState s), nk_Status := nk_Status (nn_nodeLinks s)\<rparr>\<rparr>)
      | (Inr resp, aw) \<Rightarrow> (None, s\<lparr>nn_api := aw, nn_clusterState := resp,
            nn_nodeLinks := resp\<lparr>nk_Status := nk_Status (nn_nodeLinks s)\<rparr>\<rparr>))"
    using not_sym[OF False] by (simp add: NodeLinks_patch_main_def Let_def k8s_simps[OF assms(3)] flip: main_object_def)
  show ?thesis
  proof (cases r)
    case (Inl err)
    then show ?thesis using assms(1) p by (simp add: main api_write_def)
  next
    case (Inr resp)
    then have s': "NodeLinks_Name (nn_nodeLinks s') = NodeLinks_Name resp" "nn_clusterState s' = resp" "store (nn_api s') = a'"
      using assms(1) p by (auto simp: main api_write_def)
    from attempts_lawD(1)[OF assms(4) old(1) p[unfolded Inr] obj(2)]
    show ?thesis by (auto simp: s' attempts_stored_def obj(1))
  qed
qed

lemma NodeLinks_patch_status_stored:
  assumes "NodeLinks_patch_status E s = (None, s')" and "attempts_stored (ne_client E) s" and "k8s_laws (ne_k8s E)"
    and "attempts_law (ne_client E)" and "nodeLinks_status_law (ne_client E) (ne_k8s E)"
  shows "NodeLinks_Name (nn_nodeLinks s') = NodeLinks_Name (nn_nodeLinks s) \<and>
    (\<exists>x. api_GetNodeLinks (ne_client E) (store (nn_api s')) (NodeLinks_Name (nn_nodeLinks s)) = Inr x \<and>
       LastAttempted x = LastAttempted (nn_nodeLinks s))"
proof (cases "nk_Status (nn_clusterState s) = nk_Status (nn_nodeLinks s)")
  case True
  then have "s' = s" using assms(1) by (simp add: NodeLinks_patch_status_def Let_def k8s_simps[OF assms(3)])
  then show ?thesis using assms(2) True by (simp add: attempts_stored_def)
next
  case False
  let ?C = "ne_client E" and ?n = "NodeLinks_Name (nn_nodeLinks s)"
  from assms(2) obtain old where old: "api_GetNodeLinks ?C (store (nn_api s)) ?n = Inr old"
    "LastAttempted (nn_clusterState s) = LastAttempted old" by (auto simp: attempts_stored_def)
  obtain r a' where p: "api_PatchNodeLinksStatus ?C (store (nn_api s)) (nn_nodeLinks s) (nn_clusterState s) = (r, a')" by fastforce
  show ?thesis
  proof (cases r)
    case (Inl err)
    then have "\<not> lib_IsNotFound (ne_k8s E) err"
      using assms(5) p old(1) by (fastforce simp: nodeLinks_status_law_def refused_def gone_def)
    then show ?thesis using assms(1) p Inl False
      by (simp add: NodeLinks_patch_status_def api_write_def Let_def k8s_simps[OF assms(3)])
  next
    case (Inr resp)
    then have s': "nn_nodeLinks s' = resp" "store (nn_api s') = a'"
      using assms(1) p False by (auto simp: NodeLinks_patch_status_def api_write_def Let_def k8s_simps[OF assms(3)])
    show ?thesis using attempts_lawD(2)[OF assms(4) old(1) p[unfolded Inr] old(2)] by (simp add: s')
  qed
qed

text \<open>After a patch without an error, the cluster has the names that the resource at hand records.\<close>

lemma NodeLinks_patchResource_stored:
  assumes "NodeLinks_patchResource E s = (None, s')" and "attempts_stored (ne_client E) s" and "k8s_laws (ne_k8s E)"
    and "attempts_law (ne_client E)" and "nodeLinks_status_law (ne_client E) (ne_k8s E)"
    and "m_Finalizers (nk_Meta (nn_nodeLinks s)) \<noteq> []"
  shows "\<exists>x. api_GetNodeLinks (ne_client E) (store (nn_api s')) (NodeLinks_Name (nn_nodeLinks s)) = Inr x \<and>
    LastAttempted x = LastAttempted (nn_nodeLinks s)"
  using assms(1)
proof (cases rule: NodeLinks_patchResource_cases)
  case (patched s1 s2)
  have "nk_Status (nn_nodeLinks s1) = nk_Status (nn_nodeLinks s)" using NodeLinks_patch_main_frame[OF patched(1)] by simp
  moreover have "attempts_stored (ne_client E) s1" "NodeLinks_Name (nn_nodeLinks s1) = NodeLinks_Name (nn_nodeLinks s)"
    using NodeLinks_patch_main_stored[OF patched(1) assms(2,3,4,6)] by simp_all
  ultimately show ?thesis
    using NodeLinks_patch_status_stored[OF patched(2) _ assms(3,4,5)] patched(4) by simp
qed simp_all

subsection \<open>The calls of a run\<close>

definition sends :: "(api_call \<Rightarrow> bool) \<Rightarrow> ('k, 'a) nstate \<Rightarrow> ('k, 'a) nstate \<Rightarrow> bool" where
  "sends P s s' \<longleftrightarrow> (\<exists>cs. api_trace (nn_api s') = api_trace (nn_api s) @ cs \<and> list_all P cs)"

lemma sends_refl [simp]: "nn_api s' = nn_api s \<Longrightarrow> sends P s s'"
  by (simp add: sends_def)

lemma sends_trans: "sends P s t \<Longrightarrow> sends P t u \<Longrightarrow> sends P s u"
  by (fastforce simp: sends_def)

lemma sends_same: "nn_api t = nn_api s \<Longrightarrow> sends P t u \<Longrightarrow> sends P s u"
  by (simp add: sends_def)

lemma sends_patchResource:
  assumes "NodeLinks_patchResource E s = (e, s')" and "k8s_laws (ne_k8s E)" and "\<And>c. sent_from s c \<Longrightarrow> P c"
  shows "sends P s s'"
  using NodeLinks_patchResource_sent[OF assms(1,2)] assms(3) by (auto simp: sends_def list_all_iff)

subsection \<open>The reason of the resource's Ready condition\<close>

text \<open>
  The resource does not say that dependencies are missing, and a status patch does not report it.
\<close>

definition silent :: "('k, 'a) nstate \<Rightarrow> bool" where
  "silent s \<longleftrightarrow>
     (\<forall>d. cond_of Ready (ns_Conditions (nk_Status (nn_nodeLinks s))) = Some d \<longrightarrow> c_Reason d \<noteq> MissingDependencyLinks)"

definition not_reporting :: "api_call \<Rightarrow> bool" where
  "not_reporting c \<longleftrightarrow>
     (\<forall>obj base d. c = PatchNodeLinksStatus obj base \<longrightarrow> cond_of Ready (ns_Conditions (nk_Status obj)) = Some d \<longrightarrow>
        c_Reason d \<noteq> MissingDependencyLinks)"

lemma silent_set:
  assumes "k8s_laws (ne_k8s E)" and "c_Type c = Ready" and "c_Reason c \<noteq> MissingDependencyLinks"
  shows "silent (set_resource E c s)"
  using resource_cond_set(1)[OF assms(1), of c "nn_nodeLinks s"] assms(2,3)
  by (auto simp: silent_def says_def)

lemma silent_status: "nk_Status (nn_nodeLinks t) = nk_Status (nn_nodeLinks s) \<Longrightarrow> silent t = silent s"
  by (simp add: silent_def)

lemma patch_not_reporting:
  assumes "NodeLinks_patchResource E s = (e, s')" and "k8s_laws (ne_k8s E)" and "silent s"
  shows "sends not_reporting s s'"
proof (rule sends_patchResource[OF assms(1,2)])
  fix c
  assume "sent_from s c"
  then show "not_reporting c" using assms(3) by (cases c) (auto simp: not_reporting_def silent_def)
qed

lemma handleError_not_reporting:
  assumes "NodeLinks_handleError E c err s = (r, s')" and "k8s_laws (ne_k8s E)"
    and "case c of None \<Rightarrow> silent s | Some d \<Rightarrow> c_Type d = Ready \<and> c_Reason d \<noteq> MissingDependencyLinks"
  shows "sends not_reporting s s'"
proof -
  from assms(1) obtain perr s1 where p: "NodeLinks_patchResource E s1 = (perr, s')"
    "s1 = (case c of None \<Rightarrow> s | Some d \<Rightarrow> upd_nodeLinks (set_NodeLinks_condition (ne_k8s E) d) s)"
    by (rule NodeLinks_handleErrorE)
  have "silent s1" "nn_api s1 = nn_api s"
    using p(2) assms(3) silent_set[OF assms(2)] by (auto split: option.splits)
  then show ?thesis using patch_not_reporting[OF p(1) assms(2)] sends_same by blast
qed

lemma upsertLinks_silent:
  assumes "upsertLinks E names links g s = Some (Some e, s')" and "k8s_laws (ne_k8s E)"
  shows "silent s'"
proof -
  from assms(1) obtain errs t where 1: "ne_pie_Map E (upsertLink E links g) names s = Some (errs, t)"
    by (auto simp: upsertLinks_def bind_eq_Some_conv)
  then show ?thesis using assms silent_set[OF assms(2)]
    by (cases "errors_Join errs") (auto simp: upsertLinks_def simp del: errors_Join_None)
qed

lemma updateDependents_silent:
  assumes "updateDependentsMissingDependencies E names links s = Some (Some e, s')" and "k8s_laws (ne_k8s E)"
  shows "silent s'"
proof -
  from assms(1) obtain errs t where
    1: "ne_pie_Map E (update_dependent E links) names (s\<lparr>nn_allDependenciesExist := True\<rparr>) = Some (errs, t)"
    by (auto simp: updateDependentsMissingDependencies_def bind_eq_Some_conv)
  then show ?thesis using assms silent_set[OF assms(2)]
    by (cases "errors_Join errs")
      (auto simp: updateDependentsMissingDependencies_def simp del: errors_Join_None split: if_splits)
qed

lemma upsert_and_report_not_reporting:
  assumes "upsert_and_report E links g names s = Some (r, s')" and "nenv_ok E"
  shows "sends not_reporting s s'"
  using assms(1)
proof (cases rule: upsert_and_report_cases)
  note k8s = nenv_okD(2)[OF assms(2)]
  have api: "nn_api s1 = nn_api s" if "upsertLinks E names links g s = Some (x, s1)" for x s1
    using upsertLinks_acts[OF that assms(2)] by (simp add: acts_def)
  {
    case (failed e s1)
    have "silent s1" by (rule upsertLinks_silent[OF failed(1) k8s])
    then show ?thesis
      using handleError_not_reporting[OF failed(2) k8s] sends_same[OF api[OF failed(1)]] by simp
  next
    case (unreported s1 e)
    have "silent (set_resource E (condition Ready ConditionTrue ReconcileSuccessful NoMessage) s1)"
      by (rule silent_set[OF k8s]) simp_all
    from patch_not_reporting[OF unreported(2) k8s this] show ?thesis
      by (rule sends_same[rotated]) (simp add: api[OF unreported(1)])
  next
    case (reported s1)
    have "silent (set_resource E (condition Ready ConditionTrue ReconcileSuccessful NoMessage) s1)"
      by (rule silent_set[OF k8s]) simp_all
    from patch_not_reporting[OF reported(2) k8s this] show ?thesis
      by (rule sends_same[rotated]) (simp add: api[OF reported(1)])
  }
qed

lemma deleteLinks_silent:
  assumes "deleteLinks E names s = Some (Some err, s')" and "nenv_ok E"
  shows "silent s'"
  using assms
proof (cases rule: deleteLinks_cases)
  case (not_down errs s1 err)
  then show ?thesis using silent_set[OF nenv_okD(2)[OF assms(2)]] by simp
next
  case (not_deleted errs s1 errs2 s2 err)
  then show ?thesis using silent_set[OF nenv_okD(2)[OF assms(2)]] by simp
qed simp

lemma clean_and_upsert_not_reporting:
  assumes "clean_and_upsert E links g names s = Some (r, s')" and "nenv_ok E" and "status_patch_law (ne_client E)"
  shows "sends not_reporting s s'"
proof -
  note k8s = nenv_okD(2)[OF assms(2)]
  have dep: "nn_api s1 = nn_api s" if "updateDependentsMissingDependencies E names links s = Some (x, s1)" for x s1
    using updateDependents_acts[OF that assms(2)] by (simp add: acts_def)
  have del: "nn_api s2 = nn_api s1" if "deleteUndesiredLinks E links s1 = Some (x, s2)" for x s1 s2
    using deleteUndesiredLinks_acts[OF that assms(2)] by (simp add: acts_def)
  let ?c = "condition Ready ConditionUnknown ReadyForUpsert FixedText"
  have up: "sends not_reporting s2 s3 \<and> silent s3"
    if "updateLastAttemptedLinks E links (set_resource E ?c s2) = Some (x, s3)" for x s2 s3
    using that
  proof (cases rule: updateLastAttemptedLinks_cases)
    case (no_manager err)
    then show ?thesis using silent_set[OF k8s, of ?c s2] by simp
  next
    case (patch_failed ns err s1)
    let ?u = "upd_nodeLinks (\<lambda>n. n\<lparr>nk_Status := (nk_Status n)\<lparr>ns_LastAttemptedNetlinkLinks := ns\<rparr>\<rparr>) (set_resource E ?c s2)"
    have "silent ?u" using silent_set[OF k8s, of ?c s2] by (simp add: silent_def)
    from patch_not_reporting[OF patch_failed(2) k8s this] have "sends not_reporting s2 s1" by (rule sends_same[rotated]) simp
    then show ?thesis using patch_failed(4) silent_set[OF k8s] by (simp add: sends_def)
  next
    case (recorded ns)
    let ?u = "upd_nodeLinks (\<lambda>n. n\<lparr>nk_Status := (nk_Status n)\<lparr>ns_LastAttemptedNetlinkLinks := ns\<rparr>\<rparr>) (set_resource E ?c s2)"
    have u: "silent ?u" using silent_set[OF k8s, of ?c s2] by (simp add: silent_def)
    from patch_not_reporting[OF recorded(2) k8s this] have "sends not_reporting s2 s3" by (rule sends_same[rotated]) simp
    then show ?thesis using silent_status[OF NodeLinks_patchResource_status[OF recorded(2) assms(3)]] u by simp
  qed
  from assms(1) show ?thesis
  proof (cases rule: clean_and_upsert_cases)
    case (dependencies e s1)
    have "silent s1" by (rule updateDependents_silent[OF dependencies(1) k8s])
    then show ?thesis
      using handleError_not_reporting[OF dependencies(2) k8s] sends_same[OF dep[OF dependencies(1)]] by simp
  next
    case (undesired s1 e s2)
    have "silent s2" using deleteLinks_silent[OF _ assms(2)] undesired(2) by (simp add: deleteUndesiredLinks_def)
    then show ?thesis
      using handleError_not_reporting[OF undesired(3) k8s] sends_same[OF dep[OF undesired(1)]] sends_same[OF del[OF undesired(2)]]
      by simp
  next
    case (unrecorded s1 s2 e s3)
    have "sends not_reporting s2 s'"
      using up[OF unrecorded(3)] handleError_not_reporting[OF unrecorded(4) k8s] sends_trans by auto
    then show ?thesis using sends_same[OF dep[OF unrecorded(1)]] sends_same[OF del[OF unrecorded(2)]] by blast
  next
    case (recorded s1 s2 s3)
    have "sends not_reporting s2 s'"
      using up[OF recorded(3)] upsert_and_report_not_reporting[OF recorded(4) assms(2)] sends_trans by blast
    then show ?thesis using sends_same[OF dep[OF recorded(1)]] sends_same[OF del[OF recorded(2)]] by blast
  qed
qed

end
