(* ===== verification/Reference_Graph.thy ===== *)
theory Reference_Graph
  imports Operator_Env Graph_Search
begin

text \<open>
  An instance of the graph interface that satisfies its laws: the graph is its adjacency map, an edge
  is refused when its source is reachable from its target, and the topological sort takes a vertex
  without remaining predecessors again and again. Concrete runs of the development evaluate on it.
\<close>

type_synonym rg = adjacency_map

definition rg_wf :: "rg \<Rightarrow> bool" where
  "rg_wf g \<longleftrightarrow> distinct (map fst g) \<and> list_all (\<lambda>(u, es). distinct (map fst es) \<and> fst ` set es \<subseteq> fst ` set g) g"

definition rg_AddVertex :: "rg \<Rightarrow> string \<Rightarrow> goerror option \<times> rg" where
  "rg_AddVertex g v = (if v \<in> fst ` set g then (Some (OtherError ''vertex exists''), g) else (None, g @ [(v, [])]))"

definition rg_AddEdge :: "rg \<Rightarrow> string \<Rightarrow> string \<Rightarrow> (EdgeProperties option \<Rightarrow> EdgeProperties option) \<Rightarrow> goerror option \<times> rg" where
  "rg_AddEdge g u v f =
     (if u \<notin> fst ` set g \<or> v \<notin> fst ` set g then (Some (OtherError ''no vertex''), g)
      else if v \<in> fst ` set (adjacent g u) then (Some (OtherError ''edge exists''), g)
      else if u \<in> fst ` set (bfs_visits g v) then (Some (OtherError ''cycle''), g)
      else (None, map (\<lambda>(x, es). (x, if x = u then
        (case f (Some \<lparr>ep_Data = None\<rparr>) of None \<Rightarrow> es
         | Some p \<Rightarrow> es @ [(v, \<lparr>ed_Source = u, ed_Target = v, ed_Properties = p\<rparr>)]) else es)) g))"

fun rg_topo :: "nat \<Rightarrow> rg \<Rightarrow> string list \<Rightarrow> string list option" where
  "rg_topo 0 g rest = (if rest = [] then Some [] else None)"
| "rg_topo (Suc k) g rest =
     (case find (\<lambda>v. list_all (\<lambda>u. v \<notin> fst ` set (adjacent g u)) rest) rest of
        None \<Rightarrow> if rest = [] then Some [] else None
      | Some v \<Rightarrow> map_option (Cons v) (rg_topo k g (remove1 v rest)))"

definition RG :: "rg graph_lib" where
  "RG = \<lparr>gr_New = [], gr_AddVertex = rg_AddVertex, gr_AddEdge = rg_AddEdge,
     gr_AdjacencyMap = (\<lambda>g. if rg_wf g then Inr g else Inl (OtherError ''graph'')),
     gr_TopologicalSort = (\<lambda>g. case rg_topo (length g) g (map fst g) of
        Some vs \<Rightarrow> Inr vs | None \<Rightarrow> Inl (OtherError ''cycle''))\<rparr>"

lemma RG_sel [simp]:
  "gr_New RG = []" "gr_AddVertex RG = rg_AddVertex" "gr_AddEdge RG = rg_AddEdge"
  "gr_AdjacencyMap RG g = (if rg_wf g then Inr g else Inl (OtherError ''graph''))"
  "gr_TopologicalSort RG g = (case rg_topo (length g) g (map fst g) of
     Some vs \<Rightarrow> Inr vs | None \<Rightarrow> Inl (OtherError ''cycle''))"
  by (simp_all add: RG_def)

lemma RG_vertices: "rg_wf g \<Longrightarrow> gr_vertices RG g = fst ` set g"
  by (simp add: gr_vertices_def)

lemma RG_edge: "rg_wf g \<Longrightarrow> gr_edge RG g u v = map_of (adjacent g u) v"
  by (simp add: gr_edge_def adjacent_def split: option.splits)

lemma RG_edges: "rg_wf g \<Longrightarrow> gr_edges RG g = bfs_edges g"
  by (auto simp: gr_edges_def bfs_edges_def RG_edge map_of_eq_None_iff image_iff)

lemma RG_reachable: "u \<in> fst ` set (bfs_visits g v) \<longleftrightarrow> (v, u) \<in> (bfs_edges g)\<^sup>*"
  by (simp add: bfs_visits_reachable)

lemma rg_topo_ok:
  assumes "rg_topo k g rest = Some vs" and "distinct rest"
  shows "distinct vs \<and> set vs = set rest \<and>
    (\<forall>i j. i < length vs \<longrightarrow> j < length vs \<longrightarrow> (vs ! i, vs ! j) \<in> bfs_edges g \<longrightarrow> i < j)"
  using assms
proof (induction k g rest arbitrary: vs rule: rg_topo.induct)
  case (1 g rest)
  then show ?case by (auto split: if_splits)
next
  case (2 k g rest)
  show ?case
  proof (cases "find (\<lambda>v. list_all (\<lambda>u. v \<notin> fst ` set (adjacent g u)) rest) rest")
    case None
    then show ?thesis using 2 by (auto split: if_splits)
  next
    case (Some v)
    then have v: "v \<in> set rest" "\<forall>u \<in> set rest. (u, v) \<notin> bfs_edges g"
      by (auto simp: find_Some_iff list_all_iff bfs_edges_def)
    from 2(2) Some obtain ws where ws: "rg_topo k g (remove1 v rest) = Some ws" "vs = v # ws" by auto
    have IH: "distinct ws \<and> set ws = set (remove1 v rest) \<and>
      (\<forall>i j. i < length ws \<longrightarrow> j < length ws \<longrightarrow> (ws ! i, ws ! j) \<in> bfs_edges g \<longrightarrow> i < j)"
      using 2(1)[OF Some ws(1)] 2(3) by simp
    have set: "set ws = set rest - {v}" using IH 2(3) by simp
    have "set vs = set rest" using set v(1) ws(2) by auto
    moreover have "i < j" if "i < length vs" "j < length vs" "(vs ! i, vs ! j) \<in> bfs_edges g" for i j
    proof (cases j)
      case 0
      have "vs ! i \<in> set rest" using nth_mem[OF that(1)] \<open>set vs = set rest\<close> by simp
      then show ?thesis using v(2) that(3) ws(2) 0 by simp
    next
      case (Suc j')
      show ?thesis
      proof (cases i)
        case (Suc i')
        have "i' < j'" using IH that ws(2) Suc \<open>j = Suc j'\<close> by simp
        then show ?thesis using Suc \<open>j = Suc j'\<close> by simp
      qed (simp add: \<open>j = Suc j'\<close>)
    qed
    moreover have "v \<notin> set ws" unfolding set by simp
    then have "distinct vs" using IH ws(2) by simp
    ultimately show ?thesis by blast
  qed
qed

lemma rg_topo_total:
  assumes "acyclic (bfs_edges g)" and "length rest \<le> k" and "distinct rest"
  shows "rg_topo k g rest \<noteq> None"
  using assms(2,3)
proof (induction k arbitrary: rest)
  case 0
  then show ?case by simp
next
  case (Suc k)
  show ?case
  proof (cases "rest = []")
    case True
    then show ?thesis by simp
  next
    case False
    let ?R = "bfs_edges g \<inter> set rest \<times> set rest"
    have "finite ?R" by simp
    moreover have "acyclic ?R" using assms(1) by (rule acyclic_subset) blast
    ultimately have "wf ?R" by (rule finite_acyclic_wf)
    moreover have "hd rest \<in> set rest" using False by simp
    ultimately obtain v where v: "v \<in> set rest" and min: "\<And>u. (u, v) \<in> ?R \<Longrightarrow> u \<notin> set rest"
      by (rule wfE_min) (rule that)
    have "v \<notin> fst ` set (adjacent g u)" if "u \<in> set rest" for u
      using min[of u] v that by (auto simp: bfs_edges_def)
    then have "list_all (\<lambda>u. v \<notin> fst ` set (adjacent g u)) rest" by (simp add: list_all_iff)
    then obtain w where w: "find (\<lambda>v. list_all (\<lambda>u. v \<notin> fst ` set (adjacent g u)) rest) rest = Some w"
      using v(1) by (metis find_None_iff not_None_eq)
    then have "w \<in> set rest" by (auto simp: find_Some_iff)
    then have "rg_topo k g (remove1 w rest) \<noteq> None"
      using Suc by (simp add: length_remove1)
    then show ?thesis using w by simp
  qed
qed

lemma rg_wf_iff:
  "rg_wf g \<longleftrightarrow> distinct (map fst g) \<and>
     (\<forall>x es. (x, es) \<in> set g \<longrightarrow> distinct (map fst es) \<and> fst ` set es \<subseteq> fst ` set g)"
  unfolding rg_wf_def list_all_iff by blast

lemma rg_AddEdge_edge:
  assumes "rg_wf g" and "rg_AddEdge g u v f = (None, g')"
  shows "rg_wf g'" and "fst ` set g' = fst ` set g" and
    "map_of (adjacent g' a) b = (if a = u \<and> b = v
       then map_option (\<lambda>p. \<lparr>ed_Source = u, ed_Target = v, ed_Properties = p\<rparr>) (f (Some \<lparr>ep_Data = None\<rparr>))
       else map_of (adjacent g a) b)"
proof -
  from assms(2) have uv: "u \<in> fst ` set g" "v \<in> fst ` set g" "v \<notin> fst ` set (adjacent g u)"
    and g': "g' = map (\<lambda>(x, es). (x, if x = u then
        (case f (Some \<lparr>ep_Data = None\<rparr>) of None \<Rightarrow> es
         | Some p \<Rightarrow> es @ [(v, \<lparr>ed_Source = u, ed_Target = v, ed_Properties = p\<rparr>)]) else es)) g"
    by (auto simp: rg_AddEdge_def split: if_splits)
  show keys: "fst ` set g' = fst ` set g" unfolding g' by force
  have "map fst g' = map fst g" unfolding g' by (induction g) auto
  then have "distinct (map fst g')" using assms(1) by (simp add: rg_wf_def)
  moreover have "distinct (map fst es') \<and> fst ` set es' \<subseteq> fst ` set g'" if "(x, es') \<in> set g'" for x es'
  proof -
    from that obtain es where es: "(x, es) \<in> set g" and es': "es' = (if x = u then
        (case f (Some \<lparr>ep_Data = None\<rparr>) of None \<Rightarrow> es
         | Some p \<Rightarrow> es @ [(v, \<lparr>ed_Source = u, ed_Target = v, ed_Properties = p\<rparr>)]) else es)"
      unfolding g' by auto
    from es assms(1) have ok: "distinct (map fst es)" "fst ` set es \<subseteq> fst ` set g"
      by (simp_all add: rg_wf_iff)
    have "v \<notin> fst ` set es" if "x = u"
      using es uv(3) assms(1) that by (simp add: rg_wf_def adjacent_def)
    then show ?thesis unfolding keys es' using ok uv(2) by (simp split: option.split)
  qed
  ultimately show "rg_wf g'" unfolding rg_wf_iff by blast
  have m: "map_of g' a = map_option (\<lambda>es. if a = u then
        (case f (Some \<lparr>ep_Data = None\<rparr>) of None \<Rightarrow> es
         | Some p \<Rightarrow> es @ [(v, \<lparr>ed_Source = u, ed_Target = v, ed_Properties = p\<rparr>)]) else es) (map_of g a)"
    unfolding g' by (rule map_of_map_key)
  obtain us where us: "map_of g u = Some us" using uv(1) by (rule map_of_in_keys[THEN exE])
  have none: "map_of us v = None" using uv(3) us by (simp add: adjacent_def map_of_eq_None_iff)
  show "map_of (adjacent g' a) b = (if a = u \<and> b = v
       then map_option (\<lambda>p. \<lparr>ed_Source = u, ed_Target = v, ed_Properties = p\<rparr>) (f (Some \<lparr>ep_Data = None\<rparr>))
       else map_of (adjacent g a) b)"
    using m us none by (auto simp: adjacent_def map_add_def split: option.splits)
qed

lemma rg_AddVertex_ok:
  assumes "rg_wf g" and "rg_AddVertex g v = (None, g')"
  shows "rg_wf g' \<and> v \<notin> fst ` set g \<and> fst ` set g' = insert v (fst ` set g) \<and> gr_edge RG g' = gr_edge RG g"
proof -
  from assms(2) have g': "g' = g @ [(v, [])]" and v: "v \<notin> fst ` set g"
    by (auto simp: rg_AddVertex_def split: if_splits)
  have "list_all (\<lambda>(u, es). distinct (map fst es) \<and> fst ` set es \<subseteq> insert v (fst ` set g)) g"
    using assms(1) unfolding rg_wf_def list_all_iff by blast
  then have wf: "rg_wf g'" using assms(1) v by (simp add: g' rg_wf_def)
  have "map_of g v = None" using v by (simp add: map_of_eq_None_iff)
  then have "adjacent g' a = adjacent g a" for a
    by (auto simp: g' adjacent_def map_add_def split: option.splits)
  then show ?thesis using wf v assms(1) by (auto simp: g' RG_edge fun_eq_iff)
qed

lemma rg_AddEdge_refused:
  "rg_AddEdge g u v f = (Some e, g') \<Longrightarrow> u \<notin> fst ` set g \<or> v \<notin> fst ` set g \<or> v \<in> fst ` set (adjacent g u) \<or> (v, u) \<in> (bfs_edges g)\<^sup>*"
  by (auto simp: rg_AddEdge_def RG_reachable split: if_splits)

lemma rg_AddEdge_accepted:
  "rg_AddEdge g u v f = (None, g') \<Longrightarrow> u \<in> fst ` set g \<and> v \<in> fst ` set g \<and> v \<notin> fst ` set (adjacent g u) \<and>
     (v, u) \<notin> (bfs_edges g)\<^sup>* \<and> u \<noteq> v"
  by (auto simp: rg_AddEdge_def RG_reachable split: if_splits)

lemma RG_readable: "gr_readable RG g \<longleftrightarrow> rg_wf g"
  by (simp add: gr_readable_def)

lemma RG_laws: "graph_laws RG"
  unfolding graph_laws_def
proof (intro conjI)
  have "distinct (map fst m) \<and> (\<forall>u es. (u, es) \<in> set m \<longrightarrow> distinct (map fst es) \<and> fst ` set es \<subseteq> fst ` set m)"
    if "gr_AdjacencyMap RG g = Inr m" for g m
  proof -
    from that have "rg_wf m" by (simp split: if_splits)
    then show ?thesis unfolding rg_wf_iff by blast
  qed
  moreover have "gr_AdjacencyMap RG (gr_New RG) = Inr []" by (simp add: rg_wf_def)
  ultimately show "graph_map_law RG" unfolding graph_map_law_def by blast
next
  have "if v \<in> gr_vertices RG g then e \<noteq> None
         else e = None \<and> gr_readable RG g' \<and> gr_vertices RG g' = insert v (gr_vertices RG g) \<and> gr_edge RG g' = gr_edge RG g"
    if r: "gr_readable RG g" and add: "gr_AddVertex RG g v = (e, g')" for g v e g'
  proof -
    from r have g: "rg_wf g" unfolding RG_readable .
    show ?thesis
    proof (cases "v \<in> fst ` set g")
      case True
      then have "e \<noteq> None" using add by (auto simp: rg_AddVertex_def)
      then show ?thesis using True by (simp add: RG_vertices[OF g])
    next
      case False
      then have "rg_AddVertex g v = (None, g')" "e = None" using add by (auto simp: rg_AddVertex_def)
      from rg_AddVertex_ok[OF g this(1)] this(2) show ?thesis
        by (simp add: RG_vertices[OF g] RG_vertices RG_readable)
    qed
  qed
  then show "graph_vertex_law RG" unfolding graph_vertex_law_def by blast
next
  have "if edge_allowed RG g u v
         then e = None \<and> gr_readable RG g' \<and> gr_vertices RG g' = gr_vertices RG g \<and>
           (\<forall>a b. gr_edge RG g' a b =
              (if a = u \<and> b = v
               then map_option (\<lambda>p. \<lparr>ed_Source = u, ed_Target = v, ed_Properties = p\<rparr>) (f (Some \<lparr>ep_Data = None\<rparr>))
               else gr_edge RG g a b))
         else e \<noteq> None"
    if r: "gr_readable RG g" and add: "gr_AddEdge RG g u v f = (e, g')" for g u v f e g'
  proof -
    from r have g: "rg_wf g" unfolding RG_readable .
    have allowed: "edge_allowed RG g u v \<longleftrightarrow> e = None"
    proof (cases e)
      case None
      with add rg_AddEdge_accepted[of g u v f g'] show ?thesis
        by (simp add: edge_allowed_def RG_vertices[OF g] RG_edges[OF g] RG_edge[OF g] map_of_eq_None_iff)
    next
      case (Some x)
      with add rg_AddEdge_refused[of g u v f x g'] show ?thesis
        by (auto simp: edge_allowed_def RG_vertices[OF g] RG_edges[OF g] RG_edge[OF g] map_of_eq_None_iff)
    qed
    show ?thesis
    proof (cases e)
      case None
      with add have "rg_AddEdge g u v f = (None, g')" by simp
      note new = rg_AddEdge_edge[OF g this]
      show ?thesis using allowed None new
        by (simp add: RG_readable RG_vertices[OF g] RG_vertices[OF new(1)] RG_edge[OF g] RG_edge[OF new(1)])
    qed (simp add: allowed)
  qed
  then show "graph_edge_law RG" unfolding graph_edge_law_def by blast
next
  have "\<exists>vs. gr_TopologicalSort RG g = Inr vs \<and> distinct vs \<and> set vs = gr_vertices RG g \<and>
      (\<forall>i j. i < length vs \<longrightarrow> j < length vs \<longrightarrow> (vs ! i, vs ! j) \<in> gr_edges RG g \<longrightarrow> i < j)"
    if r: "gr_readable RG g" and acy: "acyclic (gr_edges RG g)" for g
  proof -
    from r have g: "rg_wf g" unfolding RG_readable .
    have "distinct (map fst g)" using g by (simp add: rg_wf_def)
    moreover obtain vs where "rg_topo (length g) g (map fst g) = Some vs"
      using rg_topo_total[of g "map fst g" "length g"] acy calculation unfolding RG_edges[OF g] by auto
    ultimately show ?thesis using rg_topo_ok[of "length g" g "map fst g" vs]
      by (simp add: RG_vertices[OF g] RG_edges[OF g])
  qed
  then show "graph_sort_law RG" unfolding graph_sort_law_def by blast
qed

end
