(* ===== verification/Reference_Env.thy ===== *)
theory Reference_Env
  imports NodeLinks_State NodeLinks_Plan Reference_Kernel Reference_Graph
begin

text \<open>
  Instances of the remaining interfaces that satisfy their laws: the Kubernetes helper packages, the
  slice helpers and an API server that stores what it is sent. With the reference kernel and graph
  they make an environment in which the controllers run, for the concrete runs of the development.
\<close>

subsection \<open>Helper packages\<close>

definition rl_SetStatusCondition :: "Condition \<Rightarrow> Condition list \<Rightarrow> Condition list" where
  "rl_SetStatusCondition c cs =
     (if list_ex (\<lambda>d. c_Type d = c_Type c) cs then map (\<lambda>d. if c_Type d = c_Type c then c else d) cs else cs @ [c])"

definition rl_IsNotFound :: "goerror \<Rightarrow> bool" where
  "rl_IsNotFound e \<longleftrightarrow> (case e of ApiStatusError r _ \<Rightarrow> r = ''NotFound'' | _ \<Rightarrow> False)"

definition rl_owner :: "Node \<Rightarrow> OwnerReference" where
  "rl_owner n = \<lparr>or_Kind = ''Node'', or_Name = Node_Name n, or_UID = m_UID (nd_Meta n), or_BlockOwnerDeletion = True\<rparr>"

definition rl_SetOwnerReference :: "Node \<Rightarrow> NodeLinks \<Rightarrow> goerror + NodeLinks" where
  "rl_SetOwnerReference n x =
     Inr (if rl_owner n \<in> set (m_OwnerReferences (nk_Meta x)) then x
          else x\<lparr>nk_Meta := (nk_Meta x)\<lparr>m_OwnerReferences := m_OwnerReferences (nk_Meta x) @ [rl_owner n]\<rparr>\<rparr>)"

definition RL :: k8s_lib where
  "RL = \<lparr>lib_SetStatusCondition = rl_SetStatusCondition,
     lib_IsStatusConditionTrue = (\<lambda>cs t. case cond_of t cs of None \<Rightarrow> False | Some c \<Rightarrow> c_Status c = ConditionTrue),
     lib_AddFinalizer = (\<lambda>f fs. if f \<in> set fs then (False, fs) else (True, fs @ [f])),
     lib_RemoveFinalizer = (\<lambda>f. filter (\<lambda>x. x \<noteq> f)),
     lib_ContainsFinalizer = (\<lambda>fs f. f \<in> set fs),
     lib_IsNotFound = rl_IsNotFound,
     lib_IgnoreNotFound = (\<lambda>e. if rl_IsNotFound e then None else Some e),
     lib_DeepEqual_NodeLinks = (=), lib_DeepEqual_NodeLinksStatus = (=),
     lib_DeepEqual_Link = (=), lib_DeepEqual_LinkStatus = (=),
     lib_SetOwnerReference = rl_SetOwnerReference\<rparr>"

lemma rl_SetStatusCondition_of:
  "cond_of t (rl_SetStatusCondition c cs) = (if t = c_Type c then Some c else cond_of t cs)"
proof -
  let ?upd = "map (\<lambda>d. if c_Type d = c_Type c then c else d) cs"
  have upd: "cond_of t ?upd = (if t = c_Type c \<and> list_ex (\<lambda>d. c_Type d = c_Type c) cs then Some c else cond_of t cs)"
    by (induction cs) (auto simp: cond_of_def)
  have app: "cond_of t (cs @ [c]) = (if t = c_Type c then Some c else cond_of t cs)"
    if "\<not> list_ex (\<lambda>d. c_Type d = c_Type c) cs"
    using that by (induction cs) (auto simp: cond_of_def)
  show ?thesis using upd app by (auto simp: rl_SetStatusCondition_def)
qed

lemma rl_SetOwnerReference_meta:
  "rl_SetOwnerReference n x = Inr y \<Longrightarrow> \<exists>rs. nk_Meta y = (nk_Meta x)\<lparr>m_OwnerReferences := rs\<rparr>"
  by (cases "rl_owner n \<in> set (m_OwnerReferences (nk_Meta x))")
    (auto simp: rl_SetOwnerReference_def intro: exI[of _ "m_OwnerReferences (nk_Meta x)"])

lemma RL_laws: "k8s_laws RL"
proof -
  have owner: "nk_Spec y = nk_Spec x \<and> nk_Status y = nk_Status x \<and> Node_Name n \<in> or_Name ` set (m_OwnerReferences (nk_Meta y)) \<and>
      (\<exists>rs. nk_Meta y = (nk_Meta x)\<lparr>m_OwnerReferences := rs\<rparr>)" if "rl_SetOwnerReference n x = Inr y" for n x y
  proof (intro conjI)
    show "nk_Spec y = nk_Spec x" "nk_Status y = nk_Status x" using that by (auto simp: rl_SetOwnerReference_def)
    have "or_Name (rl_owner n) = Node_Name n" by (simp add: rl_owner_def)
    moreover have "rl_owner n \<in> set (m_OwnerReferences (nk_Meta y))" using that by (auto simp: rl_SetOwnerReference_def)
    ultimately show "Node_Name n \<in> or_Name ` set (m_OwnerReferences (nk_Meta y))" by (metis imageI)
    show "\<exists>rs. nk_Meta y = (nk_Meta x)\<lparr>m_OwnerReferences := rs\<rparr>" by (rule rl_SetOwnerReference_meta[OF that])
  qed
  have "lib_SetOwnerReference RL = rl_SetOwnerReference" by (simp add: RL_def)
  then show ?thesis unfolding k8s_laws_def
    by (intro conjI allI impI owner; simp add: RL_def rl_SetStatusCondition_of says_def)
qed

definition RP :: pie_lib where
  "RP = \<lparr>pie_Map_refs = map, pie_Map_links = map, pie_Map_nodes = map, pie_Filter_refs = filter, pie_Filter_strings = filter,
     pie_Diff = (\<lambda>xs ys. (fold remove1 xs ys, fold remove1 ys xs)), pie_Unique = remdups,
     pie_Keys = map fst, pie_Values = map snd\<rparr>"

lemma mset_fold_remove1: "mset (fold remove1 ys xs) = mset xs - mset ys"
  by (induction ys arbitrary: xs) auto

lemma RP_laws: "pie_laws RP"
  by (simp add: pie_laws_def RP_def mset_fold_remove1)

subsection \<open>The API server\<close>

record rstore =
  rs_links :: "(string \<times> Link) list"
  rs_nodeLinks :: "(string \<times> NodeLinks) list"
  rs_nodes :: "Node list"
  rs_refuses :: bool

definition rs_lookup :: "(string \<times> 'x) list \<Rightarrow> string \<Rightarrow> goerror + 'x" where
  "rs_lookup m n = (case map_of m n of Some x \<Rightarrow> Inr x | None \<Rightarrow> Inl (ApiStatusError ''NotFound'' n))"

definition rs_put_nodeLinks :: "rstore \<Rightarrow> NodeLinks \<Rightarrow> (goerror + NodeLinks) \<times> rstore" where
  "rs_put_nodeLinks a x =
     (if rs_refuses a then (Inl (ApiStatusError ''Conflict'' ''''), a)
      else (Inr x, a\<lparr>rs_nodeLinks := AList.update (m_Name (nk_Meta x)) x (rs_nodeLinks a)\<rparr>))"

definition rs_put_link :: "rstore \<Rightarrow> Link \<Rightarrow> (goerror + Link) \<times> rstore" where
  "rs_put_link a x =
     (if rs_refuses a then (Inl (ApiStatusError ''Conflict'' ''''), a)
      else (Inr x, a\<lparr>rs_links := AList.update (Link_Name x) x (rs_links a)\<rparr>))"

definition rs_create_or_patch :: "rstore \<Rightarrow> string \<Rightarrow> (NodeLinks \<Rightarrow> goerror + NodeLinks) \<Rightarrow> goerror option \<times> rstore" where
  "rs_create_or_patch a n f =
     (let x = (case map_of (rs_nodeLinks a) n of Some x \<Rightarrow> x
         | None \<Rightarrow> \<lparr>nk_Meta = named_meta n, nk_Spec = \<lparr>nk_MatchingLinks = []\<rparr>,
             nk_Status = \<lparr>ns_Conditions = [], ns_NetlinkLinkConditions = Map.empty, ns_LastAttemptedNetlinkLinks = []\<rparr>\<rparr>) in
      case f x of Inl e \<Rightarrow> (Some e, a)
      | Inr y \<Rightarrow> if rs_refuses a then (Some (ApiStatusError ''Conflict'' n), a)
          else (None, a\<lparr>rs_nodeLinks := AList.update n y (rs_nodeLinks a)\<rparr>))"

definition RC :: "rstore api_client" where
  "RC = \<lparr>api_GetNodeLinks = (\<lambda>a n. case rs_lookup (rs_nodeLinks a) n of Inl e \<Rightarrow> Inl e
       | Inr x \<Rightarrow> if m_Name (nk_Meta x) = n then Inr x else Inl (OtherError ''store'')),
     api_GetLink = (\<lambda>a n. case rs_lookup (rs_links a) n of Inl e \<Rightarrow> Inl e
       | Inr x \<Rightarrow> if Link_Name x = n then Inr x else Inl (OtherError ''store'')),
     api_GetNode = (\<lambda>a n. rs_lookup (map (\<lambda>x. (Node_Name x, x)) (rs_nodes a)) n),
     api_ListNodes = (\<lambda>a sel. Inr (filter (\<lambda>x. \<forall>kv \<in> set (sel_MatchLabels sel). kv \<in> set (m_Labels (nd_Meta x))) (rs_nodes a))),
     api_ListLinks = (\<lambda>a. Inr (map snd (rs_links a))),
     api_LabelSelectorError = (\<lambda>sel. None),
     api_PatchNodeLinks = (\<lambda>a x base. rs_put_nodeLinks a x),
     api_PatchNodeLinksStatus = (\<lambda>a x base. rs_put_nodeLinks a x),
     api_PatchLink = (\<lambda>a x base. rs_put_link a x),
     api_PatchLinkStatus = (\<lambda>a x base. rs_put_link a x),
     api_DeleteNodeLinks = (\<lambda>a x. (None, a\<lparr>rs_nodeLinks := filter (\<lambda>(n, _). n \<noteq> m_Name (nk_Meta x)) (rs_nodeLinks a)\<rparr>)),
     api_CreateOrPatchNodeLinks = rs_create_or_patch\<rparr>"

lemma RC_laws: "get_law RC" "status_patch_law RC"
  by (auto simp: get_law_def status_patch_law_def RC_def rs_put_nodeLinks_def split: sum.splits if_splits)

subsection \<open>The environment of the NodeLinks controller\<close>

definition RE :: "(rk_state, rg, rstore) nenv" where
  "RE = \<lparr>ne_netlink = RK, ne_graph = RG, ne_client = RC, ne_k8s = RL, ne_pie = RP, ne_pie_Map = traverse,
     ne_range = (\<lambda>site ks. ks), ne_nodeName = ''node1'', ne_ResyncInterval = 300\<rparr>"

lemma RE_sel [simp]:
  "ne_netlink RE = RK" "ne_graph RE = RG" "ne_client RE = RC" "ne_k8s RE = RL" "ne_pie RE = RP"
  "ne_pie_Map RE = traverse" "ne_range RE = (\<lambda>site ks. ks)" "ne_nodeName RE = ''node1''" "ne_ResyncInterval RE = 300"
  by (simp_all add: RE_def)

lemma RE_ok: "nenv_ok RE"
  by (simp add: nenv_ok_def RL_laws RP_laws netlink_laws_types[OF RK_laws] range_law_def)

end
