(* ===== verification/NodeLinks_Examples.thy ===== *)
theory NodeLinks_Examples
  imports Manager_Properties NodeLinks_Repeat NodeLinks_Patches Reference_Env
begin

text \<open>
  Concrete runs of the NodeLinks controller in the reference environment \<open>RE\<close>: a node without links and
  a resource that lists a bridge, the deletion of that resource, and the states in between.
\<close>

subsection \<open>States\<close>

definition ex_nodeLinks :: "string list \<Rightarrow> string list \<Rightarrow> NodeLinks" where
  "ex_nodeLinks matching attempted =
     \<lparr>nk_Meta = (named_meta ''node1'')\<lparr>m_Finalizers := [nodeLinksFinalizerName]\<rparr>,
      nk_Spec = \<lparr>nk_MatchingLinks = matching\<rparr>,
      nk_Status = \<lparr>ns_Conditions = [], ns_NetlinkLinkConditions = Map.empty, ns_LastAttemptedNetlinkLinks = attempted\<rparr>\<rparr>"

definition ex_deleted :: "string list \<Rightarrow> NodeLinks" where
  "ex_deleted attempted =
     (ex_nodeLinks [] attempted)\<lparr>nk_Meta := (named_meta ''node1'')\<lparr>m_Finalizers := [nodeLinksFinalizerName],
        m_DeletionTimestamp := Some 1\<rparr>\<rparr>"

definition ex_state :: "link_map \<Rightarrow> NodeLinks \<Rightarrow> nlink list \<Rightarrow> (rk_state, rstore) nstate" where
  "ex_state links n ls =
     \<lparr>nn_world = rk_world ls,
      nn_api = \<lparr>store = \<lparr>rs_links = links, rs_nodeLinks = [(''node1'', n)], rs_nodes = [], rs_refuses = False\<rparr>, api_trace = []\<rparr>,
      nn_watched = {}, nn_events = [], nn_nodeLinks = n, nn_clusterState = n, nn_allDependenciesExist = False\<rparr>"

lemmas libs = RE_def RC_def RL_def RP_def RG_def
lemmas plan_defs = getLinkResources_def rs_lookup_def validateLinks_def validate_link_def range_map_def map_filter_simps
  getLinkManager_def bridge_IsManaged_def bridge_GetDependencies_def errors_Join_def setLinkCondition_def
  set_NodeLinks_condition_def buildDesiredLinkGraph_def getTopolgicallySortedLinkNames_def rg_AddVertex_def rg_wf_def
lemmas reconcile_defs = NodeLinks_Reconcile_def DeletionTimestamp_IsZero_def NodeLinks_handleUpsert_def add_finalizer_def
  upd_nodeLinks_def retrieve_and_upsert_def validate_and_plan_def clean_and_upsert_def upsert_and_report_def
  validConfig_condition_def validReady_condition_def rl_SetStatusCondition_def condition_def NodeLinks_handleDeletion_def
lemmas action_defs = updateDependentsMissingDependencies_def update_dependent_def missingRequiredDependencyNames_def
  requiredLinkReferences_def deleteUndesiredLinks_def getUndesiredLinks_def deleteLinks_def delete_bring_down_def delete_delete_def
  bringDownLink_def deleteLink_def forget_link_def nn_nl_do_def updateLastAttemptedLinks_def NodeLinks_patchResource_def
  NodeLinks_patch_main_def NodeLinks_patch_status_def api_write_def rs_put_nodeLinks_def upsertLinks_def upsertLink_def
  upsert_needed_link_def upsert_finish_def nn_upsert_def getOperationalCondition_def bringDownDependents_def BFSWithEdge_def
  bring_down_dependent_def adjacent_def cond_of_def
lemmas state_defs = ex_state_def ex_nodeLinks_def ex_deleted_def
lemmas run_defs = libs state_defs plan_defs reconcile_defs action_defs manager_defs ex_defs rk_defs fun_eq_iff

subsection \<open>Runs\<close>

text \<open>A bridge is created, configured and reported.\<close>

definition ex_start :: "(rk_state, rstore) nstate" where
  "ex_start = ex_state ex_links (ex_nodeLinks [''b''] []) []"

lemma ex_created:
  "\<exists>s'. NodeLinks_Reconcile RE ''node1'' ex_start = Some ((300, None), s') \<and> length (nl_trace (nn_world s')) = 3"
  by (simp add: run_defs ex_start_def)

lemma ex_retrieved:
  "\<exists>s'. retrieve_and_upsert RE ex_start = Some ((300, None), s') \<and> length (nl_trace (nn_world s')) = 3"
  by (simp add: run_defs ex_start_def)

lemma ex_upserted:
  "\<exists>s'. clean_and_upsert RE [(''b'', ex_bridge)] [(''b'', [])] [''b''] ex_start = Some ((300, None), s') \<and>
     length (nl_trace (nn_world s')) = 3"
  by (simp add: run_defs ex_start_def)

text \<open>The bridge is brought down and deleted with the resource.\<close>

definition ex_end :: "(rk_state, rstore) nstate" where
  "ex_end = ex_state [] (ex_deleted [''br0'']) [rk_br0, rk_eth0]"

lemma ex_removed:
  "\<exists>s' l. NodeLinks_handleDeletion RE ex_end = Some ((0, None), s') \<and>
     nl_trace (nn_world s') = [LinkSetDown rk_br0, LinkDel l] \<and> kern (nn_world s') = [rk_eth0] \<and>
     length (api_trace (nn_api s')) = 1"
  by (simp add: run_defs ex_end_def named_meta_def)

lemma ex_deleted_links:
  "\<exists>s' l. deleteLinks RE [''br0''] ex_end = Some (None, s') \<and> nl_trace (nn_world s') = [LinkSetDown rk_br0, LinkDel l]"
  by (simp add: run_defs ex_end_def)

text \<open>Two bridges that claim one interface are not touched.\<close>

definition ex_clash :: link_map where
  "ex_clash = [(''b'', ex_bridge), (''c'', ex_bridge\<lparr>lk_Meta := named_meta ''c''\<rparr>)]"

lemma ex_rejected:
  "\<exists>r s'. retrieve_and_upsert RE (ex_state ex_clash (ex_nodeLinks [''b'', ''c''] []) []) = Some (r, s') \<and>
     getLinkResources RE (ex_state ex_clash (ex_nodeLinks [''b'', ''c''] []) []) = Inr ex_clash"
  by (simp add: run_defs ex_clash_def)

lemma ex_validated: "\<exists>err s'. validateLinks RE ex_clash ex_start = Some (err, s')"
  by (simp add: run_defs ex_clash_def ex_start_def)

lemma ex_clash_invalid: "\<not> valid_links ex_clash"
  by (simp add: valid_links_def ex_clash_def is_managed_def getLinkManager_def bridge_IsManaged_def ex_defs)

text \<open>The dependency graph of a bridge, an unmanaged device and a VXLAN on both.\<close>

lemma ex_sorted: "\<exists>g names. buildDesiredLinkGraph RE ex_links = Some (Inr g) \<and> getTopolgicallySortedLinkNames RE g = Inr names"
  by (simp add: run_defs vxlan_defs vxlan_GetDependencies_def unmanaged_GetDependencies_def rg_AddEdge_def adjacent_def bfs_visits_def setData_def)

text \<open>A state in which the dependencies of the bridge were found.\<close>

definition ex_ready :: "(rk_state, rstore) nstate" where
  "ex_ready = set_link RE ''br0'' (condition DependencyLinksAvailable ConditionTrue AllDependencyLinksAvailable (WithNames [])) ex_start"

lemma ex_upserted_link: "\<exists>s'. upsertLink RE ex_links [(''b'', [])] ''b'' ex_ready = Some (None, s')"
  by (simp add: run_defs ex_start_def ex_ready_def)

lemma ex_patched: "\<exists>s'. NodeLinks_patchResource RE ex_ready = (None, s')"
  by (simp add: run_defs ex_start_def ex_ready_def)

text \<open>A node whose bridge is there as it should be.\<close>

definition ex_settled :: "(rk_state, rstore) nstate" where
  "ex_settled = ex_state ex_links (ex_nodeLinks [''b''] [''br0'']) [rk_br0]"

lemma ex_settled_run:
  "\<exists>r s'. retrieve_and_upsert RE ex_settled = Some (r, s') \<and> getLinkResources RE ex_settled = Inr [(''b'', ex_bridge)]"
  by (simp add: run_defs ex_settled_def)

lemma ex_settled_bridge:
  "no_missing [(''b'', ex_bridge)] ex_bridge \<and>
   IsUpsertNeeded RK (manager_of ex_bridge) (kern (nn_world ex_settled)) [(''b'', ex_bridge)] = Some (Inr False)"
  by (simp add: no_missing_def deps_of_def ex_manager_of)
    (simp add: getLinkManager_def bridge_GetDependencies_def bridge_IsUpsertNeeded_def ex_settled_def state_defs ex_defs rk_defs)

text \<open>A VXLAN whose required master and device are not on the node.\<close>

definition ex_lonely :: link_map where
  "ex_lonely = [(''v'', ex_vxlan)]"

definition ex_lonely_start :: "(rk_state, rstore) nstate" where
  "ex_lonely_start = ex_state ex_lonely (ex_nodeLinks [''v''] []) []"

lemma ex_lonely_run:
  "\<exists>r s' obj base c. clean_and_upsert RE ex_lonely [(''v'', [])] [''v''] ex_lonely_start = Some (r, s') \<and>
     PatchNodeLinksStatus obj base \<in> set (api_trace (nn_api s')) \<and> cond_of Ready (ns_Conditions (nk_Status obj)) = Some c \<and>
     \<not> deps_ok (nn_nodeLinks s') ''vx0''"
  by (simp add: run_defs ex_lonely_def ex_lonely_start_def vxlan_GetDependencies_def vxlan_IsManaged_def deps_ok_def link_cond_def
      NodeLinks_handleError_def)
    (rule exI, rule conjI, rule exI, rule disjI1, rule conjI, rule refl, rule refl, simp)

text \<open>A VXLAN that refers to one bridge twice.\<close>

definition ex_double_vxlan :: Link where
  "ex_double_vxlan = ex_link ''v'' ''vx0''
     \<lparr>sp_Bridge = None, sp_VXLAN = Some (ex_vxspecs\<lparr>vx_Device := Some (ex_ref ''b'')\<rparr>), sp_Unmanaged = None\<rparr>"

definition ex_double :: link_map where
  "ex_double = [(''b'', ex_bridge), (''v'', ex_double_vxlan)]"

text \<open>
  The VXLAN \<open>x\<close> has the bridge \<open>b\<close> as its master and the VXLAN \<open>v\<close> as its device; \<open>v\<close> is on \<open>b\<close> too.
  Only the reference from \<open>x\<close> to \<open>v\<close> asks for \<open>x\<close> to be brought down.
\<close>

definition ex_down_ref :: LinkReference where
  "ex_down_ref = (ex_ref ''v'')\<lparr>ref_SetDownOnDependencyChainUpdate := True\<rparr>"

definition ex_chain_v :: Link where
  "ex_chain_v = ex_link ''v'' ''vx0''
     \<lparr>sp_Bridge = None, sp_VXLAN = Some (ex_vxspecs\<lparr>vx_Device := None\<rparr>), sp_Unmanaged = None\<rparr>"

definition ex_chain_x :: Link where
  "ex_chain_x = ex_link ''x'' ''vx1''
     \<lparr>sp_Bridge = None, sp_VXLAN = Some (ex_vxspecs\<lparr>vx_Device := Some ex_down_ref\<rparr>), sp_Unmanaged = None\<rparr>"

definition ex_chain :: link_map where
  "ex_chain = [(''b'', ex_bridge), (''v'', ex_chain_v), (''x'', ex_chain_x)]"

definition ex_edge :: "string \<Rightarrow> string \<Rightarrow> LinkReference \<Rightarrow> string \<times> Edge" where
  "ex_edge u v d = (v, \<lparr>ed_Source = u, ed_Target = v, ed_Properties = \<lparr>ep_Data = Some d\<rparr>\<rparr>)"

definition ex_chain_graph :: rg where
  "ex_chain_graph =
     [(''b'', [ex_edge ''b'' ''v'' (ex_ref ''b''), ex_edge ''b'' ''x'' (ex_ref ''b'')]),
      (''v'', [ex_edge ''v'' ''x'' ex_down_ref]), (''x'', [])]"

definition ex_chain_start :: "(rk_state, rstore) nstate" where
  "ex_chain_start = ex_state ex_chain (ex_nodeLinks [''b'', ''v'', ''x''] [])
     [rk_br0, NlVxlan (rk_default\<lparr>la_Index := 5, la_Name := ''vx1'', la_FlagUp := True\<rparr>) rk_vx]"

lemmas ex_chain_defs = ex_chain_def ex_chain_v_def ex_chain_x_def ex_chain_graph_def ex_chain_start_def ex_edge_def
  ex_down_ref_def ex_defs

lemma ex_chain_built: "buildDesiredLinkGraph RE ex_chain = Some (Inr ex_chain_graph)"
  by (simp add: run_defs ex_chain_defs vxlan_defs vxlan_GetDependencies_def rg_AddEdge_def adjacent_def bfs_visits_def setData_def)

lemma ex_chain_run: "\<exists>s'. bringDownDependents RE ''b'' ex_chain ex_chain_graph ex_chain_start = Some (None, s')"
  by (simp add: run_defs ex_chain_defs)

lemma ex_chain_reference:
  "\<exists>l d. map_of ex_chain ''x'' = Some l \<and> d \<in> set (deps_of l) \<and> ref_Name d = ''v'' \<and> ref_SetDownOnDependencyChainUpdate d"
  by (intro exI[of _ ex_chain_x] exI[of _ ex_down_ref])
    (simp add: ex_chain_defs deps_of_def getLinkManager_def vxlan_GetDependencies_def)

text \<open>An unmanaged resource that names the interface of a VXLAN.\<close>

definition ex_shared_w :: Link where
  "ex_shared_w = ex_link ''w'' ''vx0'' \<lparr>sp_Bridge = None, sp_VXLAN = None, sp_Unmanaged = Some UnmanagedSpec\<rparr>"

definition ex_shared :: link_map where
  "ex_shared = [(''v'', ex_vxlan), (''w'', ex_shared_w)]"

lemmas ex_shared_defs = ex_shared_def ex_shared_w_def ex_defs deps_of_def getLinkManager_def vxlan_GetDependencies_def
  unmanaged_GetDependencies_def has_manager_def is_managed_def unmanaged_IsManaged_def

lemma ex_shared_missing: "\<not> no_missing ex_shared ex_vxlan" and ex_shared_none: "no_missing ex_shared ex_shared_w"
  by (simp_all add: no_missing_def ex_shared_defs)

lemma ex_shared_valid: "valid_links ex_shared"
  by (auto simp: valid_links_def ex_shared_defs)

lemma ex_shared_run: "\<exists>s'. updateDependentsMissingDependencies RE [''v'', ''w''] ex_shared ex_start = Some (None, s')"
  by (simp add: run_defs ex_shared_defs ex_start_def vxlan_IsManaged_def)

lemma ex_shared_added:
  "\<exists>s' s2 r l. updateDependentsMissingDependencies RE [''v'', ''w''] ex_shared ex_start = Some (None, s') \<and>
     IsUpsertNeeded RK (manager_of ex_vxlan) (kern (nn_world s')) ex_shared = Some (Inr True) \<and>
     upsertLink RE ex_shared [(''v'', []), (''w'', [])] ''v'' s' = Some (r, s2) \<and> LinkAdd l \<in> set (nl_trace (nn_world s2))"
  by (simp add: run_defs ex_shared_defs ex_start_def vxlan_IsManaged_def vxlan_defs vxlan_IsUpsertNeeded_def manager_of_def)

lemma RK_absent: "absent_law RK"
proof -
  have absent: "absent RK k n \<longleftrightarrow> rk_wf k \<and> (\<forall>l \<in> set k. rk_name l \<noteq> n)" for k n
    by (auto simp: absent_def rk_by_name_def find_None_iff find_Some_iff split: option.splits)
  have "absent RK k' n" if "absent RK k n" "rk_exec k c = (None, k')" "\<forall>l. c \<noteq> LinkAdd l" for k n c k'
    using that unfolding absent by (cases c) (auto simp: rk_exec_None rk_step_def split: if_splits; blast)+
  then show ?thesis by (auto simp: absent_law_def)
qed

text \<open>A VXLAN that asks for the MTU of its device, ready to be upserted.\<close>

definition ex_large_ready :: "(rk_state, rstore) nstate" where
  "ex_large_ready = set_link RE ''vx0'' (condition DependencyLinksAvailable ConditionTrue AllDependencyLinksAvailable (WithNames []))
     (ex_state ex_large_links (ex_nodeLinks [''b'', ''u'', ''v''] []) [rk_eth0, rk_br0])"

lemma ex_large_upserted:
  "\<exists>s'. upsertLink RE ex_large_links [(''v'', [])] ''v'' ex_large_ready = Some (None, s') \<and> kern (nn_world s') = [rk_eth0, rk_br0, rk_large 1450]"
proof -
  obtain w1 where w1: "vxlan_Upsert RK ex_large ex_large_links (rk_world [rk_eth0, rk_br0]) = Some (None, w1)"
    "kern w1 = [rk_eth0, rk_br0, rk_large 1450]" using ex_large_first by blast
  have link: "map_of ex_large_links ''v'' = Some ex_large" "LinkName ex_large = ''vx0''" "Link_Name ex_large = ''v''"
    "getLinkManager ex_large = Inr (VXLANManager ex_large)"
    by (simp_all add: ex_large_defs ex_defs getLinkManager_def)
  have needed: "vxlan_IsUpsertNeeded RK ex_large [rk_eth0, rk_br0] ex_large_links = Some (Inr True)"
    by (simp add: vxlan_IsUpsertNeeded_def ex_large_defs ex_defs rk_defs)
  have up: "getOperationalCondition RK [rk_eth0, rk_br0, rk_large 1450] ''vx0'' =
      Some (condition OperationallyUp ConditionFalse LinkDown (WithNames [''down'']))"
    by (simp add: getOperationalCondition_def ex_large_defs rk_defs)
  have world: "nn_world ex_large_ready = rk_world [rk_eth0, rk_br0]" "kern (rk_world [rk_eth0, rk_br0]) = [rk_eth0, rk_br0]"
    by (simp_all add: ex_large_ready_def ex_state_def upd_nodeLinks_def rk_world_def)
  obtain cs where cs: "NetlinkLinkConditions (nn_nodeLinks ex_large_ready) ''vx0'' = Some cs"
    "lib_IsStatusConditionTrue RL cs DependencyLinksAvailable"
    by (simp add: ex_large_ready_def state_defs upd_nodeLinks_def setLinkCondition_def RL_def rl_SetStatusCondition_def cond_of_def condition_def)
  have down: "bringDownDependents RE ''v'' ex_large_links [(''v'', [])] ex_large_ready = Some (None, ex_large_ready)"
    by (simp add: bringDownDependents_def link BFSWithEdge_def bring_down_dependent_def adjacent_def rg_wf_def)
  show ?thesis
    by (simp add: upsertLink_def link cs needed world upsert_needed_link_def down nn_upsert_def w1 upsert_finish_def up Let_def)
qed

end
