(* ===== verification/Link_State.thy ===== *)
theory Link_State
  imports NodeLinks_State Resource_Patch
begin

text \<open>
  The state of one reconciliation of the Link controller (\<open>link_controller.go\<close>), its \<open>patchResource\<close>
  and \<open>handleError\<close>. Nothing in this controller dereferences a pointer that can be nil, so its steps
  always return. The \<open>ctrl.Result\<close> of every path is the empty one; a result is an error or nil.
\<close>

subsection \<open>State\<close>

record 'a lstate =
  ln_api :: "'a aworld"
  ln_events :: "goerror list"
  ln_link :: Link
  ln_clusterState :: Link

type_synonym 'a lstep = "'a lstate \<Rightarrow> goerror option \<times> 'a lstate"

text \<open>
  The libraries. \<open>le_pie_Map_names\<close> and \<open>le_pie_Map_nodes\<close> are \<open>pie.Map\<close> on names and on nodes with a
  callback that has effects.
\<close>

record 'a lenv =
  le_client :: "'a api_client"
  le_k8s :: k8s_lib
  le_pie :: pie_lib
  le_pie_Map_names :: "(string \<Rightarrow> 'a lstep) \<Rightarrow> string list \<Rightarrow> 'a lstate \<Rightarrow> goerror option list \<times> 'a lstate"
  le_pie_Map_nodes :: "(Node \<Rightarrow> 'a lstep) \<Rightarrow> Node list \<Rightarrow> 'a lstate \<Rightarrow> goerror option list \<times> 'a lstate"

definition lenv_ok :: "'a lenv \<Rightarrow> bool" where
  "lenv_ok E \<longleftrightarrow> k8s_laws (le_k8s E) \<and> pie_laws (le_pie E) \<and> le_pie_Map_names E = run_each \<and> le_pie_Map_nodes E = run_each"

lemma lenv_okD:
  assumes "lenv_ok E"
  shows "k8s_laws (le_k8s E)" "pie_laws (le_pie E)" "le_pie_Map_names E = run_each" "le_pie_Map_nodes E = run_each"
  using assms by (simp_all add: lenv_ok_def)

definition linkFinalizerName :: string where
  "linkFinalizerName = ''link.nodenetworkoperator.soliddowant.dev/finalizer''"

definition upd_link :: "(Link \<Rightarrow> Link) \<Rightarrow> 'a lstate \<Rightarrow> 'a lstate" where
  "upd_link f s = s\<lparr>ln_link := f (ln_link s)\<rparr>"

lemma upd_link_sel [simp]:
  "ln_link (upd_link f s) = f (ln_link s)" "ln_api (upd_link f s) = ln_api s"
  "ln_clusterState (upd_link f s) = ln_clusterState s" "ln_events (upd_link f s) = ln_events s"
  by (simp_all add: upd_link_def)

definition set_Link_condition :: "k8s_lib \<Rightarrow> Condition \<Rightarrow> Link \<Rightarrow> Link" where
  "set_Link_condition L c l =
     l\<lparr>lk_Status := (lk_Status l)\<lparr>ls_Conditions := lib_SetStatusCondition L c (ls_Conditions (lk_Status l))\<rparr>\<rparr>"

abbreviation MatchedNodes :: "Link \<Rightarrow> string list" where
  "MatchedNodes l \<equiv> ls_MatchedNodes (lk_Status l)"

definition set_MatchedNodes :: "string list \<Rightarrow> Link \<Rightarrow> Link" where
  "set_MatchedNodes ns l = l\<lparr>lk_Status := (lk_Status l)\<lparr>ls_MatchedNodes := ns\<rparr>\<rparr>"

lemma set_Link_condition_frame [simp]:
  "lk_Meta (set_Link_condition L c l) = lk_Meta l" "lk_Spec (set_Link_condition L c l) = lk_Spec l"
  "MatchedNodes (set_Link_condition L c l) = MatchedNodes l"
  by (simp_all add: set_Link_condition_def)

lemma set_MatchedNodes_frame [simp]:
  "lk_Meta (set_MatchedNodes ns l) = lk_Meta l" "lk_Spec (set_MatchedNodes ns l) = lk_Spec l"
  "MatchedNodes (set_MatchedNodes ns l) = ns" "ls_Conditions (lk_Status (set_MatchedNodes ns l)) = ls_Conditions (lk_Status l)"
  by (simp_all add: set_MatchedNodes_def)

text \<open>The conditions of a Link, by type.\<close>

definition Link_cond :: "cond_type \<Rightarrow> Link \<Rightarrow> Condition option" where
  "Link_cond t l = cond_of t (ls_Conditions (lk_Status l))"

lemma Link_cond_set:
  assumes "k8s_laws L"
  shows "says (Link_cond (c_Type c) (set_Link_condition L c l)) c"
    and "t \<noteq> c_Type c \<Longrightarrow> Link_cond t (set_Link_condition L c l) = Link_cond t l"
  using k8s_condition[OF assms] by (simp_all add: Link_cond_def set_Link_condition_def)

subsection \<open>Patching the resource\<close>

definition Link_patchFailed :: "goerror \<Rightarrow> 'a lstate \<Rightarrow> goerror option \<times> 'a lstate" where
  "Link_patchFailed err s = (Some (Wrapf (LinkMsg PatchLinkFailed) err), s\<lparr>ln_events := ln_events s @ [err]\<rparr>)"

definition Link_patch_main :: "'a lenv \<Rightarrow> 'a lstep" where
  "Link_patch_main E s =
     (let desiredStatus = lk_Status (ln_link s);
          cluster = ln_clusterState s;
          obj = (ln_link s)\<lparr>lk_Status := lk_Status cluster\<rparr>
      in
        if \<not> lib_DeepEqual_Link (le_k8s E) cluster obj
        then (case api_write (PatchLink obj cluster) (\<lambda>a. api_PatchLink (le_client E) a obj cluster) (ln_api s) of
            (Inl err, aw) \<Rightarrow> (Some err, s\<lparr>ln_api := aw, ln_link := obj\<lparr>lk_Status := desiredStatus\<rparr>\<rparr>)
          | (Inr resp, aw) \<Rightarrow>
              (None, s\<lparr>ln_api := aw, ln_clusterState := resp, ln_link := resp\<lparr>lk_Status := desiredStatus\<rparr>\<rparr>))
        else (None, s\<lparr>ln_link := obj\<lparr>lk_Status := desiredStatus\<rparr>\<rparr>))"

definition Link_patch_status :: "'a lenv \<Rightarrow> 'a lstep" where
  "Link_patch_status E s =
     (let cluster = ln_clusterState s; obj = ln_link s in
      if \<not> lib_DeepEqual_LinkStatus (le_k8s E) (lk_Status cluster) (lk_Status obj)
      then (case api_write (PatchLinkStatus obj cluster) (\<lambda>a. api_PatchLinkStatus (le_client E) a obj cluster) (ln_api s) of
          (Inl err, aw) \<Rightarrow>
            (if lib_IsNotFound (le_k8s E) err \<and> \<not> DeletionTimestamp_IsZero (lk_Meta obj) then None else Some err,
             s\<lparr>ln_api := aw\<rparr>)
        | (Inr resp, aw) \<Rightarrow> (None, s\<lparr>ln_api := aw, ln_link := resp\<rparr>))
      else (None, s))"

definition Link_patchResource :: "'a lenv \<Rightarrow> 'a lstep" where
  "Link_patchResource E s =
     (case Link_patch_main E s of
        (Some err, s1) \<Rightarrow> Link_patchFailed err s1
      | (None, s1) \<Rightarrow>
          (case Link_patch_status E s1 of
             (Some err, s2) \<Rightarrow> Link_patchFailed err s2
           | (None, s2) \<Rightarrow> (None, s2\<lparr>ln_clusterState := ln_link s2\<rparr>)))"

definition Link_handleError :: "'a lenv \<Rightarrow> Condition \<Rightarrow> goerror \<Rightarrow> 'a lstep" where
  "Link_handleError E cond err s =
     (case Link_patchResource E (upd_link (set_Link_condition (le_k8s E) cond) s) of
        (perr, s1) \<Rightarrow> (errors_Join [Some err, perr], s1))"

subsection \<open>The contract of patchResource\<close>

lemma Link_patchResource_cases:
  assumes "Link_patchResource E s = (e, s')"
  obtains (main_failed) err s1 where "Link_patch_main E s = (Some err, s1)"
      "e = Some (Wrapf (LinkMsg PatchLinkFailed) err)" "s' = s1\<lparr>ln_events := ln_events s1 @ [err]\<rparr>"
  | (status_failed) s1 err s2 where "Link_patch_main E s = (None, s1)" "Link_patch_status E s1 = (Some err, s2)"
      "e = Some (Wrapf (LinkMsg PatchLinkFailed) err)" "s' = s2\<lparr>ln_events := ln_events s2 @ [err]\<rparr>"
  | (patched) s1 s2 where "Link_patch_main E s = (None, s1)" "Link_patch_status E s1 = (None, s2)"
      "e = None" "s' = s2\<lparr>ln_clusterState := ln_link s2\<rparr>"
proof -
  obtain m s1 where 1: "Link_patch_main E s = (m, s1)" by fastforce
  obtain t s2 where 2: "Link_patch_status E s1 = (t, s2)" by fastforce
  note defs = Link_patchResource_def Link_patchFailed_def
  show thesis
  proof (cases m)
    case (Some err)
    show thesis by (rule main_failed[OF 1[unfolded Some]]) (use assms 1 Some in \<open>simp_all add: defs\<close>)
  next
    case m: None
    show thesis
    proof (cases t)
      case (Some err)
      show thesis by (rule status_failed[OF 1[unfolded m] 2[unfolded Some]]) (use assms 1 2 m Some in \<open>simp_all add: defs\<close>)
    next
      case None
      show thesis by (rule patched[OF 1[unfolded m] 2[unfolded None]]) (use assms 1 2 m None in \<open>simp_all add: defs\<close>)
    qed
  qed
qed

text \<open>
  What the API server promises for the two patches of a Link: the object of the response is the one
  that was patched, and the response to a status patch carries the status that was sent, because this
  controller is its only writer.
\<close>

definition link_patch_law :: "'a api_client \<Rightarrow> bool" where
  "link_patch_law C \<longleftrightarrow>
     (\<forall>a obj base resp a'. api_PatchLink C a obj base = (Inr resp, a') \<longrightarrow> Link_Name resp = Link_Name obj) \<and>
     (\<forall>a obj base resp a'. api_PatchLinkStatus C a obj base = (Inr resp, a') \<longrightarrow>
        Link_Name resp = Link_Name obj \<and> lk_Status resp = lk_Status obj)"

lemma Link_patch_main_frame:
  assumes "Link_patch_main E s = (e, s')" and "k8s_laws (le_k8s E)" and "link_patch_law (le_client E)"
  shows "lk_Status (ln_link s') = lk_Status (ln_link s)" "Link_Name (ln_link s') = Link_Name (ln_link s)"
    "\<exists>cs. api_trace (ln_api s') = api_trace (ln_api s) @ cs \<and> length cs \<le> 1 \<and>
       (\<forall>c \<in> set cs. \<exists>obj. c = PatchLink obj (ln_clusterState s) \<and> lk_Meta obj = lk_Meta (ln_link s))"
proof -
  note D = assms(3)[unfolded link_patch_law_def, THEN conjunct1, rule_format]
  show "lk_Status (ln_link s') = lk_Status (ln_link s)"
    using assms(1) by (auto simp: Link_patch_main_def Let_def split: prod.splits sum.splits if_splits)
  show "Link_Name (ln_link s') = Link_Name (ln_link s)"
    using assms(1) by (auto simp: Link_patch_main_def api_write_def Let_def dest: D split: prod.splits sum.splits if_splits)
  show "\<exists>cs. api_trace (ln_api s') = api_trace (ln_api s) @ cs \<and> length cs \<le> 1 \<and>
       (\<forall>c \<in> set cs. \<exists>obj. c = PatchLink obj (ln_clusterState s) \<and> lk_Meta obj = lk_Meta (ln_link s))"
    using assms(1) by (auto simp: Link_patch_main_def Let_def dest: api_write_trace split: prod.splits sum.splits if_splits)
qed

lemma Link_patch_status_frame:
  assumes "Link_patch_status E s = (e, s')" and "k8s_laws (le_k8s E)" and "link_patch_law (le_client E)"
  shows "lk_Status (ln_link s') = lk_Status (ln_link s)" "Link_Name (ln_link s') = Link_Name (ln_link s)"
    "\<exists>cs. api_trace (ln_api s') = api_trace (ln_api s) @ cs \<and> length cs \<le> 1 \<and>
       (\<forall>c \<in> set cs. \<exists>obj base. c = PatchLinkStatus obj base \<and> lk_Status obj = lk_Status (ln_link s))"
proof -
  note D = assms(3)[unfolded link_patch_law_def, THEN conjunct2, rule_format]
  show "lk_Status (ln_link s') = lk_Status (ln_link s)" "Link_Name (ln_link s') = Link_Name (ln_link s)"
    using assms(1) by (auto simp: Link_patch_status_def api_write_def Let_def dest: D split: prod.splits sum.splits if_splits)
  show "\<exists>cs. api_trace (ln_api s') = api_trace (ln_api s) @ cs \<and> length cs \<le> 1 \<and>
       (\<forall>c \<in> set cs. \<exists>obj base. c = PatchLinkStatus obj base \<and> lk_Status obj = lk_Status (ln_link s))"
    using assms(1) by (auto simp: Link_patch_status_def Let_def dest: api_write_trace split: prod.splits sum.splits if_splits)
qed

text \<open>The requests that a patch of the Link may send.\<close>

fun own_patch :: "'a lstate \<Rightarrow> api_call \<Rightarrow> bool" where
  "own_patch s (PatchLink obj base) \<longleftrightarrow> lk_Meta obj = lk_Meta (ln_link s)"
| "own_patch s (PatchLinkStatus obj base) \<longleftrightarrow> lk_Status obj = lk_Status (ln_link s)"
| "own_patch s _ \<longleftrightarrow> False"

lemma Link_patchResource_frame:
  assumes "Link_patchResource E s = (e, s')" and "k8s_laws (le_k8s E)" and "link_patch_law (le_client E)"
  shows "lk_Status (ln_link s') = lk_Status (ln_link s) \<and> Link_Name (ln_link s') = Link_Name (ln_link s) \<and>
    (\<exists>cs. api_trace (ln_api s') = api_trace (ln_api s) @ cs \<and> length cs \<le> 2 \<and> (\<forall>c \<in> set cs. own_patch s c))"
proof -
  have main: ?thesis if m: "Link_patch_main E s = (x, s1)" and "ln_link s' = ln_link s1" "ln_api s' = ln_api s1" for x s1
    using Link_patch_main_frame[OF m assms(2,3)] that(2,3) by fastforce
  have both: ?thesis if m: "Link_patch_main E s = (x, s1)" and st: "Link_patch_status E s1 = (y, s2)"
    and "ln_link s' = ln_link s2" "ln_api s' = ln_api s2" for x s1 y s2
  proof -
    note M = Link_patch_main_frame[OF m assms(2,3)] and S = Link_patch_status_frame[OF st assms(2,3)]
    from M(3) obtain cs1 where 1: "api_trace (ln_api s1) = api_trace (ln_api s) @ cs1" "length cs1 \<le> 1" "\<forall>c \<in> set cs1. own_patch s c"
      by fastforce
    from S(3) obtain cs2 where 2: "api_trace (ln_api s2) = api_trace (ln_api s1) @ cs2" "length cs2 \<le> 1" "\<forall>c \<in> set cs2. own_patch s c"
      using M(1) by fastforce
    have "api_trace (ln_api s') = api_trace (ln_api s) @ cs1 @ cs2 \<and> length (cs1 @ cs2) \<le> 2 \<and> (\<forall>c \<in> set (cs1 @ cs2). own_patch s c)"
      using 1 2 that(4) by auto
    then show ?thesis using M(1,2) S(1,2) that(3) by (intro conjI exI[of _ "cs1 @ cs2"]) simp_all
  qed
  from assms(1) show ?thesis
  proof (cases rule: Link_patchResource_cases)
    case (main_failed err s1)
    show ?thesis by (rule main[OF main_failed(1)]) (simp_all add: main_failed)
  next
    case (status_failed s1 err s2)
    show ?thesis by (rule both[OF status_failed(1,2)]) (simp_all add: status_failed)
  next
    case (patched s1 s2)
    show ?thesis by (rule both[OF patched(1,2)]) (simp_all add: patched)
  qed
qed

interpretation Link_patch: resource_patch "k8s_laws (le_k8s E) \<and> link_patch_law (le_client E)"
    "Link_patchResource E" ln_link ln_clusterState lk_Status "\<lambda>s. api_trace (ln_api s)" for E :: "'a lenv"
proof unfold_locales
  fix s s' :: "'a lstate" and e
  assume laws: "k8s_laws (le_k8s E) \<and> link_patch_law (le_client E)"
  {
    assume run: "Link_patchResource E s = (e, s')"
    note F = Link_patchResource_frame[OF run conjunct1[OF laws] conjunct2[OF laws]]
    show "lk_Status (ln_link s') = lk_Status (ln_link s)" using F by blast
    show "\<exists>cs. api_trace (ln_api s') = api_trace (ln_api s) @ cs \<and> length cs \<le> 2" using F by blast
  next
    assume "ln_clusterState s = ln_link s"
    then show "Link_patchResource E s = (None, s)"
      by (simp add: Link_patchResource_def Link_patch_main_def Link_patch_status_def Let_def
          k8s_simps[OF conjunct1[OF laws]])
  }
next
  fix s s' :: "'a lstate"
  assume "Link_patchResource E s = (None, s')"
  then show "ln_clusterState s' = ln_link s'" by (cases rule: Link_patchResource_cases) simp_all
qed

lemma Link_handleError_report:
  "Link_handleError E c err s = Link_patch.report E err (upd_link (set_Link_condition (le_k8s E) c) s)"
  by (simp add: Link_handleError_def Link_patch.report_def)

end
