(* ===== verification/Link_Controller.thy ===== *)
theory Link_Controller
  imports Link_State
begin

text \<open>
  The reconciler of Link resources (\<open>link_controller.go\<close>): which nodes a Link matches, the NodeLinks
  resources it is added to and removed from, and \<open>Reconcile\<close>, \<open>handleUpsert\<close> and \<open>handleDeletion\<close> with
  every early return.
\<close>

subsection \<open>Leaving the nodes that no longer match\<close>

text \<open>
  The check whether the finalizer of a NodeLinks resource is orphaned: the resource is being deleted
  and its node does not exist any more.
\<close>

definition drop_orphaned_finalizer :: "'a lenv \<Rightarrow> string \<Rightarrow> 'a \<Rightarrow> NodeLinks \<Rightarrow> goerror + NodeLinks" where
  "drop_orphaned_finalizer E nodeLinksName a nodeLinks =
     (if \<not> DeletionTimestamp_IsZero (nk_Meta nodeLinks) \<and>
         lib_ContainsFinalizer (le_k8s E) (m_Finalizers (nk_Meta nodeLinks)) nodeLinksFinalizerName
      then (case api_GetNode (le_client E) a nodeLinksName of
          Inl err \<Rightarrow>
            if \<not> lib_IsNotFound (le_k8s E) err then Inl (Wrapf (LinkMsg (GetNodeForFinalizer nodeLinksName)) err)
            else Inr (nodeLinks\<lparr>nk_Meta := (nk_Meta nodeLinks)\<lparr>m_Finalizers :=
              lib_RemoveFinalizer (le_k8s E) nodeLinksFinalizerName (m_Finalizers (nk_Meta nodeLinks))\<rparr>\<rparr>)
        | Inr _ \<Rightarrow> Inr nodeLinks)
      else Inr nodeLinks)"

definition without_link :: "'a lenv \<Rightarrow> string \<Rightarrow> NodeLinks \<Rightarrow> NodeLinks" where
  "without_link E linkName n =
     n\<lparr>nk_Spec := (nk_Spec n)\<lparr>nk_MatchingLinks := pie_Filter_strings (le_pie E) (\<lambda>x. x \<noteq> linkName) (MatchingLinks n)\<rparr>\<rparr>"

text \<open>The request that takes the link off the resource: a delete when nothing else is listed, a patch otherwise.\<close>

definition write_without_link :: "'a lenv \<Rightarrow> NodeLinks \<Rightarrow> NodeLinks \<Rightarrow> 'a aworld \<Rightarrow> goerror option \<times> 'a aworld" where
  "write_without_link E cluster n aw =
     (if MatchingLinks n = [] \<and> DeletionTimestamp_IsZero (nk_Meta n)
      then api_write (DeleteNodeLinks n) (\<lambda>a. api_DeleteNodeLinks (le_client E) a n) aw
      else (case api_write (PatchNodeLinks n cluster) (\<lambda>a. api_PatchNodeLinks (le_client E) a n cluster) aw of
          (Inl err, aw') \<Rightarrow> (Some err, aw')
        | (Inr _, aw') \<Rightarrow> (None, aw')))"

definition remove_from_nodeLinks :: "'a lenv \<Rightarrow> string \<Rightarrow> 'a lstep" where
  "remove_from_nodeLinks E nodeLinksName s =
     (let linkName = Link_Name (ln_link s) in
      case api_GetNodeLinks (le_client E) (store (ln_api s)) nodeLinksName of
        Inl err \<Rightarrow>
          if lib_IsNotFound (le_k8s E) err then (None, s)
          else (Some (Wrapf (LinkMsg (GetNodeLinksOfNode nodeLinksName)) err), s)
      | Inr cluster \<Rightarrow>
          (case drop_orphaned_finalizer E nodeLinksName (store (ln_api s)) cluster of
             Inl err \<Rightarrow> (Some err, s)
           | Inr nodeLinks \<Rightarrow>
               (let finalizerRemoved = length (m_Finalizers (nk_Meta nodeLinks)) \<noteq> length (m_Finalizers (nk_Meta cluster)) in
                if linkName \<notin> set (MatchingLinks nodeLinks) \<and> \<not> finalizerRemoved then (None, s)
                else (case write_without_link E cluster (without_link E linkName nodeLinks) (ln_api s) of
                    (Some err, aw) \<Rightarrow> (lib_IgnoreNotFound (le_k8s E) err, s\<lparr>ln_api := aw\<rparr>)
                  | (None, aw) \<Rightarrow>
                      (None, upd_link (\<lambda>l. set_MatchedNodes
                         (pie_Filter_strings (le_pie E) (\<lambda>x. x \<noteq> nodeLinksName) (MatchedNodes l)) l) (s\<lparr>ln_api := aw\<rparr>))))))"

definition unmatched_names :: "'a lenv \<Rightarrow> Link \<Rightarrow> Node list \<Rightarrow> string list" where
  "unmatched_names E link newNodes =
     snd (pie_Diff (le_pie E) (MatchedNodes link) (pie_Map_nodes (le_pie E) Node_Name newNodes))"

definition removeFromUnmatchedNodeLinks :: "'a lenv \<Rightarrow> Node list \<Rightarrow> 'a lstep" where
  "removeFromUnmatchedNodeLinks E newNodes s =
     (case le_pie_Map_names E (remove_from_nodeLinks E) (unmatched_names E (ln_link s) newNodes) s of
        (errs, s1) \<Rightarrow> (map_option (Wrapf (LinkMsg RemoveFromUndesiredNodeLinks)) (errors_Join errs), s1))"

subsection \<open>Joining the nodes that match\<close>

text \<open>The mutation that \<open>CreateOrPatch\<close> applies to the stored (or new) resource.\<close>

definition register_mutation :: "'a lenv \<Rightarrow> Node \<Rightarrow> string \<Rightarrow> NodeLinks \<Rightarrow> goerror + NodeLinks" where
  "register_mutation E node linkName nodeLinks =
     (if \<not> DeletionTimestamp_IsZero (nk_Meta nodeLinks) then Inr nodeLinks
      else (case lib_SetOwnerReference (le_k8s E) node nodeLinks of
          Inl err \<Rightarrow> Inl (Wrapf (LinkMsg SetOwnerReferenceFailed) err)
        | Inr n \<Rightarrow>
            Inr (if linkName \<notin> set (MatchingLinks n)
              then n\<lparr>nk_Spec := (nk_Spec n)\<lparr>nk_MatchingLinks := MatchingLinks n @ [linkName]\<rparr>\<rparr> else n)))"

definition registerWithNodeLinks :: "'a lenv \<Rightarrow> Node \<Rightarrow> 'a lstep" where
  "registerWithNodeLinks E node s =
     (case api_write (CreateOrPatchNodeLinks (Node_Name node))
         (\<lambda>a. api_CreateOrPatchNodeLinks (le_client E) a (Node_Name node) (register_mutation E node (Link_Name (ln_link s))))
         (ln_api s) of
        (Some err, aw) \<Rightarrow> (Some (Wrapf (LinkMsg (CreateOrPatchFailed (Node_Name node))) err), s\<lparr>ln_api := aw\<rparr>)
      | (None, aw) \<Rightarrow> (None, s\<lparr>ln_api := aw\<rparr>))"

definition registerWithMatchedNodeLinks :: "'a lenv \<Rightarrow> Node list \<Rightarrow> 'a lstep" where
  "registerWithMatchedNodeLinks E matchedNodes s =
     (case Link_patchResource E (upd_link (set_MatchedNodes (pie_Map_nodes (le_pie E) Node_Name matchedNodes)) s) of
        (Some err, s1) \<Rightarrow> (Some err, s1)
      | (None, s1) \<Rightarrow>
          (case le_pie_Map_nodes E (registerWithNodeLinks E) matchedNodes s1 of
             (errs, s2) \<Rightarrow> (errors_Join errs, s2)))"

definition getMatchingNodes :: "'a lenv \<Rightarrow> 'a lstate \<Rightarrow> goerror + Node list" where
  "getMatchingNodes E s =
     (let sel = lk_NodeSelector (lk_Spec (ln_link s)) in
      case api_LabelSelectorError (le_client E) sel of
        Some err \<Rightarrow> Inl (Wrapf (LinkMsg ConvertNodeSelector) err)
      | None \<Rightarrow> api_ListNodes (le_client E) (store (ln_api s)) sel)"

definition updateNodeLinks :: "'a lenv \<Rightarrow> 'a lstep" where
  "updateNodeLinks E s =
     (case getMatchingNodes E s of
        Inl err \<Rightarrow> (Some (Wrapf (LinkMsg GetMatchingNodes) err), s)
      | Inr nodes \<Rightarrow>
          (let s1 = upd_link (set_Link_condition (le_k8s E) (condition Ready ConditionUnknown ReconcileStarted NoMessage)) s in
           case removeFromUnmatchedNodeLinks E nodes s1 of
             (Some err, s2) \<Rightarrow> (Some (Wrapf (LinkMsg RemoveFromUndesiredNodeLinks) err), s2)
           | (None, s2) \<Rightarrow>
               (case registerWithMatchedNodeLinks E nodes s2 of
                  (Some err, s3) \<Rightarrow> (Some (Wrapf (LinkMsg RegisterWithNodeLinksFailed) err), s3)
                | (None, s3) \<Rightarrow> (None, s3))))"

subsection \<open>Reconcile\<close>

definition Link_error :: "cond_type \<Rightarrow> cond_reason \<Rightarrow> goerror \<Rightarrow> Condition" where
  "Link_error t reason err = condition t ConditionFalse reason (WithError err)"

definition Link_update_and_report :: "'a lenv \<Rightarrow> 'a lstep" where
  "Link_update_and_report E s =
     (case updateNodeLinks E s of
        (Some err, s1) \<Rightarrow> Link_handleError E (Link_error Ready NodeLinksUpdateFailed err) err s1
      | (None, s1) \<Rightarrow>
          Link_patchResource E (upd_link (set_Link_condition (le_k8s E) (condition Ready ConditionTrue ReconcileSuccessful NoMessage)) s1))"

definition Link_add_finalizer :: "'a lenv \<Rightarrow> 'a lstate \<Rightarrow> bool \<times> 'a lstate" where
  "Link_add_finalizer E s =
     (case lib_AddFinalizer (le_k8s E) linkFinalizerName (m_Finalizers (lk_Meta (ln_link s))) of
        (added, fs) \<Rightarrow> (added, upd_link (\<lambda>l. l\<lparr>lk_Meta := (lk_Meta l)\<lparr>m_Finalizers := fs\<rparr>\<rparr>) s))"

definition Link_handleUpsert :: "'a lenv \<Rightarrow> 'a lstep" where
  "Link_handleUpsert E s =
     (case Link_add_finalizer E s of
        (added, s1) \<Rightarrow>
          if added then
            (case Link_patchResource E s1 of
               (Some err, s2) \<Rightarrow> Link_handleError E (Link_error Ready FinalizerUpdateFailed err) err s2
             | (None, s2) \<Rightarrow> Link_update_and_report E s2)
          else Link_update_and_report E s1)"

definition Link_mark_deleted :: "'a lenv \<Rightarrow> Link \<Rightarrow> Link" where
  "Link_mark_deleted E l =
     (let l' = set_Link_condition (le_k8s E) (condition Cleanup ConditionTrue CleanupSuccessful (WithNames [Link_Name l]))
         (set_Link_condition (le_k8s E) (condition Ready ConditionFalse Deleted (WithNames [Link_Name l])) l)
      in l'\<lparr>lk_Meta := (lk_Meta l')\<lparr>m_Finalizers := lib_RemoveFinalizer (le_k8s E) linkFinalizerName (m_Finalizers (lk_Meta l'))\<rparr>\<rparr>)"

definition Link_handleDeletion :: "'a lenv \<Rightarrow> 'a lstep" where
  "Link_handleDeletion E s =
     (if \<not> lib_ContainsFinalizer (le_k8s E) (m_Finalizers (lk_Meta (ln_link s))) linkFinalizerName then (None, s)
      else (case removeFromUnmatchedNodeLinks E [] s of
          (Some err, s1) \<Rightarrow> Link_handleError E (Link_error Cleanup NodeLinksCleanupFailed err) err s1
        | (None, s1) \<Rightarrow> Link_patchResource E (upd_link (Link_mark_deleted E) s1)))"

definition Link_Reconcile :: "'a lenv \<Rightarrow> string \<Rightarrow> 'a lstep" where
  "Link_Reconcile E name s =
     (case api_GetLink (le_client E) (store (ln_api s)) name of
        Inl err \<Rightarrow> (lib_IgnoreNotFound (le_k8s E) err, s)
      | Inr link \<Rightarrow>
          (let s1 = s\<lparr>ln_link := link, ln_clusterState := link\<rparr> in
           if \<not> DeletionTimestamp_IsZero (lk_Meta link) then Link_handleDeletion E s1 else Link_handleUpsert E s1))"

subsection \<open>What triggers a reconciliation\<close>

text \<open>
  The map functions and predicates of \<open>SetupWithManager\<close>: an event on a node requests every Link, an
  update of a NodeLinks resource that is being deleted requests the Links it lists. Created, deleted
  and generic events of NodeLinks request nothing.
\<close>

definition node_event_requests :: "'a lenv \<Rightarrow> 'a \<Rightarrow> string list" where
  "node_event_requests E a =
     (case api_ListLinks (le_client E) a of Inl _ \<Rightarrow> [] | Inr links \<Rightarrow> pie_Map_links (le_pie E) Link_Name links)"

datatype 'o watch_event = CreateEvent 'o | DeleteEvent 'o | UpdateEvent 'o 'o | GenericEvent 'o

fun node_event_triggers :: "(Node \<Rightarrow> Node \<Rightarrow> bool) \<Rightarrow> Node watch_event \<Rightarrow> bool" where
  "node_event_triggers labelChanged (CreateEvent _) \<longleftrightarrow> True"
| "node_event_triggers labelChanged (DeleteEvent _) \<longleftrightarrow> True"
| "node_event_triggers labelChanged (UpdateEvent old new) \<longleftrightarrow> labelChanged old new"
| "node_event_triggers labelChanged (GenericEvent _) \<longleftrightarrow> False"

definition nodeLinks_event_requests :: "NodeLinks \<Rightarrow> string list" where
  "nodeLinks_event_requests n = MatchingLinks n"

fun nodeLinks_event_triggers :: "NodeLinks watch_event \<Rightarrow> bool" where
  "nodeLinks_event_triggers (CreateEvent _) \<longleftrightarrow> False"
| "nodeLinks_event_triggers (DeleteEvent _) \<longleftrightarrow> False"
| "nodeLinks_event_triggers (UpdateEvent old new) \<longleftrightarrow> m_DeletionTimestamp (nk_Meta new) \<noteq> None"
| "nodeLinks_event_triggers (GenericEvent _) \<longleftrightarrow> False"

end
