(* ===== verification/Link_Tracking.thy ===== *)
theory Link_Tracking
  imports Link_Controller Api_Store
begin

text \<open>
  Every state that a reconciliation of a Link goes through, including those where it stops with an
  error, keeps the relation \<open>tracked\<close>: each node whose NodeLinks resource lists the Link is named by
  the status of the Link, and the Link has the finalizer. So a crash between two requests loses no node.
\<close>

subsection \<open>The invariant\<close>

abbreviation client :: "'a lenv \<Rightarrow> 'a api_client" where
  "client E \<equiv> le_client E"

abbreviation stored :: "'a lstate \<Rightarrow> 'a" where
  "stored s \<equiv> store (ln_api s)"

abbreviation listing :: "'a lenv \<Rightarrow> 'a lstate \<Rightarrow> string \<Rightarrow> string set" where
  "listing E s l \<equiv> listed (le_client E) (store (ln_api s)) l"

abbreviation Finalizers :: "Link \<Rightarrow> string list" where
  "Finalizers l \<equiv> m_Finalizers (lk_Meta l)"

definition link_env_ok :: "'a lenv \<Rightarrow> bool" where
  "link_env_ok E \<longleftrightarrow> lenv_ok E \<and> store_laws (le_client E) (le_k8s E)"

lemma link_env_okD:
  assumes "link_env_ok E"
  shows "lenv_ok E" "store_laws (le_client E) (le_k8s E)" "k8s_laws (le_k8s E)" "pie_laws (le_pie E)"
    "le_pie_Map_names E = run_each" "le_pie_Map_nodes E = run_each"
  using assms by (simp_all add: link_env_ok_def lenv_ok_def)

text \<open>
  The state at hand follows the cluster: the copy of the cluster is the stored object, the Link at hand
  tracks its nodes, and so does the stored one unless no node lists it.
\<close>

definition follows :: "'a lenv \<Rightarrow> string \<Rightarrow> 'a lstate \<Rightarrow> bool" where
  "follows E l s \<longleftrightarrow>
     api_GetLink (le_client E) (stored s) l = Inr (ln_clusterState s) \<and> Link_Name (ln_link s) = l \<and>
     tracks linkFinalizerName (listing E s l) (ln_link s) \<and>
     (listing E s l = {} \<or> tracks linkFinalizerName (listing E s l) (ln_clusterState s))"

lemma follows_tracked: "follows E l s \<Longrightarrow> tracked (le_client E) linkFinalizerName (stored s) l"
  by (auto simp: follows_def tracked_def)

lemma follows_events [simp]: "follows E l (s\<lparr>ln_events := es\<rparr>) = follows E l s"
  by (simp add: follows_def)

lemma follows_upd:
  assumes "follows E l s" and "lk_Meta (f (ln_link s)) = lk_Meta (ln_link s)"
    and "listing E s l \<subseteq> set (MatchedNodes (f (ln_link s)))"
  shows "follows E l (upd_link f s)"
  using assms by (simp add: follows_def tracks_def)

lemma follows_condition: "follows E l s \<Longrightarrow> follows E l (upd_link (set_Link_condition L c) s)"
  by (rule follows_upd) (simp_all add: follows_def tracks_def)

text \<open>A step for the Link \<open>l\<close> that leaves NodeLinks and other Links alone.\<close>

abbreviation link_only :: "'a lenv \<Rightarrow> string \<Rightarrow> 'a lstate \<Rightarrow> 'a lstate \<Rightarrow> bool" where
  "link_only E l s s' \<equiv> only_link (le_client E) l (stored s) (stored s')"

lemma only_link_refl [simp]: "only_link C l a a"
  by (simp add: only_link_def)

lemma only_link_trans: "only_link C l a b \<Longrightarrow> only_link C l b c \<Longrightarrow> only_link C l a c"
  by (simp add: only_link_def)

lemma only_link_listed: "only_link C l a a' \<Longrightarrow> listed C a' m = listed C a m"
  by (rule listed_cong) (simp add: only_link_def)

subsection \<open>Patching\<close>

text \<open>After the main patch the two copies differ in the status at most.\<close>

definition but_status :: "Link \<Rightarrow> Link \<Rightarrow> bool" where
  "but_status x y \<longleftrightarrow> y = x\<lparr>lk_Status := lk_Status y\<rparr>"

lemma but_statusD: "but_status x y \<Longrightarrow> lk_Meta x = lk_Meta y" "but_status x y \<Longrightarrow> lk_Status x = lk_Status y \<Longrightarrow> x = y"
  by (cases x; cases y; simp add: but_status_def)+

lemma patch_main_follows:
  assumes run: "Link_patch_main E s = (e, s')" and inv: "follows E l s" and ok: "link_env_ok E"
  shows "follows E l s' \<and> link_only E l s s' \<and> lk_Status (ln_link s') = lk_Status (ln_link s) \<and>
    Finalizers (ln_link s') = Finalizers (ln_link s) \<and> (e = None \<longrightarrow> but_status (ln_clusterState s') (ln_link s'))"
proof -
  let ?C = "le_client E" and ?obj = "(ln_link s)\<lparr>lk_Status := lk_Status (ln_clusterState s)\<rparr>"
  note k8s = link_env_okD(3)[OF ok] and law = store_lawsD(3)[OF link_env_okD(2)[OF ok]]
  have name: "Link_Name ?obj = l" using inv by (simp add: follows_def)
  show ?thesis
  proof (cases "ln_clusterState s = ?obj")
    case True
    then have "s' = s\<lparr>ln_link := ?obj\<lparr>lk_Status := lk_Status (ln_link s)\<rparr>\<rparr>" and e: "e = None"
      using run by (simp_all add: Link_patch_main_def Let_def k8s_simps[OF k8s])
    then have s': "s' = s" by simp
    have "but_status (ln_clusterState s) (ln_link s)" by (subst True) (simp add: but_status_def)
    then show ?thesis unfolding s' using inv by simp
  next
    case False
    obtain r a' where p: "api_PatchLink ?C (stored s) ?obj (ln_clusterState s) = (r, a')" by fastforce
    note L = law[unfolded link_main_law_def, rule_format, OF p, unfolded name]
    have L1: "only_link ?C l (stored s) a'" using L by blast
    note same = only_link_listed[OF L1]
    show ?thesis
    proof (cases r)
      case (Inl err)
      have "api_GetLink ?C a' = api_GetLink ?C (stored s)" using L Inl by simp
      moreover have "stored s' = a'" "ln_clusterState s' = ln_clusterState s" "ln_link s' = ln_link s" "e = Some err"
        using run False p Inl by (auto simp: Link_patch_main_def Let_def api_write_def k8s_simps[OF k8s])
      ultimately show ?thesis using inv L1 same by (simp add: follows_def)
    next
      case (Inr resp)
      have R: "lk_Status resp = lk_Status (ln_clusterState s)" "Link_Name resp = l" "Finalizers resp = Finalizers (ln_link s)"
        using L Inr inv by (auto simp: follows_def)
      have fin: "linkFinalizerName \<in> set (Finalizers (ln_link s))" using inv by (simp add: follows_def tracks_def)
      then have "api_GetLink ?C a' l = Inr resp" using L Inr by auto
      moreover have "stored s' = a'" "ln_clusterState s' = resp" "ln_link s' = resp\<lparr>lk_Status := lk_Status (ln_link s)\<rparr>" "e = None"
        using run False p Inr by (auto simp: Link_patch_main_def Let_def api_write_def k8s_simps[OF k8s])
      ultimately show ?thesis using inv L1 same R fin by (auto simp: follows_def tracks_def but_status_def)
    qed
  qed
qed

lemma patch_status_follows:
  assumes run: "Link_patch_status E s = (e, s')" and inv: "follows E l s" and ok: "link_env_ok E"
    and agree: "but_status (ln_clusterState s) (ln_link s)"
  shows "follows E l (case e of None \<Rightarrow> s'\<lparr>ln_clusterState := ln_link s'\<rparr> | Some _ \<Rightarrow> s') \<and> link_only E l s s' \<and>
    lk_Status (ln_link s') = lk_Status (ln_link s) \<and> Finalizers (ln_link s') = Finalizers (ln_link s)"
proof -
  let ?C = "le_client E" and ?obj = "ln_link s"
  note k8s = link_env_okD(3)[OF ok] and law = store_lawsD(4)[OF link_env_okD(2)[OF ok]]
  have name: "Link_Name ?obj = l" using inv by (simp add: follows_def)
  show ?thesis
  proof (cases "lk_Status (ln_clusterState s) = lk_Status ?obj")
    case True
    then have s': "s' = s" "e = None" using run by (simp_all add: Link_patch_status_def Let_def k8s_simps[OF k8s])
    have "ln_clusterState s = ?obj" by (rule but_statusD(2)[OF agree True])
    then show ?thesis using inv by (simp add: s' follows_def)
  next
    case False
    obtain r a' where p: "api_PatchLinkStatus ?C (stored s) ?obj (ln_clusterState s) = (r, a')" by fastforce
    note L = law[unfolded link_status_law_def, rule_format, OF p, unfolded name]
    have L1: "only_link ?C l (stored s) a'" using L by blast
    note same = only_link_listed[OF L1]
    show ?thesis
    proof (cases r)
      case (Inl err)
      have "api_GetLink ?C a' = api_GetLink ?C (stored s)" "\<not> lib_IsNotFound (le_k8s E) err"
        using L Inl inv by (auto simp: follows_def)
      moreover from this(2) have "stored s' = a'" "ln_clusterState s' = ln_clusterState s" "ln_link s' = ln_link s" "e = Some err"
        using run False p Inl by (auto simp: Link_patch_status_def Let_def api_write_def k8s_simps[OF k8s])
      ultimately show ?thesis using inv L1 same by (simp add: follows_def)
    next
      case (Inr resp)
      have R: "lk_Status resp = lk_Status ?obj" "Link_Name resp = l" "Finalizers resp = Finalizers ?obj"
        "api_GetLink ?C a' l = Inr resp"
        using L Inr inv but_statusD(1)[OF agree] by (auto simp: follows_def)
      moreover have "stored s' = a'" "ln_link s' = resp" "e = None"
        using run False p Inr by (auto simp: Link_patch_status_def Let_def api_write_def k8s_simps[OF k8s])
      ultimately show ?thesis using inv L1 same by (simp add: follows_def tracks_def)
    qed
  qed
qed

text \<open>
  A patch keeps the invariant whether it fails or not; after a success the stored Link tracks its nodes
  and is the Link at hand.
\<close>

lemma Link_patchResource_follows:
  assumes run: "Link_patchResource E s = (e, s')" and inv: "follows E l s" and ok: "link_env_ok E"
  shows "follows E l s' \<and> link_only E l s s' \<and> lk_Status (ln_link s') = lk_Status (ln_link s) \<and>
    Finalizers (ln_link s') = Finalizers (ln_link s) \<and> (e = None \<longrightarrow> ln_clusterState s' = ln_link s')"
  using run
proof (cases rule: Link_patchResource_cases)
  case (main_failed err s1)
  then show ?thesis using patch_main_follows[OF main_failed(1) inv ok] by simp
next
  case (status_failed s1 err s2)
  note M = patch_main_follows[OF status_failed(1) inv ok]
  have "follows E l s1" "but_status (ln_clusterState s1) (ln_link s1)" using M by simp_all
  note S = patch_status_follows[OF status_failed(2) this(1) ok this(2)]
  have "follows E l s2" using S by simp
  moreover have "link_only E l s s2" by (rule only_link_trans[where b = "stored s1"]) (use M S in blast)+
  moreover have "lk_Status (ln_link s2) = lk_Status (ln_link s)" "Finalizers (ln_link s2) = Finalizers (ln_link s)"
    using M S by metis+
  ultimately show ?thesis unfolding status_failed(3,4) by simp
next
  case (patched s1 s2)
  note M = patch_main_follows[OF patched(1) inv ok]
  have "follows E l s1" "but_status (ln_clusterState s1) (ln_link s1)" using M by simp_all
  note S = patch_status_follows[OF patched(2) this(1) ok this(2)]
  have "follows E l (s2\<lparr>ln_clusterState := ln_link s2\<rparr>)" using S by simp
  moreover have "link_only E l s s2" by (rule only_link_trans[where b = "stored s1"]) (use M S in blast)+
  moreover have "lk_Status (ln_link s2) = lk_Status (ln_link s)" "Finalizers (ln_link s2) = Finalizers (ln_link s)"
    using M S by metis+
  ultimately show ?thesis unfolding patched(3,4) by simp
qed

lemma Link_handleError_follows:
  assumes run: "Link_handleError E c err s = (e, s')" and inv: "follows E l s" and ok: "link_env_ok E"
  shows "e \<noteq> None \<and> follows E l s' \<and> link_only E l s s'"
proof -
  obtain perr where "Link_patchResource E (upd_link (set_Link_condition (le_k8s E) c) s) = (perr, s')"
    using run by (auto simp: Link_handleError_def split: prod.splits)
  from Link_patchResource_follows[OF this follows_condition[OF inv] ok]
  show ?thesis using Link_patch.report_result(1) run[unfolded Link_handleError_report] by auto
qed

subsection \<open>Leaving a node\<close>

text \<open>A request that changes the entry of the link \<open>l\<close> in the resource of the node \<open>n\<close>, and no other entry.\<close>

definition only_entry :: "'a api_client \<Rightarrow> string \<Rightarrow> string \<Rightarrow> 'a \<Rightarrow> 'a \<Rightarrow> bool" where
  "only_entry C n l a a' \<longleftrightarrow> only_nodeLinks C n a a' \<and> (\<forall>m. m \<noteq> l \<longrightarrow> listed C a' m = listed C a m)"

lemma only_entryI:
  assumes "only_nodeLinks C n a a'" and "\<And>m. m \<noteq> l \<Longrightarrow> n \<in> listed C a' m \<longleftrightarrow> n \<in> listed C a m"
  shows "only_entry C n l a a'"
  unfolding only_entry_def
proof (intro conjI allI impI assms(1) set_eqI)
  fix m k
  assume "m \<noteq> l"
  then show "k \<in> listed C a' m \<longleftrightarrow> k \<in> listed C a m"
    using assms(2) listed_other[OF assms(1)] by (cases "k = n") simp_all
qed

lemma only_entry_link: "only_entry C n l a a' \<Longrightarrow> api_GetLink C a' = api_GetLink C a"
  by (simp add: only_entry_def only_nodeLinks_def)

lemma refused_present:
  assumes "refused C L n e a a'" and "api_GetNodeLinks C a n = Inr x"
  shows "api_GetNodeLinks C a' = api_GetNodeLinks C a" "\<not> lib_IsNotFound L e"
  using assms by (auto simp: refused_def gone_def)

lemma drop_orphaned_finalizer_same:
  assumes "drop_orphaned_finalizer E n a x = Inr y"
  shows "MatchingLinks y = MatchingLinks x" "live y = live x" "NodeLinks_Name y = NodeLinks_Name x"
  using assms by (auto simp: drop_orphaned_finalizer_def DeletionTimestamp_IsZero_def split: if_splits sum.splits)

lemma delete_entry:
  assumes run: "api_DeleteNodeLinks (le_client E) a y = (r, a')" and ok: "link_env_ok E"
    and x: "api_GetNodeLinks (le_client E) a n = Inr x" "NodeLinks_Name y = n"
    and own: "filter (\<lambda>m. m \<noteq> l) (MatchingLinks x) = []"
  shows "only_entry (le_client E) n l a a' \<and>
    (case r of None \<Rightarrow> n \<notin> listed (le_client E) a' l
     | Some e \<Rightarrow> api_GetNodeLinks (le_client E) a' = api_GetNodeLinks (le_client E) a \<and> \<not> lib_IsNotFound (le_k8s E) e)"
proof -
  let ?C = "le_client E" and ?L = "le_k8s E"
  note law = store_lawsD(7)[OF link_env_okD(2)[OF ok], unfolded nodeLinks_delete_law_def, rule_format, OF run, unfolded x(2)]
  have only: "only_nodeLinks ?C n a a'" using law by blast
  have before: "n \<notin> listed ?C a m" if "m \<noteq> l" for m
    using x(1) own that by (auto simp: listed_at filter_empty_conv)
  show ?thesis
  proof (cases r)
    case None
    have after: "n \<notin> listed ?C a' m" for m
      using law None gone_not_listed[of ?C ?L a' n m] by (auto simp: listed_at)
    have "only_entry ?C n l a a'" by (rule only_entryI[OF only]) (simp add: after before)
    then show ?thesis using after None by simp
  next
    case (Some e)
    then have "refused ?C ?L n e a a'" using law by simp
    note R = refused_present[OF this x(1)]
    have "only_entry ?C n l a a'" by (rule only_entryI[OF only]) (simp add: listed_cong[OF R(1)])
    then show ?thesis using R Some by simp
  qed
qed

lemma patch_entry:
  assumes run: "api_PatchNodeLinks (le_client E) a y x = (r, a')" and ok: "link_env_ok E"
    and x: "api_GetNodeLinks (le_client E) a n = Inr x" "NodeLinks_Name y = n"
    and y: "MatchingLinks y = filter (\<lambda>m. m \<noteq> l) (MatchingLinks x)"
  shows "only_entry (le_client E) n l a a' \<and>
    (case r of Inr _ \<Rightarrow> n \<notin> listed (le_client E) a' l
     | Inl e \<Rightarrow> api_GetNodeLinks (le_client E) a' = api_GetNodeLinks (le_client E) a \<and> \<not> lib_IsNotFound (le_k8s E) e)"
proof -
  let ?C = "le_client E" and ?L = "le_k8s E"
  note law = store_lawsD(5)[OF link_env_okD(2)[OF ok], unfolded nodeLinks_patch_law_def, rule_format, OF run, unfolded x(2)]
  have only: "only_nodeLinks ?C n a a'" using law by blast
  show ?thesis
  proof (cases r)
    case (Inr resp)
    have "gone ?C ?L a' n \<and> \<not> live x \<or> (\<exists>z. api_GetNodeLinks ?C a' n = Inr z \<and> MatchingLinks z = MatchingLinks y \<and> live z = live x)"
      using law Inr x(1) by (auto simp: relists_def split: if_splits)
    then have after: "n \<in> listed ?C a' m \<longleftrightarrow> n \<in> listed ?C a m \<and> m \<noteq> l" for m
      using x(1) y gone_not_listed[of ?C ?L a' n m] by (auto simp: listed_at)
    have "only_entry ?C n l a a'" by (rule only_entryI[OF only]) (simp add: after)
    then show ?thesis using after[of l] Inr by simp
  next
    case (Inl e)
    then have "refused ?C ?L n e a a'" using law by simp
    note R = refused_present[OF this x(1)]
    have "only_entry ?C n l a a'" by (rule only_entryI[OF only]) (simp add: listed_cong[OF R(1)])
    then show ?thesis using R Inl by simp
  qed
qed

text \<open>What one call of the callback of \<open>removeFromUnmatchedNodeLinks\<close> does.\<close>

lemma write_without_link_entry:
  assumes run: "write_without_link E x (without_link E l y) aw = (r, aw')" and ok: "link_env_ok E"
    and x: "api_GetNodeLinks (le_client E) (store aw) n = Inr x"
    and y: "drop_orphaned_finalizer E n a x = Inr y"
  shows "only_entry (le_client E) n l (store aw) (store aw') \<and>
    (case r of None \<Rightarrow> n \<notin> listed (le_client E) (store aw') l
     | Some e \<Rightarrow> api_GetNodeLinks (le_client E) (store aw') = api_GetNodeLinks (le_client E) (store aw) \<and>
         \<not> lib_IsNotFound (le_k8s E) e)"
proof -
  let ?C = "le_client E" and ?z = "without_link E l y"
  note same = drop_orphaned_finalizer_same[OF y]
  have z: "NodeLinks_Name ?z = n" "MatchingLinks ?z = filter (\<lambda>m. m \<noteq> l) (MatchingLinks x)" "live ?z = live x"
    using same store_lawsD(2)[OF link_env_okD(2)[OF ok] x] by (simp_all add: without_link_def pie_simps[OF link_env_okD(4)[OF ok]])
  show ?thesis
  proof (cases "MatchingLinks ?z = [] \<and> live ?z")
    case True
    then have "api_DeleteNodeLinks ?C (store aw) ?z = (r, store aw')"
      using run by (auto simp: write_without_link_def api_write_def split: prod.splits)
    from delete_entry[OF this ok x z(1)] True z(2) show ?thesis by simp
  next
    case False
    then obtain q where q: "api_PatchNodeLinks ?C (store aw) ?z x = (q, store aw')" "r = (case q of Inl e \<Rightarrow> Some e | Inr _ \<Rightarrow> None)"
      using run by (auto simp: write_without_link_def api_write_def split: prod.splits sum.splits)
    from patch_entry[OF q(1) ok x z(1,2)] q(2) show ?thesis by (auto split: sum.splits)
  qed
qed

lemma follows_entry:
  assumes "follows E l s" and "only_entry (le_client E) n l (stored s) (stored s')"
    and "ln_clusterState s' = ln_clusterState s" and "lk_Meta (ln_link s') = lk_Meta (ln_link s)"
    and "listing E s' l \<subseteq> listing E s l" and "listing E s' l \<subseteq> set (MatchedNodes (ln_link s'))"
  shows "follows E l s'"
  using assms only_entry_link[OF assms(2)] by (auto simp: follows_def tracks_def)

lemma remove_from_nodeLinks_follows:
  assumes run: "remove_from_nodeLinks E n s = (e, s')" and inv: "follows E l s" and ok: "link_env_ok E"
  shows "follows E l s' \<and> only_entry (le_client E) n l (stored s) (stored s') \<and> listing E s' l \<subseteq> listing E s l \<and>
    (e = None \<longrightarrow> n \<notin> listing E s' l)"
proof -
  let ?C = "le_client E" and ?a = "stored s"
  note k8s = link_env_okD(3)[OF ok]
  have name: "Link_Name (ln_link s) = l" using inv by (simp add: follows_def)
  have refl: "only_entry ?C n l ?a ?a" by (simp add: only_entry_def only_nodeLinks_def)
  show ?thesis
  proof (cases "api_GetNodeLinks ?C ?a n")
    case (Inl err)
    then have "s' = s" "e = None \<longrightarrow> gone ?C (le_k8s E) ?a n"
      using run by (auto simp: remove_from_nodeLinks_def Let_def gone_def split: if_splits)
    then show ?thesis using inv refl gone_not_listed[of ?C "le_k8s E" ?a n l] by auto
  next
    case x: (Inr x)
    show ?thesis
    proof (cases "drop_orphaned_finalizer E n ?a x")
      case (Inl err)
      then have "s' = s" "e = Some err" using run x by (simp_all add: remove_from_nodeLinks_def Let_def)
      then show ?thesis using inv refl by simp
    next
      case y: (Inr y)
      let ?removed = "length (m_Finalizers (nk_Meta y)) \<noteq> length (m_Finalizers (nk_Meta x))"
      show ?thesis
      proof (cases "l \<notin> set (MatchingLinks y) \<and> \<not> ?removed")
        case True
        then have "s' = s" "n \<notin> listing E s l"
          using run x y name drop_orphaned_finalizer_same(1)[OF y] by (auto simp: remove_from_nodeLinks_def Let_def listed_at)
        then show ?thesis using inv refl by simp
      next
        case False
        obtain r aw where w: "write_without_link E x (without_link E l y) (ln_api s) = (r, aw)" by fastforce
        note W = write_without_link_entry[OF w ok x y]
        show ?thesis
        proof (cases r)
          case (Some err)
          then have s': "s' = s\<lparr>ln_api := aw\<rparr>" "e = lib_IgnoreNotFound (le_k8s E) err"
            using run x y name w False by (auto simp: remove_from_nodeLinks_def Let_def)
          have same: "listed ?C (store aw) l = listed ?C ?a l" using W Some by (intro listed_cong) simp
          have "follows E l s'"
            by (rule follows_entry[OF inv, where n = n]) (use W same s' inv in \<open>simp_all add: follows_def tracks_def\<close>)
          then show ?thesis using W Some s' same by (simp add: k8s_simps[OF k8s])
        next
          case None
          let ?ns = "filter (\<lambda>x. x \<noteq> n) (MatchedNodes (ln_link s))"
          have s': "s' = upd_link (\<lambda>k. set_MatchedNodes (filter (\<lambda>x. x \<noteq> n) (MatchedNodes k)) k) (s\<lparr>ln_api := aw\<rparr>)" "e = None"
            using run x y name w False None
            by (auto simp: remove_from_nodeLinks_def Let_def pie_simps[OF link_env_okD(4)[OF ok]])
          have "listed ?C (store aw) l = listed ?C ?a l - {n}"
          proof (rule set_eqI)
            fix m
            show "m \<in> listed ?C (store aw) l \<longleftrightarrow> m \<in> listed ?C ?a l - {n}"
              using W None listed_other[of ?C n ?a "store aw" m l] by (cases "m = n") (simp_all add: only_entry_def)
          qed
          moreover from this have "follows E l s'"
            by (intro follows_entry[OF inv, where n = n]) (use W s' inv in \<open>auto simp: follows_def tracks_def\<close>)
          ultimately show ?thesis using W None s' by simp
        qed
      qed
    qed
  qed
qed

subsection \<open>Leaving the nodes that no longer match\<close>

text \<open>A step for the Link \<open>l\<close> that leaves the other Links alone, and the nodes that list them.\<close>

definition only_own :: "'a lenv \<Rightarrow> string \<Rightarrow> 'a lstate \<Rightarrow> 'a lstate \<Rightarrow> bool" where
  "only_own E l s s' \<longleftrightarrow>
     (\<forall>m. m \<noteq> l \<longrightarrow> listing E s' m = listing E s m \<and> api_GetLink (le_client E) (stored s') m = api_GetLink (le_client E) (stored s) m)"

lemma only_own_refl [simp]: "stored s' = stored s \<Longrightarrow> only_own E l s s'"
  by (simp add: only_own_def)

lemma only_own_trans: "only_own E l s t \<Longrightarrow> only_own E l t u \<Longrightarrow> only_own E l s u"
  by (simp add: only_own_def)

lemma only_own_entry: "only_entry (le_client E) n l (stored s) (stored s') \<Longrightarrow> only_own E l s s'"
  by (simp add: only_own_def only_entry_def only_nodeLinks_def)

lemma only_own_link: "link_only E l s s' \<Longrightarrow> only_own E l s s'"
  using only_link_listed[of "le_client E" l "stored s" "stored s'"] by (simp add: only_own_def only_link_def)

lemma mem_unmatched:
  assumes "link_env_ok E" and "n \<in> set (MatchedNodes l)" and "n \<notin> Node_Name ` set nodes"
  shows "n \<in> set (unmatched_names E l nodes)"
proof -
  note pie = link_env_okD(4)[OF assms(1)]
  have "mset (unmatched_names E l nodes) = mset (MatchedNodes l) - mset (map Node_Name nodes)"
    by (simp add: unmatched_names_def pie_simps[OF pie] pie_Diff_removed[OF pie] del: mset_map)
  moreover have "n \<in># mset (MatchedNodes l)" "n \<notin># mset (map Node_Name nodes)" using assms(2,3) by auto
  then have "n \<in># mset (MatchedNodes l) - mset (map Node_Name nodes)"
    by (metis count_greater_zero_iff in_diff_count not_in_iff)
  ultimately show ?thesis by (metis set_mset_mset)
qed

lemma removeFromUnmatched_follows:
  assumes run: "removeFromUnmatchedNodeLinks E nodes s = (e, s')" and inv: "follows E l s" and ok: "link_env_ok E"
  shows "follows E l s' \<and> only_own E l s s' \<and> (e = None \<longrightarrow> listing E s' l \<subseteq> Node_Name ` set nodes)"
proof -
  obtain errs where r: "run_each (remove_from_nodeLinks E) (unmatched_names E (ln_link s) nodes) s = (errs, s')"
    and e: "e = None \<longleftrightarrow> (\<forall>x \<in> set errs. x = None)"
    using run by (auto simp: removeFromUnmatchedNodeLinks_def link_env_okD(5)[OF ok] split: prod.splits)
  let ?I = "\<lambda>t. follows E l t \<and> only_own E l s t \<and> listing E t l \<subseteq> listing E s l"
  let ?P = "\<lambda>n t. n \<notin> listing E t l"
  have step: "?I t' \<and> (y = None \<longrightarrow> ?P n t') \<and> (\<forall>m. ?P m t \<longrightarrow> ?P m t')"
    if "remove_from_nodeLinks E n t = (y, t')" and I: "?I t" for n t y t'
    using remove_from_nodeLinks_follows[OF that(1) conjunct1[OF I] ok] I only_own_entry only_own_trans by blast
  have "?I s'" and left: "e = None \<Longrightarrow> \<forall>n \<in> set (unmatched_names E (ln_link s) nodes). ?P n s'"
    using run_each_establishes[OF r, of ?I ?P] step inv e by simp_all
  moreover have "n \<in> Node_Name ` set nodes" if "e = None" "n \<in> listing E s' l" for n
  proof (rule ccontr)
    assume "n \<notin> Node_Name ` set nodes"
    moreover have "n \<in> set (MatchedNodes (ln_link s))" using \<open>?I s'\<close> that(2) inv by (auto simp: follows_def tracks_def)
    ultimately show False using mem_unmatched[OF ok] left that by blast
  qed
  ultimately show ?thesis by blast
qed

subsection \<open>Joining the nodes that match\<close>

text \<open>The NodeLinks resource of the node lists the link, unless it is being deleted.\<close>

definition joined :: "'a api_client \<Rightarrow> 'a \<Rightarrow> string \<Rightarrow> string \<Rightarrow> bool" where
  "joined C a l n \<longleftrightarrow> (\<exists>x. api_GetNodeLinks C a n = Inr x \<and> (live x \<longrightarrow> l \<in> set (MatchingLinks x)))"

lemma joined_other: "only_nodeLinks C n a a' \<Longrightarrow> m \<noteq> n \<Longrightarrow> joined C a' l m = joined C a l m"
  by (simp add: joined_def only_nodeLinks_def)

lemma joined_cong: "api_GetNodeLinks C a' = api_GetNodeLinks C a \<Longrightarrow> joined C a' l n = joined C a l n"
  by (simp add: joined_def)

lemma register_mutation_result:
  assumes "register_mutation E node l x = Inr y" and "k8s_laws (le_k8s E)"
  shows "live y = live x" "\<not> live x \<Longrightarrow> y = x"
    "live x \<Longrightarrow> MatchingLinks y = (if l \<in> set (MatchingLinks x) then MatchingLinks x else MatchingLinks x @ [l])"
proof -
  have "live y = live x \<and> (\<not> live x \<longrightarrow> y = x) \<and>
    (live x \<longrightarrow> MatchingLinks y = (if l \<in> set (MatchingLinks x) then MatchingLinks x else MatchingLinks x @ [l]))"
  proof (cases "live x")
    case True
    then obtain z where z: "lib_SetOwnerReference (le_k8s E) node x = Inr z"
      "y = (if l \<notin> set (MatchingLinks z) then z\<lparr>nk_Spec := (nk_Spec z)\<lparr>nk_MatchingLinks := MatchingLinks z @ [l]\<rparr>\<rparr> else z)"
      using assms(1) by (auto simp: register_mutation_def split: sum.splits)
    note o = k8s_SetOwnerReference[OF assms(2) z(1)]
    have "live z = live x" using o by (simp add: DeletionTimestamp_IsZero_def)
    then show ?thesis using z(2) o(1) True by simp
  next
    case False
    then show ?thesis using assms(1) by (simp add: register_mutation_def)
  qed
  then show "live y = live x" "\<not> live x \<Longrightarrow> y = x"
    "live x \<Longrightarrow> MatchingLinks y = (if l \<in> set (MatchingLinks x) then MatchingLinks x else MatchingLinks x @ [l])"
    by simp_all
qed

lemma create_entry:
  assumes run: "api_CreateOrPatchNodeLinks (le_client E) a n (register_mutation E node l) = (r, a')" and ok: "link_env_ok E"
  shows "only_entry (le_client E) n l a a'"
    and "r = None \<Longrightarrow> joined (le_client E) a' l n" and "joined (le_client E) a l m \<Longrightarrow> joined (le_client E) a' l m"
proof -
  let ?C = "le_client E" and ?L = "le_k8s E"
  note law = store_lawsD(8)[OF link_env_okD(2)[OF ok], unfolded nodeLinks_create_law_def, rule_format, OF run]
  have only: "only_nodeLinks ?C n a a'" using law by blast
  have "only_entry ?C n l a a' \<and> (r = None \<longrightarrow> joined ?C a' l n) \<and> (joined ?C a l m \<longrightarrow> joined ?C a' l m)"
  proof (cases r)
    case (Some e)
    then have same: "api_GetNodeLinks ?C a' = api_GetNodeLinks ?C a" using law by simp
    have "only_entry ?C n l a a'" by (rule only_entryI[OF only]) (simp add: listed_cong[OF same])
    then show ?thesis using Some by (simp add: joined_cong[OF same])
  next
    case None
    then obtain x y z where x: "starts_from ?C ?L a n x" and y: "register_mutation E node l x = Inr y"
      and z: "api_GetNodeLinks ?C a' n = Inr z" "MatchingLinks z = MatchingLinks y" "live z = live y"
      using law by (auto simp: relists_def)
    note m = register_mutation_result[OF y link_env_okD(3)[OF ok]]
    have "n \<in> listed ?C a' k \<longleftrightarrow> live x \<and> (k \<in> set (MatchingLinks x) \<or> k = l)" for k
      using z m by (auto simp: listed_at split: if_splits)
    moreover have "n \<in> listed ?C a k \<longleftrightarrow> live x \<and> k \<in> set (MatchingLinks x)" for k
      using x gone_not_listed[of ?C ?L a n k] by (auto simp: starts_from_def listed_at)
    ultimately have "only_entry ?C n l a a'" by (intro only_entryI[OF only]) simp
    moreover have j: "joined ?C a' l n" using z m by (auto simp: joined_def split: if_splits)
    moreover have "joined ?C a l m \<longrightarrow> joined ?C a' l m"
      using j joined_other[OF only] by (cases "m = n") simp_all
    ultimately show ?thesis by simp
  qed
  then show "only_entry ?C n l a a'" "r = None \<Longrightarrow> joined ?C a' l n" "joined ?C a l m \<Longrightarrow> joined ?C a' l m" by simp_all
qed

text \<open>The nodes that a tracked Link may be listed on: its status names them in both copies.\<close>

definition may_join :: "string set \<Rightarrow> 'a lstate \<Rightarrow> bool" where
  "may_join ns s \<longleftrightarrow> tracks linkFinalizerName ns (ln_link s) \<and> tracks linkFinalizerName ns (ln_clusterState s)"

lemma registerWithNodeLinks_follows:
  assumes run: "registerWithNodeLinks E node s = (e, s')" and inv: "follows E l s" and ok: "link_env_ok E"
    and node: "may_join ns s" "Node_Name node \<in> ns"
  shows "follows E l s'" "only_own E l s s'" "may_join ns s'" "ln_link s' = ln_link s"
    and "e = None \<Longrightarrow> joined (le_client E) (stored s') l (Node_Name node)"
    and "joined (le_client E) (stored s) l m \<Longrightarrow> joined (le_client E) (stored s') l m"
proof -
  let ?n = "Node_Name node"
  have name: "Link_Name (ln_link s) = l" using inv by (simp add: follows_def)
  obtain r a' where p: "api_CreateOrPatchNodeLinks (le_client E) (stored s) ?n (register_mutation E node l) = (r, a')" by fastforce
  have s': "stored s' = a'" "ln_link s' = ln_link s" "ln_clusterState s' = ln_clusterState s" "e = None \<Longrightarrow> r = None"
    using run p name by (auto simp: registerWithNodeLinks_def api_write_def split: option.splits prod.splits)
  note C = create_entry[OF p ok]
  show "only_own E l s s'" using only_own_entry C(1) s'(1) by blast
  show "may_join ns s'" using node s' by (simp add: may_join_def)
  show "ln_link s' = ln_link s" by (rule s'(2))
  show "e = None \<Longrightarrow> joined (le_client E) (stored s') l ?n" using C(2) s' by simp
  show "joined (le_client E) (stored s) l m \<Longrightarrow> joined (le_client E) (stored s') l m" using C(3) s' by simp
  have only: "only_nodeLinks (le_client E) ?n (stored s) a'" using C(1) by (simp add: only_entry_def)
  have "m \<in> listing E s l" if "m \<in> listed (le_client E) a' l" "m \<noteq> ?n" for m
    using listed_other[OF only that(2)] that(1) by simp
  then have "listed (le_client E) a' l \<subseteq> insert ?n (listing E s l)" by blast
  moreover have "insert ?n (listing E s l) \<subseteq> set (MatchedNodes (ln_link s))"
    "linkFinalizerName \<in> set (Finalizers (ln_link s))" "linkFinalizerName \<in> set (Finalizers (ln_clusterState s))"
    "?n \<in> set (MatchedNodes (ln_clusterState s))"
    using inv node by (auto simp: follows_def may_join_def tracks_def)
  moreover have "listing E s l \<subseteq> set (MatchedNodes (ln_clusterState s))"
    using inv by (auto simp: follows_def tracks_def)
  moreover have "api_GetLink (le_client E) a' l = Inr (ln_clusterState s)"
    using only inv by (simp add: only_nodeLinks_def follows_def)
  ultimately show "follows E l s'"
    unfolding follows_def tracks_def s' using name by blast
qed

lemma registerWithMatched_follows:
  assumes run: "registerWithMatchedNodeLinks E nodes s = (e, s')" and inv: "follows E l s" and ok: "link_env_ok E"
    and sub: "listing E s l \<subseteq> Node_Name ` set nodes"
  shows "follows E l s' \<and> only_own E l s s' \<and> MatchedNodes (ln_link s') = map Node_Name nodes \<and>
    (e = None \<longrightarrow> (\<forall>node \<in> set nodes. joined (le_client E) (stored s') l (Node_Name node)))"
proof -
  let ?names = "map Node_Name nodes" and ?s = "upd_link (set_MatchedNodes (map Node_Name nodes)) s"
  obtain perr s1 where p: "Link_patchResource E ?s = (perr, s1)" by fastforce
  have "follows E l ?s" using inv sub by (simp add: follows_def tracks_def)
  note P = Link_patchResource_follows[OF p this ok]
  have names: "MatchedNodes (ln_link s1) = ?names" using P by (simp add: set_MatchedNodes_frame)
  have own1: "only_own E l s s1" using P only_own_link[of E l ?s s1] by (simp add: only_own_def)
  note run' = run[unfolded registerWithMatchedNodeLinks_def pie_simps[OF link_env_okD(4)[OF ok]] p link_env_okD(6)[OF ok]]
  show ?thesis
  proof (cases perr)
    case (Some err)
    then have "s' = s1" "e = Some err" using run' by simp_all
    then show ?thesis using P names own1 by simp
  next
    case None
    then obtain errs where r: "run_each (registerWithNodeLinks E) nodes s1 = (errs, s')" and e: "e = errors_Join errs"
      using run' by (auto split: prod.splits)
    let ?I = "\<lambda>t. follows E l t \<and> only_own E l s1 t \<and> may_join (set ?names) t \<and> ln_link t = ln_link s1"
    let ?P = "\<lambda>node t. joined (le_client E) (stored t) l (Node_Name node)"
    have "follows E l s1" using P by simp
    then have fin: "linkFinalizerName \<in> set (Finalizers (ln_link s1))" by (simp add: follows_def tracks_def)
    have "?I s1" using P None names fin by (simp add: may_join_def tracks_def)
    have step: "?I t' \<and> (y = None \<longrightarrow> ?P node t') \<and> (\<forall>k. ?P k t \<longrightarrow> ?P k t')"
      if "node \<in> set nodes" "?I t" "registerWithNodeLinks E node t = (y, t')" for node t y t'
    proof -
      have 1: "follows E l t" "may_join (set ?names) t" "Node_Name node \<in> set ?names" using that by auto
      note R = registerWithNodeLinks_follows[OF that(3) 1(1) ok 1(2,3)]
      have "only_own E l s1 t'" by (rule only_own_trans[OF _ R(2)]) (use that(2) in simp)
      moreover have "ln_link t' = ln_link s1" using R(4) that(2) by (elim conjE) (rule trans)
      ultimately show ?thesis using R(1,3) R(5) R(6) by blast
    qed
    have "?I s'" by (rule run_each_establishes(1)[where I = ?I and P = ?P, OF r \<open>?I s1\<close>]) (rule step, assumption+)
    moreover have "?P node s'" if "e = None" "node \<in> set nodes" for node
      by (rule run_each_establishes(3)[where I = ?I and P = ?P, OF r \<open>?I s1\<close>])
        ((rule step, assumption+), use that e in simp_all)
    ultimately show ?thesis using names only_own_trans[OF own1] by simp
  qed
qed

subsection \<open>The reconciliation\<close>

text \<open>
  The outcome of a successful update: exactly the matching nodes are named by the status, no other node
  lists the link, and each of them lists it unless its resource is being deleted.
\<close>

definition placed :: "'a lenv \<Rightarrow> string \<Rightarrow> Node list \<Rightarrow> 'a lstate \<Rightarrow> bool" where
  "placed E l nodes s \<longleftrightarrow>
     MatchedNodes (ln_link s) = map Node_Name nodes \<and> listing E s l \<subseteq> Node_Name ` set nodes \<and>
     (\<forall>node \<in> set nodes. joined (le_client E) (stored s) l (Node_Name node))"

lemma updateNodeLinks_follows:
  assumes run: "updateNodeLinks E s = (e, s')" and inv: "follows E l s" and ok: "link_env_ok E"
  shows "follows E l s' \<and> only_own E l s s' \<and> (e = None \<longrightarrow> (\<exists>nodes. getMatchingNodes E s = Inr nodes \<and> placed E l nodes s'))"
proof (cases "getMatchingNodes E s")
  case (Inl err)
  then obtain x where "s' = s" "e = Some x" using run by (auto simp: updateNodeLinks_def)
  then show ?thesis using inv by simp
next
  case (Inr nodes)
  let ?s = "upd_link (set_Link_condition (le_k8s E) (condition Ready ConditionUnknown ReconcileStarted NoMessage)) s"
  obtain r s1 where 1: "removeFromUnmatchedNodeLinks E nodes ?s = (r, s1)" by fastforce
  note R = removeFromUnmatched_follows[OF 1 follows_condition[OF inv] ok]
  have own: "only_own E l s s1" using R by (simp add: only_own_def)
  show ?thesis
  proof (cases r)
    case (Some err)
    then obtain x where "s' = s1" "e = Some x" using run Inr 1 by (auto simp: updateNodeLinks_def Let_def)
    then show ?thesis using R own by simp
  next
    case None
    obtain q s2 where 2: "registerWithMatchedNodeLinks E nodes s1 = (q, s2)" by fastforce
    have "follows E l s1" "listing E s1 l \<subseteq> Node_Name ` set nodes" using R None by simp_all
    note Q = registerWithMatched_follows[OF 2 this(1) ok this(2)]
    have s': "s' = s2" "e = None \<longrightarrow> q = None" using run Inr 1 2 None by (auto simp: updateNodeLinks_def Let_def split: option.splits)
    have "listing E s2 l \<subseteq> set (MatchedNodes (ln_link s2))" using conjunct1[OF Q] by (simp add: follows_def tracks_def)
    then have "q = None \<longrightarrow> placed E l nodes s2" using Q by (simp add: placed_def)
    moreover have "only_own E l s s2" using Q own only_own_trans[of E l s s1 s2] by blast
    ultimately show ?thesis using Q Inr s' by blast
  qed
qed

lemma placed_patch:
  assumes "placed E l nodes s" and "link_only E l s s'" and "lk_Status (ln_link s') = lk_Status k" and "MatchedNodes k = MatchedNodes (ln_link s)"
  shows "placed E l nodes s'"
proof -
  have "api_GetNodeLinks (le_client E) (stored s') = api_GetNodeLinks (le_client E) (stored s)"
    using assms(2) by (simp add: only_link_def)
  from listed_cong[OF this] joined_cong[OF this] show ?thesis using assms by (simp add: placed_def)
qed

lemma Link_update_and_report_follows:
  assumes run: "Link_update_and_report E s = (e, s')" and inv: "follows E l s" and ok: "link_env_ok E"
  shows "follows E l s' \<and> only_own E l s s' \<and>
    (e = None \<longrightarrow> ln_clusterState s' = ln_link s' \<and> says (Link_cond Ready (ln_link s')) (condition Ready ConditionTrue ReconcileSuccessful NoMessage) \<and>
       (\<exists>nodes. getMatchingNodes E s = Inr nodes \<and> placed E l nodes s'))"
proof -
  obtain u s1 where 1: "updateNodeLinks E s = (u, s1)" by fastforce
  note U = updateNodeLinks_follows[OF 1 inv ok]
  show ?thesis
  proof (cases u)
    case (Some err)
    then have h: "Link_handleError E (Link_error Ready NodeLinksUpdateFailed err) err s1 = (e, s')"
      using run 1 by (simp add: Link_update_and_report_def)
    have "e \<noteq> None \<and> follows E l s' \<and> link_only E l s1 s'" by (rule Link_handleError_follows[OF h _ ok]) (use U in simp)
    then show ?thesis using U only_own_link only_own_trans by blast
  next
    case None
    let ?c = "condition Ready ConditionTrue ReconcileSuccessful NoMessage"
    have p: "Link_patchResource E (upd_link (set_Link_condition (le_k8s E) ?c) s1) = (e, s')"
      using run 1 None by (simp add: Link_update_and_report_def)
    have "follows E l (upd_link (set_Link_condition (le_k8s E) ?c) s1)" by (rule follows_condition) (use U in simp)
    note P = Link_patchResource_follows[OF p this ok]
    have st: "lk_Status (ln_link s') = lk_Status (set_Link_condition (le_k8s E) ?c (ln_link s1))" and only: "link_only E l s1 s'"
      using P by simp_all
    have "says (Link_cond Ready (ln_link s')) ?c"
      using Link_cond_set(1)[OF link_env_okD(3)[OF ok], of ?c "ln_link s1"] st by (simp add: Link_cond_def)
    moreover have "\<exists>nodes. getMatchingNodes E s = Inr nodes \<and> placed E l nodes s'"
      using U None placed_patch[OF _ only st] by auto
    moreover have "only_own E l s s'" using U only_own_link[OF only] only_own_trans by blast
    ultimately show ?thesis using P by simp
  qed
qed

text \<open>The start of a reconciliation: both copies are the stored Link.\<close>

definition fetched :: "'a lenv \<Rightarrow> string \<Rightarrow> 'a lstate \<Rightarrow> bool" where
  "fetched E l s \<longleftrightarrow> api_GetLink (le_client E) (stored s) l = Inr (ln_link s) \<and> ln_clusterState s = ln_link s \<and> Link_Name (ln_link s) = l"

lemma fetched_tracks:
  assumes "fetched E l s" and "tracked (le_client E) linkFinalizerName (stored s) l"
  shows "listing E s l = {} \<or> tracks linkFinalizerName (listing E s l) (ln_link s)"
  using assms by (auto simp: fetched_def tracked_def)

text \<open>The outcome of a successful upsert, with the state \<open>t\<close> in which the nodes were listed.\<close>

definition upserted :: "'a lenv \<Rightarrow> string \<Rightarrow> 'a lstate \<Rightarrow> 'a lstate \<Rightarrow> bool" where
  "upserted E l s s' \<longleftrightarrow>
     api_GetLink (le_client E) (stored s') l = Inr (ln_link s') \<and>
     says (Link_cond Ready (ln_link s')) (condition Ready ConditionTrue ReconcileSuccessful NoMessage) \<and>
     (\<exists>t nodes. link_only E l s t \<and> getMatchingNodes E t = Inr nodes \<and> placed E l nodes s')"

lemma Link_handleUpsert_follows:
  assumes run: "Link_handleUpsert E s = (e, s')" and start: "fetched E l s" and ok: "link_env_ok E"
    and tr: "tracked (le_client E) linkFinalizerName (stored s) l"
  shows "follows E l s' \<and> only_own E l s s' \<and> (e = None \<longrightarrow> upserted E l s s')"
proof -
  note k8s = link_env_okD(3)[OF ok]
  obtain added s1 where 1: "Link_add_finalizer E s = (added, s1)" by fastforce
  have s1: "stored s1 = stored s" "ln_clusterState s1 = ln_clusterState s" "Link_Name (ln_link s1) = Link_Name (ln_link s)"
    "MatchedNodes (ln_link s1) = MatchedNodes (ln_link s)" "linkFinalizerName \<in> set (Finalizers (ln_link s1))"
    using 1 by (auto simp: Link_add_finalizer_def k8s_simps[OF k8s] split: if_splits)
  have inv: "follows E l s1"
    using fetched_tracks[OF start tr] start s1 by (auto simp: follows_def fetched_def tracks_def)
  have own: "only_own E l s s1" using s1(1) by simp
  have rest: ?thesis if u: "Link_update_and_report E t = (e, s')" and t: "follows E l t" "link_only E l s t" for t
  proof -
    note U = Link_update_and_report_follows[OF u t(1) ok]
    have "upserted E l s s'" if "e = None"
      using U that t(2) by (auto simp: upserted_def follows_def)
    then show ?thesis using U only_own_trans[OF only_own_link[OF t(2)]] by blast
  qed
  show ?thesis
  proof (cases added)
    case False
    then have "Link_update_and_report E s1 = (e, s')" using run 1 by (simp add: Link_handleUpsert_def)
    then show ?thesis by (rule rest[OF _ inv]) (simp add: s1)
  next
    case True
    obtain p s2 where 2: "Link_patchResource E s1 = (p, s2)" by fastforce
    note P = Link_patchResource_follows[OF 2 inv ok]
    have only: "link_only E l s s2" using P s1(1) by simp
    show ?thesis
    proof (cases p)
      case None
      then have "Link_update_and_report E s2 = (e, s')" using run 1 2 True by (simp add: Link_handleUpsert_def)
      then show ?thesis by (rule rest[OF _ conjunct1[OF P] only])
    next
      case (Some err)
      then have h: "Link_handleError E (Link_error Ready FinalizerUpdateFailed err) err s2 = (e, s')"
        using run 1 2 True by (simp add: Link_handleUpsert_def)
      note H = Link_handleError_follows[OF h conjunct1[OF P] ok]
      have "only_own E l s s'" by (rule only_own_trans[OF only_own_link[OF only] only_own_link]) (use H in simp)
      then show ?thesis using H by auto
    qed
  qed
qed

subsection \<open>The nodes that are selected\<close>

text \<open>The Link at hand has the specification of \<open>s\<close>, and the nodes are those of \<open>s\<close>.\<close>

definition selects_as :: "'a lenv \<Rightarrow> 'a lstate \<Rightarrow> 'a lstate \<Rightarrow> bool" where
  "selects_as E s t \<longleftrightarrow>
     lk_Spec (ln_link t) = lk_Spec (ln_link s) \<and> lk_Spec (ln_clusterState t) = lk_Spec (ln_link s) \<and>
     api_ListNodes (le_client E) (stored t) = api_ListNodes (le_client E) (stored s)"

lemma patch_main_selects:
  assumes run: "Link_patch_main E s = (None, s')" and inv: "follows E l s" and k8s: "k8s_laws (le_k8s E)"
    and law: "selection_law (le_client E)" and as: "selects_as E r s"
  shows "selects_as E r s'"
proof -
  let ?obj = "(ln_link s)\<lparr>lk_Status := lk_Status (ln_clusterState s)\<rparr>"
  show ?thesis
  proof (cases "ln_clusterState s = ?obj")
    case True
    then show ?thesis using run as by (auto simp: Link_patch_main_def selects_as_def Let_def k8s_simps[OF k8s])
  next
    case False
    obtain x a' where p: "api_PatchLink (le_client E) (stored s) ?obj (ln_clusterState s) = (x, a')" by fastforce
    with run False obtain resp where r: "x = Inr resp" "stored s' = a'" "ln_clusterState s' = resp"
      "ln_link s' = resp\<lparr>lk_Status := lk_Status (ln_link s)\<rparr>"
      by (auto simp: Link_patch_main_def Let_def api_write_def k8s_simps[OF k8s] split: sum.splits)
    have stored: "api_GetLink (le_client E) (stored s) (Link_Name ?obj) = Inr (ln_clusterState s)"
      using inv by (simp add: follows_def)
    show ?thesis
      using selection_lawD[OF law disjI1[OF p[unfolded r(1)]]] stored as by (simp add: selects_as_def r)
  qed
qed

lemma patch_status_selects:
  assumes run: "Link_patch_status E s = (None, s')" and inv: "follows E l s" and ok: "link_env_ok E"
    and law: "selection_law (le_client E)" and as: "selects_as E r s"
  shows "selects_as E r (s'\<lparr>ln_clusterState := ln_link s'\<rparr>)"
proof (cases "lk_Status (ln_clusterState s) = lk_Status (ln_link s)")
  case True
  then show ?thesis using run as by (auto simp: Link_patch_status_def selects_as_def Let_def k8s_simps[OF link_env_okD(3)[OF ok]])
next
  case False
  note k8s = link_env_okD(3)[OF ok]
  have stored: "api_GetLink (le_client E) (stored s) (Link_Name (ln_link s)) = Inr (ln_clusterState s)"
    using inv by (simp add: follows_def)
  obtain x a' where p: "api_PatchLinkStatus (le_client E) (stored s) (ln_link s) (ln_clusterState s) = (x, a')" by fastforce
  have found: "\<not> lib_IsNotFound (le_k8s E) err" if "x = Inl err" for err
    using store_lawsD(4)[OF link_env_okD(2)[OF ok], unfolded link_status_law_def, rule_format, OF p] that stored by auto
  with run False p obtain resp where r: "x = Inr resp" "stored s' = a'" "ln_link s' = resp"
    by (cases x) (auto simp: Link_patch_status_def Let_def api_write_def k8s_simps[OF k8s])
  show ?thesis
    using selection_lawD[OF law disjI2[OF p[unfolded r(1)]]] stored as by (simp add: selects_as_def r)
qed

lemma Link_patchResource_selects:
  assumes run: "Link_patchResource E s = (None, s')" and inv: "follows E l s" and ok: "link_env_ok E"
    and law: "selection_law (le_client E)" and as: "selects_as E r s"
  shows "selects_as E r s'"
  using run
proof (cases rule: Link_patchResource_cases)
  case (patched s1 s2)
  have "follows E l s1" using patch_main_follows[OF patched(1) inv ok] by simp
  moreover have "selects_as E r s1" by (rule patch_main_selects[OF patched(1) inv link_env_okD(3)[OF ok] law as])
  ultimately show ?thesis unfolding patched(4) by (rule patch_status_selects[OF patched(2) _ ok law])
qed simp_all

text \<open>A successful upsert lists the nodes with the selector it read.\<close>

lemma Link_handleUpsert_selects:
  assumes run: "Link_handleUpsert E s = (None, s')" and start: "fetched E l s" and ok: "link_env_ok E"
    and tr: "tracked (le_client E) linkFinalizerName (stored s) l" and law: "selection_law (le_client E)"
  obtains t where "Link_update_and_report E t = (None, s')" "follows E l t" "selects_as E s t"
proof -
  note k8s = link_env_okD(3)[OF ok]
  obtain added s1 where 1: "Link_add_finalizer E s = (added, s1)" by fastforce
  have s1: "stored s1 = stored s" "ln_clusterState s1 = ln_clusterState s" "Link_Name (ln_link s1) = Link_Name (ln_link s)"
    "MatchedNodes (ln_link s1) = MatchedNodes (ln_link s)" "linkFinalizerName \<in> set (Finalizers (ln_link s1))"
    "lk_Spec (ln_link s1) = lk_Spec (ln_link s)"
    using 1 by (auto simp: Link_add_finalizer_def k8s_simps[OF k8s] split: if_splits)
  have inv: "follows E l s1"
    using fetched_tracks[OF start tr] start s1 by (auto simp: follows_def fetched_def tracks_def)
  have as: "selects_as E s s1" using s1 start by (simp add: selects_as_def fetched_def)
  show thesis
  proof (cases added)
    case False
    then show thesis using that[OF _ inv as] run 1 by (simp add: Link_handleUpsert_def)
  next
    case True
    obtain p s2 where 2: "Link_patchResource E s1 = (p, s2)" by fastforce
    note P = Link_patchResource_follows[OF 2 inv ok]
    show thesis
    proof (cases p)
      case None
      then have "Link_update_and_report E s2 = (None, s')" using run 1 2 True by (simp add: Link_handleUpsert_def)
      then show thesis using that P Link_patchResource_selects[OF 2[unfolded None] inv ok law as] by blast
    next
      case (Some err)
      then have h: "Link_handleError E (Link_error Ready FinalizerUpdateFailed err) err s2 = (None, s')"
        using run 1 2 True by (simp add: Link_handleUpsert_def)
      from Link_handleError_follows[OF h conjunct1[OF P] ok] show thesis by simp
    qed
  qed
qed

text \<open>A patch touches no other object, whatever it sends.\<close>

lemma Link_patchResource_only:
  assumes run: "Link_patchResource E s = (e, s')" and name: "Link_Name (ln_link s) = l" and ok: "link_env_ok E"
  shows "link_only E l s s'"
proof -
  note law = store_lawsD(3,4)[OF link_env_okD(2)[OF ok]]
  have main: "link_only E l t t' \<and> Link_Name (ln_link t') = l"
    if m: "Link_patch_main E t = (x, t')" and n: "Link_Name (ln_link t) = l" for x t t'
  proof -
    let ?obj = "(ln_link t)\<lparr>lk_Status := lk_Status (ln_clusterState t)\<rparr>"
    obtain r a' where p: "api_PatchLink (le_client E) (stored t) ?obj (ln_clusterState t) = (r, a')" by fastforce
    note L = law(1)[unfolded link_main_law_def, rule_format, OF p]
    have "stored t' = stored t \<and> Link_Name (ln_link t') = l \<or> stored t' = a' \<and> Link_Name (ln_link t') = l"
      using m n p L by (cases r) (auto simp: Link_patch_main_def Let_def api_write_def split: if_splits)
    then show ?thesis using L n by auto
  qed
  have status: "link_only E l t t'" if m: "Link_patch_status E t = (x, t')" and n: "Link_Name (ln_link t) = l" for x t t'
  proof -
    obtain r a' where p: "api_PatchLinkStatus (le_client E) (stored t) (ln_link t) (ln_clusterState t) = (r, a')" by fastforce
    note L = law(2)[unfolded link_status_law_def, rule_format, OF p]
    have "stored t' = stored t \<or> stored t' = a'"
      using m p by (cases r) (auto simp: Link_patch_status_def Let_def api_write_def split: if_splits)
    then show ?thesis using L n by auto
  qed
  from run show ?thesis
  proof (cases rule: Link_patchResource_cases)
    case (main_failed err s1)
    then show ?thesis using main[OF main_failed(1) name] by simp
  next
    case (status_failed s1 err s2)
    then show ?thesis
      using conjunct1[OF main[OF status_failed(1) name]] status[OF status_failed(2) conjunct2[OF main[OF status_failed(1) name]]]
      by (simp add: only_link_def)
  next
    case (patched s1 s2)
    then show ?thesis
      using conjunct1[OF main[OF patched(1) name]] status[OF patched(2) conjunct2[OF main[OF patched(1) name]]]
      by (simp add: only_link_def)
  qed
qed

text \<open>
  The deletion: the state stays tracked, and when it reports success the Link is on no node any more.
\<close>

lemma Link_handleDeletion_tracked:
  assumes run: "Link_handleDeletion E s = (e, s')" and start: "fetched E l s" and ok: "link_env_ok E"
    and tr: "tracked (le_client E) linkFinalizerName (stored s) l"
  shows "tracked (le_client E) linkFinalizerName (stored s') l \<and> only_own E l s s' \<and> (e = None \<longrightarrow> listing E s' l = {})"
proof (cases "linkFinalizerName \<in> set (Finalizers (ln_link s))")
  case False
  then have "s' = s" using run by (simp add: Link_handleDeletion_def k8s_simps[OF link_env_okD(3)[OF ok]])
  moreover have "listing E s l = {}" using fetched_tracks[OF start tr] False by (auto simp: tracks_def)
  ultimately show ?thesis using tr by simp
next
  case True
  have inv: "follows E l s" using fetched_tracks[OF start tr] start True by (auto simp: follows_def fetched_def tracks_def)
  obtain r s1 where 1: "removeFromUnmatchedNodeLinks E [] s = (r, s1)" by fastforce
  note R = removeFromUnmatched_follows[OF 1 inv ok]
  note run' = run[unfolded Link_handleDeletion_def k8s_simps[OF link_env_okD(3)[OF ok]]]
  show ?thesis
  proof (cases r)
    case (Some err)
    then have h: "Link_handleError E (Link_error Cleanup NodeLinksCleanupFailed err) err s1 = (e, s')"
      using run' 1 True by simp
    note H = Link_handleError_follows[OF h conjunct1[OF R] ok]
    have "only_own E l s s'" by (rule only_own_trans[OF _ only_own_link]) (use H R in blast)+
    then show ?thesis using H follows_tracked by blast
  next
    case None
    then have p: "Link_patchResource E (upd_link (Link_mark_deleted E) s1) = (e, s')" using run' 1 True by simp
    have "Link_Name (Link_mark_deleted E (ln_link s1)) = l" using R by (simp add: Link_mark_deleted_def Let_def follows_def)
    then have only: "link_only E l s1 s'" using Link_patchResource_only[OF p _ ok] by simp
    then have "listing E s' l = {}" using R None only_link_listed[OF only] by simp
    moreover have "only_own E l s s'" by (rule only_own_trans[OF _ only_own_link[OF only]]) (use R in blast)
    ultimately show ?thesis by (simp add: tracked_def)
  qed
qed

lemma Link_Reconcile_tracked:
  assumes run: "Link_Reconcile E l s = (e, s')" and ok: "link_env_ok E"
    and tr: "tracked (le_client E) linkFinalizerName (stored s) l"
  shows "tracked (le_client E) linkFinalizerName (stored s') l \<and> only_own E l s s'"
proof (cases "api_GetLink (le_client E) (stored s) l")
  case (Inl err)
  then have "s' = s" using run by (simp add: Link_Reconcile_def)
  then show ?thesis using tr by simp
next
  case (Inr k)
  let ?s = "s\<lparr>ln_link := k, ln_clusterState := k\<rparr>"
  have start: "fetched E l ?s" using Inr store_lawsD(1)[OF link_env_okD(2)[OF ok]] by (simp add: fetched_def)
  have tr': "tracked (le_client E) linkFinalizerName (stored ?s) l" using tr by simp
  have own: "only_own E l s s'" if "only_own E l ?s s'" using that by (simp add: only_own_def)
  show ?thesis
  proof (cases "DeletionTimestamp_IsZero (lk_Meta k)")
    case True
    then have "Link_handleUpsert E ?s = (e, s')" using run Inr by (simp add: Link_Reconcile_def Let_def)
    from Link_handleUpsert_follows[OF this start ok tr'] show ?thesis using follows_tracked own by blast
  next
    case False
    then have "Link_handleDeletion E ?s = (e, s')" using run Inr by (simp add: Link_Reconcile_def Let_def)
    from Link_handleDeletion_tracked[OF this start ok tr'] show ?thesis using own by blast
  qed
qed

end
