(* ===== verification/Reference_Store.thy ===== *)
theory Reference_Store
  imports Reference_Env Link_Tracking
begin

text \<open>
  An API server that answers one request after the other and satisfies the store laws, and with it an
  environment for the Link controller.
\<close>

subsection \<open>Requests\<close>

abbreviation rs_nodeLinks_of :: "rstore \<Rightarrow> string \<Rightarrow> NodeLinks option" where
  "rs_nodeLinks_of a n \<equiv> map_of (rs_nodeLinks a) n"

definition rs_conflict :: "goerror" where
  "rs_conflict = ApiStatusError ''Conflict'' ''''"

definition rs_missing :: "string \<Rightarrow> goerror" where
  "rs_missing n = ApiStatusError ''NotFound'' n"

text \<open>Objects are kept under their name; an entry under another name is not found.\<close>

definition rc_GetLink :: "rstore \<Rightarrow> string \<Rightarrow> goerror + Link" where
  "rc_GetLink a n = (case map_of (rs_links a) n of Some x \<Rightarrow> if Link_Name x = n then Inr x else Inl (rs_missing n)
     | None \<Rightarrow> Inl (rs_missing n))"

definition rc_GetNodeLinks :: "rstore \<Rightarrow> string \<Rightarrow> goerror + NodeLinks" where
  "rc_GetNodeLinks a n = (case map_of (rs_nodeLinks a) n of
       Some x \<Rightarrow> if NodeLinks_Name x = n then Inr x else Inl (rs_missing n)
     | None \<Rightarrow> Inl (rs_missing n))"

definition rc_put_link :: "rstore \<Rightarrow> Link \<Rightarrow> rstore" where
  "rc_put_link a x = a\<lparr>rs_links := AList.update (Link_Name x) x (rs_links a)\<rparr>"

definition rc_drop_link :: "rstore \<Rightarrow> string \<Rightarrow> rstore" where
  "rc_drop_link a n = a\<lparr>rs_links := AList.delete n (rs_links a)\<rparr>"

definition rc_put_nodeLinks :: "rstore \<Rightarrow> NodeLinks \<Rightarrow> rstore" where
  "rc_put_nodeLinks a x = a\<lparr>rs_nodeLinks := AList.update (NodeLinks_Name x) x (rs_nodeLinks a)\<rparr>"

definition rc_drop_nodeLinks :: "rstore \<Rightarrow> string \<Rightarrow> rstore" where
  "rc_drop_nodeLinks a n = a\<lparr>rs_nodeLinks := AList.delete n (rs_nodeLinks a)\<rparr>"

lemma rc_Get_put:
  "rc_GetLink (rc_put_link a x) n = (if n = Link_Name x then Inr x else rc_GetLink a n)"
  "rc_GetNodeLinks (rc_put_link a x) = rc_GetNodeLinks a"
  "rc_GetNodeLinks (rc_put_nodeLinks a y) n = (if n = NodeLinks_Name y then Inr y else rc_GetNodeLinks a n)"
  "rc_GetLink (rc_put_nodeLinks a y) = rc_GetLink a"
  "rc_GetLink (rc_drop_link a m) n = (if n = m then Inl (rs_missing n) else rc_GetLink a n)"
  "rc_GetNodeLinks (rc_drop_link a m) = rc_GetNodeLinks a"
  "rc_GetNodeLinks (rc_drop_nodeLinks a m) n = (if n = m then Inl (rs_missing n) else rc_GetNodeLinks a n)"
  "rc_GetLink (rc_drop_nodeLinks a m) = rc_GetLink a"
  by (auto simp: fun_eq_iff rc_GetLink_def rc_GetNodeLinks_def rc_put_link_def rc_put_nodeLinks_def rc_drop_link_def
      rc_drop_nodeLinks_def AList.update_conv' AList.delete_conv')

text \<open>The main endpoint of a Link keeps the stored status, and drops a deleted object without finalizers.\<close>

definition rc_PatchLink :: "rstore \<Rightarrow> Link \<Rightarrow> Link \<Rightarrow> (goerror + Link) \<times> rstore" where
  "rc_PatchLink a obj base =
     (if rs_refuses a then (Inl rs_conflict, a)
      else (case rc_GetLink a (Link_Name obj) of Inl e \<Rightarrow> (Inl e, a)
        | Inr old \<Rightarrow> (let x = obj\<lparr>lk_Status := lk_Status old\<rparr> in
            (Inr x, if m_Finalizers (lk_Meta x) = [] \<and> \<not> DeletionTimestamp_IsZero (lk_Meta old)
              then rc_drop_link a (Link_Name obj) else rc_put_link a x))))"

definition rc_PatchLinkStatus :: "rstore \<Rightarrow> Link \<Rightarrow> Link \<Rightarrow> (goerror + Link) \<times> rstore" where
  "rc_PatchLinkStatus a obj base =
     (if rs_refuses a then (Inl rs_conflict, a)
      else (case rc_GetLink a (Link_Name obj) of Inl e \<Rightarrow> (Inl e, a)
        | Inr old \<Rightarrow> (let x = old\<lparr>lk_Status := lk_Status obj\<rparr> in (Inr x, rc_put_link a x))))"

definition rc_merge :: "NodeLinks \<Rightarrow> NodeLinks \<Rightarrow> NodeLinks \<Rightarrow> NodeLinks" where
  "rc_merge old obj base =
     old\<lparr>nk_Meta := (nk_Meta old)\<lparr>m_Finalizers := m_Finalizers (nk_Meta obj), m_OwnerReferences := m_OwnerReferences (nk_Meta obj)\<rparr>,
         nk_Spec := (if MatchingLinks obj = MatchingLinks base then nk_Spec old else nk_Spec obj)\<rparr>"

definition rc_PatchNodeLinks :: "rstore \<Rightarrow> NodeLinks \<Rightarrow> NodeLinks \<Rightarrow> (goerror + NodeLinks) \<times> rstore" where
  "rc_PatchNodeLinks a obj base =
     (if rs_refuses a then (Inl rs_conflict, a)
      else (case rc_GetNodeLinks a (NodeLinks_Name obj) of Inl e \<Rightarrow> (Inl e, a)
        | Inr old \<Rightarrow> (let x = rc_merge old obj base in
            (Inr x, if m_Finalizers (nk_Meta x) = [] \<and> \<not> live old then rc_drop_nodeLinks a (NodeLinks_Name obj) else rc_put_nodeLinks a x))))"

definition rc_PatchNodeLinksStatus :: "rstore \<Rightarrow> NodeLinks \<Rightarrow> NodeLinks \<Rightarrow> (goerror + NodeLinks) \<times> rstore" where
  "rc_PatchNodeLinksStatus a obj base =
     (if rs_refuses a then (Inl rs_conflict, a)
      else (case rc_GetNodeLinks a (NodeLinks_Name obj) of Inl e \<Rightarrow> (Inl e, a)
        | Inr old \<Rightarrow> (let x = old\<lparr>nk_Status := nk_Status obj\<rparr> in (Inr x, rc_put_nodeLinks a x))))"

text \<open>An object with finalizers stays, marked as being deleted, until they are gone.\<close>

definition rc_DeleteNodeLinks :: "rstore \<Rightarrow> NodeLinks \<Rightarrow> goerror option \<times> rstore" where
  "rc_DeleteNodeLinks a obj =
     (if rs_refuses a then (Some rs_conflict, a)
      else (case rc_GetNodeLinks a (NodeLinks_Name obj) of Inl e \<Rightarrow> (Some e, a)
        | Inr old \<Rightarrow>
            (None, if m_Finalizers (nk_Meta old) = [] then rc_drop_nodeLinks a (NodeLinks_Name obj)
              else rc_put_nodeLinks a (old\<lparr>nk_Meta := (nk_Meta old)\<lparr>m_DeletionTimestamp := Some 1\<rparr>\<rparr>))))"

definition new_NodeLinks :: "string \<Rightarrow> NodeLinks" where
  "new_NodeLinks n = \<lparr>nk_Meta = named_meta n, nk_Spec = \<lparr>nk_MatchingLinks = []\<rparr>,
     nk_Status = \<lparr>ns_Conditions = [], ns_NetlinkLinkConditions = Map.empty, ns_LastAttemptedNetlinkLinks = []\<rparr>\<rparr>"

definition rc_CreateOrPatch :: "rstore \<Rightarrow> string \<Rightarrow> (NodeLinks \<Rightarrow> goerror + NodeLinks) \<Rightarrow> goerror option \<times> rstore" where
  "rc_CreateOrPatch a n f =
     (case f (case rc_GetNodeLinks a n of Inr x \<Rightarrow> x | Inl _ \<Rightarrow> new_NodeLinks n) of
        Inl e \<Rightarrow> (Some e, a)
      | Inr y \<Rightarrow> if rc_GetNodeLinks a n = Inr y then (None, a)
          else if rs_refuses a then (Some rs_conflict, a)
          else (None, rc_put_nodeLinks a (y\<lparr>nk_Meta := (nk_Meta y)\<lparr>m_Name := n\<rparr>\<rparr>)))"

definition LC :: "rstore api_client" where
  "LC = RC\<lparr>api_GetNodeLinks := rc_GetNodeLinks, api_GetLink := rc_GetLink, api_PatchNodeLinks := rc_PatchNodeLinks,
     api_PatchNodeLinksStatus := rc_PatchNodeLinksStatus, api_PatchLink := rc_PatchLink, api_PatchLinkStatus := rc_PatchLinkStatus,
     api_DeleteNodeLinks := rc_DeleteNodeLinks, api_CreateOrPatchNodeLinks := rc_CreateOrPatch\<rparr>"

lemma LC_sel [simp]:
  "api_GetNodeLinks LC = rc_GetNodeLinks" "api_GetLink LC = rc_GetLink" "api_PatchNodeLinks LC = rc_PatchNodeLinks"
  "api_PatchNodeLinksStatus LC = rc_PatchNodeLinksStatus" "api_PatchLink LC = rc_PatchLink"
  "api_PatchLinkStatus LC = rc_PatchLinkStatus" "api_DeleteNodeLinks LC = rc_DeleteNodeLinks"
  "api_CreateOrPatchNodeLinks LC = rc_CreateOrPatch" "api_GetNode LC = api_GetNode RC" "api_ListNodes LC = api_ListNodes RC"
  "api_ListLinks LC = api_ListLinks RC" "api_LabelSelectorError LC = api_LabelSelectorError RC"
  by (simp_all add: LC_def)

subsection \<open>The laws\<close>

lemma rc_Get_name:
  "rc_GetLink a n = Inr x \<Longrightarrow> Link_Name x = n" "rc_GetNodeLinks a n = Inr y \<Longrightarrow> NodeLinks_Name y = n"
  by (auto simp: rc_GetLink_def rc_GetNodeLinks_def split: option.splits if_splits)

lemma rc_Get_missing:
  "rc_GetLink a n = Inl e \<Longrightarrow> e = rs_missing n" "rc_GetNodeLinks a n = Inl e \<Longrightarrow> e = rs_missing n"
  by (auto simp: rc_GetLink_def rc_GetNodeLinks_def split: option.splits if_splits)

lemma rs_errors [simp]: "rl_IsNotFound (rs_missing n)" "\<not> rl_IsNotFound rs_conflict"
  by (simp_all add: rl_IsNotFound_def rs_missing_def rs_conflict_def)

lemma RL_IsNotFound [simp]: "lib_IsNotFound RL = rl_IsNotFound"
  by (simp add: RL_def)

lemmas rc_law_defs = only_link_def only_nodeLinks_def refused_def gone_def relists_def rc_Get_put Let_def

lemma LC_link_main: "link_main_law LC"
  by (auto simp: link_main_law_def rc_PatchLink_def rc_law_defs dest: rc_Get_name split: sum.splits if_splits)

lemma LC_link_status: "link_status_law LC RL"
  by (auto simp: link_status_law_def rc_PatchLinkStatus_def rc_law_defs dest: rc_Get_name split: sum.splits if_splits)

lemma LC_patch: "nodeLinks_patch_law LC RL"
  by (auto simp: nodeLinks_patch_law_def rc_PatchNodeLinks_def rc_merge_def rc_law_defs DeletionTimestamp_IsZero_def
      dest: rc_Get_name rc_Get_missing split: sum.splits if_splits)

lemma LC_status: "nodeLinks_status_law LC RL"
  by (auto simp: nodeLinks_status_law_def rc_PatchNodeLinksStatus_def rc_law_defs dest: rc_Get_name rc_Get_missing
      split: sum.splits if_splits)

lemma LC_delete: "nodeLinks_delete_law LC RL"
  by (auto simp: nodeLinks_delete_law_def rc_DeleteNodeLinks_def rc_law_defs DeletionTimestamp_IsZero_def
      dest: rc_Get_name rc_Get_missing split: sum.splits if_splits)

lemma LC_create: "nodeLinks_create_law LC RL"
proof -
  have "only_nodeLinks LC n a a' \<and>
      (case r of Some e \<Rightarrow> rc_GetNodeLinks a' = rc_GetNodeLinks a
       | None \<Rightarrow> \<exists>x y z. starts_from LC RL a n x \<and> f x = Inr y \<and> rc_GetNodeLinks a' n = Inr z \<and> relists y (MatchingLinks y) z)"
    if run: "rc_CreateOrPatch a n f = (r, a')" for a n f r a'
  proof -
    define x where "x = (case rc_GetNodeLinks a n of Inr x \<Rightarrow> x | Inl _ \<Rightarrow> new_NodeLinks n)"
    have x: "starts_from LC RL a n x"
      by (cases "rc_GetNodeLinks a n")
        (auto simp: x_def starts_from_def gone_def new_NodeLinks_def DeletionTimestamp_IsZero_def dest: rc_Get_missing)
    show ?thesis
    proof (cases "f x")
      case (Inl e)
      then show ?thesis using run by (simp add: rc_CreateOrPatch_def flip: x_def) (auto simp: only_nodeLinks_def)
    next
      case (Inr y)
      let ?z = "y\<lparr>nk_Meta := (nk_Meta y)\<lparr>m_Name := n\<rparr>\<rparr>"
      have z: "relists y (MatchingLinks y) ?z" "NodeLinks_Name ?z = n"
        by (simp_all add: relists_def DeletionTimestamp_IsZero_def)
      have res: "(r, a') = (if rc_GetNodeLinks a n = Inr y then (None, a) else if rs_refuses a then (Some rs_conflict, a)
          else (None, rc_put_nodeLinks a ?z))"
        using run Inr by (simp add: rc_CreateOrPatch_def flip: x_def)
      show ?thesis
      proof (cases "rc_GetNodeLinks a n = Inr y")
        case True
        then show ?thesis using res x Inr by (auto simp: only_nodeLinks_def relists_def)
      next
        case False
        then show ?thesis using res x Inr z
          by (cases "rs_refuses a") (simp_all add: only_nodeLinks_def rc_Get_put exI[of _ x] exI[of _ y] exI[of _ ?z])
      qed
    qed
  qed
  then show ?thesis unfolding nodeLinks_create_law_def LC_sel by blast
qed

lemma LC_unchanged: "unchanged_law LC"
  by (simp add: unchanged_law_def rc_CreateOrPatch_def)

lemma LC_laws: "store_laws LC RL"
  using LC_link_main LC_link_status LC_patch LC_status LC_delete LC_create
  by (simp add: store_laws_def get_law_def rc_Get_name)

lemma LC_status_patch: "status_patch_law LC"
  by (auto simp: status_patch_law_def rc_PatchNodeLinksStatus_def Let_def split: sum.splits if_splits)

lemma LC_attempts: "attempts_law LC"
  by (auto simp: attempts_law_def rc_PatchNodeLinks_def rc_PatchNodeLinksStatus_def rc_merge_def rc_law_defs
      dest: rc_Get_name split: sum.splits if_splits)

lemma LC_selection: "selection_law LC"
  by (auto simp: selection_law_def rc_PatchLink_def rc_PatchLinkStatus_def rc_put_link_def rc_drop_link_def RC_def Let_def
      split: sum.splits if_splits)

subsection \<open>The environment of the Link controller\<close>

definition LE :: "rstore lenv" where
  "LE = \<lparr>le_client = LC, le_k8s = RL, le_pie = RP, le_pie_Map_names = run_each, le_pie_Map_nodes = run_each\<rparr>"

lemma LE_sel [simp]:
  "le_client LE = LC" "le_k8s LE = RL" "le_pie LE = RP" "le_pie_Map_names LE = run_each" "le_pie_Map_nodes LE = run_each"
  by (simp_all add: LE_def)

lemma LE_ok: "link_env_ok LE"
  by (simp add: link_env_ok_def lenv_ok_def RL_laws RP_laws LC_laws)

end
