(* ===== verification/NodeLinks_Properties.thy ===== *)
theory NodeLinks_Properties
  imports NodeLinks_Examples Reference_Store
begin

text \<open>
  The properties of the NodeLinks controller: which links a reconciliation may touch, that nothing is
  created before it is tracked and nothing forgotten before it is gone, what success means, and that
  a node in the desired state is left alone.
\<close>

subsection \<open>Which links are touched\<close>

text \<open>
  C2: a reconciliation touches only links of the operator. Every netlink call of a reconciliation of
  the resource \<open>x\<close> is on a link that the status of \<open>x\<close> records as attempted before, or on the
  interface of a managed Link resource that the specification lists. When the finalizer is already
  there, that is the specification as it was read, and the Link resources of that moment.
\<close>

theorem reconcile_touches_only_own_links:
  assumes run: "NodeLinks_Reconcile E name s = Some (r, s')"
    and x: "api_GetNodeLinks (ne_client E) (store (nn_api s)) name = Inr x"
    and ok: "nenv_ok E" "get_law (ne_client E)" "status_patch_law (ne_client E)"
  shows "\<exists>a y cs. nl_trace (nn_world s') = nl_trace (nn_world s) @ cs \<and> (\<forall>c \<in> set cs. may_touch E a y c) \<and>
    nk_Status y = nk_Status x \<and>
    (nodeLinksFinalizerName \<in> set (m_Finalizers (nk_Meta x)) \<longrightarrow> a = store (nn_api s) \<and> nk_Spec y = nk_Spec x)"
proof -
  let ?s = "s\<lparr>nn_nodeLinks := x, nn_clusterState := x\<rparr>"
  show ?thesis
  proof (cases "DeletionTimestamp_IsZero (nk_Meta x)")
    case False
    with run x have "NodeLinks_handleDeletion E ?s = Some (r, s')" by (simp add: NodeLinks_Reconcile_def)
    from NodeLinks_handleDeletion_emits[OF this ok(1)]
    have calls: "emits (\<lambda>c. \<exists>n \<in> set (LastAttempted x). downs (ne_netlink E) n c \<or> dels (ne_netlink E) n c)
      (nn_world s) (nn_world s')" by simp
    have "emits (may_touch E (store (nn_api s)) x) (nn_world s) (nn_world s')"
      by (rule emits_mono[OF calls]) (unfold may_touch_def, use downs_acts_on dels_acts_on in blast)
    then show ?thesis by (fastforce simp: emits_def list_all_iff)
  next
    case True
    with run x have up: "NodeLinks_handleUpsert E ?s = Some (r, s')" by (simp add: NodeLinks_Reconcile_def)
    show ?thesis
    proof (cases rule: NodeLinks_handleUpsert_plan[OF up ok(1,3)])
      case 1
      then show ?thesis by (intro exI[of _ "store (nn_api s)"] exI[of _ x]) simp
    next
      case (2 t)
      from retrieve_and_upsert_emits[OF 2(2) ok(1,2)] 2(1) show ?thesis
        by (intro exI[of _ "store (nn_api t)"] exI[of _ "nn_nodeLinks t"])
          (fastforce simp: same_plan_def emits_def list_all_iff)
    qed
  qed
qed

theorem reconcile_touches_only_own_links_witness:
  "\<exists>s'. NodeLinks_Reconcile RE ''node1'' ex_start = Some ((300, None), s') \<and> nl_trace (nn_world s') \<noteq> [] \<and>
     (\<forall>c \<in> set (nl_trace (nn_world s')). may_touch RE (store (nn_api ex_start)) (ex_nodeLinks [''b''] []) c)"
proof -
  obtain s' where s': "NodeLinks_Reconcile RE ''node1'' ex_start = Some ((300, None), s')" "length (nl_trace (nn_world s')) = 3"
    using ex_created by blast
  have x: "api_GetNodeLinks (ne_client RE) (store (nn_api ex_start)) ''node1'' = Inr (ex_nodeLinks [''b''] [])"
    by (simp add: RC_def ex_start_def state_defs rs_lookup_def)
  have "nodeLinksFinalizerName \<in> set (m_Finalizers (nk_Meta (ex_nodeLinks [''b''] [])))" "nl_trace (nn_world ex_start) = []"
    by (simp_all add: ex_start_def state_defs rk_world_def)
  with reconcile_touches_only_own_links[OF s'(1) x RE_ok] RC_laws s' show ?thesis
    by (fastforce simp: may_touch_def)
qed

subsection \<open>Nothing is created untracked\<close>

definition creates_nothing :: "nl_call \<Rightarrow> bool" where
  "creates_nothing c \<longleftrightarrow> (\<forall>l. c \<noteq> LinkAdd l)"

lemma dependents_create_nothing:
  assumes "updateDependentsMissingDependencies E names links s = Some (e, s')" and "nenv_ok E"
  shows "emits creates_nothing (nn_world s) (nn_world s')"
proof -
  have "emits (\<lambda>c. \<exists>n l. (n, l) \<in> set links \<and> is_managed l \<and> downs (ne_netlink E) (LinkName l) c) (nn_world s) (nn_world s')"
    using updateDependents_acts[OF assms] by (simp add: acts_def)
  then show ?thesis by (rule emits_mono) (auto simp: downs_def creates_nothing_def)
qed

lemma clean_creates_nothing:
  assumes "updateDependentsMissingDependencies E names links s = Some (e1, s1)"
    and "deleteUndesiredLinks E links s1 = Some (e2, s2)" and "nenv_ok E"
  shows "emits creates_nothing (nn_world s) (nn_world s2)"
proof -
  have "emits (\<lambda>c. on_tracked (ne_netlink E) links (LastAttempted (nn_nodeLinks s)) c \<and> (\<forall>l. c \<noteq> LinkAdd l)) (nn_world s) (nn_world s2)"
    using clean_emits[OF assms] by (simp add: acts_def)
  then show ?thesis by (rule emits_mono) (simp add: creates_nothing_def)
qed

text \<open>What the attempted names in the cluster are when the recording of the names returned no error.\<close>

lemma recorded_names_stored:
  assumes "updateLastAttemptedLinks E links s = Some (None, s')" and "attempts_stored (ne_client E) s" and "nenv_ok E"
    and "attempts_law (ne_client E)" and "nodeLinks_status_law (ne_client E) (ne_k8s E)"
    and "m_Finalizers (nk_Meta (nn_nodeLinks s)) \<noteq> []" and "distinct (map fst links)"
  shows "\<exists>x. api_GetNodeLinks (ne_client E) (store (nn_api s')) (NodeLinks_Name (nn_nodeLinks s)) = Inr x \<and>
    set (LastAttempted x) = {LinkName l | n l. (n, l) \<in> set links \<and> is_managed l}"
  using assms(1)
proof (cases rule: updateLastAttemptedLinks_cases)
  case (recorded ns)
  have "attempts_stored (ne_client E) (upd_nodeLinks (\<lambda>n. n\<lparr>nk_Status := (nk_Status n)\<lparr>ns_LastAttemptedNetlinkLinks := ns\<rparr>\<rparr>) s)"
    using assms(2) by (simp add: attempts_stored_def)
  from NodeLinks_patchResource_stored[OF recorded(2) this nenv_okD(2)[OF assms(3)] assms(4,5)] assms(6)
  show ?thesis by (auto simp: recorded(1) managed_names_set range_map_set[OF nenv_okD(5)[OF assms(3)] assms(7)])
qed simp_all

text \<open>
  C3: nothing is created before it is tracked in the cluster. The calls of the upsert part of a
  reconciliation split in two: those before, among which no link is created, and those after the
  names of all managed resources were stored. At the moment between them the API server answers a
  Get of the resource with a status that names exactly the interfaces of the managed resources. After
  an interruption at any call, the status in the cluster therefore names every link the operator may
  have created. Each of the later calls is on a link the status names. At the start the resource has a
  finalizer and its status in the cluster has the names that the controller read.
\<close>

theorem created_links_are_tracked:
  assumes run: "clean_and_upsert E links g names s = Some (r, s')"
    and read: "api_GetNodeLinks (ne_client E) (store (nn_api s)) (NodeLinks_Name (nn_nodeLinks s)) = Inr x"
      "LastAttempted x = LastAttempted (nn_clusterState s)" "nodeLinksFinalizerName \<in> set (m_Finalizers (nk_Meta (nn_nodeLinks s)))"
    and ok: "nenv_ok E" "status_patch_law (ne_client E)" "distinct (map fst links)"
    and stores: "attempts_law (ne_client E)" "nodeLinks_status_law (ne_client E) (ne_k8s E)"
  shows "\<exists>before after. nl_trace (nn_world s') = nl_trace (nn_world s) @ before @ after \<and>
    (\<forall>c \<in> set before. \<forall>l. c \<noteq> LinkAdd l) \<and>
    (after \<noteq> [] \<longrightarrow> (\<exists>t y. nl_trace (nn_world t) = nl_trace (nn_world s) @ before \<and>
       upsert_and_report E links g names t = Some (r, s') \<and> nn_clusterState t = nn_nodeLinks t \<and>
       api_GetNodeLinks (ne_client E) (store (nn_api t)) (NodeLinks_Name (nn_nodeLinks s)) = Inr y \<and>
       set (LastAttempted y) = {LinkName l | n l. (n, l) \<in> set links \<and> is_managed l} \<and>
       set (LastAttempted (nn_clusterState t)) = set (LastAttempted y) \<and>
       (\<forall>c \<in> set after. \<exists>n \<in> set (LastAttempted y). acts_on (ne_netlink E) n c)))"
proof -
  have none: ?thesis if w: "nn_world s' = nn_world s2" and "emits creates_nothing (nn_world s) (nn_world s2)" for s2
  proof -
    from that(2) obtain cs where "nl_trace (nn_world s2) = nl_trace (nn_world s) @ cs" "\<forall>c \<in> set cs. creates_nothing c"
      by (auto simp: emits_def list_all_iff)
    then show ?thesis by (intro exI[of _ cs] exI[of _ "[]"]) (simp add: w creates_nothing_def)
  qed
  from run show ?thesis
  proof (cases rule: clean_and_upsert_cases)
    case (dependencies e s1)
    show ?thesis
      by (rule none[OF NodeLinks_handleError_world(1)[OF dependencies(2)] dependents_create_nothing[OF dependencies(1) ok(1)]])
  next
    case (undesired s1 e s2)
    show ?thesis
      by (rule none[OF NodeLinks_handleError_world(1)[OF undesired(3)] clean_creates_nothing[OF undesired(1,2) ok(1)]])
  next
    case (unrecorded s1 s2 e s3)
    have "nn_world s' = nn_world s2"
      using updateLastAttemptedLinks_world[OF unrecorded(3)] NodeLinks_handleError_world(1)[OF unrecorded(4)] by simp
    then show ?thesis by (rule none) (rule clean_creates_nothing[OF unrecorded(1,2) ok(1)])
  next
    case (recorded s1 s2 s3)
    let ?names = "managed_names (range_map (ne_range E) RangeLastAttempted links)"
    let ?M = "{LinkName l | n l. (n, l) \<in> set links \<and> is_managed l}"
    from recorded(3) obtain u where patch: "NodeLinks_patchResource E u = (None, s3)" "LastAttempted (nn_nodeLinks u) = ?names"
      by (cases rule: updateLastAttemptedLinks_cases) auto
    have "LastAttempted (nn_nodeLinks s3) = ?names" "nn_clusterState s3 = nn_nodeLinks s3"
      using NodeLinks_patchResource_status[OF patch(1) ok(2)] NodeLinks_patchResource_synced[OF patch(1)] patch(2) by simp_all
    then have S: "set (LastAttempted (nn_clusterState s3)) = ?M" "nn_clusterState s3 = nn_nodeLinks s3"
      by (simp_all add: managed_names_set range_map_set[OF nenv_okD(5)[OF ok(1)] ok(3)])
    have "nn_world s3 = nn_world s2" using updateLastAttemptedLinks_world[OF recorded(3)] by simp
    then obtain before where B: "nl_trace (nn_world s3) = nl_trace (nn_world s) @ before" "\<forall>c \<in> set before. \<forall>l. c \<noteq> LinkAdd l"
      using clean_creates_nothing[OF recorded(1,2) ok(1)] by (auto simp: emits_def list_all_iff creates_nothing_def)
    obtain after where A: "nl_trace (nn_world s') = nl_trace (nn_world s3) @ after"
      "\<forall>c \<in> set after. on_managed (ne_netlink E) links c"
      using upsert_and_report_emits[OF recorded(4) ok(1)] by (auto simp: emits_def list_all_iff)
    let ?s2 = "set_resource E (condition Ready ConditionUnknown ReadyForUpsert FixedText) s2"
    have clean: "nk_Meta (nn_nodeLinks s2) = nk_Meta (nn_nodeLinks s)" "nn_api s2 = nn_api s" "nn_clusterState s2 = nn_clusterState s"
      using clean_emits[OF recorded(1,2) ok(1)] by (simp_all add: acts_def status_frame_def)
    have "attempts_stored (ne_client E) ?s2" "m_Finalizers (nk_Meta (nn_nodeLinks ?s2)) \<noteq> []"
      using read by (auto simp: attempts_stored_def set_NodeLinks_condition_def clean)
    from recorded_names_stored[OF recorded(3) this(1) ok(1) stores this(2) ok(3)]
    obtain y where y: "api_GetNodeLinks (ne_client E) (store (nn_api s3)) (NodeLinks_Name (nn_nodeLinks s)) = Inr y"
      "set (LastAttempted y) = ?M" by (auto simp: set_NodeLinks_condition_def clean)
    have "\<forall>c \<in> set after. \<exists>n \<in> set (LastAttempted y). acts_on (ne_netlink E) n c"
      using A(2) unfolding y(2) on_managed_def by blast
    then show ?thesis
      by (intro exI[of _ before] exI[of _ after] conjI impI exI[of _ s3] exI[of _ y])
        (use A(1) B S y recorded(4) in \<open>simp_all only: append_assoc\<close>)
  qed
qed

lemmas stored_defs = LC_def rc_PatchNodeLinks_def rc_PatchNodeLinksStatus_def rc_GetNodeLinks_def rc_put_nodeLinks_def
  rc_drop_nodeLinks_def rc_merge_def

lemma ex_upserted_stored:
  "\<exists>s'. clean_and_upsert (RE\<lparr>ne_client := LC\<rparr>) [(''b'', ex_bridge)] [(''b'', [])] [''b''] ex_start = Some ((300, None), s') \<and>
     (\<exists>l. LinkAdd l \<in> set (nl_trace (nn_world s')))"
  by (simp add: run_defs ex_start_def stored_defs)

theorem created_links_are_tracked_witness:
  "\<exists>s' before after y. clean_and_upsert (RE\<lparr>ne_client := LC\<rparr>) [(''b'', ex_bridge)] [(''b'', [])] [''b''] ex_start = Some ((300, None), s') \<and>
     nl_trace (nn_world s') = before @ after \<and> after \<noteq> [] \<and> (\<forall>c \<in> set before. \<forall>l. c \<noteq> LinkAdd l) \<and>
     (\<exists>t :: (rk_state, rstore) nstate. api_GetNodeLinks LC (store (nn_api t)) ''node1'' = Inr y \<and> nl_trace (nn_world t) = before) \<and>
     set (LastAttempted y) = {''br0''} \<and> (\<forall>c \<in> set after. acts_on RK ''br0'' c)"
proof -
  let ?E = "RE\<lparr>ne_client := LC\<rparr>"
  obtain s' l where s': "clean_and_upsert ?E [(''b'', ex_bridge)] [(''b'', [])] [''b''] ex_start = Some ((300, None), s')"
    "LinkAdd l \<in> set (nl_trace (nn_world s'))"
    using ex_upserted_stored by blast
  have m: "{LinkName l | n l. (n, l) \<in> set [(''b'', ex_bridge)] \<and> is_managed l} = {''br0''}"
    by (auto simp: is_managed_def getLinkManager_def bridge_IsManaged_def ex_defs)
  have start: "nl_trace (nn_world ex_start) = []" "NodeLinks_Name (nn_nodeLinks ex_start) = ''node1''"
    by (simp_all add: ex_start_def state_defs rk_world_def named_meta_def)
  have read: "api_GetNodeLinks (ne_client ?E) (store (nn_api ex_start)) (NodeLinks_Name (nn_nodeLinks ex_start)) = Inr (nn_nodeLinks ex_start)"
    "LastAttempted (nn_nodeLinks ex_start) = LastAttempted (nn_clusterState ex_start)"
    "nodeLinksFinalizerName \<in> set (m_Finalizers (nk_Meta (nn_nodeLinks ex_start)))"
    by (simp_all add: ex_start_def state_defs named_meta_def rc_GetNodeLinks_def)
  have ok: "nenv_ok ?E" "status_patch_law (ne_client ?E)" "distinct (map fst [(''b'', ex_bridge)])"
    using RE_ok LC_status_patch by (simp_all add: nenv_ok_def)
  have stores: "attempts_law (ne_client ?E)" "nodeLinks_status_law (ne_client ?E) (ne_k8s ?E)"
    by (simp_all add: LC_attempts LC_status)
  from created_links_are_tracked[OF s'(1) read ok stores, unfolded m start] obtain before after where
    T: "nl_trace (nn_world s') = [] @ before @ after \<and> (\<forall>c \<in> set before. \<forall>l. c \<noteq> LinkAdd l) \<and>
     (after \<noteq> [] \<longrightarrow> (\<exists>t y. nl_trace (nn_world t) = [] @ before \<and>
       upsert_and_report ?E [(''b'', ex_bridge)] [(''b'', [])] [''b''] t = Some ((300, None), s') \<and> nn_clusterState t = nn_nodeLinks t \<and>
       api_GetNodeLinks (ne_client ?E) (store (nn_api t)) ''node1'' = Inr y \<and> set (LastAttempted y) = {''br0''} \<and>
       set (LastAttempted (nn_clusterState t)) = set (LastAttempted y) \<and>
       (\<forall>c \<in> set after. \<exists>n \<in> set (LastAttempted y). acts_on (ne_netlink ?E) n c)))"
    by (elim exE)
  note split = T[THEN conjunct1] T[THEN conjunct2, THEN conjunct1]
  have "after \<noteq> []" using s'(2) split by auto
  from T[THEN conjunct2, THEN conjunct2, THEN mp, OF this] obtain t :: "(rk_state, rstore) nstate" and y where
    y: "nl_trace (nn_world t) = before" "api_GetNodeLinks LC (store (nn_api t)) ''node1'' = Inr y" "set (LastAttempted y) = {''br0''}"
    "\<forall>c \<in> set after. \<exists>n \<in> set (LastAttempted y). acts_on (ne_netlink ?E) n c" by (elim exE conjE) simp
  have "\<forall>c \<in> set after. acts_on RK ''br0'' c" using y(3,4) by simp
  note facts = this s'(1) split y(1-3) \<open>after \<noteq> []\<close>
  show ?thesis
    by (rule exI[of _ s'], rule exI[of _ before], rule exI[of _ after], rule exI[of _ y], intro conjI exI[of _ t])
      (use facts in simp_all)
qed

subsection \<open>Removal\<close>

text \<open>The kernel after a sequence of calls.\<close>

definition replay :: "'k netlink \<Rightarrow> 'k \<Rightarrow> nl_call list \<Rightarrow> 'k" where
  "replay NL k cs = fold (\<lambda>c k. snd (nl_exec NL k c)) cs k"

lemma replay_simps [simp]: "replay NL k [] = k" "replay NL k (cs @ ds) = replay NL (replay NL k cs) ds"
  by (simp_all add: replay_def)

text \<open>
  Among the calls \<open>cs\<close>, made from the kernel \<open>k\<close> on, there is a moment at which the link \<open>n\<close> is not on the
  node, or at which the link that is found under the name is brought down without error.
\<close>

definition brought_down :: "'k netlink \<Rightarrow> 'k \<Rightarrow> nl_call list \<Rightarrow> string \<Rightarrow> bool" where
  "brought_down NL k cs n \<longleftrightarrow>
     (\<exists>p q. cs = p @ q \<and>
        (case nl_LinkByName NL (replay NL k p) n of
           Inl err \<Rightarrow> IsLinkNotFoundError err
         | Inr l \<Rightarrow> (\<exists>later. q = LinkSetDown l # later) \<and> fst (nl_exec NL (replay NL k p) (LinkSetDown l)) = None))"

lemma brought_down_append:
  "brought_down NL k cs n \<Longrightarrow> brought_down NL k (cs @ ds) n"
  "brought_down NL (replay NL k cs) ds n \<Longrightarrow> brought_down NL k (cs @ ds) n"
proof -
  assume "brought_down NL k cs n"
  then obtain p q where 1: "cs = p @ q" "case nl_LinkByName NL (replay NL k p) n of Inl err \<Rightarrow> IsLinkNotFoundError err
      | Inr l \<Rightarrow> (\<exists>later. q = LinkSetDown l # later) \<and> fst (nl_exec NL (replay NL k p) (LinkSetDown l)) = None"
    by (auto simp: brought_down_def)
  then show "brought_down NL k (cs @ ds) n"
    unfolding brought_down_def by - (rule exI[of _ p], rule exI[of _ "q @ ds"], auto split: sum.splits)
next
  assume "brought_down NL (replay NL k cs) ds n"
  then obtain p q where "ds = p @ q" "case nl_LinkByName NL (replay NL (replay NL k cs) p) n of Inl err \<Rightarrow> IsLinkNotFoundError err
      | Inr l \<Rightarrow> (\<exists>later. q = LinkSetDown l # later) \<and> fst (nl_exec NL (replay NL (replay NL k cs) p) (LinkSetDown l)) = None"
    by (auto simp: brought_down_def)
  then show "brought_down NL k (cs @ ds) n"
    unfolding brought_down_def by - (rule exI[of _ "cs @ p"], rule exI[of _ q], auto split: sum.splits)
qed

lemma delete_bring_down_once:
  assumes "delete_bring_down E n s = Some (None, s')"
  shows "\<exists>cs. nl_trace (nn_world s') = nl_trace (nn_world s) @ cs \<and> kern (nn_world s') = replay (ne_netlink E) (kern (nn_world s)) cs \<and>
    brought_down (ne_netlink E) (kern (nn_world s)) cs n"
proof (cases "nl_LinkByName (ne_netlink E) (kern (nn_world s)) n")
  case (Inl err)
  then show ?thesis using assms
    by (auto simp: delete_bring_down_def bringDownLink_def brought_down_def split: if_splits)
next
  case (Inr l)
  let ?k = "kern (nn_world s)" and ?c = "LinkSetDown l"
  obtain x k' where x: "nl_exec (ne_netlink E) ?k ?c = (x, k')" by fastforce
  have "x = None" "nl_trace (nn_world s') = nl_trace (nn_world s) @ [?c]" "kern (nn_world s') = k'"
    using assms Inr x
    by (auto simp: delete_bring_down_def bringDownLink_def nn_nl_do_def nl_do_def split: option.splits)
  moreover have "brought_down (ne_netlink E) ?k [?c] n"
    unfolding brought_down_def using Inr x \<open>x = None\<close> by (intro exI[of _ "[]"] exI[of _ "[?c]"]) simp
  ultimately show ?thesis using x by (intro exI[of _ "[?c]"]) (simp add: replay_def)
qed

lemma all_brought_down:
  assumes "traverse (delete_bring_down E) names s = Some (errs, t)" and "\<forall>x \<in> set errs. x = None"
  shows "\<exists>cs. nl_trace (nn_world t) = nl_trace (nn_world s) @ cs \<and> kern (nn_world t) = replay (ne_netlink E) (kern (nn_world s)) cs \<and>
    (\<forall>n \<in> set names. brought_down (ne_netlink E) (kern (nn_world s)) cs n)"
  using assms
proof (induction names arbitrary: s errs)
  case (Cons n names)
  from Cons.prems obtain s1 zs where step: "delete_bring_down E n s = Some (None, s1)"
    and rest: "traverse (delete_bring_down E) names s1 = Some (zs, t)" "\<forall>x \<in> set zs. x = None"
    by (auto elim!: traverse_Cons_SomeE simp del: traverse.simps(2))
  from delete_bring_down_once[OF step] obtain cs where c: "nl_trace (nn_world s1) = nl_trace (nn_world s) @ cs"
    "kern (nn_world s1) = replay (ne_netlink E) (kern (nn_world s)) cs" "brought_down (ne_netlink E) (kern (nn_world s)) cs n" by blast
  from Cons.IH[OF rest] obtain ds where d: "nl_trace (nn_world t) = nl_trace (nn_world s1) @ ds"
    "kern (nn_world t) = replay (ne_netlink E) (kern (nn_world s1)) ds"
    "\<forall>m \<in> set names. brought_down (ne_netlink E) (kern (nn_world s1)) ds m" by blast
  have "brought_down (ne_netlink E) (kern (nn_world s)) (cs @ ds) m" if "m \<in> set (n # names)" for m
    using that c(3) d(3) brought_down_append(1)[of "ne_netlink E" "kern (nn_world s)" cs m ds]
      brought_down_append(2)[of "ne_netlink E" "kern (nn_world s)" cs ds m] by (auto simp flip: c(2))
  then show ?case using c(1,2) d(1,2) by (intro exI[of _ "cs @ ds"]) simp
qed simp

text \<open>
  C7: links are removed in two rounds. All the links to remove are brought down first: before the first
  one is deleted, each of them was looked up in the kernel as the calls so far have left it, and either
  was not there, or \<open>LinkSetDown\<close> was called on the link that was found, without error. No other link
  is brought down or deleted. A deletion without error leaves none of them on the node.
\<close>

theorem removal_order:
  assumes run: "deleteLinks E names s = Some (e, s')"
    and ok: "nenv_ok E" "netlink_laws (ne_netlink E)" "absent_law (ne_netlink E)"
  shows "\<exists>lowered removed. nl_trace (nn_world s') = nl_trace (nn_world s) @ lowered @ removed \<and>
    (\<forall>c \<in> set lowered. \<exists>n \<in> set names. downs (ne_netlink E) n c) \<and>
    (\<forall>c \<in> set removed. \<exists>n \<in> set names. dels (ne_netlink E) n c) \<and>
    (removed \<noteq> [] \<or> e = None \<longrightarrow> (\<forall>n \<in> set names. brought_down (ne_netlink E) (kern (nn_world s)) lowered n)) \<and>
    (e = None \<longrightarrow> (\<forall>n \<in> set names. absent (ne_netlink E) (kern (nn_world s')) n))"
proof -
  have gone: "e = None \<longrightarrow> (\<forall>n \<in> set names. absent (ne_netlink E) (kern (nn_world s')) n)"
    using deleteLinks_gone[OF _ ok] run by blast
  have downs: "\<exists>ds. nl_trace (nn_world s1) = nl_trace (nn_world s) @ ds \<and> (\<forall>c \<in> set ds. \<exists>n \<in> set names. downs (ne_netlink E) n c)"
    if "traverse (delete_bring_down E) names s = Some (errs, s1)" for errs s1
    using traverse_downs[OF that] by (auto simp: acts_def emits_def list_all_iff)
  have two: ?thesis if d: "traverse (delete_bring_down E) names s = Some (errs, s1)" "errors_Join errs = None"
    and r: "traverse (delete_delete E) names s1 = Some (errs2, s2)" and w: "nn_world s' = nn_world s2" for errs s1 errs2 s2
  proof -
    have "\<forall>x \<in> set errs. x = None" using d(2) by simp
    from all_brought_down[OF d(1) this] downs[OF d(1)] obtain ds where ds: "nl_trace (nn_world s1) = nl_trace (nn_world s) @ ds"
      "\<forall>n \<in> set names. brought_down (ne_netlink E) (kern (nn_world s)) ds n" "\<forall>c \<in> set ds. \<exists>n \<in> set names. downs (ne_netlink E) n c"
      by auto
    from traverse_dels[OF r] obtain rs where "nl_trace (nn_world s2) = nl_trace (nn_world s1) @ rs"
      "\<forall>c \<in> set rs. \<exists>n \<in> set names. dels (ne_netlink E) n c"
      by (auto simp: acts_def emits_def list_all_iff)
    then show ?thesis using ds gone w by (intro exI[of _ ds] exI[of _ rs]) simp
  qed
  show ?thesis using run ok(1)
  proof (cases rule: deleteLinks_cases)
    case (not_down errs s1 err)
    from downs[OF not_down(1)] obtain ds where "nl_trace (nn_world s1) = nl_trace (nn_world s) @ ds"
      "\<forall>c \<in> set ds. \<exists>n \<in> set names. downs (ne_netlink E) n c" by blast
    then show ?thesis using not_down(3,4) by - (rule exI[of _ ds], rule exI[of _ "[]"], simp)
  next
    case (not_deleted errs s1 errs2 s2 err)
    from two[OF not_deleted(1-3)] not_deleted(6) show ?thesis by simp
  next
    case (deleted errs s1 errs2)
    from two[OF deleted(1-3)] show ?thesis by simp
  qed
qed

theorem removal_order_witness:
  "\<exists>s' lowered removed. deleteLinks RE [''br0''] ex_end = Some (None, s') \<and> nl_trace (nn_world s') = lowered @ removed \<and>
     absent RK (kern (nn_world s')) ''br0'' \<and> LinkSetDown rk_br0 \<in> set lowered \<and> (\<forall>c \<in> set removed. dels RK ''br0'' c)"
proof -
  obtain s' l where s': "deleteLinks RE [''br0''] ex_end = Some (None, s')" "nl_trace (nn_world s') = [LinkSetDown rk_br0, LinkDel l]"
    using ex_deleted_links by blast
  have start: "nl_trace (nn_world ex_end) = []" by (simp add: ex_end_def state_defs rk_world_def)
  from removal_order[OF s'(1) RE_ok] RK_laws RK_absent start obtain lowered removed where
    T: "nl_trace (nn_world s') = lowered @ removed" "absent RK (kern (nn_world s')) ''br0''" "\<forall>c \<in> set removed. dels RK ''br0'' c"
    by auto
  have "LinkSetDown rk_br0 \<notin> set removed" using T(3) by (auto simp: dels_def)
  moreover have "LinkSetDown rk_br0 \<in> set (lowered @ removed)" using s'(2) by (simp flip: T(1))
  ultimately show ?thesis using s'(1) T by auto
qed

text \<open>
  C9: the finalizer goes last. A deletion that ends without error, or that has sent a patch without
  the finalizer, has removed from the node every link that the status recorded as attempted: the
  resource never disappears while links of it are left.
\<close>

theorem finalizer_removed_last:
  assumes run: "NodeLinks_handleDeletion E s = Some (r, s')"
    and ok: "nenv_ok E" "netlink_laws (ne_netlink E)" "absent_law (ne_netlink E)"
    and fin: "nodeLinksFinalizerName \<in> set (m_Finalizers (nk_Meta (nn_nodeLinks s)))"
    and cs: "api_trace (nn_api s') = api_trace (nn_api s) @ cs"
    and gone: "snd r = None \<or>
      (\<exists>obj base. PatchNodeLinks obj base \<in> set cs \<and> nodeLinksFinalizerName \<notin> set (m_Finalizers (nk_Meta obj)))"
    and n: "n \<in> set (LastAttempted (nn_nodeLinks s))"
  shows "absent (ne_netlink E) (kern (nn_world s')) n"
  using run
proof (cases rule: NodeLinks_handleDeletion_cases)
  case foreign
  then show ?thesis using fin by (simp add: k8s_simps[OF nenv_okD(2)[OF ok(1)]])
next
  case (not_deleted e s1)
  note k8s = nenv_okD(2)[OF ok(1)]
  from NodeLinks_handleErrorE[OF not_deleted(3)] obtain perr where p: "NodeLinks_patchResource E s1 = (perr, s')" by auto
  have frame: "nn_api s1 = nn_api s" "nk_Meta (nn_nodeLinks s1) = nk_Meta (nn_nodeLinks s)"
    using deleteLinks_acts[OF not_deleted(2) ok(1)] by (simp_all add: acts_def status_frame_def)
  have "\<forall>c \<in> set cs. sent_from s1 c" using NodeLinks_patchResource_sent[OF p k8s] cs frame(1) by auto
  then have kept: "nodeLinksFinalizerName \<in> set (m_Finalizers (nk_Meta obj))" if "PatchNodeLinks obj base \<in> set cs" for obj base
    using that fin frame(2) by (fastforce simp: main_object_def)
  obtain err where "snd r = Some err" using NodeLinks_handleError_world(3)[OF not_deleted(3)] by blast
  with gone kept show ?thesis by auto
next
  case (deleted s1 x s3)
  have "nn_world s3 = nn_world s1" using NodeLinks_patchResource_world[OF deleted(3)] by simp
  moreover have "nn_world s' = nn_world s3"
    using deleted(4) by (auto split: option.splits dest: NodeLinks_handleError_world(1))
  ultimately show ?thesis using deleteLinks_gone[OF deleted(2) ok n] by simp
qed

theorem finalizer_removed_last_witness:
  "\<exists>s'. NodeLinks_handleDeletion RE ex_end = Some ((0, None), s') \<and> absent RK (kern (nn_world s')) ''br0''"
proof -
  obtain s' where s': "NodeLinks_handleDeletion RE ex_end = Some ((0, None), s')" using ex_removed by blast
  have "absent (ne_netlink RE) (kern (nn_world s')) ''br0''"
    by (rule finalizer_removed_last[OF s' RE_ok, where cs = "api_trace (nn_api s')"])
      (simp_all add: RK_laws RK_absent ex_end_def state_defs)
  then show ?thesis using s' by simp
qed

end
