(* ===== verification/NodeLinks_Promises.thy ===== *)
theory NodeLinks_Promises
  imports NodeLinks_Examples
begin

text \<open>
  The properties of the phases of a reconciliation: what validation accepts and what a rejected
  configuration leads to, the order of the links, the search for dependents, what success means, what
  is sent to the API server, and the node that is already in the desired state.
\<close>

subsection \<open>Validation\<close>

text \<open>
  C13: validation is exact. It succeeds precisely when every resource has a manager, none depends on
  itself, and no two managed resources claim the same interface; the order in which Go visits the map
  does not matter.
\<close>

theorem validation_exact:
  assumes "nenv_ok E" and "distinct (map fst links)" and "validateLinks E links s = Some (err, s')"
  shows "err = None \<longleftrightarrow>
    (\<forall>(n, l) \<in> set links. has_manager l \<and> n \<notin> ref_Name ` set (deps_of l)) \<and>
    (\<forall>(n, l) \<in> set links. \<forall>(n', l') \<in> set links.
       is_managed l \<longrightarrow> is_managed l' \<longrightarrow> LinkName l = LinkName l' \<longrightarrow> n = n')"
  using validateLinks_ok_iff[OF assms] by (simp add: valid_links_def)

theorem validation_exact_witness:
  "\<exists>e s'. validateLinks RE ex_clash ex_start = Some (Some e, s')"
proof -
  obtain err s' where run: "validateLinks RE ex_clash ex_start = Some (err, s')" using ex_validated by blast
  have "(''b'', ex_bridge) \<in> set ex_clash" "(''c'', ex_bridge\<lparr>lk_Meta := named_meta ''c''\<rparr>) \<in> set ex_clash"
    by (simp_all add: ex_clash_def)
  moreover have "is_managed ex_bridge" "is_managed (ex_bridge\<lparr>lk_Meta := named_meta ''c''\<rparr>)"
    by (simp_all add: is_managed_def getLinkManager_def bridge_IsManaged_def ex_defs)
  ultimately have "err \<noteq> None" using validation_exact[OF RE_ok _ run] by (fastforce simp: ex_clash_def)
  then show ?thesis using run by auto
qed

text \<open>
  C14: an invalid configuration changes nothing on the node. When the retrieved resources are not
  valid, no netlink call is made, the reconciliation returns an error without a requeue interval, and
  the resource is marked as not ready because of its configuration.
\<close>

theorem invalid_configuration_is_inert:
  assumes run: "retrieve_and_upsert E s = Some (r, s')" and links: "getLinkResources E s = Inr links"
    and invalid: "\<not> valid_links links"
    and ok: "nenv_ok E" "get_law (ne_client E)" "status_patch_law (ne_client E)"
  shows "nn_world s' = nn_world s \<and> fst r = 0 \<and> snd r \<noteq> None \<and>
    says (cond_of Ready (ns_Conditions (nk_Status (nn_nodeLinks s'))))
      (condition Ready ConditionFalse InvalidConfiguration FixedText)"
proof -
  let ?s = "s\<lparr>nn_watched := set (pie_Map_links (ne_pie E) LinkName (pie_Values (ne_pie E) links))\<rparr>"
  note dist = getLinkResources_resource(1)[OF links ok(2,1)]
  have "validate_and_plan E links ?s = Some (r, s')" using run links by (simp add: retrieve_and_upsert_def)
  then obtain e s1 where v: "validateLinks E links ?s = Some (Some e, s1)" and h: "NodeLinks_handleError E None e s1 = (r, s')"
    using validateLinks_ok_iff[OF ok(1) dist] invalid by (cases rule: validate_and_plan_cases) auto
  obtain perr where p: "NodeLinks_patchResource E s1 = (perr, s')" using NodeLinks_handleErrorE[OF h] by auto
  have "says (cond_of Ready (ns_Conditions (nk_Status (nn_nodeLinks s1)))) (condition Ready ConditionFalse InvalidConfiguration FixedText)"
    by (rule validateLinks_rejected[OF v nenv_okD(2)[OF ok(1)]])
  then show ?thesis
    using NodeLinks_handleError_world[OF h] validateLinks_frame(1)[OF v] NodeLinks_patchResource_status[OF p ok(3)] by auto
qed

theorem invalid_configuration_is_inert_witness:
  "\<exists>r s'. retrieve_and_upsert RE (ex_state ex_clash (ex_nodeLinks [''b'', ''c''] []) []) = Some (r, s') \<and>
     nl_trace (nn_world s') = [] \<and> snd r \<noteq> None"
proof -
  let ?s = "ex_state ex_clash (ex_nodeLinks [''b'', ''c''] []) []"
  obtain r s' where run: "retrieve_and_upsert RE ?s = Some (r, s')" and links: "getLinkResources RE ?s = Inr ex_clash"
    using ex_rejected by blast
  have "nl_trace (nn_world ?s) = []" by (simp add: state_defs rk_world_def)
  then show ?thesis using invalid_configuration_is_inert[OF run links ex_clash_invalid RE_ok] RC_laws run by auto
qed

subsection \<open>Order\<close>

text \<open>
  C15: links are handled after what they depend on. The sorted names list every retrieved resource
  exactly once, and a resource comes after every resource of the node that it refers to. The graph
  they are sorted by has an edge for each such reference, which carries the reference itself.
\<close>

theorem dependencies_come_first:
  assumes "nenv_ok E" and "graph_laws (ne_graph E)" and "distinct (map fst links)"
    and build: "buildDesiredLinkGraph E links = Some (Inr g)" and sort: "getTopolgicallySortedLinkNames E g = Inr names"
  shows "distinct names \<and> set names = fst ` set links \<and>
    (\<forall>i j l. i < length names \<longrightarrow> j < length names \<longrightarrow> map_of links (names ! j) = Some l \<longrightarrow>
       names ! i \<in> ref_Name ` set (deps_of l) \<longrightarrow> i < j) \<and>
    (\<forall>u v. (u, v) \<in> gr_edges (ne_graph E) g \<longleftrightarrow>
       (\<exists>l. map_of links v = Some l \<and> u \<in> ref_Name ` set (deps_of l) \<and> map_of links u \<noteq> None)) \<and>
    (\<forall>u v e. gr_edge (ne_graph E) g u v = Some e \<longrightarrow>
       (\<exists>l. map_of links v = Some l \<and> (\<exists>d \<in> set (deps_of l). carries e u v d)))"
  using sorted_names_ok[OF assms] buildDesiredLinkGraph_ok(3,4)[OF assms(1-4)] by blast

theorem dependencies_come_first_witness:
  "\<exists>g names. buildDesiredLinkGraph RE ex_links = Some (Inr g) \<and> getTopolgicallySortedLinkNames RE g = Inr names \<and>
     set names = {''b'', ''u'', ''v''} \<and> (\<forall>i j. i < length names \<longrightarrow> j < length names \<longrightarrow> names ! j = ''v'' \<longrightarrow> names ! i = ''b'' \<longrightarrow> i < j)"
proof -
  obtain g names where g: "buildDesiredLinkGraph RE ex_links = Some (Inr g)" "getTopolgicallySortedLinkNames RE g = Inr names"
    using ex_sorted by blast
  have "distinct (map fst ex_links)" "fst ` set ex_links = {''b'', ''u'', ''v''}" "map_of ex_links ''v'' = Some ex_vxlan"
    "''b'' \<in> ref_Name ` set (deps_of ex_vxlan)"
    by (simp_all add: ex_links_def deps_of_def getLinkManager_def vxlan_GetDependencies_def ex_defs)
  moreover note dependencies_come_first[OF RE_ok _ _ g] RG_laws
  ultimately show ?thesis using g by (intro exI[of _ g] exI[of _ names]) auto
qed

subsection \<open>Success\<close>

text \<open>
  C5: what success means. A reconciliation that ends without error has found a valid configuration,
  asks to be repeated after the resync interval, holds exactly what it last patched, and reports:
  the resource ready, and every listed resource ready and with its dependencies. Each resource is the
  one the API returned for a listed name. When all interfaces are different, no resource
  has a required dependency outside the list.
\<close>

theorem success_means_ready:
  assumes run: "retrieve_and_upsert E s = Some ((d, None), s')"
    and ok: "nenv_ok E" "get_law (ne_client E)" "status_patch_law (ne_client E)" "graph_laws (ne_graph E)"
  shows "\<exists>links. fst ` set links = set (MatchingLinks (nn_nodeLinks s)) \<and>
    (\<forall>(r, l) \<in> set links. api_GetLink (ne_client E) (store (nn_api s)) r = Inr l) \<and>
    valid_links links \<and> d = ne_ResyncInterval E \<and> nn_clusterState s' = nn_nodeLinks s' \<and>
    says (cond_of Ready (ns_Conditions (nk_Status (nn_nodeLinks s')))) (condition Ready ConditionTrue ReconcileSuccessful NoMessage) \<and>
    (\<forall>(r, l) \<in> set links. ready_ok (nn_nodeLinks s') (LinkName l) \<and> deps_ok (nn_nodeLinks s') (LinkName l) \<and>
      (distinct_interfaces links \<longrightarrow> no_missing links l))"
proof -
  from retrieve_and_upsert_success[OF run ok] obtain links where L: "getLinkResources E s = Inr links"
    and rest: "valid_links links \<and> d = ne_ResyncInterval E \<and> nn_clusterState s' = nn_nodeLinks s' \<and>
    says (cond_of Ready (ns_Conditions (nk_Status (nn_nodeLinks s')))) (condition Ready ConditionTrue ReconcileSuccessful NoMessage) \<and>
    (\<forall>(r, l) \<in> set links. ready_ok (nn_nodeLinks s') (LinkName l) \<and> deps_ok (nn_nodeLinks s') (LinkName l) \<and>
      (distinct_interfaces links \<longrightarrow> no_missing links l))" by blast
  note R = getLinkResources_resource[OF L ok(2,1)]
  have "fst ` set links = set (MatchingLinks (nn_nodeLinks s))" using R(2,3) by force
  moreover have "\<forall>(r, l) \<in> set links. api_GetLink (ne_client E) (store (nn_api s)) r = Inr l" using R(2) by blast
  ultimately show ?thesis using rest by blast
qed

theorem success_means_ready_witness:
  "\<exists>s'. retrieve_and_upsert RE ex_start = Some ((300, None), s') \<and> ready_ok (nn_nodeLinks s') ''br0''"
proof -
  obtain s' where run: "retrieve_and_upsert RE ex_start = Some ((300, None), s')" using ex_retrieved by blast
  have "get_law (ne_client RE)" "status_patch_law (ne_client RE)" "graph_laws (ne_graph RE)"
    by (simp_all add: RC_laws RG_laws)
  note success_means_ready[OF run RE_ok this]
  then obtain links where L: "fst ` set links = set (MatchingLinks (nn_nodeLinks ex_start))"
    "\<forall>(r, l) \<in> set links. api_GetLink (ne_client RE) (store (nn_api ex_start)) r = Inr l"
    "\<forall>(r, l) \<in> set links. ready_ok (nn_nodeLinks s') (LinkName l) \<and> deps_ok (nn_nodeLinks s') (LinkName l) \<and>
      (distinct_interfaces links \<longrightarrow> no_missing links l)"
    by blast
  have "fst ` set links = {''b''}" using L(1) by (simp add: ex_start_def state_defs)
  then have "''b'' \<in> fst ` set links" by (rule ssubst) (rule singletonI)
  then obtain l where l: "(''b'', l) \<in> set links" by (metis imageE prod.collapse)
  with L(2) have "api_GetLink RC (store (nn_api ex_start)) ''b'' = Inr l" by auto
  then have "l = ex_bridge" by (simp add: RC_def rs_lookup_def ex_start_def state_defs ex_defs)
  moreover have "ready_ok (nn_nodeLinks s') (LinkName l)" using L(3) l by blast
  ultimately show ?thesis using run by (simp add: ex_defs)
qed

text \<open>
  A link that was upserted without error needs no upsert: its manager finds the kernel in the
  desired state.
\<close>

lemma upserted_link_converged:
  assumes "upsertLink E links g r s = Some (None, s')" and "netlink_laws (ne_netlink E)" and "k8s_laws (ne_k8s E)"
    and "\<And>l. map_of links r = Some l \<Longrightarrow> no_device_MTU l"
  shows "\<exists>l m. map_of links r = Some l \<and> getLinkManager l = Inr m \<and>
    IsUpsertNeeded (ne_netlink E) m (kern (nn_world s')) links = Some (Inr False)"
  by (rule upsertLink_converges[OF assms])

lemma upserted_link_converged_run:
  "\<exists>s'. upsertLink RE ex_links [(''b'', [])] ''b'' ex_ready = Some (None, s') \<and>
     bridge_IsUpsertNeeded RK ex_bridge (kern (nn_world s')) ex_links = Some (Inr False)"
proof -
  obtain s' where run: "upsertLink RE ex_links [(''b'', [])] ''b'' ex_ready = Some (None, s')" using ex_upserted_link by blast
  have "map_of ex_links ''b'' = Some ex_bridge" "getLinkManager ex_bridge = Inr (BridgeManager ex_bridge)"
    by (simp_all add: ex_defs getLinkManager_def)
  moreover have "no_device_MTU ex_bridge" by (simp add: no_device_MTU_def ex_defs)
  ultimately show ?thesis using upserted_link_converged[OF run] RK_laws RL_laws run by auto
qed

lemma vxlan_needs_MTU:
  assumes "Spec_VXLAN l = Some vx" "vx_MTU vx = Some m" and types: "netlink_types NL"
    and "nl_LinkByName NL k (LinkName l) = Inr (NlVxlan a v)" "la_MTU a \<noteq> sint m"
  shows "vxlan_IsUpsertNeeded NL l k links = Some (Inr True)"
  using assms by (simp add: vxlan_IsUpsertNeeded_def vxlan_check_existing_def netlink_types_simps[OF types])

text \<open>
  C40: an MTU that the kernel changed is reported as ready. A VXLAN gets the MTU of its Link first, then its
  underlying device, address and learning flag, and is not read again. So it can end with another MTU than
  its Link asks for, when there is a device and a request was sent to the kernel: then the link is reported
  \<open>Ready\<close> with \<open>ReconcileSuccessful\<close> and no error is returned, although its manager answers that an upsert is
  needed.
\<close>

theorem changed_MTU_reported_ready:
  assumes run: "upsertLink E links g r s = Some (None, s')" and laws: "netlink_laws (ne_netlink E)" "k8s_laws (ne_k8s E)"
    and l: "map_of links r = Some l" "getLinkManager l = Inr (VXLANManager l)" "Spec_VXLAN l = Some vx" "vx_MTU vx = Some m"
    and found: "nl_LinkByName (ne_netlink E) (kern (nn_world s')) (LinkName l) = Inr (NlVxlan a v)" "la_MTU a \<noteq> sint m"
  shows "ready_ok (nn_nodeLinks s') (LinkName l) \<and>
    IsUpsertNeeded (ne_netlink E) (VXLANManager l) (kern (nn_world s')) links = Some (Inr True) \<and>
    vx_Device vx \<noteq> None \<and> (\<exists>cs. nl_trace (nn_world s') = nl_trace (nn_world s) @ cs \<and> (\<exists>c \<in> set cs. is_request c))"
proof -
  have ready: "ready_ok (nn_nodeLinks s') (LinkName l)" using upsertLink_ok[OF run laws(2)] l(1) by auto
  have needed: "vxlan_IsUpsertNeeded (ne_netlink E) l (kern (nn_world s')) links = Some (Inr True)"
    by (rule vxlan_needs_MTU[OF l(3,4) netlink_laws_types[OF laws(1)] found])
  have "vx_Device vx \<noteq> None \<and> (\<exists>cs. nl_trace (nn_world s') = nl_trace (nn_world s) @ cs \<and> (\<exists>c \<in> set cs. is_request c))"
    using run
  proof (cases rule: upsertLink_cases)
    case (settled l' x cs)
    then show ?thesis using l(1,2) needed upsert_finish_ok(3)[OF settled(6) laws(2)] by simp
  next
    case (needed l' x cs)
    then have eq: "l' = l" "x = VXLANManager l" using l(1,2) by simp_all
    from needed(6) obtain s1 s2 where down: "bringDownDependents E r links g s = Some (None, s1)"
      and "nn_upsert E x links s1 = Some (None, s2)" "upsert_finish E (LinkName l') s2 = Some (None, s')"
      by (cases rule: upsert_needed_link_cases) auto
    then obtain w where w: "vxlan_Upsert (ne_netlink E) l links (nn_world s1) = Some (None, w)" "nn_world s' = w"
      using upsert_finish_ok(3)[OF _ laws(2)] by (fastforce simp: nn_upsert_def eq bind_eq_Some_conv)
    have "\<not> mtu_matches (vx_MTU vx) a" using l(4) found(2) by (simp add: mtu_matches_def)
    then have no: "\<not> (vx_Device vx = None \<or> emits not_request (nn_world s1) w)"
      using vxlan_Upsert_result[OF laws(1) w(1)] found(1) l(3) w(2) by auto
    moreover have "emits (\<lambda>_. True) (nn_world s1) w"
      using vxlan_Upsert_emits[OF w(1) netlink_laws_types[OF laws(1)]] by (rule emits_mono) simp
    moreover have "emits (\<lambda>_. True) (nn_world s) (nn_world s1)"
      using bringDownDependents_acts[OF down] by (auto simp: acts_def intro: emits_mono)
    ultimately show ?thesis using w(2) by (fastforce simp: emits_def not_request_def list_all_iff)
  qed simp_all
  then show ?thesis using ready needed by simp
qed

theorem changed_MTU_reported_ready_witness:
  "\<exists>s'. upsertLink RE ex_large_links [(''v'', [])] ''v'' ex_large_ready = Some (None, s') \<and> ready_ok (nn_nodeLinks s') ''vx0'' \<and>
     IsUpsertNeeded RK (VXLANManager ex_large) (kern (nn_world s')) ex_large_links = Some (Inr True)"
proof -
  obtain s' where run: "upsertLink RE ex_large_links [(''v'', [])] ''v'' ex_large_ready = Some (None, s')"
    and k: "kern (nn_world s') = [rk_eth0, rk_br0, rk_large 1450]" using ex_large_upserted by blast
  have link: "map_of ex_large_links ''v'' = Some ex_large" "LinkName ex_large = ''vx0''"
    "getLinkManager ex_large = Inr (VXLANManager ex_large)" "Spec_VXLAN ex_large = Some (ex_vxspecs\<lparr>vx_MTU := Some 1500\<rparr>)"
    by (simp_all add: ex_large_defs ex_defs getLinkManager_def)
  have "netlink_laws (ne_netlink RE)" "k8s_laws (ne_k8s RE)" by (simp_all add: RK_laws RL_laws)
  from changed_MTU_reported_ready[OF run this link(1,3,4), of 1500] run k link(2) show ?thesis
    by (simp add: rk_large_def rk_defs)
qed

subsection \<open>A node in the desired state\<close>

text \<open>
  C22: a node in the desired state is left alone. When the dependencies of every listed resource are
  there, every manager answers that no upsert is needed, and the status tracks only interfaces that
  are still desired, a reconciliation makes no netlink call at all, whatever the API server answers.
\<close>

theorem desired_node_is_left_alone:
  assumes run: "retrieve_and_upsert E s = Some (r, s')" and links: "getLinkResources E s = Inr links"
    and ok: "nenv_ok E" "get_law (ne_client E)"
    and desired: "\<And>n l. (n, l) \<in> set links \<Longrightarrow>
      no_missing links l \<and> IsUpsertNeeded (ne_netlink E) (manager_of l) (kern (nn_world s)) links = Some (Inr False)"
    and tracked: "distinct (LastAttempted (nn_nodeLinks s))" "set (LastAttempted (nn_nodeLinks s)) \<subseteq> LinkName ` snd ` set links"
  shows "nn_world s' = nn_world s"
  by (rule retrieve_and_upsert_settled[OF run links ok desired tracked])

theorem desired_node_is_left_alone_witness:
  "\<exists>r s'. retrieve_and_upsert RE ex_settled = Some (r, s') \<and> nl_trace (nn_world s') = []"
proof -
  obtain r s' where run: "retrieve_and_upsert RE ex_settled = Some (r, s')"
    and L: "getLinkResources RE ex_settled = Inr [(''b'', ex_bridge)]"
    using ex_settled_run by blast
  have "nn_world s' = nn_world ex_settled"
  proof (rule desired_node_is_left_alone[OF run L RE_ok])
    show "get_law (ne_client RE)" by (simp add: RC_laws)
    fix n l
    assume "(n, l) \<in> set [(''b'', ex_bridge)]"
    then have "l = ex_bridge" by simp
    then show "no_missing [(''b'', ex_bridge)] l \<and>
      IsUpsertNeeded (ne_netlink RE) (manager_of l) (kern (nn_world ex_settled)) [(''b'', ex_bridge)] = Some (Inr False)"
      using ex_settled_bridge by simp
  qed (simp_all add: ex_settled_def state_defs ex_defs)
  then show ?thesis using run by (auto simp: ex_settled_def state_defs rk_world_def)
qed

subsection \<open>Patches\<close>

text \<open>
  The contract of \<open>patchResource\<close>. It sends at most two patches: first the metadata and
  specification, when they differ from the copy of the cluster, with the status of the cluster; then
  the status, when it differs. Whether it succeeds or not, the status at hand afterwards is the
  one from before, and after a success both copies agree, so that a second call sends nothing.
\<close>

theorem patch_contract:
  assumes run: "NodeLinks_patchResource E s = (e, s')" and ok: "k8s_laws (ne_k8s E)" "status_patch_law (ne_client E)"
  shows "(\<exists>main status. api_trace (nn_api s') = api_trace (nn_api s) @ main @ status \<and>
      main = (if main_object s = nn_clusterState s then [] else [PatchNodeLinks (main_object s) (nn_clusterState s)]) \<and>
      (status = [] \<or> (\<exists>obj base. status = [PatchNodeLinksStatus obj base] \<and> nk_Status obj = nk_Status (nn_nodeLinks s)))) \<and>
    nk_Status (nn_nodeLinks s') = nk_Status (nn_nodeLinks s) \<and> nn_world s' = nn_world s \<and>
    (e = None \<longrightarrow> nn_clusterState s' = nn_nodeLinks s' \<and> NodeLinks_patchResource E s' = (None, s'))"
proof -
  have "NodeLinks_patchResource E s' = (None, s')" if "e = None"
    by (rule NodeLinks_patch.patch_again) (use ok run that in simp_all)
  then show ?thesis
    using NodeLinks_patchResource_calls[OF run ok(1)] NodeLinks_patchResource_status[OF run ok(2)]
      NodeLinks_patchResource_world[OF run] NodeLinks_patchResource_synced run by blast
qed

theorem patch_contract_witness:
  "\<exists>s'. NodeLinks_patchResource RE ex_ready = (None, s') \<and> NodeLinks_patchResource RE s' = (None, s')"
proof -
  obtain s' where run: "NodeLinks_patchResource RE ex_ready = (None, s')" using ex_patched by blast
  have "k8s_laws (ne_k8s RE)" "status_patch_law (ne_client RE)" by (simp_all add: RL_laws RC_laws)
  from patch_contract[OF run this] run show ?thesis by blast
qed

text \<open>
  C37: missing dependencies are never reported for the resource as a whole. The condition that
  \<open>updateDependentsMissingDependencies\<close> sets for that purpose is overwritten before anything is
  patched: no status patch of the upsert part carries a Ready condition with the reason
  \<open>MissingDependencyLinks\<close>.
\<close>

theorem missing_dependencies_not_reported:
  assumes "clean_and_upsert E links g names s = Some (r, s')" and "nenv_ok E" and "status_patch_law (ne_client E)"
    and "api_trace (nn_api s') = api_trace (nn_api s) @ cs" and "PatchNodeLinksStatus obj base \<in> set cs"
    and "cond_of Ready (ns_Conditions (nk_Status obj)) = Some c"
  shows "c_Reason c \<noteq> MissingDependencyLinks"
  using clean_and_upsert_not_reporting[OF assms(1-3)] assms(4-6)
  by (fastforce simp: sends_def list_all_iff not_reporting_def)

theorem missing_dependencies_not_reported_witness:
  "\<exists>s' obj base c. clean_and_upsert RE ex_lonely [(''v'', [])] [''v''] ex_lonely_start = Some (s') \<and>
     PatchNodeLinksStatus obj base \<in> set (api_trace (nn_api (snd s'))) \<and>
     cond_of Ready (ns_Conditions (nk_Status obj)) = Some c \<and> c_Reason c \<noteq> MissingDependencyLinks \<and>
     \<not> deps_ok (nn_nodeLinks (snd s')) ''vx0''"
proof -
  obtain r s' obj base c where run: "clean_and_upsert RE ex_lonely [(''v'', [])] [''v''] ex_lonely_start = Some (r, s')"
    and p: "PatchNodeLinksStatus obj base \<in> set (api_trace (nn_api s'))" "cond_of Ready (ns_Conditions (nk_Status obj)) = Some c"
    and d: "\<not> deps_ok (nn_nodeLinks s') ''vx0''"
    using ex_lonely_run by blast
  have "status_patch_law (ne_client RE)" "api_trace (nn_api s') = api_trace (nn_api ex_lonely_start) @ api_trace (nn_api s')"
    by (simp_all add: RC_laws ex_lonely_start_def state_defs)
  from missing_dependencies_not_reported[OF run RE_ok this p] run p d show ?thesis
    by (intro exI[of _ "(r, s')"] exI[of _ obj] exI[of _ base] exI[of _ c]) simp
qed

end
