(* ===== verification/NodeLinks_Search.thy ===== *)
theory NodeLinks_Search
  imports NodeLinks_Promises
begin

text \<open>
  The search for dependents: what the breadth first search visits, which dependents are brought down
  before a link is upserted, and the limits of both: two references to one resource, and a dependent
  that is reached by more than one reference.
\<close>

subsection \<open>Breadth first search\<close>

text \<open>
  C32: the search visits every vertex that is reachable from the start, and no other, exactly once:
  the start first and without an edge, every other vertex with an edge of the graph that leads to it.
  It ends, and stops at the first error of the callback.
\<close>

theorem bfs_visits_each_reachable_once:
  assumes "start \<in> fst ` set A"
  shows "\<exists>xs. BFSWithEdge (Inr A) sh start visit s = visit_all visit ((start, None) # xs) s \<and>
    distinct (start # map fst xs) \<and> insert start (fst ` set xs) = (bfs_edges A)\<^sup>* `` {start} \<and>
    (\<forall>x \<in> set xs. \<exists>u e. snd x = Some e \<and> (fst x, e) \<in> set (adjacent A u))"
proof -
  obtain xs where xs: "bfs_visits A start = (start, None) # xs"
    "\<forall>x \<in> set xs. \<exists>u e. snd x = Some e \<and> (fst x, e) \<in> set (adjacent A u)"
    using bfs_visits_Cons by metis
  then show ?thesis
    using BFSWithEdge_visits[OF assms, of sh visit s] bfs_visits_distinct[of A start] bfs_visits_reachable[of A start]
    by (intro exI[of _ xs]) simp
qed

theorem bfs_visits_each_reachable_once_witness:
  "\<exists>xs :: (nat \<times> unit option) list. BFSWithEdge (Inr [(0, [(1, ()), (2, ())]), (1, [(2, ())]), (2, []), (3, [(0::nat, ())])]) (\<lambda>v. '''') 0
       (\<lambda>v e vs. Some (None, vs @ [v])) [] =
     visit_all (\<lambda>v e vs. Some (None, vs @ [v])) ((0, None) # xs) [] \<and> 3 \<notin> fst ` set xs"
proof -
  let ?A = "[(0::nat, [(1, ()), (2, ())]), (1, [(2, ())]), (2, []), (3, [(0, ())])]"
  have "v \<le> 2" if "(0, v) \<in> (bfs_edges ?A)\<^sup>*" for v
    using that
  proof (induction rule: rtrancl_induct)
    case (step u v)
    then show ?case by (auto simp: bfs_edges_def adjacent_def split: if_splits)
  qed simp
  then have "3 \<notin> (bfs_edges ?A)\<^sup>* `` {0}" by force
  moreover have "0 \<in> fst ` set ?A" by simp
  from bfs_visits_each_reachable_once[OF this, of "\<lambda>v. ''''" "\<lambda>v e vs. Some (None, vs @ [v])" "[]"]
  obtain xs :: "(nat \<times> unit option) list" where X: "BFSWithEdge (Inr ?A) (\<lambda>v. '''') 0 (\<lambda>v e vs. Some (None, vs @ [v])) [] =
      visit_all (\<lambda>v e vs. Some (None, vs @ [v])) ((0, None) # xs) []"
    "insert 0 (fst ` set xs) = (bfs_edges ?A)\<^sup>* `` {0}"
    by (elim exE conjE) (rule that, assumption+)
  ultimately have "3 \<notin> insert 0 (fst ` set xs)" by (simp only: X(2) not_False_eq_True)
  then show ?thesis using X(1) by (intro exI[of _ xs]) simp
qed

subsection \<open>Two references to one resource\<close>

lemma add_dependencies_distinct:
  assumes "graph_laws G" and "add_dependencies G links v ds g = Inr g'" and "graph_ok G g"
  shows "distinct (map ref_Name (filter (\<lambda>d. map_of links (ref_Name d) \<noteq> None) ds)) \<and>
    (\<forall>d \<in> set ds. map_of links (ref_Name d) \<noteq> None \<longrightarrow> gr_edge G g (ref_Name d) v = None)"
  using assms(2,3)
proof (induction ds arbitrary: g)
  case Nil
  then show ?case by simp
next
  case (Cons d ds)
  show ?case
  proof (cases "map_of links (ref_Name d)")
    case None
    then show ?thesis using Cons by simp
  next
    case (Some x)
    with Cons.prems(1) obtain g1 where g1: "gr_AddEdge G g (ref_Name d) v (setData d) = (None, g1)"
      "add_dependencies G links v ds g1 = Inr g'"
      by (auto split: prod.splits option.splits)
    note e = graph_AddEdge[OF assms(1) Cons.prems(2) g1(1)]
    note IH = Cons.IH[OF g1(2) e(1)]
    have none: "gr_edge G g (ref_Name d) v = None" using e(3) by (simp add: edge_allowed_def)
    have later: "ref_Name d' \<noteq> ref_Name d \<and> gr_edge G g (ref_Name d') v = None"
      if "d' \<in> set ds" "map_of links (ref_Name d') = Some y" for d' y
    proof -
      have "gr_edge G g1 (ref_Name d') v = None" using IH that by blast
      then show ?thesis unfolding e(4) by (auto split: if_splits)
    qed
    have "ref_Name d \<notin> ref_Name ` set (filter (\<lambda>d. map_of links (ref_Name d) \<noteq> None) ds)"
      by (auto dest: later)
    moreover have "\<forall>d' \<in> set ds. map_of links (ref_Name d') \<noteq> None \<longrightarrow> gr_edge G g (ref_Name d') v = None"
      by (auto dest: later)
    ultimately show ?thesis using IH none Some by simp
  qed
qed

lemma add_dependents_distinct:
  assumes "graph_laws G" and "add_dependents G links names g = Some (Inr g')" and "graph_ok G g"
    and "v \<in> set names" and "map_of links v = Some l"
  shows "distinct (map ref_Name (filter (\<lambda>d. map_of links (ref_Name d) \<noteq> None) (deps_of l)))"
  using assms(2-4)
proof (induction names arbitrary: g)
  case Nil
  then show ?case by simp
next
  case (Cons n names)
  from Cons.prems(1) obtain l' where l': "map_of links n = Some l'" by (auto simp: bind_eq_Some_conv)
  with Cons.prems(1) obtain m where m: "getLinkManager l' = Inr m" by (auto split: sum.splits)
  with Cons.prems(1) l' obtain ds where ds: "GetDependencies m = Some ds" by (auto simp: bind_eq_Some_conv)
  with Cons.prems(1) l' m obtain g1 where g1: "add_dependencies G links n ds g = Inr g1"
    "add_dependents G links names g1 = Some (Inr g')" by (auto split: sum.splits)
  show ?case
  proof (cases "n = v")
    case True
    then have "deps_of l = ds" using l' m ds assms(5) by (simp add: deps_of_def)
    then show ?thesis using add_dependencies_distinct[OF assms(1) g1(1) Cons.prems(2)] by simp
  next
    case False
    then show ?thesis
      using Cons.IH[OF g1(2)] add_dependencies_ok[OF assms(1) g1(1) Cons.prems(2)] Cons.prems(3) by simp
  qed
qed

text \<open>
  C39: a resource that refers to one resource of the node twice cannot be deployed: a VXLAN whose device
  and master are the same Link passes the admission rules and the validation, but its second edge
  exists already, and the graph of the whole node is not built.
\<close>

theorem double_reference_rejected:
  assumes ok: "nenv_ok E" "graph_laws (ne_graph E)" "distinct (map fst links)"
    and l: "map_of links v = Some l"
    and twice: "\<not> distinct (map ref_Name (filter (\<lambda>d. map_of links (ref_Name d) \<noteq> None) (deps_of l)))"
  shows "buildDesiredLinkGraph E links \<noteq> Some (Inr g)"
proof
  assume "buildDesiredLinkGraph E links = Some (Inr g)"
  then obtain g1 where g1: "add_vertices (ne_graph E) (map fst (range_map (ne_range E) RangeVertices links)) (gr_New (ne_graph E)) = Inr g1"
    "add_dependents (ne_graph E) links (sort (pie_Keys (ne_pie E) links)) g1 = Some (Inr g)"
    by (auto simp: buildDesiredLinkGraph_def split: sum.splits)
  have "graph_ok (ne_graph E) g1" using add_vertices_ok[OF ok(2) g1(1) graph_new(1)[OF ok(2)]] by blast
  moreover have "mset (pie_Keys (ne_pie E) links) = mset (map fst links)" by (rule pie_Keys[OF nenv_okD(3)[OF ok(1)]])
  then have "v \<in> set (sort (pie_Keys (ne_pie E) links))"
    using l by (metis domI dom_map_of_conv_image_fst mset_eq_setD set_sort set_map)
  ultimately show False using add_dependents_distinct[OF ok(2) g1(2) _ _ l] twice by blast
qed

theorem double_reference_rejected_witness:
  "valid_links ex_double \<and> (\<forall>g. buildDesiredLinkGraph RE ex_double \<noteq> Some (Inr g))"
proof (intro conjI allI)
  have deps: "deps_of ex_double_vxlan = [ex_ref ''b'', ex_ref ''b'']" "has_manager ex_double_vxlan"
    "deps_of ex_bridge = []" "has_manager ex_bridge"
    by (simp_all add: ex_double_vxlan_def has_manager_def deps_of_def getLinkManager_def vxlan_GetDependencies_def
        bridge_GetDependencies_def ex_defs)
  show "valid_links ex_double"
    using deps by (simp add: valid_links_def ex_double_def) (simp add: ex_double_vxlan_def ex_defs)
  fix g
  have "graph_laws (ne_graph RE)" by (simp add: RG_laws)
  then show "buildDesiredLinkGraph RE ex_double \<noteq> Some (Inr g)"
    by (rule double_reference_rejected[OF RE_ok, where v = "''v''" and l = ex_double_vxlan])
      (simp_all add: deps ex_double_def ex_ref_def)
qed

subsection \<open>Which dependents are brought down\<close>

lemma bring_down_dependent_own:
  assumes "bring_down_dependent E links link v edge s = Some (x, s')"
  shows "emits (\<lambda>c. \<exists>l. map_of links v = Some l \<and> is_managed l \<and> downs (ne_netlink E) (LinkName l) c) (nn_world s) (nn_world s')"
proof -
  have down: "emits (\<lambda>c. is_managed l \<and> downs (ne_netlink E) (LinkName l) c) (nn_world s) (nn_world s1)"
    if "wrap_err f (bringDownLink E (LinkName l) s) = (x, s1)" "getLinkManager l = Inr m" "IsManaged m"
    for f l x s1 m
  proof -
    have "bringDownLink E (LinkName l) s = (fst (bringDownLink E (LinkName l) s), s1)"
      using that(1) by (metis prod.collapse snd_conv wrap_err_simps(4))
    from bringDownLink_acts[OF this] have "emits (downs (ne_netlink E) (LinkName l)) (nn_world s) (nn_world s1)"
      by (simp add: acts_def)
    then show ?thesis by (rule emits_mono) (use that(3) is_managed_iff[OF that(2)] in blast)
  qed
  show ?thesis using assms
    by (auto simp: bring_down_dependent_def intro: down split: if_splits option.splits sum.splits)
qed

lemma bring_down_dependent_skipped:
  assumes "ep_Data (ed_Properties e) = Some d" and "\<not> ref_SetDownOnDependencyChainUpdate d"
  shows "bring_down_dependent E links link v (Some e) s = Some (None, s)"
  using assms by (simp add: bring_down_dependent_def)

text \<open>
  C35: a dependent is brought down or not by the one reference through which the search happens to
  reach it first. When that reference does not ask for it, the dependent stays up, although another of
  its references, to a link that is updated or depends on it, may ask for it: every call of the search
  is on the link of another resource.
\<close>

theorem first_reference_decides:
  assumes run: "bringDownDependents E r links g s = Some (x, s')" and l: "map_of links r = Some l"
    and A: "gr_AdjacencyMap (ne_graph E) g = Inr A" and e: "(v, Some e) \<in> set (bfs_visits A (Link_Name l))"
    and d: "ep_Data (ed_Properties e) = Some d" "\<not> ref_SetDownOnDependencyChainUpdate d"
  shows "\<exists>cs. nl_trace (nn_world s') = nl_trace (nn_world s) @ cs \<and>
    (\<forall>c \<in> set cs. \<exists>n l'. n \<noteq> v \<and> map_of links n = Some l' \<and> is_managed l' \<and> downs (ne_netlink E) (LinkName l') c)"
proof -
  let ?P = "\<lambda>c. \<exists>n l'. n \<noteq> v \<and> map_of links n = Some l' \<and> is_managed l' \<and> downs (ne_netlink E) (LinkName l') c"
  have "BFSWithEdge (Inr A) (\<lambda>v. v) (Link_Name l) (bring_down_dependent E links l) s = Some (x, s')"
    using run l A by (simp add: bringDownDependents_def)
  then have "s' = s \<or> visit_all (bring_down_dependent E links l) (bfs_visits A (Link_Name l)) s = Some (x, s')"
    by (cases "Link_Name l \<in> fst ` set A") (simp_all add: BFSWithEdge_visits, simp add: BFSWithEdge_def)
  moreover have "emits ?P (nn_world s) (nn_world s')"
    if "visit_all (bring_down_dependent E links l) (bfs_visits A (Link_Name l)) s = Some (x, s')"
    using that
  proof (rule visit_all_invariant[where I = "\<lambda>u. emits ?P (nn_world s) (nn_world u)"])
    fix v' e' t y t'
    assume in_visits: "(v', e') \<in> set (bfs_visits A (Link_Name l))" and I: "emits ?P (nn_world s) (nn_world t)"
      and step: "bring_down_dependent E links l v' e' t = Some (y, t')"
    show "emits ?P (nn_world s) (nn_world t')"
    proof (cases "v' = v")
      case True
      have "e' = Some e"
        using in_visits e True bfs_visits_distinct[of A "Link_Name l"] by (metis eq_key_imp_eq_value)
      then show ?thesis using step bring_down_dependent_skipped[OF d, of E links l v' t] I by simp
    next
      case False
      from bring_down_dependent_own[OF step] have "emits ?P (nn_world t) (nn_world t')"
        by (rule emits_mono) (use False in blast)
      with I show ?thesis by (rule emits_trans)
    qed
  qed simp
  ultimately have "emits ?P (nn_world s) (nn_world s')" by (auto simp: emits_def)
  then show ?thesis by (simp add: emits_def list_all_iff)
qed

theorem first_reference_decides_witness:
  "\<exists>s' l d. bringDownDependents RE ''b'' ex_chain ex_chain_graph ex_chain_start = Some (None, s') \<and>
     map_of ex_chain ''x'' = Some l \<and> d \<in> set (deps_of l) \<and> ref_Name d = ''v'' \<and> ref_SetDownOnDependencyChainUpdate d \<and>
     (\<forall>c \<in> set (nl_trace (nn_world s')). \<not> downs RK ''vx1'' c)"
proof -
  obtain s' where run: "bringDownDependents RE ''b'' ex_chain ex_chain_graph ex_chain_start = Some (None, s')"
    using ex_chain_run by blast
  let ?e = "\<lparr>ed_Source = ''b'', ed_Target = ''x'', ed_Properties = \<lparr>ep_Data = Some (ex_ref ''b'')\<rparr>\<rparr>"
  have A: "gr_AdjacencyMap (ne_graph RE) ex_chain_graph = Inr ex_chain_graph" "map_of ex_chain ''b'' = Some ex_bridge"
    "(''x'', Some ?e) \<in> set (bfs_visits ex_chain_graph (Link_Name ex_bridge))" "ep_Data (ed_Properties ?e) = Some (ex_ref ''b'')"
    "\<not> ref_SetDownOnDependencyChainUpdate (ex_ref ''b'')" "nl_trace (nn_world ex_chain_start) = []"
    by (simp_all add: ex_chain_defs rg_wf_def bfs_visits_def adjacent_def state_defs rk_world_def)
  have names: "LinkName l' \<noteq> ''vx1''" if "map_of ex_chain n = Some l'" "n \<noteq> ''x''" for n l'
    using that by (auto simp: ex_chain_defs split: if_splits)
  from first_reference_decides[OF run A(2,1,3,4,5)] A(6)
  have "\<forall>c \<in> set (nl_trace (nn_world s')). \<exists>n l'. n \<noteq> ''x'' \<and> map_of ex_chain n = Some l' \<and>
      is_managed l' \<and> downs RK (LinkName l') c"
    by simp
  moreover have "\<not> downs RK ''vx1'' c" if "downs RK n c" "n \<noteq> ''vx1''" for n c
    using that by (auto simp: downs_def found_as_def rk_by_name_Inr)
  ultimately have "\<forall>c \<in> set (nl_trace (nn_world s')). \<not> downs RK ''vx1'' c" using names by blast
  then show ?thesis using run ex_chain_reference by blast
qed

subsection \<open>Resources that share an interface\<close>

lemma updateDependents_last:
  assumes "updateDependentsMissingDependencies E (before @ [u]) links s = Some (None, s')" and ok: "nenv_ok E"
    and "map_of links u = Some l"
  shows "deps_ok (nn_nodeLinks s') (LinkName l) \<longleftrightarrow> no_missing links l"
proof -
  from assms(1) obtain errs t where tr: "traverse (update_dependent E links) (before @ [u]) (s\<lparr>nn_allDependenciesExist := True\<rparr>) = Some (errs, t)"
    by (auto simp: updateDependentsMissingDependencies_def nenv_okD(4)[OF ok] bind_eq_Some_conv)
  with assms(1) have none: "\<forall>e \<in> set errs. e = None"
    and t: "link_cond (nn_nodeLinks s') n c = link_cond (nn_nodeLinks t) n c" for n c
    by (auto simp: updateDependentsMissingDependencies_def nenv_okD(4)[OF ok] frame_simps split: option.splits if_splits)
  from tr obtain es t1 e where "update_dependent E links u t1 = Some (e, t)" "errs = es @ [e]"
    by (auto simp: traverse_append bind_eq_Some_conv)
  with none have "update_dependent E links u t1 = Some (None, t)" by simp
  from update_dependent_deps[OF this nenv_okD(2,3)[OF ok]] assms(3) show ?thesis by (simp add: deps_ok_def t)
qed

text \<open>
  C38: the conditions of a link are stored under its interface name, and unmanaged resources may share
  the name of a managed one. The last of them to be checked decides: when its dependencies are there,
  the interface counts as having its dependencies although those of the managed resource are missing.
  As long as these conditions stand, the managed link is not stopped as one with missing dependencies:
  \<open>upsertLink\<close> goes on to upsert it when its manager says that it is needed, and to report it ready
  otherwise.
\<close>

theorem shared_interface_hides_missing_dependency:
  assumes run: "updateDependentsMissingDependencies E (before @ [u]) links s = Some (None, s')" and ok: "nenv_ok E"
    and u: "map_of links u = Some lu" "no_missing links lu"
    and v: "map_of links v = Some lv" "LinkName lv = LinkName lu" "\<not> no_missing links lv" "getLinkManager lv = Inr m"
    and t: "NetlinkLinkConditions (nn_nodeLinks t) (LinkName lv) = NetlinkLinkConditions (nn_nodeLinks s') (LinkName lv)"
    and needed: "IsUpsertNeeded (ne_netlink E) m (kern (nn_world t)) links = Some (Inr needed)"
  shows "deps_ok (nn_nodeLinks s') (LinkName lv) \<and>
    upsertLink E links g v t = (if needed then upsert_needed_link E v lv m links g t else upsert_finish E (LinkName lv) t)"
proof -
  have "deps_ok (nn_nodeLinks s') (LinkName lv)" using updateDependents_last[OF run ok u(1)] u(2) v(2) by simp
  moreover from this obtain cs where "NetlinkLinkConditions (nn_nodeLinks t) (LinkName lv) = Some cs"
    "lib_IsStatusConditionTrue (ne_k8s E) cs DependencyLinksAvailable"
    unfolding deps_ok_def link_cond_def t by (auto simp: k8s_condition(3)[OF nenv_okD(2)[OF ok]] split: option.splits)
  ultimately show ?thesis using v(1,4) needed by (simp add: upsertLink_def)
qed

theorem shared_interface_hides_missing_dependency_witness:
  "valid_links ex_shared \<and> \<not> no_missing ex_shared ex_vxlan \<and>
   (\<exists>s' s2 r l. updateDependentsMissingDependencies RE [''v'', ''w''] ex_shared ex_start = Some (None, s') \<and>
      deps_ok (nn_nodeLinks s') ''vx0'' \<and>
      upsert_needed_link RE ''v'' ex_vxlan (manager_of ex_vxlan) ex_shared [(''v'', []), (''w'', [])] s' = Some (r, s2) \<and>
      LinkAdd l \<in> set (nl_trace (nn_world s2)))"
proof (intro conjI)
  show m: "\<not> no_missing ex_shared ex_vxlan" by (rule ex_shared_missing)
  show "valid_links ex_shared" by (rule ex_shared_valid)
  obtain s' s2 r l where run: "updateDependentsMissingDependencies RE ([''v''] @ [''w'']) ex_shared ex_start = Some (None, s')"
    and needed: "IsUpsertNeeded (ne_netlink RE) (manager_of ex_vxlan) (kern (nn_world s')) ex_shared = Some (Inr True)"
    and up: "upsertLink RE ex_shared [(''v'', []), (''w'', [])] ''v'' s' = Some (r, s2)" "LinkAdd l \<in> set (nl_trace (nn_world s2))"
    using ex_shared_added by auto
  have w: "map_of ex_shared ''w'' = Some ex_shared_w" "map_of ex_shared ''v'' = Some ex_vxlan" "LinkName ex_vxlan = LinkName ex_shared_w"
    "LinkName ex_vxlan = ''vx0''" "getLinkManager ex_vxlan = Inr (manager_of ex_vxlan)"
    by (simp_all add: ex_shared_def ex_shared_w_def ex_defs getLinkManager_def manager_of_def)
  from shared_interface_hides_missing_dependency[OF run RE_ok w(1) ex_shared_none w(2,3) m w(5) refl needed, of "[(''v'', []), (''w'', [])]"]
  have "deps_ok (nn_nodeLinks s') ''vx0''"
    "upsert_needed_link RE ''v'' ex_vxlan (manager_of ex_vxlan) ex_shared [(''v'', []), (''w'', [])] s' = Some (r, s2)"
    using up(1) w(4) by simp_all
  then show "\<exists>s' s2 r l. updateDependentsMissingDependencies RE [''v'', ''w''] ex_shared ex_start = Some (None, s') \<and>
      deps_ok (nn_nodeLinks s') ''vx0'' \<and>
      upsert_needed_link RE ''v'' ex_vxlan (manager_of ex_vxlan) ex_shared [(''v'', []), (''w'', [])] s' = Some (r, s2) \<and>
      LinkAdd l \<in> set (nl_trace (nn_world s2))"
    using run up(2) by auto
qed

end
