(* ===== verification/NodeLinks_Convergence.thy ===== *)
theory NodeLinks_Convergence
  imports NodeLinks_Promises
begin

text \<open>
  The whole node converges: one successful reconciliation leaves every listed link in the state its
  resource asks for, not only at the moment it was upserted, and the next reconciliation then makes no
  netlink call. The order of the names carries the argument: a link is worked on, and its dependents are
  brought down, only before those dependents are upserted themselves.
\<close>

subsection \<open>Bringing links down leaves the others alone\<close>





subsection \<open>Dependents come later\<close>


subsection \<open>Settled links stay settled\<close>





subsection \<open>All links settled\<close>




subsection \<open>The whole reconciliation\<close>














end
