(* ===== verification/Link_Properties.thy ===== *)
theory Link_Properties
  imports Reference_Store Manager_Properties
begin

text \<open>
  The properties of the Link controller, each with a concrete run: which nodes end up listing a Link,
  what a reconciliation may touch, and what its deletion waits for.
\<close>

subsection \<open>Concrete clusters\<close>

definition lx_link :: "string list \<Rightarrow> nat option \<Rightarrow> Link" where
  "lx_link ns deleted =
     ex_bridge\<lparr>lk_Meta := (named_meta ''b'')\<lparr>m_Finalizers := [linkFinalizerName], m_DeletionTimestamp := deleted\<rparr>,
       lk_Status := \<lparr>ls_Conditions = [], ls_MatchedNodes = ns\<rparr>\<rparr>"

definition lx_nodeLinks :: "string \<Rightarrow> string list \<Rightarrow> nat option \<Rightarrow> NodeLinks" where
  "lx_nodeLinks n ls deleted =
     (new_NodeLinks n)\<lparr>nk_Meta := (named_meta n)\<lparr>m_Finalizers := [nodeLinksFinalizerName], m_DeletionTimestamp := deleted\<rparr>,
       nk_Spec := \<lparr>nk_MatchingLinks = ls\<rparr>\<rparr>"

definition lx_state :: "Link \<Rightarrow> NodeLinks list \<Rightarrow> string list \<Rightarrow> rstore lstate" where
  "lx_state l ns nodes =
     \<lparr>ln_api = \<lparr>store = \<lparr>rs_links = [(''b'', l)], rs_nodeLinks = map (\<lambda>n. (NodeLinks_Name n, n)) ns,
         rs_nodes = map (\<lambda>n. \<lparr>nd_Meta = named_meta n\<rparr>) nodes, rs_refuses = False\<rparr>, api_trace = []\<rparr>,
      ln_events = [], ln_link = l, ln_clusterState = l\<rparr>"

lemmas lx_defs = lx_state_def lx_link_def lx_nodeLinks_def new_NodeLinks_def
lemmas link_run_defs = Link_Reconcile_def Link_handleUpsert_def Link_handleDeletion_def Link_add_finalizer_def
  Link_update_and_report_def updateNodeLinks_def removeFromUnmatchedNodeLinks_def unmatched_names_def remove_from_nodeLinks_def
  write_without_link_def without_link_def drop_orphaned_finalizer_def registerWithMatchedNodeLinks_def registerWithNodeLinks_def
  register_mutation_def getMatchingNodes_def Link_patchResource_def Link_patch_main_def Link_patch_status_def
  Link_mark_deleted_def set_Link_condition_def set_MatchedNodes_def upd_link_def api_write_def condition_def errors_Join_def
lemmas rc_run_defs = rc_PatchLink_def rc_PatchLinkStatus_def rc_PatchNodeLinks_def rc_merge_def rc_DeleteNodeLinks_def rc_CreateOrPatch_def
  rc_GetLink_def rc_GetNodeLinks_def rc_put_link_def rc_drop_link_def rc_put_nodeLinks_def rc_drop_nodeLinks_def
  rl_SetStatusCondition_def rl_SetOwnerReference_def rl_owner_def RL_def RP_def RC_def

lemmas lx_run_defs = link_run_defs rc_run_defs lx_defs ex_defs Let_def DeletionTimestamp_IsZero_def linkFinalizerName_def named_meta_def

text \<open>A new Link on a cluster of one node; a Link that is deleted and shares its node with another one.\<close>

definition lx_new :: "rstore lstate" where
  "lx_new = lx_state ex_bridge [] [''node1'']"

definition lx_deleted :: "rstore lstate" where
  "lx_deleted = lx_state (lx_link [''node1''] (Some 1)) [lx_nodeLinks ''node1'' [''b'', ''c''] None] [''node1'']"

lemma lx_joins: "\<exists>s'. Link_Reconcile LE ''b'' lx_new = (None, s') \<and> ''node1'' \<in> listed LC (stored s') ''b''"
  by (simp add: lx_run_defs lx_new_def listed_def)

lemma lx_upserted: "\<exists>s'. Link_handleUpsert LE lx_new = (None, s')"
  by (simp add: lx_run_defs lx_new_def)

lemma lx_leaves:
  "\<exists>s'. Link_handleDeletion LE lx_deleted = (None, s') \<and> rc_GetLink (stored s') ''b'' = Inl (rs_missing ''b'') \<and>
     ''node1'' \<in> listed LC (stored s') ''c''"
  by (simp add: lx_run_defs lx_deleted_def listed_def)

lemma lx_recorded: "\<exists>s'. Link_patchResource LE (upd_link (set_MatchedNodes [''node1'']) lx_new) = (None, s')"
  by (simp add: lx_run_defs lx_new_def)

lemma lx_registered: "\<exists>s'. registerWithMatchedNodeLinks LE [\<lparr>nd_Meta = named_meta ''node1''\<rparr>] lx_new = (None, s')"
  by (simp add: lx_run_defs lx_new_def)

lemma lx_left: "\<exists>s'. remove_from_nodeLinks LE ''node1'' lx_deleted = (None, s') \<and> api_trace (ln_api s') \<noteq> []"
  by (simp add: lx_run_defs lx_deleted_def)

lemma lx_listed:
  "listed LC (stored lx_new) l = {}"
  "listed LC (stored lx_deleted) l = (if l = ''b'' \<or> l = ''c'' then {''node1''} else {})"
  by (auto simp: listed_def lx_new_def lx_deleted_def lx_defs rc_GetNodeLinks_def DeletionTimestamp_IsZero_def split: if_splits)

lemma lx_new_tracked: "tracked LC linkFinalizerName (stored lx_new) l"
  by (simp add: tracked_def lx_listed)

lemma lx_deleted_tracked: "tracked LC linkFinalizerName (stored lx_deleted) ''b''"
  by (simp add: tracked_def lx_listed) (simp add: tracks_def lx_deleted_def lx_defs rc_GetLink_def ex_defs)

subsection \<open>Tracking\<close>

text \<open>
  C17: a reconciliation of a Link, however it ends, keeps the relation its deletion relies on: a Link
  that a NodeLinks resource lists (one that is not being deleted) exists, has the finalizer, and its
  status names the node. No error path and no refused request breaks it, for this Link or another.
\<close>

theorem link_tracking_kept:
  assumes run: "Link_Reconcile E name s = (e, s')" and ok: "link_env_ok E"
    and tracked: "\<And>l. tracked (le_client E) linkFinalizerName (store (ln_api s)) l"
  shows "tracked (le_client E) linkFinalizerName (store (ln_api s')) l"
proof -
  note T = Link_Reconcile_tracked[OF run ok tracked]
  show ?thesis
  proof (cases "l = name")
    case True
    then show ?thesis using T by simp
  next
    case False
    then show ?thesis using T tracked[of l] tracked_cong[of "le_client E" "stored s'" l "stored s"] by (simp add: only_own_def)
  qed
qed

theorem link_tracking_kept_witness:
  "\<exists>s'. Link_Reconcile LE ''b'' lx_new = (None, s') \<and> ''node1'' \<in> listed LC (store (ln_api s')) ''b'' \<and>
     tracked LC linkFinalizerName (store (ln_api s')) ''b''"
proof -
  obtain s' where run: "Link_Reconcile LE ''b'' lx_new = (None, s')" "''node1'' \<in> listed LC (stored s') ''b''"
    using lx_joins by blast
  have "tracked LC linkFinalizerName (stored s') ''b''"
    using link_tracking_kept[OF run(1) LE_ok, of "''b''"] lx_new_tracked by simp
  then show ?thesis using run by blast
qed

text \<open>
  C21: a reconciliation of a Link touches that Link and the entries of NodeLinks resources for it: every
  other Link is left as it was, and is listed by the same live NodeLinks resources as before.
\<close>

theorem link_reconcile_is_local:
  assumes "Link_Reconcile E name s = (e, s')" and "link_env_ok E"
    and "tracked (le_client E) linkFinalizerName (store (ln_api s)) name" and "l \<noteq> name"
  shows "api_GetLink (le_client E) (store (ln_api s')) l = api_GetLink (le_client E) (store (ln_api s)) l \<and>
    listed (le_client E) (store (ln_api s')) l = listed (le_client E) (store (ln_api s)) l"
  using Link_Reconcile_tracked[OF assms(1-3)] assms(4) by (simp add: only_own_def)

theorem link_reconcile_is_local_witness:
  "\<exists>e s'. Link_Reconcile LE ''b'' lx_deleted = (e, s') \<and> listed LC (store (ln_api s')) ''c'' = {''node1''}"
proof -
  obtain e s' where run: "Link_Reconcile LE ''b'' lx_deleted = (e, s')" by fastforce
  from link_reconcile_is_local[OF run LE_ok, of "''c''"] show ?thesis using run lx_deleted_tracked by (simp add: lx_listed)
qed

text \<open>
  C6: when the upsert of a Link reports success, its stored status says so and names exactly the nodes
  that its selector matches, in that order: the answer of the API server to the list of nodes with the
  selector of the Link as it was read. No NodeLinks resource of another node lists the Link, and that
  of every matching node does, unless it is being deleted.
\<close>

theorem link_upsert_places:
  assumes run: "Link_handleUpsert E s = (None, s')" and start: "fetched E name s" and ok: "link_env_ok E"
    and tracked: "tracked (le_client E) linkFinalizerName (store (ln_api s)) name"
    and selection: "selection_law (le_client E)"
  shows "\<exists>nodes. api_ListNodes (le_client E) (store (ln_api s)) (lk_NodeSelector (lk_Spec (ln_link s))) = Inr nodes \<and>
    api_GetLink (le_client E) (store (ln_api s')) name = Inr (ln_link s') \<and>
    says (Link_cond Ready (ln_link s')) (condition Ready ConditionTrue ReconcileSuccessful NoMessage) \<and>
    MatchedNodes (ln_link s') = map Node_Name nodes \<and>
    listed (le_client E) (store (ln_api s')) name \<subseteq> Node_Name ` set nodes \<and>
    (\<forall>node \<in> set nodes. \<exists>x. api_GetNodeLinks (le_client E) (store (ln_api s')) (Node_Name node) = Inr x \<and>
       (DeletionTimestamp_IsZero (nk_Meta x) \<longrightarrow> name \<in> set (MatchingLinks x)))"
proof -
  obtain t where t: "Link_update_and_report E t = (None, s')" "follows E name t" "selects_as E s t"
    by (rule Link_handleUpsert_selects[OF run start ok tracked selection])
  from Link_update_and_report_follows[OF t(1,2) ok] obtain nodes where u: "follows E name s'" "ln_clusterState s' = ln_link s'"
    "says (Link_cond Ready (ln_link s')) (condition Ready ConditionTrue ReconcileSuccessful NoMessage)"
    "getMatchingNodes E t = Inr nodes" "placed E name nodes s'" by blast
  have "api_ListNodes (le_client E) (store (ln_api s)) (lk_NodeSelector (lk_Spec (ln_link s))) = Inr nodes"
    using u(4) t(3) by (simp add: getMatchingNodes_def selects_as_def Let_def split: option.splits)
  moreover have "api_GetLink (le_client E) (store (ln_api s')) name = Inr (ln_link s')" using u(1,2) by (simp add: follows_def)
  ultimately show ?thesis using u(3,5) unfolding placed_def joined_def by blast
qed

theorem link_upsert_places_witness:
  "\<exists>s'. Link_handleUpsert LE lx_new = (None, s') \<and> MatchedNodes (ln_link s') = [''node1''] \<and>
     listed LC (store (ln_api s')) ''b'' \<subseteq> {''node1''}"
proof -
  obtain s' where run: "Link_handleUpsert LE lx_new = (None, s')" using lx_upserted by blast
  have "fetched LE ''b'' lx_new" by (simp add: fetched_def lx_new_def lx_state_def rc_GetLink_def ex_defs)
  from link_upsert_places[OF run this LE_ok, unfolded LE_sel(1), OF lx_new_tracked LC_selection] obtain nodes where
    nodes: "api_ListNodes LC (store (ln_api lx_new)) (lk_NodeSelector (lk_Spec (ln_link lx_new))) = Inr nodes"
    "MatchedNodes (ln_link s') = map Node_Name nodes" "listed LC (store (ln_api s')) ''b'' \<subseteq> Node_Name ` set nodes" by blast
  from nodes(1) have "map Node_Name nodes = [''node1'']"
    by (auto simp: RC_def lx_new_def lx_state_def ex_defs named_meta_def)
  then have "Node_Name ` set nodes = {''node1''}" "map Node_Name nodes = [''node1'']" by (simp_all flip: set_map)
  then show ?thesis using run nodes(2,3) by (intro exI[of _ s']) simp
qed

text \<open>
  C4: the deletion of a Link waits for its nodes. When it reports success, no live NodeLinks resource
  lists the Link any more; when it fails, the Link still has its finalizer or is on no node.
\<close>

theorem link_deletion_waits:
  assumes run: "Link_handleDeletion E s = (e, s')" and start: "fetched E name s" and ok: "link_env_ok E"
    and tracked: "tracked (le_client E) linkFinalizerName (store (ln_api s)) name"
  shows "(e = None \<longrightarrow> listed (le_client E) (store (ln_api s')) name = {}) \<and>
    (listed (le_client E) (store (ln_api s')) name \<noteq> {} \<longrightarrow>
       (\<exists>l. api_GetLink (le_client E) (store (ln_api s')) name = Inr l \<and> linkFinalizerName \<in> set (m_Finalizers (lk_Meta l))))"
  using Link_handleDeletion_tracked[OF run start ok tracked] by (auto simp: tracked_def tracks_def)

theorem link_deletion_waits_witness:
  "\<exists>s'. Link_handleDeletion LE lx_deleted = (None, s') \<and> listed LC (store (ln_api s')) ''b'' = {}"
proof -
  obtain s' where run: "Link_handleDeletion LE lx_deleted = (None, s')" using lx_leaves by blast
  have "fetched LE ''b'' lx_deleted" by (simp add: fetched_def lx_deleted_def lx_defs rc_GetLink_def ex_defs)
  from link_deletion_waits[OF run this LE_ok] lx_deleted_tracked run show ?thesis by auto
qed

subsection \<open>Requests\<close>

lemma store_patch_law: "link_env_ok E \<Longrightarrow> link_patch_law (le_client E)"
  unfolding link_patch_law_def
proof (intro conjI allI impI)
  fix a obj base resp a'
  assume ok: "link_env_ok E"
  note law = store_lawsD(3,4)[OF link_env_okD(2)[OF ok]]
  show "Link_Name resp = Link_Name obj" if "api_PatchLink (le_client E) a obj base = (Inr resp, a')"
    using law(1)[unfolded link_main_law_def, rule_format, OF that] by simp
  show "Link_Name resp = Link_Name obj" "lk_Status resp = lk_Status obj"
    if "api_PatchLinkStatus (le_client E) a obj base = (Inr resp, a')"
    using law(2)[unfolded link_status_law_def, rule_format, OF that] by simp_all
qed

lemma registerWithNodeLinks_call:
  assumes "registerWithNodeLinks E node s = (e, s')"
  shows "api_trace (ln_api s') = api_trace (ln_api s) @ [CreateOrPatchNodeLinks (Node_Name node)]" "ln_link s' = ln_link s"
    "ln_clusterState s' = ln_clusterState s"
  using assms by (auto simp: registerWithNodeLinks_def api_write_def split: option.splits prod.splits)

lemma register_each_calls:
  "run_each (registerWithNodeLinks E) nodes s = (es, s') \<Longrightarrow>
     api_trace (ln_api s') = api_trace (ln_api s) @ map (\<lambda>node. CreateOrPatchNodeLinks (Node_Name node)) nodes"
proof (induction nodes arbitrary: s es)
  case (Cons node nodes)
  from Cons.prems obtain e s1 zs where step: "registerWithNodeLinks E node s = (e, s1)"
    "run_each (registerWithNodeLinks E) nodes s1 = (zs, s')" by (rule run_each_ConsE)
  show ?case using Cons.IH[OF step(2)] registerWithNodeLinks_call(1)[OF step(1)] by simp
qed simp

text \<open>
  The status is written before any NodeLinks resource. The names of the matching nodes go into the
  status of the Link first, in at most two patches of that Link; when that fails no NodeLinks resource
  is touched, and when it succeeds every matching node gets its one request, in order, whether the
  earlier ones failed or not.
\<close>

theorem nodes_recorded_before_registration:
  assumes run: "registerWithMatchedNodeLinks E nodes s = (e, s')" and ok: "lenv_ok E" "link_patch_law (le_client E)"
  shows "\<exists>perr s1 cs. Link_patchResource E (upd_link (set_MatchedNodes (map Node_Name nodes)) s) = (perr, s1) \<and>
    api_trace (ln_api s1) = api_trace (ln_api s) @ cs \<and> length cs \<le> 2 \<and>
    (\<forall>c \<in> set cs. own_patch (upd_link (set_MatchedNodes (map Node_Name nodes)) s) c) \<and>
    (case perr of Some _ \<Rightarrow> e = perr \<and> s' = s1
     | None \<Rightarrow> MatchedNodes (ln_clusterState s1) = map Node_Name nodes \<and>
         api_trace (ln_api s') = api_trace (ln_api s1) @ map (\<lambda>node. CreateOrPatchNodeLinks (Node_Name node)) nodes)"
proof -
  let ?s = "upd_link (set_MatchedNodes (map Node_Name nodes)) s"
  obtain perr s1 where p: "Link_patchResource E ?s = (perr, s1)" by fastforce
  from Link_patchResource_frame[OF p lenv_okD(1)[OF ok(1)] ok(2)] obtain cs where
    cs: "api_trace (ln_api s1) = api_trace (ln_api s) @ cs" "length cs \<le> 2" "\<forall>c \<in> set cs. own_patch ?s c"
    and st: "lk_Status (ln_link s1) = lk_Status (ln_link ?s)" by auto
  note run' = run[unfolded registerWithMatchedNodeLinks_def pie_simps[OF lenv_okD(2)[OF ok(1)]] p lenv_okD(4)[OF ok(1)]]
  have "case perr of Some _ \<Rightarrow> e = perr \<and> s' = s1
     | None \<Rightarrow> MatchedNodes (ln_clusterState s1) = map Node_Name nodes \<and>
         api_trace (ln_api s') = api_trace (ln_api s1) @ map (\<lambda>node. CreateOrPatchNodeLinks (Node_Name node)) nodes"
  proof (cases perr)
    case None
    then obtain errs where r: "run_each (registerWithNodeLinks E) nodes s1 = (errs, s')" using run' by (auto split: prod.splits)
    have "ln_clusterState s1 = ln_link s1" using Link_patch.synced[of E ?s s1] p None by simp
    then show ?thesis using None register_each_calls[OF r] st by simp
  next
    case (Some err)
    then show ?thesis using run' by auto
  qed
  then show ?thesis using p cs by blast
qed

theorem nodes_recorded_before_registration_witness:
  "\<exists>s'. registerWithMatchedNodeLinks LE [\<lparr>nd_Meta = named_meta ''node1''\<rparr>] lx_new = (None, s') \<and>
     last (api_trace (ln_api s')) = CreateOrPatchNodeLinks ''node1'' \<and> length (api_trace (ln_api s')) \<le> 3"
proof -
  let ?nodes = "[\<lparr>nd_Meta = named_meta ''node1''\<rparr>]" and ?s = "upd_link (set_MatchedNodes [''node1'']) lx_new"
  have ok: "lenv_ok LE" "link_patch_law (le_client LE)" using link_env_okD(1)[OF LE_ok] store_patch_law[OF LE_ok] by simp_all
  obtain s1 where p: "Link_patchResource LE ?s = (None, s1)" using lx_recorded by blast
  obtain s' where run: "registerWithMatchedNodeLinks LE ?nodes lx_new = (None, s')" using lx_registered by blast
  from nodes_recorded_before_registration[OF run ok] p obtain cs where
    "api_trace (ln_api s1) = cs" "length cs \<le> 2" "api_trace (ln_api s') = cs @ [CreateOrPatchNodeLinks ''node1'']"
    by (auto simp: lx_new_def lx_state_def)
  then show ?thesis using run by auto
qed

text \<open>What \<open>drop_orphaned_finalizer\<close> may change, and when.\<close>

lemma drop_orphaned_finalizer_result:
  assumes "drop_orphaned_finalizer E n a x = Inr y" and "k8s_laws (le_k8s E)"
  shows "y = x\<lparr>nk_Meta := (nk_Meta x)\<lparr>m_Finalizers := m_Finalizers (nk_Meta y)\<rparr>\<rparr> \<and>
    (m_Finalizers (nk_Meta y) \<noteq> m_Finalizers (nk_Meta x) \<longrightarrow> \<not> live x \<and>
       (\<exists>err. api_GetNode (le_client E) a n = Inl err \<and> lib_IsNotFound (le_k8s E) err) \<and>
       m_Finalizers (nk_Meta y) = filter (\<lambda>f. f \<noteq> nodeLinksFinalizerName) (m_Finalizers (nk_Meta x)))"
  using assms(1) by (auto simp: drop_orphaned_finalizer_def k8s_simps[OF assms(2)] split: if_splits sum.splits)

text \<open>
  C18: taking a Link off a node is precise. At most one request is sent, computed from the stored
  resource: the list loses this Link and nothing else; the resource is deleted only when the list
  becomes empty and it is not being deleted yet; its finalizer is dropped only when it is being
  deleted and the API server says that its node does not exist.
\<close>

theorem node_removal_is_precise:
  assumes run: "remove_from_nodeLinks E n s = (e, s')" and ok: "lenv_ok E"
  shows "\<exists>cs. api_trace (ln_api s') = api_trace (ln_api s) @ cs \<and>
    (cs = [] \<or> (\<exists>x y fs. api_GetNodeLinks (le_client E) (store (ln_api s)) n = Inr x \<and>
       y = x\<lparr>nk_Meta := (nk_Meta x)\<lparr>m_Finalizers := fs\<rparr>,
             nk_Spec := (nk_Spec x)\<lparr>nk_MatchingLinks := filter (\<lambda>l. l \<noteq> Link_Name (ln_link s)) (MatchingLinks x)\<rparr>\<rparr> \<and>
       (if MatchingLinks y = [] \<and> DeletionTimestamp_IsZero (nk_Meta x) then cs = [DeleteNodeLinks y] else cs = [PatchNodeLinks y x]) \<and>
       (fs \<noteq> m_Finalizers (nk_Meta x) \<longrightarrow> \<not> DeletionTimestamp_IsZero (nk_Meta x) \<and>
          (\<exists>err. api_GetNode (le_client E) (store (ln_api s)) n = Inl err \<and> lib_IsNotFound (le_k8s E) err) \<and>
          fs = filter (\<lambda>f. f \<noteq> nodeLinksFinalizerName) (m_Finalizers (nk_Meta x))) \<and>
       (Link_Name (ln_link s) \<in> set (MatchingLinks x) \<or> fs \<noteq> m_Finalizers (nk_Meta x))))"
proof -
  let ?l = "Link_Name (ln_link s)" and ?C = "le_client E" and ?a = "store (ln_api s)"
  note k8s = lenv_okD(1)[OF ok] and pie = lenv_okD(2)[OF ok]
  have unchanged: ?thesis if "ln_api s' = ln_api s" using that by (intro exI[of _ "[]"]) simp
  show ?thesis
  proof (cases "api_GetNodeLinks ?C ?a n")
    case (Inl err)
    then show ?thesis using run by (intro unchanged) (auto simp: remove_from_nodeLinks_def Let_def split: if_splits)
  next
    case x: (Inr x)
    show ?thesis
    proof (cases "drop_orphaned_finalizer E n ?a x")
      case (Inl err)
      then show ?thesis using run x by (intro unchanged) (auto simp: remove_from_nodeLinks_def Let_def)
    next
      case y: (Inr y)
      let ?fs = "m_Finalizers (nk_Meta y)" and ?z = "without_link E ?l y"
      note D = drop_orphaned_finalizer_result[OF y k8s] and same = drop_orphaned_finalizer_same[OF y]
      show ?thesis
      proof (cases "?l \<notin> set (MatchingLinks y) \<and> length ?fs = length (m_Finalizers (nk_Meta x))")
        case True
        then show ?thesis using run x y by (intro unchanged) (auto simp: remove_from_nodeLinks_def Let_def)
      next
        case False
        obtain r aw where w: "write_without_link E x ?z (ln_api s) = (r, aw)" by fastforce
        have api: "ln_api s' = aw" using run x y w False by (cases r) (auto simp: remove_from_nodeLinks_def Let_def)
        obtain z fs where z: "z = x\<lparr>nk_Meta := (nk_Meta x)\<lparr>m_Finalizers := fs\<rparr>,
             nk_Spec := (nk_Spec x)\<lparr>nk_MatchingLinks := filter (\<lambda>l. l \<noteq> ?l) (MatchingLinks x)\<rparr>\<rparr>"
          and zs: "?z = z" "?fs = fs"
        proof -
          obtain fs where fs: "y = x\<lparr>nk_Meta := (nk_Meta x)\<lparr>m_Finalizers := fs\<rparr>\<rparr>" using D by blast
          show thesis by (rule that[OF refl, of fs]) (simp_all add: fs without_link_def pie_simps[OF pie])
        qed
        define cs where "cs = (if MatchingLinks z = [] \<and> live x then [DeleteNodeLinks z] else [PatchNodeLinks z x])"
        have "live z = live x" unfolding z by (simp add: DeletionTimestamp_IsZero_def)
        then have "api_trace (ln_api s') = api_trace (ln_api s) @ cs"
          using w unfolding api zs cs_def
          by (auto simp: write_without_link_def dest: api_write_trace split: if_splits prod.splits sum.splits)
        moreover have "if MatchingLinks z = [] \<and> live x then cs = [DeleteNodeLinks z] else cs = [PatchNodeLinks z x]"
          by (simp add: cs_def)
        moreover have "?l \<in> set (MatchingLinks x) \<or> fs \<noteq> m_Finalizers (nk_Meta x)" using False same(1) zs(2) by auto
        ultimately show ?thesis using x z D[unfolded zs(2)] by blast
      qed
    qed
  qed
qed

theorem node_removal_is_precise_witness:
  "\<exists>s' y x. remove_from_nodeLinks LE ''node1'' lx_deleted = (None, s') \<and> api_trace (ln_api s') = [PatchNodeLinks y x] \<and>
     MatchingLinks x = [''b'', ''c''] \<and> MatchingLinks y = [''c'']"
proof -
  obtain s' where run: "remove_from_nodeLinks LE ''node1'' lx_deleted = (None, s')" "api_trace (ln_api s') \<noteq> []"
    using lx_left by blast
  have x: "rc_GetNodeLinks (stored lx_deleted) ''node1'' = Inr (lx_nodeLinks ''node1'' [''b'', ''c''] None)"
    "Link_Name (ln_link lx_deleted) = ''b''" "api_trace (ln_api lx_deleted) = []"
    by (simp_all add: lx_deleted_def lx_defs rc_GetNodeLinks_def ex_defs)
  have ml: "MatchingLinks (lx_nodeLinks ''node1'' [''b'', ''c''] None) = [''b'', ''c'']" by (simp add: lx_nodeLinks_def)
  from node_removal_is_precise[OF run(1) link_env_okD(1)[OF LE_ok]] run(2) obtain x y fs where
    "rc_GetNodeLinks (stored lx_deleted) ''node1'' = Inr x"
    and y: "y = x\<lparr>nk_Meta := (nk_Meta x)\<lparr>m_Finalizers := fs\<rparr>,
             nk_Spec := (nk_Spec x)\<lparr>nk_MatchingLinks := filter (\<lambda>l. l \<noteq> Link_Name (ln_link lx_deleted)) (MatchingLinks x)\<rparr>\<rparr>"
    and cs: "if MatchingLinks y = [] \<and> live x then api_trace (ln_api s') = [DeleteNodeLinks y]
      else api_trace (ln_api s') = [PatchNodeLinks y x]"
    by (auto simp: x(3))
  then have "MatchingLinks x = [''b'', ''c'']" "MatchingLinks y = [''c'']" using x ml by simp_all
  then show ?thesis using run cs by auto
qed

subsection \<open>Resources that are being deleted\<close>

lemma register_keeps_deleting:
  assumes run: "registerWithNodeLinks E node s = (e, s')" and ok: "link_env_ok E"
    and x: "api_GetNodeLinks (le_client E) (stored s) n = Inr x" "\<not> live x"
  shows "\<exists>z. api_GetNodeLinks (le_client E) (stored s') n = Inr z \<and> \<not> live z \<and> MatchingLinks z = MatchingLinks x"
proof -
  let ?C = "le_client E" and ?n = "Node_Name node"
  obtain r a' where p: "api_CreateOrPatchNodeLinks ?C (stored s) ?n (register_mutation E node (Link_Name (ln_link s))) = (r, a')" by fastforce
  have s': "stored s' = a'" using run p by (auto simp: registerWithNodeLinks_def api_write_def split: option.splits prod.splits)
  note law = store_lawsD(8)[OF link_env_okD(2)[OF ok], unfolded nodeLinks_create_law_def, rule_format, OF p]
  show ?thesis
  proof (cases "n = ?n \<and> r = None")
    case False
    then have "api_GetNodeLinks ?C a' n = api_GetNodeLinks ?C (stored s) n"
      using law by (cases r) (auto simp: only_nodeLinks_def)
    then show ?thesis using x s' by simp
  next
    case True
    then obtain y0 y z where *: "starts_from ?C (le_k8s E) (stored s) n y0" "register_mutation E node (Link_Name (ln_link s)) y0 = Inr y"
      "api_GetNodeLinks ?C a' n = Inr z" "relists y (MatchingLinks y) z" using law by auto
    have "y0 = x" using *(1) x by (auto simp: starts_from_def gone_def)
    with register_mutation_result[OF *(2) link_env_okD(3)[OF ok]] x(2) have "y = x" by simp
    then show ?thesis using * x(2) s' by (auto simp: relists_def)
  qed
qed

text \<open>The registration with a resource that is being deleted succeeds and sends nothing.\<close>

lemma register_leaves_deleting:
  assumes "link_env_ok E" and "unchanged_law (le_client E)"
    and x: "api_GetNodeLinks (le_client E) (stored s) (Node_Name node) = Inr x" "\<not> live x"
  shows "\<exists>s'. registerWithNodeLinks E node s = (None, s') \<and> stored s' = stored s \<and> ln_link s' = ln_link s"
proof -
  let ?f = "register_mutation E node (Link_Name (ln_link s))"
  have "?f x = Inr x" using x(2) by (simp add: register_mutation_def)
  from unchanged_lawD[where f = ?f, OF assms(2) x(1) this] show ?thesis
    by (simp add: registerWithNodeLinks_def api_write_def)
qed

lemma register_other:
  assumes "registerWithNodeLinks E node s = (e, s')" and "link_env_ok E" and "n \<noteq> Node_Name node"
  shows "api_GetNodeLinks (le_client E) (stored s') n = api_GetNodeLinks (le_client E) (stored s) n"
proof -
  obtain r a' where p: "api_CreateOrPatchNodeLinks (le_client E) (stored s) (Node_Name node)
      (register_mutation E node (Link_Name (ln_link s))) = (r, a')" by fastforce
  have "stored s' = a'" using assms(1) p by (auto simp: registerWithNodeLinks_def api_write_def split: option.splits prod.splits)
  then show ?thesis
    using store_lawsD(8)[OF link_env_okD(2)[OF assms(2)], unfolded nodeLinks_create_law_def, rule_format, OF p] assms(3)
    by (simp add: only_nodeLinks_def)
qed

lemma registerWithMatched_deleting:
  assumes run: "registerWithMatchedNodeLinks E nodes s = (None, s')" and ok: "link_env_ok E" "unchanged_law (le_client E)"
    and x: "api_GetNodeLinks (le_client E) (stored s) n = Inr x" "\<not> live x"
  shows "MatchedNodes (ln_link s') = map Node_Name nodes \<and> api_GetNodeLinks (le_client E) (stored s') n = Inr x"
proof -
  let ?s = "upd_link (set_MatchedNodes (map Node_Name nodes)) s"
  obtain perr s1 where p: "Link_patchResource E ?s = (perr, s1)" by fastforce
  note run' = run[unfolded registerWithMatchedNodeLinks_def pie_simps[OF link_env_okD(4)[OF ok(1)]] p link_env_okD(6)[OF ok(1)]]
  have "perr = None" using run' by (cases perr) simp_all
  then obtain errs where r: "run_each (registerWithNodeLinks E) nodes s1 = (errs, s')" using run' by (auto split: prod.splits)
  have st: "lk_Status (ln_link s1) = lk_Status (ln_link ?s)"
    using Link_patchResource_frame[OF p link_env_okD(3)[OF ok(1)] store_patch_law[OF ok(1)]] by blast
  have "only_link (le_client E) (Link_Name (ln_link s)) (stored s) (stored s1)"
    using Link_patchResource_only[OF p refl ok(1)] by simp
  then have s1: "api_GetNodeLinks (le_client E) (stored s1) n = Inr x" using x(1) by (simp add: only_link_def)
  let ?I = "\<lambda>t. ln_link t = ln_link s1 \<and> api_GetNodeLinks (le_client E) (stored t) n = Inr x"
  have "?I s'"
  proof (rule run_each_invariant[where I = ?I, OF r])
    show "?I s1" using s1 by simp
    fix node t y t'
    assume I: "?I t" and step: "registerWithNodeLinks E node t = (y, t')"
    have "ln_link t' = ln_link t" by (rule registerWithNodeLinks_call(2)[OF step])
    moreover have "api_GetNodeLinks (le_client E) (stored t') n = api_GetNodeLinks (le_client E) (stored t) n"
    proof (cases "n = Node_Name node")
      case True
      then show ?thesis using register_leaves_deleting[OF ok _ x(2), of t node] I step by auto
    qed (rule register_other[OF step ok(1)])
    ultimately show "?I t'" using I by simp
  qed
  then show ?thesis using st by simp
qed

text \<open>A node whose resource is being deleted and does not list the Link, as when its last link was removed.\<close>

definition lx_ending :: "rstore lstate" where
  "lx_ending = lx_state (lx_link [] None) [lx_nodeLinks ''node1'' [] (Some 1)] [''node1'']"

lemma lx_ending_run:
  "\<exists>s'. registerWithMatchedNodeLinks LE [\<lparr>nd_Meta = named_meta ''node1''\<rparr>] lx_ending = (None, s') \<and>
     MatchedNodes (ln_link s') = [''node1'']"
  by (simp add: lx_run_defs lx_ending_def)

end
