(* ===== verification/Link_Webhook.thy ===== *)
theory Link_Webhook
  imports Operator_Env Manager_Properties
begin

text \<open>
  The admission webhook of Link resources (\<open>link_webhook.go\<close>). A validation returns the warnings, always
  none, and an error or nil. \<open>LabelSelectorAsSelector\<close> is the conversion of the library.
\<close>

type_synonym admission = "string list \<times> goerror option"

definition validateNodeSelector :: "'a api_client \<Rightarrow> Link \<Rightarrow> goerror option" where
  "validateNodeSelector C link =
     (case api_LabelSelectorError C (lk_NodeSelector (lk_Spec link)) of
        Some err \<Rightarrow> Some (Wrapf (WebhookMsg InvalidNodeSelector) err)
      | None \<Rightarrow> None)"

definition validateVXLANRemote :: "VXLANSpecs \<Rightarrow> goerror option" where
  "validateVXLANRemote vxlan =
     (let remoteAddress = ParseIP (vx_RemoteIPAddress vxlan) in
      if IsMulticast remoteAddress \<and> vx_Device vxlan = None
      then Some (Errorf (WebhookMsg (MulticastNeedsDevice (vx_RemoteIPAddress vxlan)))) else None)"

definition validateVXLAN :: "VXLANSpecs \<Rightarrow> goerror option" where
  "validateVXLAN vxlan = validateVXLANRemote vxlan"

definition validateLinkSpecs :: "Link \<Rightarrow> goerror option" where
  "validateLinkSpecs link = (case Spec_VXLAN link of Some vxlan \<Rightarrow> validateVXLAN vxlan | None \<Rightarrow> None)"

definition webhook_validate :: "'a api_client \<Rightarrow> Link \<Rightarrow> admission" where
  "webhook_validate C link =
     (let errs = (case validateNodeSelector C link of Some err \<Rightarrow> [err] | None \<Rightarrow> []);
          errs = (case validateLinkSpecs link of Some err \<Rightarrow> errs @ [err] | None \<Rightarrow> errs)
      in ([], errors_Join (map Some errs)))"

definition ValidateCreate :: "'a api_client \<Rightarrow> Link \<Rightarrow> admission" where
  "ValidateCreate C obj = webhook_validate C obj"

definition ValidateUpdate :: "'a api_client \<Rightarrow> Link \<Rightarrow> Link \<Rightarrow> admission" where
  "ValidateUpdate C oldObj newObj = webhook_validate C newObj"

definition ValidateDelete :: "Link \<Rightarrow> admission" where
  "ValidateDelete obj = ([], None)"

subsection \<open>Multicast addresses\<close>

text \<open>The text is a dotted IPv4 address with the fields \<open>fs\<close>, as the API server checks (\<open>Format=ipv4\<close>).\<close>

definition dotted :: "string \<Rightarrow> nat list \<Rightarrow> bool" where
  "dotted s fs \<longleftrightarrow>
     (\<exists>r. dropWhile (\<lambda>c. c \<noteq> CHR ''.'' \<and> c \<noteq> CHR '':'' \<and> c \<noteq> CHR ''%'') s = CHR ''.'' # r) \<and>
     parse_v4_fields [] 0 0 s = Some fs"

lemma multicast_byte:
  assumes "a < 256"
  shows "(of_nat a :: byte) AND 0xF0 = 0xE0 \<longleftrightarrow> 224 \<le> a \<and> a < 240"
proof -
  have 8: "take_bit 8 a = a" using assms by (simp add: take_bit_nat_eq_self)
  have mask: "(0xF0 :: nat) = push_bit 4 (mask 4)" by (simp add: push_bit_eq_mult mask_eq_exp_minus_1)
  have "a AND 0xF0 = push_bit 4 (drop_bit 4 a)"
  proof (rule bit_eqI)
    fix n
    have "bit a n \<longleftrightarrow> n < 8 \<and> bit a n" by (metis 8 bit_take_bit_iff)
    then show "bit (a AND 0xF0) n \<longleftrightarrow> bit (push_bit 4 (drop_bit 4 a)) n"
      unfolding mask by (auto simp: bit_and_iff bit_push_bit_iff bit_mask_iff bit_drop_bit_eq)
  qed
  then have "a AND 0xF0 = 16 * (a div 16)" by (simp add: push_bit_eq_mult drop_bit_eq_div)
  moreover have "unat ((of_nat a :: byte) AND 0xF0) = a AND 0xF0"
    using assms by (simp add: unsigned_and_eq unat_of_nat)
  moreover have "(of_nat a :: byte) AND 0xF0 = 0xE0 \<longleftrightarrow> unat ((of_nat a :: byte) AND 0xF0) = unat (0xE0 :: byte)"
    by (rule word_unat_eq_iff)
  ultimately show ?thesis by auto
qed

lemma parse_v4_fields_bytes:
  "parse_v4_fields fs v d s = Some out \<Longrightarrow> v < 256 \<Longrightarrow> list_all (\<lambda>x. x < 256) fs \<Longrightarrow> list_all (\<lambda>x. x < 256) out"
  by (induction fs v d s rule: parse_v4_fields.induct) (auto split: if_splits option.splits)

lemma IsMulticast_dotted:
  assumes "dotted s fs"
  shows "IsMulticast (ParseIP s) \<longleftrightarrow> 224 \<le> fs ! 0 \<and> fs ! 0 < 240"
proof -
  from assms obtain r where s: "dropWhile (\<lambda>c. c \<noteq> CHR ''.'' \<and> c \<noteq> CHR '':'' \<and> c \<noteq> CHR ''%'') s = CHR ''.'' # r"
    and fs: "parse_v4_fields [] 0 0 s = Some fs" by (auto simp: dotted_def)
  have "length fs = 4" "list_all (\<lambda>x. x < 256) fs"
    using parse_v4_fields_length[OF fs] parse_v4_fields_bytes[OF fs] by simp_all
  then have "fs \<noteq> []" "fs ! 0 < 256" by (auto simp: list_all_length)
  moreover have "To4 (ParseIP s) = map of_nat fs" by (rule To4_ParseIP_v4[OF s fs])
  ultimately show ?thesis using multicast_byte[of "fs ! 0"] by (simp add: IsMulticast_def nth_map)
qed

subsection \<open>What the webhook rejects\<close>

lemma webhook_validate_result:
  "webhook_validate C link =
     ([], errors_Join [validateNodeSelector C link, validateLinkSpecs link])"
  by (simp add: webhook_validate_def errors_Join_def split: option.splits)

text \<open>
  C34: the webhook rejects a new or changed Link exactly when its node selector does not convert, or it
  is a VXLAN whose remote address is multicast (first byte 224 to 239) without a device; it never
  warns, the old object has no influence on an update, and a deletion is always allowed.
\<close>

theorem webhook_rejects_iff:
  assumes "\<And>vx. Spec_VXLAN link = Some vx \<Longrightarrow> dotted (vx_RemoteIPAddress vx) (octets vx)"
  shows "(snd (ValidateCreate C link) = None \<longleftrightarrow>
      api_LabelSelectorError C (lk_NodeSelector (lk_Spec link)) = None \<and>
      (\<forall>vx. Spec_VXLAN link = Some vx \<longrightarrow> vx_Device vx \<noteq> None \<or> octets vx ! 0 < 224 \<or> 239 < octets vx ! 0)) \<and>
    fst (ValidateCreate C link) = [] \<and> ValidateUpdate C old link = ValidateCreate C link \<and> ValidateDelete link = ([], None)"
proof -
  have "validateLinkSpecs link = None \<longleftrightarrow>
      (\<forall>vx. Spec_VXLAN link = Some vx \<longrightarrow> vx_Device vx \<noteq> None \<or> octets vx ! 0 < 224 \<or> 239 < octets vx ! 0)"
    using IsMulticast_dotted[OF assms] by (auto simp: validateLinkSpecs_def validateVXLAN_def validateVXLANRemote_def split: option.splits)
  moreover have "validateNodeSelector C link = None \<longleftrightarrow> api_LabelSelectorError C (lk_NodeSelector (lk_Spec link)) = None"
    by (simp add: validateNodeSelector_def split: option.splits)
  ultimately show ?thesis
    by (simp add: ValidateCreate_def ValidateUpdate_def ValidateDelete_def webhook_validate_result)
qed

definition ex_multicast :: Link where
  "ex_multicast = ex_link ''m'' ''vx2''
     \<lparr>sp_Bridge = None, sp_VXLAN = Some (ex_vxspecs\<lparr>vx_RemoteIPAddress := ''239.1.1.1'', vx_Device := None\<rparr>), sp_Unmanaged = None\<rparr>"

theorem webhook_rejects_iff_witness:
  "\<forall>C :: unit api_client. snd (ValidateCreate C ex_multicast) \<noteq> None"
proof
  fix C :: "unit api_client"
  have vx: "Spec_VXLAN ex_multicast = Some (ex_vxspecs\<lparr>vx_RemoteIPAddress := ''239.1.1.1'', vx_Device := None\<rparr>)"
    by (simp add: ex_multicast_def ex_link_def)
  have d: "dotted (vx_RemoteIPAddress vx) ((\<lambda>_. [239, 1, 1, 1]) vx)" if "Spec_VXLAN ex_multicast = Some vx" for vx
    using that by (auto simp: vx dotted_def parse_eval)
  note W = webhook_rejects_iff[where link = ex_multicast and octets = "\<lambda>_. [239, 1, 1, 1]" and C = C and old = ex_multicast]
  from W[OF d] show "snd (ValidateCreate C ex_multicast) \<noteq> None" by (simp add: vx)
qed

end
