(* ===== verification/NodeLinks_Tracking.thy ===== *)
theory NodeLinks_Tracking
  imports NodeLinks_Effects Api_Store
begin

text \<open>
  What the NodeLinks controller leaves alone in the cluster: it patches the metadata and the status of
  its resource, never the list of Links in its specification, and no Link. So its reconciliations keep
  the relation between Links and NodeLinks that the Link controller maintains.
\<close>

subsection \<open>The invariant\<close>

abbreviation nn_store :: "('k, 'a) nstate \<Rightarrow> 'a" where
  "nn_store s \<equiv> store (nn_api s)"

text \<open>
  The copy at hand and that of the cluster list the same Links, and since the state \<open>a\<close> of the cluster
  neither a Link has changed nor the live resources that list it.
\<close>

definition same_lists :: "'a api_client \<Rightarrow> 'a \<Rightarrow> 'a \<Rightarrow> bool" where
  "same_lists C a a' \<longleftrightarrow> api_GetLink C a' = api_GetLink C a \<and> listed C a' = listed C a"

definition lists_kept :: "('k, 'g, 'a) nenv \<Rightarrow> 'a \<Rightarrow> ('k, 'a) nstate \<Rightarrow> bool" where
  "lists_kept E a s \<longleftrightarrow>
     MatchingLinks (nn_nodeLinks s) = MatchingLinks (nn_clusterState s) \<and> same_lists (ne_client E) a (nn_store s)"

lemma same_lists_refl [simp]: "same_lists C a a"
  by (simp add: same_lists_def)

lemma same_lists_trans: "same_lists C a b \<Longrightarrow> same_lists C b c \<Longrightarrow> same_lists C a c"
  by (simp add: same_lists_def)

lemma same_listsI:
  assumes "only_nodeLinks C n a a'" and "\<And>l. n \<in> listed C a' l \<longleftrightarrow> n \<in> listed C a l"
  shows "same_lists C a a'"
proof -
  have "m \<in> listed C a' l \<longleftrightarrow> m \<in> listed C a l" for m l
    using assms(2) listed_other[OF assms(1)] by (cases "m = n") simp_all
  then have "listed C a' = listed C a" by (intro ext set_eqI)
  then show ?thesis using assms(1) by (simp add: same_lists_def only_nodeLinks_def)
qed

lemma lists_kept_acts: "lists_kept E a s \<Longrightarrow> acts P s s' \<Longrightarrow> lists_kept E a s'"
  by (simp add: lists_kept_def acts_def status_frame_def)

lemma lists_kept_upd: "lists_kept E a s \<Longrightarrow> nk_Spec (f (nn_nodeLinks s)) = nk_Spec (nn_nodeLinks s) \<Longrightarrow> lists_kept E a (upd_nodeLinks f s)"
  by (simp add: lists_kept_def)

lemma lists_kept_set: "lists_kept E a s \<Longrightarrow> lists_kept E a (set_resource E c s)"
  by (rule lists_kept_upd) (simp_all add: frame_simps)

subsection \<open>Patching\<close>

lemma main_patch_lists:
  assumes run: "api_PatchNodeLinks C a obj base = (r, a')" and law: "nodeLinks_patch_law C L"
    and same: "MatchingLinks obj = MatchingLinks base"
  shows "same_lists C a a'"
proof -
  let ?n = "NodeLinks_Name obj"
  note L = law[unfolded nodeLinks_patch_law_def, rule_format, OF run]
  have only: "only_nodeLinks C ?n a a'" using L by blast
  show ?thesis
  proof (cases r)
    case (Inl e)
    then have "api_GetNodeLinks C a' = api_GetNodeLinks C a" using L by (simp add: refused_def)
    then show ?thesis by (intro same_listsI[OF only]) (simp add: listed_at)
  next
    case (Inr resp)
    then obtain old where old: "api_GetNodeLinks C a ?n = Inr old"
      "gone C L a' ?n \<and> \<not> live old \<or> (\<exists>x. api_GetNodeLinks C a' ?n = Inr x \<and> relists old (MatchingLinks old) x)"
      using L same by auto
    then show ?thesis
      by (intro same_listsI[OF only]) (auto simp: listed_at relists_def gone_def)
  qed
qed

lemma status_patch_lists:
  assumes run: "api_PatchNodeLinksStatus C a obj base = (r, a')" and law: "nodeLinks_status_law C L"
  shows "same_lists C a a'"
proof -
  let ?n = "NodeLinks_Name obj"
  note L = law[unfolded nodeLinks_status_law_def, rule_format, OF run]
  have only: "only_nodeLinks C ?n a a'" using L by blast
  show ?thesis
  proof (cases r)
    case (Inl e)
    then have "api_GetNodeLinks C a' = api_GetNodeLinks C a" using L by (simp add: refused_def)
    then show ?thesis by (intro same_listsI[OF only]) (simp add: listed_at)
  next
    case (Inr resp)
    then obtain old x where "api_GetNodeLinks C a ?n = Inr old" "api_GetNodeLinks C a' ?n = Inr x" "relists old (MatchingLinks old) x"
      using L by auto
    then show ?thesis by (intro same_listsI[OF only]) (auto simp: listed_at relists_def)
  qed
qed

lemma patch_main_lists:
  assumes run: "NodeLinks_patch_main E s = (e, s')" and inv: "lists_kept E a s" and law: "nodeLinks_patch_law (ne_client E) L"
  shows "lists_kept E a s'"
proof -
  let ?obj = "(nn_nodeLinks s)\<lparr>nk_Status := nk_Status (nn_clusterState s)\<rparr>"
  obtain r a' where p: "api_PatchNodeLinks (ne_client E) (nn_store s) ?obj (nn_clusterState s) = (r, a')" by fastforce
  have "same_lists (ne_client E) (nn_store s) a'"
    by (rule main_patch_lists[OF p law]) (use inv in \<open>simp add: lists_kept_def\<close>)
  then have "same_lists (ne_client E) a a'" using inv same_lists_trans by (auto simp: lists_kept_def)
  then show ?thesis using run p inv
    by (cases r) (auto simp: NodeLinks_patch_main_def Let_def api_write_def lists_kept_def split: if_splits)
qed

text \<open>The status patch may leave another list in the copy at hand only until that copy is the one of the cluster.\<close>

lemma patch_status_lists:
  assumes run: "NodeLinks_patch_status E s = (e, s')" and inv: "lists_kept E a s" and law: "nodeLinks_status_law (ne_client E) L"
  shows "lists_kept E a (case e of None \<Rightarrow> s'\<lparr>nn_clusterState := nn_nodeLinks s'\<rparr> | Some _ \<Rightarrow> s')"
proof -
  let ?obj = "nn_nodeLinks s"
  obtain r a' where p: "api_PatchNodeLinksStatus (ne_client E) (nn_store s) ?obj (nn_clusterState s) = (r, a')" by fastforce
  have "same_lists (ne_client E) a a'"
    using status_patch_lists[OF p law] inv same_lists_trans by (auto simp: lists_kept_def)
  then show ?thesis using run p inv
    by (cases r) (auto simp: NodeLinks_patch_status_def Let_def api_write_def lists_kept_def split: if_splits option.splits)
qed

text \<open>Validation changes conditions only.\<close>

lemma validateLinks_acts: "validateLinks E links s = Some (x, s') \<Longrightarrow> acts P s s'"
  using validateLinks_frame[of E links s x s'] validateLinks_tracked[of E links s x s'] by (simp add: acts_def status_frame_def)

text \<open>The environments in which the store is lawful.\<close>

definition nodeLinks_env_ok :: "('k, 'g, 'a) nenv \<Rightarrow> bool" where
  "nodeLinks_env_ok E \<longleftrightarrow> nenv_ok E \<and> store_laws (ne_client E) (ne_k8s E)"

lemma nodeLinks_env_okD:
  assumes "nodeLinks_env_ok E"
  shows "nenv_ok E" "store_laws (ne_client E) (ne_k8s E)" "nodeLinks_patch_law (ne_client E) (ne_k8s E)"
    "nodeLinks_status_law (ne_client E) (ne_k8s E)"
  using assms by (simp_all add: nodeLinks_env_ok_def store_laws_def)

lemma patchResource_lists:
  assumes run: "NodeLinks_patchResource E s = (e, s')" and inv: "lists_kept E a s" and ok: "nodeLinks_env_ok E"
  shows "lists_kept E a s'"
  using run
proof (cases rule: NodeLinks_patchResource_cases)
  note laws = nodeLinks_env_okD(3,4)[OF ok]
  {
    case (main_failed err s1)
    then show ?thesis using patch_main_lists[OF main_failed(1) inv laws(1)] by (simp add: lists_kept_def)
  next
    case (status_failed s1 err s2)
    then show ?thesis
      using patch_status_lists[OF status_failed(2) patch_main_lists[OF status_failed(1) inv laws(1)] laws(2)]
      by (simp add: lists_kept_def)
  next
    case (patched s1 s2)
    then show ?thesis
      using patch_status_lists[OF patched(2) patch_main_lists[OF patched(1) inv laws(1)] laws(2)] by simp
  }
qed

subsection \<open>Invariants of a reconciliation\<close>

text \<open>
  A property of the state of a reconciliation that survives calls on the node with changes of the status
  (\<open>acts\<close>), every patch, and every change of the copy at hand that leaves its specification alone,
  survives the whole of the reconciliation after the retrieval of the Links.
\<close>

locale reconcile_invariant =
  fixes E :: "('k, 'g, 'a) nenv"
    and I :: "('k, 'a) nstate \<Rightarrow> bool"
    and lawful :: bool
  assumes keeps_acts: "I s \<Longrightarrow> acts P s s' \<Longrightarrow> I s'"
    and keeps_upd: "I s \<Longrightarrow> (\<And>n. nk_Spec (f n) = nk_Spec n) \<Longrightarrow> I (upd_nodeLinks f s)"
    and keeps_patch: "lawful \<Longrightarrow> I s \<Longrightarrow> NodeLinks_patchResource E s = (e, s') \<Longrightarrow> I s'"
begin

lemma keeps_set: "I s \<Longrightarrow> I (set_resource E c s)"
  by (rule keeps_upd) (simp_all add: frame_simps)

lemma keeps_handleError:
  assumes run: "NodeLinks_handleError E c err s = (r, s')" and inv: "I s" and ok: lawful
  shows "I s'"
proof -
  from run obtain perr s1 where p: "NodeLinks_patchResource E s1 = (perr, s')"
    "s1 = (case c of None \<Rightarrow> s | Some c \<Rightarrow> set_resource E c s)" by (rule NodeLinks_handleErrorE)
  have "I s1" using inv p(2) keeps_set[OF inv] by (cases c) simp_all
  from keeps_patch[OF ok this p(1)] show ?thesis .
qed

lemma keeps_updateLastAttempted:
  assumes run: "updateLastAttemptedLinks E links s = Some (e, s')" and inv: "I s" and ok: lawful
  shows "I s'"
proof -
  have upd: "I (upd_nodeLinks (\<lambda>n. n\<lparr>nk_Status := (nk_Status n)\<lparr>ns_LastAttemptedNetlinkLinks := names\<rparr>\<rparr>) s)" for names
    by (rule keeps_upd[OF inv]) simp
  from run show ?thesis
    by (cases rule: updateLastAttemptedLinks_cases)
      (auto simp: inv intro: keeps_set keeps_patch[OF ok upd])
qed

lemma keeps_upsert_and_report:
  assumes run: "upsert_and_report E links g names s = Some (r, s')" and inv: "I s" and ok: lawful "nenv_ok E"
  shows "I s'"
proof -
  have up: "I s1" if "upsertLinks E names links g s = Some (x, s1)" for x s1
    using upsertLinks_acts[OF that ok(2)] keeps_acts[OF inv] by blast
  from run show ?thesis
  proof (cases rule: upsert_and_report_cases)
    case (failed e s1)
    show ?thesis by (rule keeps_handleError[OF failed(2) up[OF failed(1)] ok(1)])
  next
    case (unreported s1 e)
    show ?thesis by (rule keeps_patch[OF ok(1) keeps_set[OF up[OF unreported(1)]] unreported(2)])
  next
    case (reported s1)
    show ?thesis by (rule keeps_patch[OF ok(1) keeps_set[OF up[OF reported(1)]] reported(2)])
  qed
qed

lemma keeps_clean_and_upsert:
  assumes run: "clean_and_upsert E links g names s = Some (r, s')" and inv: "I s" and ok: lawful "nenv_ok E"
  shows "I s'"
proof -
  have dep: "I s1" if "updateDependentsMissingDependencies E names links s = Some (x, s1)" for x s1
    using updateDependents_acts[OF that ok(2)] keeps_acts[OF inv] by blast
  have del: "I s2"
    if "updateDependentsMissingDependencies E names links s = Some (x, s1)" "deleteUndesiredLinks E links s1 = Some (y, s2)" for x s1 y s2
    using deleteUndesiredLinks_acts[OF that(2) ok(2)] keeps_acts[OF dep[OF that(1)]] by blast
  from run show ?thesis
  proof (cases rule: clean_and_upsert_cases)
    case (dependencies e s1)
    show ?thesis by (rule keeps_handleError[OF dependencies(2) dep[OF dependencies(1)] ok(1)])
  next
    case (undesired s1 e s2)
    show ?thesis by (rule keeps_handleError[OF undesired(3) del[OF undesired(1,2)] ok(1)])
  next
    case (unrecorded s1 s2 e s3)
    have "I s3" by (rule keeps_updateLastAttempted[OF unrecorded(3) keeps_set[OF del[OF unrecorded(1,2)]] ok(1)])
    then show ?thesis by (rule keeps_handleError[OF unrecorded(4) _ ok(1)])
  next
    case (recorded s1 s2 s3)
    have "I s3" by (rule keeps_updateLastAttempted[OF recorded(3) keeps_set[OF del[OF recorded(1,2)]] ok(1)])
    then show ?thesis by (rule keeps_upsert_and_report[OF recorded(4) _ ok])
  qed
qed

lemma keeps_validate_and_plan:
  assumes run: "validate_and_plan E links s = Some (r, s')" and inv: "I s" and ok: lawful "nenv_ok E"
  shows "I s'"
proof -
  have val: "I s1" if "validateLinks E links s = Some (x, s1)" for x s1
    using validateLinks_acts[OF that, of "\<lambda>_. True"] keeps_acts[OF inv] by blast
  from run show ?thesis
  proof (cases rule: validate_and_plan_cases)
    case (invalid e s1)
    show ?thesis by (rule keeps_handleError[OF invalid(2) val[OF invalid(1)] ok(1)])
  next
    case (unplanned s1 c e)
    show ?thesis by (rule keeps_handleError[OF unplanned(2) val[OF unplanned(1)] ok(1)])
  next
    case (planned s1 g names)
    show ?thesis by (rule keeps_clean_and_upsert[OF planned(4) val[OF planned(1)] ok])
  qed
qed

end

interpretation lists: reconcile_invariant E "lists_kept E a" "nodeLinks_env_ok E" for E :: "('k, 'g, 'a) nenv" and a
  by unfold_locales (auto intro: lists_kept_acts lists_kept_upd patchResource_lists)

interpretation watched: reconcile_invariant E "\<lambda>s :: ('k, 'a) nstate. nn_watched s = W" True for E :: "('k, 'g, 'a) nenv" and W
proof unfold_locales
  fix s s' :: "('k, 'a) nstate" and e
  assume "nn_watched s = W" "NodeLinks_patchResource E s = (e, s')"
  then show "nn_watched s' = W" using NodeLinks_patchResource_frame(2)[of E s] by simp
qed (simp_all add: acts_def)

subsection \<open>The reconciliation\<close>

lemma retrieve_and_upsert_lists:
  assumes run: "retrieve_and_upsert E s = Some (r, s')" and inv: "lists_kept E a s" and ok: "nodeLinks_env_ok E"
  shows "lists_kept E a s'"
proof (cases "getLinkResources E s")
  case (Inl e)
  then have "NodeLinks_handleError E (Some (ready_error LinkRetrievalFailed e)) e s = (r, s')"
    using run by (simp add: retrieve_and_upsert_def)
  then show ?thesis by (rule lists.keeps_handleError[OF _ inv ok])
next
  case (Inr links)
  let ?s = "s\<lparr>nn_watched := set (pie_Map_links (ne_pie E) LinkName (pie_Values (ne_pie E) links))\<rparr>"
  have "validate_and_plan E links ?s = Some (r, s')" using run Inr by (simp add: retrieve_and_upsert_def)
  moreover have "lists_kept E a ?s" using inv by (simp add: lists_kept_def)
  ultimately show ?thesis by (rule lists.keeps_validate_and_plan[OF _ _ ok nodeLinks_env_okD(1)[OF ok]])
qed

lemma handleUpsert_lists:
  assumes run: "NodeLinks_handleUpsert E s = Some (r, s')" and inv: "lists_kept E a s" and ok: "nodeLinks_env_ok E"
  shows "lists_kept E a s'"
proof -
  have add: "lists_kept E a s1" if "add_finalizer E s = (b, s1)" for b s1
    using add_finalizer_frame[OF that] inv by (simp add: lists_kept_def)
  from run show ?thesis
  proof (cases rule: NodeLinks_handleUpsert_cases)
    case (present s1)
    show ?thesis by (rule retrieve_and_upsert_lists[OF present(2) add[OF present(1)] ok])
  next
    case (not_added s1 e s2)
    show ?thesis by (rule lists.keeps_handleError[OF not_added(3) patchResource_lists[OF not_added(2) add[OF not_added(1)] ok] ok])
  next
    case (added s1 s2)
    show ?thesis by (rule retrieve_and_upsert_lists[OF added(3) patchResource_lists[OF added(2) add[OF added(1)] ok] ok])
  qed
qed

lemma handleDeletion_lists:
  assumes run: "NodeLinks_handleDeletion E s = Some (r, s')" and inv: "lists_kept E a s" and ok: "nodeLinks_env_ok E"
  shows "lists_kept E a s'"
proof -
  have del: "lists_kept E a s1" if "deleteLinks E names s = Some (x, s1)" for names x s1
    using deleteLinks_acts[OF that nodeLinks_env_okD(1)[OF ok]] lists_kept_acts[OF inv] by blast
  from run show ?thesis
  proof (cases rule: NodeLinks_handleDeletion_cases)
    case foreign
    then show ?thesis using inv by simp
  next
    case (not_deleted e s1)
    show ?thesis by (rule lists.keeps_handleError[OF not_deleted(3) del[OF not_deleted(2)] ok])
  next
    case (deleted s1 x s3)
    have "lists_kept E a (s1\<lparr>nn_watched := {}\<rparr>)" using del[OF deleted(2)] by (simp add: lists_kept_def)
    then have 3: "lists_kept E a s3"
      by (intro patchResource_lists[OF deleted(3) lists_kept_upd ok]) simp_all
    show ?thesis
    proof (cases x)
      case None
      then show ?thesis using deleted(4) 3 by simp
    next
      case (Some e)
      then show ?thesis using deleted(4) lists.keeps_handleError[OF _ 3 ok] by auto
    qed
  qed
qed

text \<open>A reconciliation of the NodeLinks controller changes no Link, and no live list of Links.\<close>

lemma NodeLinks_Reconcile_lists:
  assumes run: "NodeLinks_Reconcile E name s = Some (r, s')" and ok: "nodeLinks_env_ok E"
  shows "same_lists (ne_client E) (nn_store s) (nn_store s')"
proof (cases "api_GetNodeLinks (ne_client E) (nn_store s) name")
  case (Inl err)
  then show ?thesis using run by (simp add: NodeLinks_Reconcile_def)
next
  case (Inr x)
  let ?s = "s\<lparr>nn_nodeLinks := x, nn_clusterState := x\<rparr>"
  have inv: "lists_kept E (nn_store s) ?s" by (simp add: lists_kept_def)
  have "lists_kept E (nn_store s) s'"
  proof (cases "live x")
    case True
    then have "NodeLinks_handleUpsert E ?s = Some (r, s')" using run Inr by (simp add: NodeLinks_Reconcile_def Let_def)
    then show ?thesis by (rule handleUpsert_lists[OF _ inv ok])
  next
    case False
    then have "NodeLinks_handleDeletion E ?s = Some (r, s')" using run Inr by (simp add: NodeLinks_Reconcile_def Let_def)
    then show ?thesis by (rule handleDeletion_lists[OF _ inv ok])
  qed
  then show ?thesis by (simp add: lists_kept_def)
qed

text \<open>The names the watcher is given: the interfaces of the retrieved Links, whatever the plan ends in.\<close>

lemma retrieve_and_upsert_watched:
  assumes run: "retrieve_and_upsert E s = Some (r, s')" and links: "getLinkResources E s = Inr links" and ok: "nenv_ok E"
  shows "nn_watched s' = LinkName ` snd ` set links"
proof -
  let ?W = "set (pie_Map_links (ne_pie E) LinkName (pie_Values (ne_pie E) links))"
  have "validate_and_plan E links (s\<lparr>nn_watched := ?W\<rparr>) = Some (r, s')" using run links by (simp add: retrieve_and_upsert_def)
  from watched.keeps_validate_and_plan[OF this _ _ ok, of ?W] have "nn_watched s' = ?W" by simp
  then show ?thesis by (simp add: pie_simps[OF nenv_okD(3)[OF ok]] pie_Values[OF nenv_okD(3)[OF ok]])
qed

text \<open>The retrieval succeeds when every listed Link exists.\<close>

lemma get_link_resources_total:
  "\<forall>n \<in> set ns. \<exists>l. api_GetLink C a n = Inr l \<Longrightarrow> \<exists>links. get_link_resources C a ns m = Inr links"
  by (induction ns arbitrary: m) auto

end
