(* ===== verification/Operator.thy ===== *)
theory Operator
  imports Link_Tracking NodeLinks_Tracking
begin

text \<open>
  The operator as a whole: the Link controller and one NodeLinks controller per node on a common API
  server, between changes made by users and by Kubernetes itself.
\<close>

subsection \<open>The parts\<close>

record ('k, 'g, 'a) operator =
  op_link :: "'a lenv"
  op_node :: "string \<Rightarrow> ('k, 'g, 'a) nenv"

abbreviation op_client :: "('k, 'g, 'a) operator \<Rightarrow> 'a api_client" where
  "op_client Op \<equiv> le_client (op_link Op)"

definition operator_ok :: "('k, 'g, 'a) operator \<Rightarrow> bool" where
  "operator_ok Op \<longleftrightarrow> link_env_ok (op_link Op) \<and>
     (\<forall>n. nodeLinks_env_ok (op_node Op n) \<and> ne_client (op_node Op n) = op_client Op \<and> ne_nodeName (op_node Op n) = n)"

lemma operator_okD:
  assumes "operator_ok Op"
  shows "link_env_ok (op_link Op)" "nodeLinks_env_ok (op_node Op n)" "ne_client (op_node Op n) = op_client Op"
    "ne_nodeName (op_node Op n) = n"
  using assms by (simp_all add: operator_ok_def)

text \<open>
  What others may do: create, change and delete Links (a Link with the finalizer is only marked as being
  deleted, and nobody else writes its status), create and delete nodes, and delete NodeLinks resources,
  but not add Links to them.
\<close>

definition outside_change :: "'a api_client \<Rightarrow> 'a \<Rightarrow> 'a \<Rightarrow> bool" where
  "outside_change C a a' \<longleftrightarrow>
     (\<forall>l. listed C a' l \<subseteq> listed C a l) \<and>
     (\<forall>l x. api_GetLink C a l = Inr x \<longrightarrow> linkFinalizerName \<in> set (Finalizers x) \<longrightarrow>
        (\<exists>y. api_GetLink C a' l = Inr y \<and> lk_Status y = lk_Status x \<and> linkFinalizerName \<in> set (Finalizers y)))"

inductive operator_step :: "('k, 'g, 'a) operator \<Rightarrow> 'a \<Rightarrow> 'a \<Rightarrow> bool" for Op where
  link_controller: "Link_Reconcile (op_link Op) name s = (e, s') \<Longrightarrow> operator_step Op (stored s) (stored s')"
| nodeLinks_controller: "NodeLinks_Reconcile (op_node Op n) name s = Some (r, s') \<Longrightarrow> operator_step Op (nn_store s) (nn_store s')"
| outside: "outside_change (op_client Op) a a' \<Longrightarrow> operator_step Op a a'"

inductive_cases operator_stepE: "operator_step Op a a'"

text \<open>The states of a cluster on which the operator was installed before anything listed a Link.\<close>

inductive reachable :: "('k, 'g, 'a) operator \<Rightarrow> 'a \<Rightarrow> bool" for Op where
  installed: "(\<And>l. listed (op_client Op) a l = {}) \<Longrightarrow> reachable Op a"
| step: "reachable Op a \<Longrightarrow> operator_step Op a a' \<Longrightarrow> reachable Op a'"

subsection \<open>Tracking\<close>

abbreviation all_tracked :: "('k, 'g, 'a) operator \<Rightarrow> 'a \<Rightarrow> bool" where
  "all_tracked Op a \<equiv> \<forall>l. tracked (op_client Op) linkFinalizerName a l"

lemma tracked_outside:
  assumes "tracked C linkFinalizerName a l" and "outside_change C a a'"
  shows "tracked C linkFinalizerName a' l"
proof (cases "listed C a l = {}")
  case True
  then have "listed C a' l = {}" using assms(2) by (auto simp: outside_change_def)
  then show ?thesis by (simp add: tracked_def)
next
  case False
  then obtain x where x: "api_GetLink C a l = Inr x" "tracks linkFinalizerName (listed C a l) x"
    using assms(1) by (auto simp: tracked_def)
  then obtain y where "api_GetLink C a' l = Inr y" "lk_Status y = lk_Status x" "linkFinalizerName \<in> set (Finalizers y)"
    using assms(2) unfolding outside_change_def tracks_def by blast
  moreover have "listed C a' l \<subseteq> listed C a l" using assms(2) by (simp add: outside_change_def)
  ultimately show ?thesis using x(2) unfolding tracked_def tracks_def by fastforce
qed

lemma tracked_step:
  assumes step: "operator_step Op a a'" and ok: "operator_ok Op" and tr: "all_tracked Op a"
  shows "all_tracked Op a'"
  using step
proof (cases rule: operator_step.cases)
  case 1: (link_controller name s e s')
  have T: "tracked (op_client Op) linkFinalizerName (stored s') name \<and> only_own (op_link Op) name s s'"
    by (rule Link_Reconcile_tracked[OF 1(3) operator_okD(1)[OF ok]]) (use tr 1(1) in simp)
  show ?thesis
  proof
    fix l
    show "tracked (op_client Op) linkFinalizerName a' l"
      using T tr 1(1,2) tracked_cong[of "op_client Op" "stored s'" l "stored s"] by (cases "l = name") (auto simp: only_own_def)
  qed
next
  case 2: (nodeLinks_controller n name s r s')
  have same: "same_lists (op_client Op) (nn_store s) (nn_store s')"
    using NodeLinks_Reconcile_lists[OF 2(3) operator_okD(2)[OF ok]] unfolding operator_okD(3)[OF ok] .
  show ?thesis
  proof
    fix l
    have "tracked (op_client Op) linkFinalizerName (nn_store s) l" using tr 2(1) by simp
    then show "tracked (op_client Op) linkFinalizerName a' l"
      using same unfolding 2(2) by (simp add: same_lists_def tracked_def)
  qed
next
  case outside
  show ?thesis
  proof
    fix l
    show "tracked (op_client Op) linkFinalizerName a' l" by (rule tracked_outside[OF tr[rule_format] outside])
  qed
qed

lemma reachable_tracked: "reachable Op a \<Longrightarrow> operator_ok Op \<Longrightarrow> all_tracked Op a"
proof (induction rule: reachable.induct)
  case (installed a)
  then show ?case by (simp add: tracked_def)
next
  case (step a a')
  from tracked_step[OF step.hyps(2) step.prems step.IH[OF step.prems]] show ?case .
qed

lemma reachable_listed:
  assumes "reachable Op a" and "operator_ok Op" and "n \<in> listed (op_client Op) a l"
  obtains x where "api_GetLink (op_client Op) a l = Inr x" "n \<in> set (MatchedNodes x)" "linkFinalizerName \<in> set (Finalizers x)"
  using reachable_tracked[OF assms(1,2), rule_format, of l] assms(3) unfolding tracked_def tracks_def by blast

end
