(* ===== verification/Link_Events.thy ===== *)
theory Link_Events
  imports Api_Types Netlink
begin

text \<open>
  The link event watcher (\<open>nodelinks_linkevents.go\<close>): the set of watched names, the request for a
  reconciliation through a channel of capacity one, and the loop that subscribes to netlink events,
  handles them, and waits with a doubling backoff. The loop runs beside the NodeLinks controller, which
  sets the names and receives the requests, so a run is a sequence of steps of either of them.
\<close>

subsection \<open>The set of names\<close>

text \<open>What the watcher expects of the set: the last assignment decides, and \<open>empty\<close> is its emptiness.\<close>

locale name_set =
  fixes assign :: "string list \<Rightarrow> 's \<Rightarrow> 's"
    and member :: "'s \<Rightarrow> string \<Rightarrow> bool"
    and is_empty :: "'s \<Rightarrow> bool"
  assumes member_assign: "member (assign ns s) n \<longleftrightarrow> n \<in> set ns"
    and is_empty_iff: "is_empty s \<longleftrightarrow> (\<forall>n. \<not> member s n)"
begin

lemma member_not_empty: "member s n \<Longrightarrow> \<not> is_empty s"
  using is_empty_iff by blast

lemma is_empty_assign: "is_empty (assign ns s) \<longleftrightarrow> ns = []"
  by (cases ns) (auto simp: is_empty_iff member_assign)

end

text \<open>\<open>names\<close> is a Go map to empty structs; its methods hold the mutex, so each is one step.\<close>

record linkNameSet =
  lns_names :: "string set"

definition linkNameSet_set :: "string list \<Rightarrow> linkNameSet \<Rightarrow> linkNameSet" where
  "linkNameSet_set names s =
     (let newNames = fold insert names {} in s\<lparr>lns_names := newNames\<rparr>)"

definition linkNameSet_has :: "linkNameSet \<Rightarrow> string \<Rightarrow> bool" where
  "linkNameSet_has s name \<longleftrightarrow> name \<in> lns_names s"

definition linkNameSet_empty :: "linkNameSet \<Rightarrow> bool" where
  "linkNameSet_empty s \<longleftrightarrow> lns_names s = {}"

interpretation link_names: name_set linkNameSet_set linkNameSet_has linkNameSet_empty
  by unfold_locales (auto simp: linkNameSet_set_def linkNameSet_has_def linkNameSet_empty_def union_set_fold[symmetric])

subsection \<open>Requesting a reconciliation\<close>

text \<open>A buffered channel of events, each for the object of a name, and a send in a \<open>select\<close> with a default.\<close>

record event_chan =
  ch_cap :: nat
  ch_buf :: "string list"

definition try_send :: "string \<Rightarrow> event_chan \<Rightarrow> event_chan" where
  "try_send x c = (if length (ch_buf c) < ch_cap c then c\<lparr>ch_buf := ch_buf c @ [x]\<rparr> else c)"

text \<open>\<open>time.Duration\<close> is a 64-bit signed count of nanoseconds.\<close>

type_synonym duration = "64 word"

record linkEventWatcher =
  lw_nodeName :: string
  lw_minBackoff :: duration
  lw_maxBackoff :: duration

datatype watcher_phase = Subscribing | Watching | BackingOff | Stopped

record watcher_state =
  ws_linkNames :: linkNameSet
  ws_events :: event_chan
  ws_backoff :: duration
  ws_phase :: watcher_phase
  ws_cancelled :: bool

definition requestReconcile :: "linkEventWatcher \<Rightarrow> watcher_state \<Rightarrow> watcher_state" where
  "requestReconcile w s =
     (if linkNameSet_empty (ws_linkNames s) then s
      else s\<lparr>ws_events := try_send (lw_nodeName w) (ws_events s)\<rparr>)"

subsection \<open>The loop\<close>

text \<open>\<open>watch\<close> returned whether it was subscribed; \<open>Start\<close> then waits.\<close>

definition after_watch :: "linkEventWatcher \<Rightarrow> bool \<Rightarrow> watcher_state \<Rightarrow> watcher_state" where
  "after_watch w subscribed s =
     s\<lparr>ws_backoff := (if subscribed then lw_minBackoff w else ws_backoff s), ws_phase := BackingOff\<rparr>"

text \<open>The result of \<open>subscribe\<close>: an error ends \<open>watch\<close>, otherwise it requests a reconciliation and listens.\<close>

definition watch_subscribe :: "linkEventWatcher \<Rightarrow> goerror option \<Rightarrow> watcher_state \<Rightarrow> watcher_state" where
  "watch_subscribe w err s =
     (case err of Some _ \<Rightarrow> after_watch w False s | None \<Rightarrow> (requestReconcile w s)\<lparr>ws_phase := Watching\<rparr>)"

text \<open>One update, with the attributes of its link (nil is \<open>None\<close>).\<close>

definition watch_update :: "linkEventWatcher \<Rightarrow> LinkAttrs option \<Rightarrow> watcher_state \<Rightarrow> watcher_state" where
  "watch_update w attrs s =
     (case attrs of
        Some a \<Rightarrow> if linkNameSet_has (ws_linkNames s) (la_Name a) then requestReconcile w s else s
      | None \<Rightarrow> s)"

text \<open>\<open>min(backoff*2, w.maxBackoff)\<close> on signed 64-bit values.\<close>

definition next_backoff :: "linkEventWatcher \<Rightarrow> duration \<Rightarrow> duration" where
  "next_backoff w b = (if sint (lw_maxBackoff w) < sint (b * 2) then lw_maxBackoff w else b * 2)"

definition Start_init :: "linkEventWatcher \<Rightarrow> watcher_state \<Rightarrow> watcher_state" where
  "Start_init w s = s\<lparr>ws_backoff := lw_minBackoff w, ws_phase := Subscribing\<rparr>"

definition Start_timer :: "linkEventWatcher \<Rightarrow> watcher_state \<Rightarrow> watcher_state" where
  "Start_timer w s = s\<lparr>ws_backoff := next_backoff w (ws_backoff s), ws_phase := Subscribing\<rparr>"

text \<open>
  The steps of the loop and of its surroundings: \<open>Cancel\<close> is the context, \<open>SetNames\<close> and \<open>Receive\<close> are the
  NodeLinks controller. Where several cases of a \<open>select\<close> are ready, any of them may be taken.
\<close>

datatype watcher_event =
    Subscribed "goerror option"
  | Update "LinkAttrs option"
  | SubscriptionEnds
  | Done
  | Timer
  | Cancel
  | SetNames "string list"
  | Receive

inductive watcher_step :: "linkEventWatcher \<Rightarrow> watcher_state \<Rightarrow> watcher_event \<Rightarrow> watcher_state \<Rightarrow> bool" for w where
  subscribe: "ws_phase s = Subscribing \<Longrightarrow> watcher_step w s (Subscribed err) (watch_subscribe w err s)"
| update: "ws_phase s = Watching \<Longrightarrow> watcher_step w s (Update attrs) (watch_update w attrs s)"
| ends: "ws_phase s = Watching \<Longrightarrow> watcher_step w s SubscriptionEnds (after_watch w True s)"
| watch_done: "ws_phase s = Watching \<Longrightarrow> ws_cancelled s \<Longrightarrow> watcher_step w s Done (after_watch w True s)"
| start_done: "ws_phase s = BackingOff \<Longrightarrow> ws_cancelled s \<Longrightarrow> watcher_step w s Done (s\<lparr>ws_phase := Stopped\<rparr>)"
| timer: "ws_phase s = BackingOff \<Longrightarrow> watcher_step w s Timer (Start_timer w s)"
| cancel: "watcher_step w s Cancel (s\<lparr>ws_cancelled := True\<rparr>)"
| names: "watcher_step w s (SetNames ns) (s\<lparr>ws_linkNames := linkNameSet_set ns (ws_linkNames s)\<rparr>)"
| receive: "ch_buf (ws_events s) = x # xs \<Longrightarrow> watcher_step w s Receive (s\<lparr>ws_events := (ws_events s)\<lparr>ch_buf := xs\<rparr>\<rparr>)"

inductive_cases watcher_stepE: "watcher_step w s ev s'"
inductive_simps watcher_step_simps:
  "watcher_step w s (Subscribed err) s'" "watcher_step w s (Update attrs) s'" "watcher_step w s SubscriptionEnds s'"
  "watcher_step w s Done s'" "watcher_step w s Timer s'" "watcher_step w s Cancel s'" "watcher_step w s (SetNames ns) s'"
  "watcher_step w s Receive s'"

inductive watcher_run :: "linkEventWatcher \<Rightarrow> watcher_state \<Rightarrow> watcher_event list \<Rightarrow> watcher_state \<Rightarrow> bool" for w where
  refl: "watcher_run w s [] s"
| step: "watcher_step w s ev s1 \<Longrightarrow> watcher_run w s1 evs s2 \<Longrightarrow> watcher_run w s (ev # evs) s2"

inductive_simps watcher_run_simps: "watcher_run w s [] s'" "watcher_run w s (ev # evs) s'"

text \<open>The watcher of a node, as \<open>SetupWithManager\<close> builds it, and the state it starts from.\<close>

definition linkEventMinBackoff :: duration where
  "linkEventMinBackoff = 1000000000"

definition linkEventMaxBackoff :: duration where
  "linkEventMaxBackoff = 60 * 1000000000"

definition node_watcher :: "string \<Rightarrow> linkEventWatcher" where
  "node_watcher nodeName =
     \<lparr>lw_nodeName = nodeName, lw_minBackoff = linkEventMinBackoff, lw_maxBackoff = linkEventMaxBackoff\<rparr>"

definition watcher_start :: "linkEventWatcher \<Rightarrow> watcher_state" where
  "watcher_start w = Start_init w \<lparr>ws_linkNames = \<lparr>lns_names = {}\<rparr>, ws_events = \<lparr>ch_cap = 1, ch_buf = []\<rparr>,
     ws_backoff = 0, ws_phase = Stopped, ws_cancelled = False\<rparr>"

subsection \<open>Invariants\<close>

lemma watcher_run_invariant:
  assumes "watcher_run w s evs s'" and "I s" and "\<And>s ev s'. I s \<Longrightarrow> watcher_step w s ev s' \<Longrightarrow> I s'"
  shows "I s'"
  using assms by (induction rule: watcher_run.induct) blast+

lemma watcher_run_append:
  "watcher_run w s (evs @ evs') s' \<longleftrightarrow> (\<exists>t. watcher_run w s evs t \<and> watcher_run w t evs' s')"
  by (induction evs arbitrary: s) (auto simp: watcher_run_simps)

text \<open>What a step does to the channel.\<close>

lemma requestReconcile_sel [simp]:
  "ws_linkNames (requestReconcile w s) = ws_linkNames s" "ws_backoff (requestReconcile w s) = ws_backoff s"
  "ws_cancelled (requestReconcile w s) = ws_cancelled s" "ws_phase (requestReconcile w s) = ws_phase s"
  by (simp_all add: requestReconcile_def)

lemma ch_cap_try_send [simp]: "ch_cap (try_send x c) = ch_cap c"
  by (simp add: try_send_def)

lemmas watcher_defs = watch_subscribe_def watch_update_def after_watch_def Start_timer_def requestReconcile_def

definition one_request :: "linkEventWatcher \<Rightarrow> watcher_state \<Rightarrow> bool" where
  "one_request w s \<longleftrightarrow> ch_cap (ws_events s) = 1 \<and> ch_buf (ws_events s) \<in> {[], [lw_nodeName w]}"

lemma one_request_step: "one_request w s \<Longrightarrow> watcher_step w s ev s' \<Longrightarrow> one_request w s'"
  by (erule watcher_stepE) (auto simp: one_request_def watcher_defs try_send_def split: option.splits)

text \<open>A pending request stays until it is received.\<close>

definition pending :: "watcher_state \<Rightarrow> bool" where
  "pending s \<longleftrightarrow> ch_buf (ws_events s) \<noteq> []"

lemma requestReconcile_pending:
  assumes "\<not> linkNameSet_empty (ws_linkNames s)" and "0 < ch_cap (ws_events s)"
  shows "pending (requestReconcile w s)"
  using assms by (auto simp: pending_def requestReconcile_def try_send_def)

lemma pending_step: "watcher_step w s ev s' \<Longrightarrow> ev \<noteq> Receive \<Longrightarrow> pending s \<Longrightarrow> pending s'"
  by (erule watcher_stepE) (auto simp: pending_def watcher_defs try_send_def split: option.splits)

lemma pending_run: "watcher_run w s evs s' \<Longrightarrow> Receive \<notin> set evs \<Longrightarrow> pending s \<Longrightarrow> pending s'"
  by (induction rule: watcher_run.induct) (auto dest: pending_step)

lemma one_request_start: "one_request w (watcher_start w)"
  by (simp add: one_request_def watcher_start_def Start_init_def)

lemma one_request_reachable: "watcher_run w (watcher_start w) evs s \<Longrightarrow> one_request w s"
  by (erule watcher_run_invariant[where I = "one_request w"]) (rule one_request_start, rule one_request_step)

text \<open>The backoff, in nanoseconds.\<close>

lemma watcher_constants:
  "sint (lw_minBackoff (node_watcher n)) = 10 ^ 9" "sint (lw_maxBackoff (node_watcher n)) = 6 * 10 ^ 10"
  by (simp_all add: node_watcher_def linkEventMinBackoff_def linkEventMaxBackoff_def)

lemma sint_double:
  fixes b :: duration
  assumes "0 \<le> sint b" and "sint b < 2 ^ 62"
  shows "sint (b * 2) = 2 * sint b"
proof -
  have "sint (b * 2) = signed_take_bit 63 (sint b * sint (2 :: duration))"
    by (simp add: sint_word_ariths)
  also have "sint (2 :: duration) = 2" by simp
  also have "signed_take_bit 63 (sint b * 2) = sint b * 2"
    by (rule signed_take_bit_int_eq_self) (use assms in simp_all)
  finally show ?thesis by simp
qed

lemma next_backoff_node:
  assumes "0 \<le> sint b" and "sint b \<le> 6 * 10 ^ 10"
  shows "sint (next_backoff (node_watcher n) b) = min (2 * sint b) (6 * 10 ^ 10)"
  using assms sint_double[of b] by (simp add: next_backoff_def watcher_constants)

definition backoff_ok :: "watcher_state \<Rightarrow> bool" where
  "backoff_ok s \<longleftrightarrow> 10 ^ 9 \<le> sint (ws_backoff s) \<and> sint (ws_backoff s) \<le> 6 * 10 ^ 10"

lemma backoff_ok_step:
  assumes "backoff_ok s" and "watcher_step (node_watcher n) s ev s'"
  shows "backoff_ok s'"
  using assms(2)
proof (cases rule: watcher_step.cases)
  case timer
  then show ?thesis using assms(1) next_backoff_node[of "ws_backoff s" n] by (simp add: backoff_ok_def Start_timer_def)
qed (use assms(1) in \<open>auto simp: backoff_ok_def watch_subscribe_def watch_update_def after_watch_def watcher_constants split: option.splits\<close>)

lemma backoff_after_failures:
  "watcher_run (node_watcher n) (watcher_start (node_watcher n)) (concat (replicate k [Subscribed (Some err), Timer])) s \<Longrightarrow>
     sint (ws_backoff s) = min (2 ^ k * 10 ^ 9) (6 * 10 ^ 10)"
proof (induction k arbitrary: s)
  case 0
  then show ?case by (simp add: watcher_run_simps watcher_start_def Start_init_def watcher_constants)
next
  case (Suc k)
  have "concat (replicate (Suc k) [Subscribed (Some err), Timer]) =
      concat (replicate k [Subscribed (Some err), Timer]) @ [Subscribed (Some err), Timer]"
    by (simp add: replicate_append_same[symmetric])
  from Suc.prems[unfolded this watcher_run_append] obtain t where t: "watcher_run (node_watcher n) (watcher_start (node_watcher n)) (concat (replicate k [Subscribed (Some err), Timer])) t"
    and s: "ws_backoff s = next_backoff (node_watcher n) (ws_backoff t)"
    by (auto simp: watcher_run_simps watcher_step_simps watch_subscribe_def after_watch_def Start_timer_def)
  have b: "sint (ws_backoff t) = min (2 ^ k * 10 ^ 9) (6 * 10 ^ 10)" by (rule Suc.IH[OF t])
  have "0 \<le> sint (ws_backoff t)" "sint (ws_backoff t) \<le> 6 * 10 ^ 10" unfolding b by simp_all
  from next_backoff_node[OF this] show ?case unfolding s b by (simp add: min_def)
qed

text \<open>A change of a watched link, or a new subscription, leaves a request until it is received.\<close>

lemma requested_change:
  assumes before: "watcher_run (node_watcher n) (watcher_start (node_watcher n)) evs t"
    and change: "ev = Subscribed None \<and> \<not> linkNameSet_empty (ws_linkNames t) \<or>
      (\<exists>a. ev = Update (Some a) \<and> linkNameSet_has (ws_linkNames t) (la_Name a))"
    and after: "watcher_run (node_watcher n) t (ev # evs') s" "Receive \<notin> set evs'"
  shows "ch_buf (ws_events s) = [n]"
proof -
  let ?w = "node_watcher n"
  from after(1) obtain u where u: "watcher_step ?w t ev u" "watcher_run ?w u evs' s" by (auto simp: watcher_run_simps)
  have "0 < ch_cap (ws_events t)" using one_request_reachable[OF before] by (simp add: one_request_def)
  moreover have "\<not> linkNameSet_empty (ws_linkNames t)" using change link_names.member_not_empty by blast
  ultimately have "pending (requestReconcile ?w t)" by (rule requestReconcile_pending[rotated])
  moreover have "ws_events u = ws_events (requestReconcile ?w t)"
    using change u(1) by (auto simp: watcher_step_simps watch_subscribe_def watch_update_def)
  ultimately have "pending s" using pending_run[OF u(2) after(2)] by (simp add: pending_def)
  moreover have "watcher_run ?w (watcher_start ?w) (evs @ ev # evs') s" using before after(1) watcher_run_append by blast
  from one_request_reachable[OF this] have "ch_buf (ws_events s) \<in> {[], [n]}" by (simp add: one_request_def node_watcher_def)
  ultimately show ?thesis by (simp add: pending_def)
qed

subsection \<open>What the watcher promises\<close>

text \<open>
  At most one request waits. In every state the watcher can reach, the channel holds nothing or one
  event for the NodeLinks resource of the node, however many links changed.
\<close>

theorem at_most_one_request:
  assumes "watcher_run (node_watcher n) (watcher_start (node_watcher n)) evs s"
  shows "ch_buf (ws_events s) \<in> {[], [n]}"
  using one_request_reachable[OF assms] by (simp add: one_request_def node_watcher_def)

text \<open>A run in which a watched link changes twice before the controller looks.\<close>

definition ex_changed :: LinkAttrs where
  "ex_changed = \<lparr>la_Index = 1, la_Name = ''br0'', la_MTU = 1500, la_MasterIndex = 0, la_FlagUp = True, la_OperState = OperUp\<rparr>"

definition ex_watching :: watcher_state where
  "ex_watching = watch_subscribe (node_watcher ''node1'') None
     ((watcher_start (node_watcher ''node1''))\<lparr>ws_linkNames := \<lparr>lns_names = {''br0''}\<rparr>\<rparr>)"

lemmas watcher_run_eval = watcher_run_simps watcher_step_simps watcher_start_def Start_init_def linkNameSet_set_def

lemma ex_watching_run:
  "watcher_run (node_watcher ''node1'') (watcher_start (node_watcher ''node1'')) [SetNames [''br0''], Subscribed None] ex_watching"
  by (simp add: watcher_run_eval ex_watching_def)

lemma ex_watching_names: "linkNameSet_has (ws_linkNames ex_watching) (la_Name ex_changed)" "ws_phase ex_watching = Watching"
  by (simp_all add: ex_watching_def ex_changed_def watch_subscribe_def linkNameSet_has_def)

theorem at_most_one_request_witness:
  "\<exists>s. watcher_run (node_watcher ''node1'') (watcher_start (node_watcher ''node1'')) [SetNames [''br0''], Subscribed None] s \<and>
     ch_buf (ws_events s) \<in> {[], [''node1'']}"
  using ex_watching_run at_most_one_request[OF ex_watching_run] by blast

text \<open>
  C27: no change of a watched link is lost. After an update of a link whose name is in the set, and after
  every new subscription while the set is not empty (changes may have been missed before it), a request
  for the node waits in the channel until the controller receives it, whatever else happens.
\<close>

theorem watched_change_is_requested:
  assumes before: "watcher_run (node_watcher n) (watcher_start (node_watcher n)) evs t"
    and change: "ev = Subscribed None \<and> \<not> linkNameSet_empty (ws_linkNames t) \<or>
      (\<exists>a. ev = Update (Some a) \<and> linkNameSet_has (ws_linkNames t) (la_Name a))"
    and after: "watcher_run (node_watcher n) t (ev # evs') s" "Receive \<notin> set evs'"
  shows "ch_buf (ws_events s) = [n]"
  by (rule requested_change[OF assms])

theorem watched_change_is_requested_witness:
  "\<exists>s. watcher_run (node_watcher ''node1'') ex_watching [Update (Some ex_changed), Update None] s \<and> ch_buf (ws_events s) = [''node1'']"
proof -
  let ?w = "node_watcher ''node1''"
  obtain s where run: "watcher_run ?w ex_watching [Update (Some ex_changed), Update None] s"
    using ex_watching_names(2) by (auto simp: watcher_run_simps watcher_step_simps watch_update_def)
  have "ch_buf (ws_events s) = [''node1'']"
    by (rule watched_change_is_requested[OF ex_watching_run _ run]) (use ex_watching_names in auto)
  then show ?thesis using run by blast
qed

text \<open>
  C33: the waits between subscriptions stay between one second and one minute, without overflow of the
  64-bit duration. They double with every failed attempt in a row, up to the minute, and start again at
  one second when a subscription was established.
\<close>

theorem backoff_schedule:
  assumes run: "watcher_run (node_watcher n) (watcher_start (node_watcher n)) evs s"
  shows "10 ^ 9 \<le> sint (ws_backoff s) \<and> sint (ws_backoff s) \<le> 6 * 10 ^ 10 \<and>
    (\<forall>k. evs = concat (replicate k [Subscribed (Some err), Timer]) \<longrightarrow> sint (ws_backoff s) = min (2 ^ k * 10 ^ 9) (6 * 10 ^ 10)) \<and>
    (\<forall>t. watcher_step (node_watcher n) s SubscriptionEnds t \<longrightarrow> sint (ws_backoff t) = 10 ^ 9)"
proof (intro conjI allI impI)
  have start: "backoff_ok (watcher_start (node_watcher n))"
    by (simp add: backoff_ok_def watcher_start_def Start_init_def watcher_constants)
  have ok: "backoff_ok s" by (rule watcher_run_invariant[where I = backoff_ok, OF run start]) (rule backoff_ok_step)
  then show "10 ^ 9 \<le> sint (ws_backoff s)" "sint (ws_backoff s) \<le> 6 * 10 ^ 10" by (simp_all add: backoff_ok_def)
  show "sint (ws_backoff t) = 10 ^ 9" if "watcher_step (node_watcher n) s SubscriptionEnds t" for t
    using that by (auto simp: watcher_step_simps after_watch_def watcher_constants)
  fix k
  assume "evs = concat (replicate k [Subscribed (Some err), Timer])"
  with run show "sint (ws_backoff s) = min (2 ^ k * 10 ^ 9) (6 * 10 ^ 10)"
    by (simp add: backoff_after_failures)
qed

theorem backoff_schedule_witness:
  "\<exists>s. watcher_run (node_watcher ''node1'') (watcher_start (node_watcher ''node1''))
     [Subscribed (Some (OtherError ''refused'')), Timer, Subscribed (Some (OtherError ''refused'')), Timer] s \<and>
   sint (ws_backoff s) = 4000000000"
proof -
  let ?w = "node_watcher ''node1''" and ?evs = "concat (replicate 2 [Subscribed (Some (OtherError ''refused'')), Timer])"
  obtain s where run: "watcher_run ?w (watcher_start ?w) ?evs s"
    by (auto simp: watcher_run_eval numeral_2_eq_2 watch_subscribe_def after_watch_def Start_timer_def)
  from backoff_schedule[OF run, of "OtherError ''refused''"] have "sint (ws_backoff s) = min (2 ^ 2 * 10 ^ 9) (6 * 10 ^ 10)" by blast
  then show ?thesis using run by (auto simp: numeral_2_eq_2)
qed

text \<open>
  A cancelled watcher stops. From every state of its loop at most three of its own steps lead to the
  end of \<open>Start\<close>, and no step but those of the controller is possible afterwards.
\<close>

theorem cancelled_watcher_stops:
  assumes "ws_cancelled s"
  shows "\<exists>evs t. length evs \<le> 3 \<and> set evs \<subseteq> {Subscribed None, Done} \<and> watcher_run w s evs t \<and> ws_phase t = Stopped \<and>
    (\<forall>ev u. watcher_step w t ev u \<longrightarrow> ws_phase u = Stopped \<and> ev \<in> {Cancel, Receive} \<union> range SetNames)"
proof -
  have "\<exists>evs t. length evs \<le> 3 \<and> set evs \<subseteq> {Subscribed None, Done} \<and> watcher_run w s evs t \<and> ws_phase t = Stopped"
  proof -
    have backing: "watcher_run w t [Done] (t\<lparr>ws_phase := Stopped\<rparr>)" if "ws_phase t = BackingOff" "ws_cancelled t" for t
      using that by (simp add: watcher_run_simps watcher_step_simps)
    have watching: "watcher_run w t [Done, Done] ((after_watch w True t)\<lparr>ws_phase := Stopped\<rparr>)"
      if "ws_phase t = Watching" "ws_cancelled t" for t
      using that backing[of "after_watch w True t"] by (auto simp: after_watch_def watcher_step_simps intro: watcher_run.step)
    show ?thesis
    proof (cases "ws_phase s")
      case Subscribing
      let ?u = "watch_subscribe w None s"
      have "ws_phase ?u = Watching" "ws_cancelled ?u" using assms by (simp_all add: watch_subscribe_def)
      then have "watcher_run w s [Subscribed None, Done, Done] ((after_watch w True ?u)\<lparr>ws_phase := Stopped\<rparr>)"
        using watching[of ?u] watcher_step.subscribe[OF Subscribing] by (blast intro: watcher_run.step)
      then show ?thesis by (intro exI[of _ "[Subscribed None, Done, Done]"] exI conjI) (assumption | simp)+
    next
      case Watching
      show ?thesis by (intro exI[of _ "[Done, Done]"] exI conjI) (rule watching[OF Watching assms] | simp)+
    next
      case BackingOff
      show ?thesis by (intro exI[of _ "[Done]"] exI conjI) (rule backing[OF BackingOff assms] | simp)+
    next
      case Stopped
      show ?thesis by (intro exI[of _ "[]"] exI[of _ s] conjI) (simp_all add: Stopped watcher_run.refl)
    qed
  qed
  moreover have "ws_phase u = Stopped \<and> ev \<in> {Cancel, Receive} \<union> range SetNames"
    if "ws_phase t = Stopped" "watcher_step w t ev u" for t ev u
    using that(2) by (rule watcher_stepE) (use that(1) in auto)
  ultimately show ?thesis by blast
qed

theorem cancelled_watcher_stops_witness:
  "\<exists>evs t. watcher_run (node_watcher ''node1'') (ex_watching\<lparr>ws_cancelled := True\<rparr>) evs t \<and> ws_phase t = Stopped"
proof -
  have "ws_cancelled (ex_watching\<lparr>ws_cancelled := True\<rparr>)" by simp
  from cancelled_watcher_stops[OF this] show ?thesis by blast
qed

end
