(* ===== verification/Controller_Wiring.thy ===== *)
theory Controller_Wiring
  imports Operator Link_Events
begin

text \<open>
  \<open>SetupWithManager\<close> of the two controllers: which sources each of them watches, through which predicates,
  and which requests an event that passes them is turned into. An event is a change in the cluster or an
  event of the channel that the link event watcher of the node sends to.
\<close>

subsection \<open>The library\<close>

text \<open>
  What \<open>SetupWithManager\<close> uses of controller-runtime: \<open>GenerationChangedPredicate\<close>, the update function of
  \<open>LabelChangedPredicate\<close>, \<open>NewPredicateFuncs\<close>, \<open>EnqueueRequestsFromMapFunc\<close> and \<open>EnqueueRequestForObject\<close>, at
  the types they are used on. An event of the channel carries an object that has a name only. A request
  is the name of an object.
\<close>

record wiring_lib =
  wl_GenerationChanged_Link :: "Link watch_event \<Rightarrow> bool"
  wl_GenerationChanged_NodeLinks :: "NodeLinks watch_event \<Rightarrow> bool"
  wl_LabelChanged_Update :: "Node \<Rightarrow> Node \<Rightarrow> bool"
  wl_NewPredicateFuncs :: "(NodeLinks \<Rightarrow> bool) \<Rightarrow> NodeLinks watch_event \<Rightarrow> bool"
  wl_MapFunc_Node :: "(Node \<Rightarrow> string list) \<Rightarrow> Node watch_event \<Rightarrow> string list"
  wl_MapFunc_NodeLinks :: "(NodeLinks \<Rightarrow> string list) \<Rightarrow> NodeLinks watch_event \<Rightarrow> string list"
  wl_MapFunc_Link :: "(Link \<Rightarrow> string list) \<Rightarrow> Link watch_event \<Rightarrow> string list"
  wl_ForObject_Link :: "Link watch_event \<Rightarrow> string list"
  wl_ForObject_NodeLinks :: "NodeLinks watch_event \<Rightarrow> string list"
  wl_ForObject_Channel :: "string \<Rightarrow> string list"

text \<open>
  The objects of an event, all of which a map function is applied to, and the one that \<open>NewPredicateFuncs\<close>
  and \<open>EnqueueRequestForObject\<close> look at: the new one.
\<close>

fun event_objects :: "'o watch_event \<Rightarrow> 'o list" where
  "event_objects (CreateEvent x) = [x]"
| "event_objects (DeleteEvent x) = [x]"
| "event_objects (UpdateEvent old new) = [old, new]"
| "event_objects (GenericEvent x) = [x]"

fun event_object :: "'o watch_event \<Rightarrow> 'o" where
  "event_object (CreateEvent x) = x"
| "event_object (DeleteEvent x) = x"
| "event_object (UpdateEvent old new) = new"
| "event_object (GenericEvent x) = x"

text \<open>The predicate lets every event through but the updates that leave the generation as it was.\<close>

fun generation_changed :: "('o \<Rightarrow> ObjectMeta) \<Rightarrow> 'o watch_event \<Rightarrow> bool" where
  "generation_changed meta (UpdateEvent old new) \<longleftrightarrow> m_Generation (meta old) \<noteq> m_Generation (meta new)"
| "generation_changed meta _ \<longleftrightarrow> True"

text \<open>Labels are a Go map, so they are compared as maps. A handler enqueues each request once.\<close>

abbreviation Node_Labels :: "Node \<Rightarrow> string \<rightharpoonup> string" where
  "Node_Labels n \<equiv> map_of (m_Labels (nd_Meta n))"

definition maps_objects :: "(('o \<Rightarrow> string list) \<Rightarrow> 'o watch_event \<Rightarrow> string list) \<Rightarrow> bool" where
  "maps_objects h \<longleftrightarrow> (\<forall>f ev. distinct (h f ev) \<and> set (h f ev) = (\<Union>x \<in> set (event_objects ev). set (f x)))"

definition names_object :: "('o \<Rightarrow> ObjectMeta) \<Rightarrow> ('o watch_event \<Rightarrow> string list) \<Rightarrow> bool" where
  "names_object meta h \<longleftrightarrow> (\<forall>ev. h ev = [m_Name (meta (event_object ev))])"

definition wiring_laws :: "wiring_lib \<Rightarrow> bool" where
  "wiring_laws W \<longleftrightarrow>
     wl_GenerationChanged_Link W = generation_changed lk_Meta \<and>
     wl_GenerationChanged_NodeLinks W = generation_changed nk_Meta \<and>
     (\<forall>old new. wl_LabelChanged_Update W old new \<longleftrightarrow> Node_Labels old \<noteq> Node_Labels new) \<and>
     (\<forall>p ev. wl_NewPredicateFuncs W p ev \<longleftrightarrow> p (event_object ev)) \<and>
     maps_objects (wl_MapFunc_Node W) \<and> maps_objects (wl_MapFunc_NodeLinks W) \<and> maps_objects (wl_MapFunc_Link W) \<and>
     names_object lk_Meta (wl_ForObject_Link W) \<and> names_object nk_Meta (wl_ForObject_NodeLinks W) \<and>
     (\<forall>n. wl_ForObject_Channel W n = [n])"

lemma wiring_simps:
  assumes "wiring_laws W"
  shows "wl_GenerationChanged_Link W lev \<longleftrightarrow> generation_changed lk_Meta lev"
    and "wl_GenerationChanged_NodeLinks W nev \<longleftrightarrow> generation_changed nk_Meta nev"
    and "wl_LabelChanged_Update W old new \<longleftrightarrow> Node_Labels old \<noteq> Node_Labels new"
    and "wl_NewPredicateFuncs W p nev \<longleftrightarrow> p (event_object nev)"
    and "wl_ForObject_Link W lev = [Link_Name (event_object lev)]"
    and "wl_ForObject_NodeLinks W nev = [NodeLinks_Name (event_object nev)]"
    and "wl_ForObject_Channel W x = [x]"
  using assms by (simp_all add: wiring_laws_def names_object_def)

lemma wiring_sets:
  assumes "wiring_laws W"
  shows "set (wl_MapFunc_Node W f ev) = (\<Union>x \<in> set (event_objects ev). set (f x))"
    and "set (wl_MapFunc_NodeLinks W g nev) = (\<Union>x \<in> set (event_objects nev). set (g x))"
    and "set (wl_MapFunc_Link W h lev) = (\<Union>x \<in> set (event_objects lev). set (h x))"
  using assms by (simp_all add: wiring_laws_def maps_objects_def)

subsection \<open>Controllers\<close>

text \<open>A watch of a builder: the predicates, all of which an event has to pass, and the handler.\<close>

record 'o watch =
  wt_predicates :: "('o watch_event \<Rightarrow> bool) list"
  wt_handler :: "'o watch_event \<Rightarrow> string list"

definition watch_requests :: "'o watch option \<Rightarrow> 'o watch_event \<Rightarrow> string list" where
  "watch_requests w ev =
     (case w of None \<Rightarrow> [] | Some w \<Rightarrow> if list_all (\<lambda>p. p ev) (wt_predicates w) then wt_handler w ev else [])"

record controller =
  ct_Links :: "Link watch option"
  ct_Nodes :: "Node watch option"
  ct_NodeLinks :: "NodeLinks watch option"
  ct_Channel :: "(string \<Rightarrow> string list) option"
  ct_Named :: string
  ct_NeedLeaderElection :: "bool option"

datatype cluster_event =
    LinkChange "Link watch_event"
  | NodeChange "Node watch_event"
  | NodeLinksChange "NodeLinks watch_event"
  | ChannelEvent string

fun requests :: "controller \<Rightarrow> cluster_event \<Rightarrow> string list" where
  "requests c (LinkChange ev) = watch_requests (ct_Links c) ev"
| "requests c (NodeChange ev) = watch_requests (ct_Nodes c) ev"
| "requests c (NodeLinksChange ev) = watch_requests (ct_NodeLinks c) ev"
| "requests c (ChannelEvent n) = (case ct_Channel c of None \<Rightarrow> [] | Some h \<Rightarrow> h n)"

declare requests.simps [simp del]

text \<open>The Link controller. The map function of nodes lists the Links of the cluster as it is at the event.\<close>

definition Link_controller :: "wiring_lib \<Rightarrow> 'a lenv \<Rightarrow> 'a \<Rightarrow> controller" where
  "Link_controller W E a =
     \<lparr>ct_Links = Some \<lparr>wt_predicates = [wl_GenerationChanged_Link W], wt_handler = wl_ForObject_Link W\<rparr>,
      ct_Nodes = Some \<lparr>wt_predicates = [node_event_triggers (wl_LabelChanged_Update W)],
        wt_handler = wl_MapFunc_Node W (\<lambda>_. node_event_requests E a)\<rparr>,
      ct_NodeLinks = Some \<lparr>wt_predicates = [nodeLinks_event_triggers],
        wt_handler = wl_MapFunc_NodeLinks W nodeLinks_event_requests\<rparr>,
      ct_Channel = None, ct_Named = ''link'', ct_NeedLeaderElection = None\<rparr>"

text \<open>
  The NodeLinks controller of a node, beside the watcher that \<open>node_watcher\<close> makes. Neither waits for the
  leader election.
\<close>

definition linkEventWatcher_NeedLeaderElection :: "linkEventWatcher \<Rightarrow> bool" where
  "linkEventWatcher_NeedLeaderElection w = False"

definition NodeLinks_controller :: "wiring_lib \<Rightarrow> ('k, 'g, 'a) nenv \<Rightarrow> controller" where
  "NodeLinks_controller W E =
     \<lparr>ct_Links = Some \<lparr>wt_predicates = [wl_GenerationChanged_Link W], wt_handler = wl_MapFunc_Link W (link_event_requests E)\<rparr>,
      ct_Nodes = None,
      ct_NodeLinks = Some \<lparr>wt_predicates = [wl_GenerationChanged_NodeLinks W, wl_NewPredicateFuncs W (nodelinks_event_for_node E)],
        wt_handler = wl_ForObject_NodeLinks W\<rparr>,
      ct_Channel = Some (wl_ForObject_Channel W), ct_Named = ''nodelinks'', ct_NeedLeaderElection = Some False\<rparr>"

subsection \<open>Which requests an event leads to\<close>

lemma Link_controller_requests:
  assumes "wiring_laws W"
  shows "requests (Link_controller W E a) (LinkChange lev) =
      (if generation_changed lk_Meta lev then [Link_Name (event_object lev)] else [])"
    and "set (requests (Link_controller W E a) (NodeChange ev)) =
      (if node_event_triggers (\<lambda>old new. Node_Labels old \<noteq> Node_Labels new) ev then set (node_event_requests E a) else {})"
    and "set (requests (Link_controller W E a) (NodeLinksChange nev)) =
      (if nodeLinks_event_triggers nev then (\<Union>x \<in> set (event_objects nev). set (MatchingLinks x)) else {})"
    and "requests (Link_controller W E a) (ChannelEvent n) = []"
proof -
  have nodes: "node_event_triggers (wl_LabelChanged_Update W) ev =
    node_event_triggers (\<lambda>old new. Node_Labels old \<noteq> Node_Labels new) ev"
    by (cases ev) (simp_all add: wiring_simps[OF assms])
  have "event_objects ev \<noteq> []" by (cases ev) simp_all
  then show "set (requests (Link_controller W E a) (NodeChange ev)) =
      (if node_event_triggers (\<lambda>old new. Node_Labels old \<noteq> Node_Labels new) ev then set (node_event_requests E a) else {})"
    unfolding nodes[symmetric] by (simp add: Link_controller_def watch_requests_def requests.simps wiring_sets[OF assms])
qed (auto simp: Link_controller_def watch_requests_def requests.simps wiring_simps[OF assms] wiring_sets[OF assms] nodeLinks_event_requests_def)

lemma NodeLinks_controller_requests:
  assumes "wiring_laws W"
  shows "set (requests (NodeLinks_controller W E) (LinkChange lev)) =
      (if generation_changed lk_Meta lev then (\<Union>x \<in> set (event_objects lev). set (link_event_requests E x)) else {})"
    and "requests (NodeLinks_controller W E) (NodeChange ev) = []"
    and "requests (NodeLinks_controller W E) (NodeLinksChange nev) =
      (if generation_changed nk_Meta nev \<and> NodeLinks_Name (event_object nev) = ne_nodeName E then [ne_nodeName E] else [])"
    and "requests (NodeLinks_controller W E) (ChannelEvent n) = [n]"
  by (auto simp: NodeLinks_controller_def watch_requests_def requests.simps wiring_simps[OF assms] wiring_sets[OF assms] nodelinks_event_for_node_def)

lemma distinct_only: "distinct xs \<Longrightarrow> set xs = {x} \<Longrightarrow> xs = [x]"
  by (cases xs; cases "tl xs") auto

text \<open>A link event that gets through and is about a Link of this node requests this node once.\<close>

lemma NodeLinks_controller_link_event:
  assumes W: "wiring_laws W" and changed: "generation_changed lk_Meta ev" and node: "ne_nodeName E \<in> set (MatchedNodes (event_object ev))"
  shows "requests (NodeLinks_controller W E) (LinkChange ev) = [ne_nodeName E]"
proof (rule distinct_only)
  have "event_object ev \<in> set (event_objects ev)" by (cases ev) simp_all
  then show "set (requests (NodeLinks_controller W E) (LinkChange ev)) = {ne_nodeName E}"
    using changed node by (auto simp: NodeLinks_controller_requests[OF W] link_event_requests_def split: if_splits)
  show "distinct (requests (NodeLinks_controller W E) (LinkChange ev))"
    using W by (simp add: NodeLinks_controller_def watch_requests_def requests.simps wiring_laws_def maps_objects_def)
qed

lemma NodeLinks_controller_link_update:
  assumes "wiring_laws W" and "m_Generation (lk_Meta old) \<noteq> m_Generation (lk_Meta new)"
    and "ne_nodeName E \<in> set (MatchedNodes new)"
  shows "requests (NodeLinks_controller W E) (LinkChange (UpdateEvent old new)) = [ne_nodeName E]"
  using NodeLinks_controller_link_event[of W "UpdateEvent old new" E] assms by simp

subsection \<open>Changes of the cluster as events\<close>

text \<open>The event that tells of what became of one object between two states of the cluster.\<close>

definition change_event :: "goerror + 'o \<Rightarrow> goerror + 'o \<Rightarrow> 'o watch_event option" where
  "change_event before after =
     (case (before, after) of
        (Inl _, Inl _) \<Rightarrow> None
      | (Inl _, Inr y) \<Rightarrow> Some (CreateEvent y)
      | (Inr x, Inl _) \<Rightarrow> Some (DeleteEvent x)
      | (Inr x, Inr y) \<Rightarrow> if x = y then None else Some (UpdateEvent x y))"

text \<open>
  The generation of a NodeLinks resource that is changed in place: the API server increments it when the
  spec changes or the resource is marked as being deleted.
\<close>

definition generation_counts :: "NodeLinks \<Rightarrow> NodeLinks \<Rightarrow> bool" where
  "generation_counts x y \<longleftrightarrow> nk_Spec x \<noteq> nk_Spec y \<or> live x \<noteq> live y \<longrightarrow> m_Generation (nk_Meta x) \<noteq> m_Generation (nk_Meta y)"

definition generation_law :: "'a api_client \<Rightarrow> 'a \<Rightarrow> 'a \<Rightarrow> bool" where
  "generation_law C a a' \<longleftrightarrow>
     (\<forall>n x y. api_GetNodeLinks C a n = Inr x \<longrightarrow> api_GetNodeLinks C a' n = Inr y \<longrightarrow> generation_counts x y)"

lemma list_change_event:
  assumes "(n \<in> listed C a l) \<noteq> (n \<in> listed C a' l)" and "generation_law C a a'"
  obtains ev where "change_event (api_GetNodeLinks C a n) (api_GetNodeLinks C a' n) = Some ev"
    "generation_changed nk_Meta ev" "api_GetNodeLinks C a n = Inr (event_object ev) \<or> api_GetNodeLinks C a' n = Inr (event_object ev)"
proof (cases "api_GetNodeLinks C a n")
  case before: (Inl e)
  then have "n \<in> listed C a' l" using assms(1) by (auto simp: listed_at)
  then obtain y where "api_GetNodeLinks C a' n = Inr y" by (auto simp: listed_at)
  then show ?thesis using before by (intro that[of "CreateEvent y"]) (simp_all add: change_event_def)
next
  case before: (Inr x)
  show ?thesis
  proof (cases "api_GetNodeLinks C a' n")
    case (Inl e)
    then show ?thesis using before by (intro that[of "DeleteEvent x"]) (simp_all add: change_event_def)
  next
    case after: (Inr y)
    have "nk_Spec x \<noteq> nk_Spec y \<or> live x \<noteq> live y" using assms(1) before after by (auto simp: listed_at)
    moreover have "generation_counts x y" using assms(2) before after by (simp add: generation_law_def)
    ultimately have "m_Generation (nk_Meta x) \<noteq> m_Generation (nk_Meta y)" by (simp add: generation_counts_def)
    then show ?thesis using before after by (intro that[of "UpdateEvent x y"]) (auto simp: change_event_def)
  qed
qed

end
