(* ===== verification/Wiring_Properties.thy ===== *)
theory Wiring_Properties
  imports Controller_Wiring Link_Properties NodeLinks_Examples
begin

text \<open>
  The properties of the wiring of the controllers, with an executable instance of the library functions
  it uses.
\<close>

subsection \<open>An instance of the library\<close>

definition enqueue_mapped :: "('o \<Rightarrow> string list) \<Rightarrow> 'o watch_event \<Rightarrow> string list" where
  "enqueue_mapped f ev = remdups (concat (map f (event_objects ev)))"

definition RW :: wiring_lib where
  "RW = \<lparr>wl_GenerationChanged_Link = generation_changed lk_Meta, wl_GenerationChanged_NodeLinks = generation_changed nk_Meta,
     wl_LabelChanged_Update = (\<lambda>old new. Node_Labels old \<noteq> Node_Labels new),
     wl_NewPredicateFuncs = (\<lambda>p ev. p (event_object ev)),
     wl_MapFunc_Node = enqueue_mapped, wl_MapFunc_NodeLinks = enqueue_mapped, wl_MapFunc_Link = enqueue_mapped,
     wl_ForObject_Link = (\<lambda>ev. [Link_Name (event_object ev)]),
     wl_ForObject_NodeLinks = (\<lambda>ev. [NodeLinks_Name (event_object ev)]),
     wl_ForObject_Channel = (\<lambda>n. [n])\<rparr>"

lemma RW_laws: "wiring_laws RW"
  by (simp add: wiring_laws_def RW_def maps_objects_def names_object_def enqueue_mapped_def)

subsection \<open>The Link controller\<close>

text \<open>
  A change of a node that matters to Links: it comes, it goes, or a selector matches it that did not match
  it before, or the other way round. A selector looks at the labels only.
\<close>

fun node_change_matters :: "(LabelSelector \<Rightarrow> (string \<rightharpoonup> string) \<Rightarrow> bool) \<Rightarrow> Node watch_event \<Rightarrow> bool" where
  "node_change_matters matches (UpdateEvent old new) \<longleftrightarrow>
     (\<exists>sel. matches sel (Node_Labels old) \<noteq> matches sel (Node_Labels new))"
| "node_change_matters matches (GenericEvent _) \<longleftrightarrow> False"
| "node_change_matters matches _ \<longleftrightarrow> True"

text \<open>
  C19: no change of a node that may move a Link is missed, and no other one costs anything. When a node
  comes, goes, or gets labels for which any selector decides differently, a reconciliation of every Link
  in the cluster is requested; an update that leaves the labels as they are requests none.
\<close>

theorem node_change_requests_every_link:
  assumes W: "wiring_laws W" and links: "api_ListLinks (le_client E) a = Inr links" and pie: "pie_laws (le_pie E)"
  shows "(node_change_matters matches ev \<longrightarrow>
      set (requests (Link_controller W E a) (NodeChange ev)) = (\<lambda>l. m_Name (lk_Meta l)) ` set links) \<and>
    (m_Labels (nd_Meta old) = m_Labels (nd_Meta new) \<longrightarrow>
      requests (Link_controller W E a) (NodeChange (UpdateEvent old new)) = [])"
proof
  have "node_change_matters matches ev \<Longrightarrow> node_event_triggers (\<lambda>old new. Node_Labels old \<noteq> Node_Labels new) ev"
    by (cases ev) auto
  then show "node_change_matters matches ev \<longrightarrow>
      set (requests (Link_controller W E a) (NodeChange ev)) = (\<lambda>l. m_Name (lk_Meta l)) ` set links"
    by (simp add: Link_controller_requests[OF W] node_event_requests_def links pie_simps[OF pie])
  have "set (requests (Link_controller W E a) (NodeChange (UpdateEvent old new))) = {}"
    if "m_Labels (nd_Meta old) = m_Labels (nd_Meta new)"
    using that by (simp add: Link_controller_requests[OF W])
  then show "m_Labels (nd_Meta old) = m_Labels (nd_Meta new) \<longrightarrow>
      requests (Link_controller W E a) (NodeChange (UpdateEvent old new)) = []"
    by simp
qed

definition ex_labelled :: "(string \<times> string) list \<Rightarrow> Node" where
  "ex_labelled ls = \<lparr>nd_Meta = (named_meta ''node1'')\<lparr>m_Labels := ls\<rparr>\<rparr>"

definition ex_matches :: "LabelSelector \<Rightarrow> (string \<rightharpoonup> string) \<Rightarrow> bool" where
  "ex_matches sel labels \<longleftrightarrow> (\<forall>(k, v) \<in> set (sel_MatchLabels sel). labels k = Some v)"

theorem node_change_requests_every_link_witness:
  "\<exists>a. api_ListLinks LC a = Inr [ex_bridge] \<and>
     set (requests (Link_controller RW LE a) (NodeChange (UpdateEvent (ex_labelled []) (ex_labelled [(''rack'', ''1'')])))) = {''b''}"
proof -
  let ?a = "\<lparr>rs_links = [(''b'', ex_bridge)], rs_nodeLinks = [], rs_nodes = [], rs_refuses = False\<rparr>"
    and ?ev = "UpdateEvent (ex_labelled []) (ex_labelled [(''rack'', ''1'')])"
    and ?sel = "\<lparr>sel_MatchLabels = [(''rack'', ''1'')], sel_MatchExpressions = []\<rparr>"
  have links: "api_ListLinks (le_client LE) ?a = Inr [ex_bridge]" by (simp add: LC_def RC_def)
  have "ex_matches ?sel (Node_Labels (ex_labelled [])) \<noteq> ex_matches ?sel (Node_Labels (ex_labelled [(''rack'', ''1'')]))"
    by (simp add: ex_matches_def ex_labelled_def)
  then have "node_change_matters ex_matches ?ev" unfolding node_change_matters.simps by blast
  with node_change_requests_every_link[OF RW_laws links link_env_okD(4)[OF LE_ok], of ex_matches ?ev] links show ?thesis
    by (intro exI[of _ ?a]) (simp add: ex_defs)
qed

text \<open>
  C36: a node whose NodeLinks resource is being deleted is skipped in silence. The registration of the
  Link with it succeeds and leaves the cluster as it is; when the registration with all matching nodes
  reports success, the status of the Link names the node as matched while its resource is the old one, which
  need not list the Link. The end of the deletion, a delete event of the resource, requests no
  reconciliation of any Link.
\<close>

theorem deleting_nodeLinks_skipped:
  assumes W: "wiring_laws W" and ok: "link_env_ok E" "unchanged_law (le_client E)"
    and x: "api_GetNodeLinks (le_client E) (store (ln_api s)) (Node_Name node) = Inr x" "\<not> DeletionTimestamp_IsZero (nk_Meta x)"
  shows "(\<exists>s'. registerWithNodeLinks E node s = (None, s') \<and> store (ln_api s') = store (ln_api s) \<and> ln_link s' = ln_link s) \<and>
    (registerWithMatchedNodeLinks E nodes s = (None, t) \<and> node \<in> set nodes \<longrightarrow>
       Node_Name node \<in> set (MatchedNodes (ln_link t)) \<and>
       api_GetNodeLinks (le_client E) (store (ln_api t)) (Node_Name node) = Inr x) \<and>
    requests (Link_controller W E a) (NodeLinksChange (DeleteEvent x)) = []"
proof (intro conjI impI)
  show "\<exists>s'. registerWithNodeLinks E node s = (None, s') \<and> store (ln_api s') = store (ln_api s) \<and> ln_link s' = ln_link s"
    by (rule register_leaves_deleting[OF ok x])
  assume run: "registerWithMatchedNodeLinks E nodes s = (None, t) \<and> node \<in> set nodes"
  note R = registerWithMatched_deleting[OF conjunct1[OF run] ok x]
  show "Node_Name node \<in> set (MatchedNodes (ln_link t))" using R run by simp
  show "api_GetNodeLinks (le_client E) (store (ln_api t)) (Node_Name node) = Inr x" using R by simp
next
  have "set (requests (Link_controller W E a) (NodeLinksChange (DeleteEvent x))) = {}"
    by (simp add: Link_controller_requests[OF W])
  then show "requests (Link_controller W E a) (NodeLinksChange (DeleteEvent x)) = []" by simp
qed

theorem deleting_nodeLinks_skipped_witness:
  "\<exists>s'. registerWithMatchedNodeLinks LE [\<lparr>nd_Meta = named_meta ''node1''\<rparr>] lx_ending = (None, s') \<and>
     ''node1'' \<in> set (MatchedNodes (ln_link s')) \<and> ''b'' \<notin> set (MatchingLinks (lx_nodeLinks ''node1'' [] (Some 1))) \<and>
     rc_GetNodeLinks (store (ln_api s')) ''node1'' = Inr (lx_nodeLinks ''node1'' [] (Some 1)) \<and>
     requests (Link_controller RW LE (store (ln_api s'))) (NodeLinksChange (DeleteEvent (lx_nodeLinks ''node1'' [] (Some 1)))) = []"
proof -
  let ?node = "\<lparr>nd_Meta = named_meta ''node1''\<rparr>" and ?x = "lx_nodeLinks ''node1'' [] (Some 1)"
  obtain s' where run: "registerWithMatchedNodeLinks LE [?node] lx_ending = (None, s')" using lx_ending_run by blast
  have node: "Node_Name ?node = ''node1''" "?node \<in> set [?node]" by (simp_all add: named_meta_def)
  have x: "api_GetNodeLinks (le_client LE) (store (ln_api lx_ending)) (Node_Name ?node) = Inr ?x" "\<not> live ?x" "MatchingLinks ?x = []"
    by (simp_all add: lx_ending_def lx_defs rc_GetNodeLinks_def DeletionTimestamp_IsZero_def named_meta_def)
  have "unchanged_law (le_client LE)" by (simp add: LC_unchanged)
  from deleting_nodeLinks_skipped[OF RW_laws LE_ok this x(1,2), of "[?node]" s' "store (ln_api s')"] run node x(3)
  show ?thesis by (intro exI[of _ s']) simp
qed

subsection \<open>The controller of a node\<close>

text \<open>
  C20: the NodeLinks controllers keep to their nodes. Whatever happens to Links, nodes and NodeLinks
  resources, and whatever the watcher of the node sends through the channel, the controller of a node is
  asked to reconcile the resource of that node and no other. Neither that controller nor the watcher waits
  for the leader election, so they run on every node.
\<close>

theorem node_controller_serves_its_node:
  assumes W: "wiring_laws W"
    and channel: "\<And>x. ev = ChannelEvent x \<Longrightarrow> \<exists>evs t. watcher_run (node_watcher (ne_nodeName E))
        (watcher_start (node_watcher (ne_nodeName E))) evs t \<and> x \<in> set (ch_buf (ws_events t))"
  shows "set (requests (NodeLinks_controller W E) ev) \<subseteq> {ne_nodeName E} \<and>
    ct_NeedLeaderElection (NodeLinks_controller W E) = Some False \<and>
    \<not> linkEventWatcher_NeedLeaderElection (node_watcher (ne_nodeName E))"
proof -
  have "set (requests (NodeLinks_controller W E) ev) \<subseteq> {ne_nodeName E}"
  proof (cases ev)
    case (LinkChange e)
    then show ?thesis by (auto simp: NodeLinks_controller_requests[OF W] link_event_requests_def split: if_splits)
  next
    case (ChannelEvent x)
    then obtain evs t where "watcher_run (node_watcher (ne_nodeName E)) (watcher_start (node_watcher (ne_nodeName E))) evs t"
      "x \<in> set (ch_buf (ws_events t))" using channel by blast
    then have "x = ne_nodeName E" using one_request_reachable by (fastforce simp: one_request_def node_watcher_def)
    then show ?thesis using ChannelEvent by (simp add: NodeLinks_controller_requests[OF W])
  qed (auto simp: NodeLinks_controller_requests[OF W])
  then show ?thesis by (simp add: NodeLinks_controller_def linkEventWatcher_NeedLeaderElection_def)
qed

theorem node_controller_serves_its_node_witness:
  "\<exists>evs t. watcher_run (node_watcher ''node1'') (watcher_start (node_watcher ''node1'')) evs t \<and> ''node1'' \<in> set (ch_buf (ws_events t)) \<and>
     requests (NodeLinks_controller RW RE) (ChannelEvent ''node1'') = [''node1''] \<and>
     set (requests (NodeLinks_controller RW RE) (ChannelEvent ''node1'')) \<subseteq> {''node1''}"
proof -
  have t: "''node1'' \<in> set (ch_buf (ws_events ex_watching))"
    by (simp add: ex_watching_def watch_subscribe_def requestReconcile_def linkNameSet_empty_def try_send_def watcher_start_def
        Start_init_def node_watcher_def)
  have "\<exists>evs t. watcher_run (node_watcher (ne_nodeName RE)) (watcher_start (node_watcher (ne_nodeName RE))) evs t \<and> x \<in> set (ch_buf (ws_events t))"
    if "ChannelEvent ''node1'' = ChannelEvent x" for x
    using t ex_watching_run that by auto
  from node_controller_serves_its_node[OF RW_laws this] show ?thesis
    using t ex_watching_run NodeLinks_controller_requests(4)[OF RW_laws] by (metis RE_sel(8))
qed

end
