(* ===== verification/Link_Lifecycle.thy ===== *)
theory Link_Lifecycle
  imports Link_Properties
begin

text \<open>
  The life of a Link: it is added to the NodeLinks resources of its nodes, later it is marked as being
  deleted, and its deletion takes it off them again.
\<close>

subsection \<open>Marking a Link as being deleted\<close>

text \<open>
  What the API server does on a delete request for a Link with a finalizer: it sets the deletion
  timestamp of that Link and changes nothing else.
\<close>

definition marked_deleted :: "'a api_client \<Rightarrow> string \<Rightarrow> 'a \<Rightarrow> 'a \<Rightarrow> bool" where
  "marked_deleted C name a a' \<longleftrightarrow>
     api_GetNodeLinks C a' = api_GetNodeLinks C a \<and>
     (\<forall>l. l \<noteq> name \<longrightarrow> api_GetLink C a' l = api_GetLink C a l) \<and>
     (\<exists>x y. api_GetLink C a name = Inr x \<and> api_GetLink C a' name = Inr y \<and> \<not> DeletionTimestamp_IsZero (lk_Meta y) \<and>
        lk_Status y = lk_Status x \<and> m_Finalizers (lk_Meta y) = m_Finalizers (lk_Meta x))"

lemma marked_deleted_listed: "marked_deleted C name a a' \<Longrightarrow> listed C a' l = listed C a l"
  by (rule listed_cong) (simp add: marked_deleted_def)

lemma marked_deleted_tracked:
  assumes "marked_deleted C name a a'" and "tracked C fin a name"
  shows "tracked C fin a' name"
  using assms marked_deleted_listed[OF assms(1), of name] by (auto simp: tracked_def tracks_def marked_deleted_def)

text \<open>A reconciliation of a Link that is being deleted and reports success leaves the Link listed nowhere.\<close>

lemma deletion_reconcile_unlists:
  assumes run: "Link_Reconcile E name s = (None, s')" and ok: "link_env_ok E"
    and x: "api_GetLink (le_client E) (stored s) name = Inr x" "\<not> DeletionTimestamp_IsZero (lk_Meta x)"
    and tracked: "tracked (le_client E) linkFinalizerName (stored s) name"
  shows "listed (le_client E) (stored s') name = {}"
proof -
  let ?s = "s\<lparr>ln_link := x, ln_clusterState := x\<rparr>"
  have "Link_handleDeletion E ?s = (None, s')" using run x by (simp add: Link_Reconcile_def Let_def)
  moreover have "fetched E name ?s"
    using x store_lawsD(1)[OF link_env_okD(2)[OF ok] x(1)] by (simp add: fetched_def)
  ultimately show ?thesis using Link_handleDeletion_tracked[of E ?s None s' name] ok tracked by simp
qed

subsection \<open>Round trip\<close>

text \<open>
  C16: creating a Link and deleting it leaves no trace on the nodes. Whether the reconciliation that adds a
  Link to its nodes succeeds or fails halfway, once the Link is marked as being deleted and a
  reconciliation of it reports success, every NodeLinks resource in use lists the Links it listed before
  the Link came, and every other Link is as it was.
\<close>

theorem link_roundtrip:
  assumes create: "Link_Reconcile E name s = (e, s1)" and mark: "marked_deleted (le_client E) name (store (ln_api s1)) (store (ln_api t))"
    and delete: "Link_Reconcile E name t = (None, t1)" and ok: "link_env_ok E"
    and new: "listed (le_client E) (store (ln_api s)) name = {}"
  shows "listed (le_client E) (store (ln_api t1)) l = listed (le_client E) (store (ln_api s)) l \<and>
    (l \<noteq> name \<longrightarrow> api_GetLink (le_client E) (store (ln_api t1)) l = api_GetLink (le_client E) (store (ln_api s)) l)"
proof -
  let ?C = "le_client E"
  have "tracked ?C linkFinalizerName (stored s) name" using new by (simp add: tracked_def)
  note created = Link_Reconcile_tracked[OF create ok this]
  have tracked: "tracked ?C linkFinalizerName (stored t) name"
    by (rule marked_deleted_tracked[OF mark conjunct1[OF created]])
  note deleted = Link_Reconcile_tracked[OF delete ok tracked]
  obtain x where x: "api_GetLink ?C (stored t) name = Inr x" "\<not> DeletionTimestamp_IsZero (lk_Meta x)"
    using mark by (auto simp: marked_deleted_def)
  show ?thesis
  proof (cases "l = name")
    case True
    then show ?thesis using deletion_reconcile_unlists[OF delete ok x tracked] new by simp
  next
    case False
    then show ?thesis
      using created deleted mark marked_deleted_listed[OF mark, of l] by (simp add: only_own_def marked_deleted_def)
  qed
qed

text \<open>The cluster of \<open>lx_new\<close> with another Link on the node, and the mark.\<close>

definition lx_shared :: "rstore lstate" where
  "lx_shared = lx_state ex_bridge [lx_nodeLinks ''node1'' [''c''] None] [''node1'']"

definition lx_mark :: "rstore lstate \<Rightarrow> rstore lstate" where
  "lx_mark s = s\<lparr>ln_api := (ln_api s)\<lparr>store := (stored s)\<lparr>rs_links :=
     map (\<lambda>(n, l). (n, if n = ''b'' then l\<lparr>lk_Meta := (lk_Meta l)\<lparr>m_DeletionTimestamp := Some 1\<rparr>\<rparr> else l)) (rs_links (stored s))\<rparr>\<rparr>\<rparr>"

lemma lx_mark_marked:
  assumes "rc_GetLink (stored s) ''b'' = Inr x"
  shows "marked_deleted LC ''b'' (stored s) (stored (lx_mark s))"
proof -
  let ?f = "\<lambda>n l. if n = ''b'' then l\<lparr>lk_Meta := (lk_Meta l)\<lparr>m_DeletionTimestamp := Some 1\<rparr>\<rparr> else l"
  have "map_of (map (\<lambda>(n, l). (n, ?f n l)) ls) n = map_option (?f n) (map_of ls n)" for ls :: "(string \<times> Link) list" and n
    by (induction ls) auto
  then show ?thesis using assms
    by (auto simp: marked_deleted_def lx_mark_def rc_GetLink_def rc_GetNodeLinks_def DeletionTimestamp_IsZero_def fun_eq_iff split: option.splits if_splits)
qed

lemma listed_single:
  "rs_nodeLinks a = [(n, x)] \<Longrightarrow> listed LC a l = (if NodeLinks_Name x = n \<and> live x \<and> l \<in> set (MatchingLinks x) then {n} else {})"
  by (auto simp: listed_def rc_GetNodeLinks_def split: if_splits)

lemma lx_shared_listed: "listed LC (stored lx_shared) l = (if l = ''c'' then {''node1''} else {})"
  by (simp add: listed_single lx_shared_def lx_defs DeletionTimestamp_IsZero_def)

lemma lx_shared_runs:
  "\<exists>s1 x t1. Link_Reconcile LE ''b'' lx_shared = (None, s1) \<and> rc_GetLink (stored s1) ''b'' = Inr x \<and>
     listed LC (stored s1) ''b'' = {''node1''} \<and> Link_Reconcile LE ''b'' (lx_mark s1) = (None, t1)"
  by (simp add: lx_run_defs lx_shared_def lx_mark_def listed_single)

theorem link_roundtrip_witness:
  "\<exists>s1 t1. Link_Reconcile LE ''b'' lx_shared = (None, s1) \<and> listed LC (stored s1) ''b'' = {''node1''} \<and>
     Link_Reconcile LE ''b'' (lx_mark s1) = (None, t1) \<and> listed LC (stored t1) ''b'' = {} \<and> listed LC (stored t1) ''c'' = {''node1''}"
proof -
  obtain s1 x t1 where runs: "Link_Reconcile LE ''b'' lx_shared = (None, s1)" "rc_GetLink (stored s1) ''b'' = Inr x"
    "listed LC (stored s1) ''b'' = {''node1''}" "Link_Reconcile LE ''b'' (lx_mark s1) = (None, t1)"
    using lx_shared_runs by (elim exE conjE) (rule that)
  have "marked_deleted (le_client LE) ''b'' (stored s1) (stored (lx_mark s1))" using lx_mark_marked[OF runs(2)] by simp
  moreover have "listed (le_client LE) (stored lx_shared) ''b'' = {}" by (simp add: lx_shared_listed)
  ultimately have same: "listed LC (stored t1) l = listed LC (stored lx_shared) l" for l
    using link_roundtrip[OF runs(1) _ runs(4) LE_ok, of l] by simp
  show ?thesis using runs(1,3,4) same[of "''b''"] same[of "''c''"] unfolding lx_shared_listed by simp
qed

end
