(* ===== verification/Go_Memory.thy ===== *)
theory Go_Memory
  imports Prelude "HOL-Library.AList" "HOL-Library.Monad_Syntax"
begin

text \<open>
  Go's memory, as far as pointers, slices and maps share it: a list of cells, in which an address is an
  index, a new cell is put at the end and nothing is ever freed. A cell of the type \<open>'c\<close> holds what one
  \<open>new\<close> or \<open>make\<close> allocates. A pointer is an address or nil; a slice is an array with a window on it,
  or nil.

  The locale \<open>deep_copy\<close> says what a generated \<open>DeepCopyInto\<close> promises: the copy denotes the same value
  as the original, and every cell it reaches is new. The lemmas after it show the promise for copies
  through pointers and slices, once for all types.
\<close>

subsection \<open>Cells\<close>

type_synonym addr = nat

type_synonym 'c memory = "'c list"

definition load :: "'c memory \<Rightarrow> addr \<Rightarrow> 'c option" where
  "load m a = (if a < length m then Some (m ! a) else None)"

definition alloc :: "'c \<Rightarrow> 'c memory \<Rightarrow> addr \<times> 'c memory" where
  "alloc c m = (length m, m @ [c])"

definition store_at :: "addr \<Rightarrow> 'c \<Rightarrow> 'c memory \<Rightarrow> 'c memory" where
  "store_at a c m = m[a := c]"

text \<open>\<open>typed proj m a\<close> reads a cell as the type that \<open>proj\<close> selects; another type cannot be there in Go.\<close>

definition typed :: "('c \<Rightarrow> 'a option) \<Rightarrow> 'c memory \<Rightarrow> addr \<Rightarrow> 'a option" where
  "typed proj m a = Option.bind (load m a) proj"

definition cell_type :: "('a \<Rightarrow> 'c) \<Rightarrow> ('c \<Rightarrow> 'a option) \<Rightarrow> bool" where
  "cell_type mk proj \<longleftrightarrow> (\<forall>x. proj (mk x) = Some x)"

lemma cell_typeD: "cell_type mk proj \<Longrightarrow> proj (mk x) = Some x"
  by (simp add: cell_type_def)

definition grows :: "'c memory \<Rightarrow> 'c memory \<Rightarrow> bool" where
  "grows m m' \<longleftrightarrow> length m \<le> length m' \<and> take (length m) m' = m"

definition same_on :: "addr set \<Rightarrow> 'c memory \<Rightarrow> 'c memory \<Rightarrow> bool" where
  "same_on A m m' \<longleftrightarrow> (\<forall>a\<in>A. load m' a = load m a)"

lemma load_Some: "load m a = Some c \<longleftrightarrow> a < length m \<and> m ! a = c"
  by (auto simp: load_def)

lemma load_alloc [simp]: "load (m @ [c]) (length m) = Some c" "a < length m \<Longrightarrow> load (m @ [c]) a = load m a"
  by (simp_all add: load_def nth_append)

lemma load_store_at: "load (store_at a c m) b = (if b = a \<and> a < length m then Some c else load m b)"
  by (auto simp: load_def store_at_def)

lemma length_store_at [simp]: "length (store_at a c m) = length m"
  by (simp add: store_at_def)

lemma grows_refl [simp]: "grows m m"
  by (simp add: grows_def)

lemma grows_length: "grows m m' \<Longrightarrow> length m \<le> length m'"
  by (simp add: grows_def)

lemma grows_trans [trans]: "grows m m' \<Longrightarrow> grows m' m'' \<Longrightarrow> grows m m''"
  unfolding grows_def by (metis le_trans min.absorb1 take_take)

lemma grows_alloc: "grows m (m @ [c])"
  by (simp add: grows_def)

lemma grows_store_at: "grows m m' \<Longrightarrow> length m \<le> a \<Longrightarrow> grows m (store_at a c m')"
  by (simp add: grows_def store_at_def)

lemma grows_load: "grows m m' \<Longrightarrow> a < length m \<Longrightarrow> load m' a = load m a"
  unfolding grows_def load_def by (metis nth_take order_less_le_trans)

lemma grows_same_on: "grows m m' \<Longrightarrow> A \<subseteq> {..<length m} \<Longrightarrow> same_on A m m'"
  by (auto simp: same_on_def grows_load)

lemma same_on_mono: "same_on A m m' \<Longrightarrow> B \<subseteq> A \<Longrightarrow> same_on B m m'"
  by (auto simp: same_on_def)

lemma same_on_store_at: "a \<notin> A \<Longrightarrow> same_on A m (store_at a c m)"
  by (auto simp: same_on_def load_store_at)

lemma typed_cong: "load m' a = load m a \<Longrightarrow> typed proj m' a = typed proj m a"
  by (simp add: typed_def)

lemma typed_inside: "typed proj m a = Some x \<Longrightarrow> a < length m"
  by (auto simp: typed_def load_def split: if_splits)

subsection \<open>The promise of a deep copy\<close>

locale deep_copy =
  fixes lawful :: bool
    and denote :: "'c memory \<Rightarrow> 'a \<Rightarrow> 'b option"
    and owns :: "'c memory \<Rightarrow> 'a \<Rightarrow> addr set"
    and copy :: "'a \<Rightarrow> 'c memory \<Rightarrow> ('a \<times> 'c memory) option"
  assumes frame: "lawful \<Longrightarrow> denote m x = Some v \<Longrightarrow> same_on (owns m x) m m' \<Longrightarrow> denote m' x = Some v \<and> owns m' x = owns m x"
    and inside: "lawful \<Longrightarrow> denote m x = Some v \<Longrightarrow> owns m x \<subseteq> {..<length m}"
    and copies: "lawful \<Longrightarrow> denote m x = Some v \<Longrightarrow>
      \<exists>y m'. copy x m = Some (y, m') \<and> grows m m' \<and> denote m' y = Some v \<and> owns m' y \<subseteq> {length m..}"
begin

lemma kept:
  assumes "lawful" "denote m x = Some v" "grows m m'"
  shows "denote m' x = Some v" "owns m' x = owns m x"
  using frame[OF assms(1,2) grows_same_on[OF assms(3) inside[OF assms(1,2)]]] by auto

lemma copy_obtain:
  assumes "lawful" "denote m x = Some v"
  obtains y m' where "copy x m = Some (y, m')" "grows m m'" "denote m' y = Some v" "owns m' y \<subseteq> {length m..<length m'}"
  using copies[OF assms] inside[OF assms(1)] by fastforce

text \<open>
  The two uses of a copy: writes to the memory of before leave the copy alone, and writes to what the
  copy owns leave the original alone.
\<close>

lemma independent:
  assumes "lawful" "denote m x = Some v" "copy x m = Some (y, m')"
  shows "denote m' y = Some v" "denote m' x = Some v"
    and "(\<And>a. length m \<le> a \<Longrightarrow> load m'' a = load m' a) \<Longrightarrow> denote m'' y = Some v"
    and "(\<And>a. a \<notin> owns m' y \<Longrightarrow> load m'' a = load m' a) \<Longrightarrow> denote m'' x = Some v"
proof -
  obtain *: "grows m m'" "denote m' y = Some v" "owns m' y \<subseteq> {length m..}"
    using copies[OF assms(1,2)] assms(3) by auto
  note k = kept[OF assms(1,2) *(1)]
  show "denote m' y = Some v" "denote m' x = Some v" by (fact *(2), fact k(1))
  show "denote m'' y = Some v" if "\<And>a. length m \<le> a \<Longrightarrow> load m'' a = load m' a"
    using frame[OF assms(1) *(2), of m''] that *(3) by (auto simp: same_on_def)
  have "owns m' x \<inter> owns m' y = {}" using k(2) inside[OF assms(1,2)] *(3) by fastforce
  then show "denote m'' x = Some v" if "\<And>a. a \<notin> owns m' y \<Longrightarrow> load m'' a = load m' a"
    using frame[OF assms(1) k(1), of m''] that by (auto simp: same_on_def)
qed

end

lemma deep_copy_if:
  assumes "P \<Longrightarrow> deep_copy True d r c"
  shows "deep_copy P d r c"
proof (unfold_locales, goal_cases)
  case 1
  then show ?case using deep_copy.frame[OF assms] by metis
next
  case 2
  then show ?case using deep_copy.inside[OF assms] by blast
next
  case 3
  then show ?case using deep_copy.copies[OF assms] by blast
qed

text \<open>A struct without pointers is its own value, and assigning it copies it.\<close>

definition plain_denote :: "'c memory \<Rightarrow> 'a \<Rightarrow> 'a option" where
  "plain_denote m x = Some x"

definition plain_owns :: "'c memory \<Rightarrow> 'a \<Rightarrow> addr set" where
  "plain_owns m x = {}"

definition assign :: "'a \<Rightarrow> 'c memory \<Rightarrow> ('a \<times> 'c memory) option" where
  "assign x m = Some (x, m)"

lemmas plain_defs = plain_denote_def plain_owns_def assign_def

lemma plain_deep_copy: "deep_copy b plain_denote plain_owns assign"
  by unfold_locales (auto simp: plain_defs)

subsection \<open>Pointers\<close>

text \<open>
  \<open>if in.F != nil { in, out := &in.F, &out.F; *out = new(T); (*in).DeepCopyInto(*out) }\<close>, and the same
  shape with the assignment \<open>**out = **in\<close> for a type without pointers. \<open>proj\<close> and \<open>mk\<close> select the cells of
  the type \<open>T\<close>, \<open>zero\<close> is its zero value. Reading through a dangling pointer has no meaning: \<open>None\<close>.
\<close>

definition ptr_denote :: "('c \<Rightarrow> 'a option) \<Rightarrow> ('c memory \<Rightarrow> 'a \<Rightarrow> 'b option) \<Rightarrow> 'c memory \<Rightarrow> addr option \<Rightarrow> 'b option option" where
  "ptr_denote proj d m p =
     (case p of None \<Rightarrow> Some None
      | Some a \<Rightarrow> (case typed proj m a of None \<Rightarrow> None | Some x \<Rightarrow> map_option Some (d m x)))"

definition ptr_owns :: "('c \<Rightarrow> 'a option) \<Rightarrow> ('c memory \<Rightarrow> 'a \<Rightarrow> addr set) \<Rightarrow> 'c memory \<Rightarrow> addr option \<Rightarrow> addr set" where
  "ptr_owns proj r m p =
     (case p of None \<Rightarrow> {} | Some a \<Rightarrow> insert a (case typed proj m a of None \<Rightarrow> {} | Some x \<Rightarrow> r m x))"

definition new_copy ::
  "('a \<Rightarrow> 'c) \<Rightarrow> 'a \<Rightarrow> ('a \<Rightarrow> 'c memory \<Rightarrow> ('a \<times> 'c memory) option) \<Rightarrow> 'a \<Rightarrow> 'c memory \<Rightarrow> (addr \<times> 'c memory) option" where
  "new_copy mk zero copy x m =
     (case alloc (mk zero) m of (b, m1) \<Rightarrow>
       (case copy x m1 of None \<Rightarrow> None | Some (y, m2) \<Rightarrow> Some (b, store_at b (mk y) m2)))"

definition ptr_copy ::
  "('a \<Rightarrow> 'c) \<Rightarrow> ('c \<Rightarrow> 'a option) \<Rightarrow> 'a \<Rightarrow> ('a \<Rightarrow> 'c memory \<Rightarrow> ('a \<times> 'c memory) option) \<Rightarrow>
   addr option \<Rightarrow> 'c memory \<Rightarrow> (addr option \<times> 'c memory) option" where
  "ptr_copy mk proj zero copy p m =
     (case p of None \<Rightarrow> Some (None, m)
      | Some a \<Rightarrow>
          (case typed proj m a of None \<Rightarrow> None
           | Some x \<Rightarrow> map_option (\<lambda>(b, m'). (Some b, m')) (new_copy mk zero copy x m)))"

lemma new_copy_obtain:
  assumes dc: "deep_copy lw d r copy" and mk: "\<And>x. proj (mk x) = Some x" and lw: lw and x: "d m x = Some w"
  obtains y m' where "new_copy mk zero copy x m = Some (length m, m')" "grows m m'"
    "typed proj m' (length m) = Some y" "d m' y = Some w" "r m' y \<subseteq> {Suc (length m)..<length m'}"
proof -
  let ?b = "length m" and ?m1 = "m @ [mk zero]"
  have "d ?m1 x = Some w" by (rule deep_copy.kept(1)[OF dc lw x grows_alloc])
  from deep_copy.copy_obtain[OF dc lw this] obtain y m2 where
    y: "copy x ?m1 = Some (y, m2)" "grows ?m1 m2" "d m2 y = Some w" "r m2 y \<subseteq> {length ?m1..<length m2}" by metis
  let ?m' = "store_at ?b (mk y) m2"
  have "same_on (r m2 y) m2 ?m'" by (rule same_on_store_at) (use y(4) in auto)
  from deep_copy.frame[OF dc lw y(3) this] y(4) have y': "d ?m' y = Some w" "r ?m' y \<subseteq> {Suc ?b..<length ?m'}" by auto
  have "typed proj ?m' ?b = Some y" using grows_length[OF y(2)] by (simp add: typed_def load_store_at mk)
  moreover have "new_copy mk zero copy x m = Some (?b, ?m')" using y(1) by (simp add: new_copy_def alloc_def)
  moreover have "grows m ?m'" by (rule grows_store_at[OF grows_trans[OF grows_alloc y(2)]]) simp
  ultimately show thesis using that y' by blast
qed

lemma ptr_deep_copy:
  assumes dc: "deep_copy b d r copy" and ct: "cell_type mk proj"
  shows "deep_copy b (ptr_denote proj d) (ptr_owns proj r) (ptr_copy mk proj zero copy)"
proof (unfold_locales, goal_cases)
  case (1 m p v m')
  note F = deep_copy.frame[OF dc 1(1)]
  show ?case
  proof (cases p)
    case (Some a)
    obtain x w where x: "typed proj m a = Some x" "d m x = Some w" "v = Some w"
      using 1(2) Some by (auto simp: ptr_denote_def split: option.splits)
    have "typed proj m' a = Some x" using 1(3) Some x(1) by (simp add: ptr_owns_def same_on_def typed_def)
    moreover have "same_on (r m x) m m'" using 1(3) Some x(1) by (simp add: ptr_owns_def same_on_def)
    ultimately show ?thesis using F[OF x(2)] Some x by (simp add: ptr_denote_def ptr_owns_def)
  qed (use 1 in \<open>simp add: ptr_denote_def ptr_owns_def\<close>)
next
  case (2 m p v)
  then show ?case using deep_copy.inside[OF dc 2(1), of m]
    by (fastforce simp: ptr_denote_def ptr_owns_def split: option.splits dest: typed_inside)
next
  case (3 m p v)
  show ?case
  proof (cases p)
    case (Some a)
    obtain x w where x: "typed proj m a = Some x" "d m x = Some w" "v = Some w"
      using 3(2) Some by (auto simp: ptr_denote_def split: option.splits)
    from new_copy_obtain[OF dc cell_typeD[OF ct] 3(1) x(2)] obtain y m' where
      y: "new_copy mk zero copy x m = Some (length m, m')" "grows m m'" "typed proj m' (length m) = Some y"
        "d m' y = Some w" "r m' y \<subseteq> {Suc (length m)..<length m'}" by metis
    have "ptr_copy mk proj zero copy p m = Some (Some (length m), m')" using Some x(1) y(1) by (simp add: ptr_copy_def)
    moreover have "ptr_denote proj d m' (Some (length m)) = Some v" using y(3,4) x(3) by (simp add: ptr_denote_def)
    moreover have "ptr_owns proj r m' (Some (length m)) \<subseteq> {length m..}" using y(3,5) by (auto simp: ptr_owns_def)
    ultimately show ?thesis using y(2) by blast
  qed (use 3 in \<open>simp add: ptr_denote_def ptr_owns_def ptr_copy_def\<close>)
qed

subsection \<open>Slices\<close>

text \<open>A window on an array: nothing keeps two slices from sharing one.\<close>

record slice =
  sl_array :: addr
  sl_start :: nat
  sl_len :: nat

definition whole_array :: "addr \<Rightarrow> nat \<Rightarrow> slice" where
  "whole_array a n = \<lparr>sl_array = a, sl_start = 0, sl_len = n\<rparr>"

definition elems :: "('c \<Rightarrow> 'a list option) \<Rightarrow> 'c memory \<Rightarrow> slice \<Rightarrow> 'a list option" where
  "elems proj m s =
     Option.bind (typed proj m (sl_array s))
       (\<lambda>xs. if sl_start s + sl_len s \<le> length xs then Some (take (sl_len s) (drop (sl_start s) xs)) else None)"

definition slice_denote :: "('c \<Rightarrow> 'a list option) \<Rightarrow> ('c memory \<Rightarrow> 'a \<Rightarrow> 'b option) \<Rightarrow> 'c memory \<Rightarrow> slice option \<Rightarrow> 'b list option" where
  "slice_denote proj d m p =
     (case p of None \<Rightarrow> Some []
      | Some s \<Rightarrow> Option.bind (elems proj m s) (\<lambda>xs. those (map (d m) xs)))"

definition slice_owns :: "('c \<Rightarrow> 'a list option) \<Rightarrow> ('c memory \<Rightarrow> 'a \<Rightarrow> addr set) \<Rightarrow> 'c memory \<Rightarrow> slice option \<Rightarrow> addr set" where
  "slice_owns proj r m p =
     (case p of None \<Rightarrow> {}
      | Some s \<Rightarrow> insert (sl_array s) (case elems proj m s of None \<Rightarrow> {} | Some xs \<Rightarrow> \<Union>x\<in>set xs. r m x))"

text \<open>
  \<open>*out = make([]T, len(*in)); for i := range *in { (*in)[i].DeepCopyInto(&(*out)[i]) }\<close>: the array of the
  copy is at \<open>b\<close>, and \<open>is\<close> are the indices left to visit.
\<close>

primrec copy_elems ::
  "('a list \<Rightarrow> 'c) \<Rightarrow> ('c \<Rightarrow> 'a list option) \<Rightarrow> ('a \<Rightarrow> 'c memory \<Rightarrow> ('a \<times> 'c memory) option) \<Rightarrow>
   slice \<Rightarrow> addr \<Rightarrow> nat list \<Rightarrow> 'c memory \<Rightarrow> 'c memory option" where
  "copy_elems mk proj copy s b [] m = Some m"
| "copy_elems mk proj copy s b (i # is) m =
     (case elems proj m s of None \<Rightarrow> None
      | Some xs \<Rightarrow>
          (case copy (xs ! i) m of None \<Rightarrow> None
           | Some (y, m1) \<Rightarrow>
               (case typed proj m1 b of None \<Rightarrow> None
                | Some ys \<Rightarrow> copy_elems mk proj copy s b is (store_at b (mk (ys[i := y])) m1))))"

definition slice_copy ::
  "('a list \<Rightarrow> 'c) \<Rightarrow> ('c \<Rightarrow> 'a list option) \<Rightarrow> 'a \<Rightarrow> ('a \<Rightarrow> 'c memory \<Rightarrow> ('a \<times> 'c memory) option) \<Rightarrow>
   slice option \<Rightarrow> 'c memory \<Rightarrow> (slice option \<times> 'c memory) option" where
  "slice_copy mk proj zero copy p m =
     (case p of None \<Rightarrow> Some (None, m)
      | Some s \<Rightarrow>
          (case alloc (mk (replicate (sl_len s) zero)) m of (b, m1) \<Rightarrow>
            (case copy_elems mk proj copy s b [0..<sl_len s] m1 of None \<Rightarrow> None
             | Some m2 \<Rightarrow> Some (Some (whole_array b (sl_len s)), m2))))"

text \<open>\<open>*out = make([]T, len(*in)); copy(*out, *in)\<close>\<close>

definition slice_copy_builtin ::
  "('a list \<Rightarrow> 'c) \<Rightarrow> ('c \<Rightarrow> 'a list option) \<Rightarrow> 'a \<Rightarrow> slice option \<Rightarrow> 'c memory \<Rightarrow> (slice option \<times> 'c memory) option" where
  "slice_copy_builtin mk proj zero p m =
     (case p of None \<Rightarrow> Some (None, m)
      | Some s \<Rightarrow>
          (case alloc (mk (replicate (sl_len s) zero)) m of (b, m1) \<Rightarrow>
            (case elems proj m1 s of None \<Rightarrow> None
             | Some xs \<Rightarrow> Some (Some (whole_array b (sl_len s)), store_at b (mk xs) m1))))"

lemma whole_array_sel [simp]: "sl_array (whole_array a n) = a" "sl_start (whole_array a n) = 0" "sl_len (whole_array a n) = n"
  by (simp_all add: whole_array_def)

lemma elems_cong: "load m' (sl_array s) = load m (sl_array s) \<Longrightarrow> elems proj m' s = elems proj m s"
  by (simp add: elems_def typed_cong[of m' "sl_array s" m])

lemma elems_Some:
  assumes "elems proj m s = Some xs"
  shows "length xs = sl_len s" "sl_array s < length m"
  using assms by (auto simp: elems_def typed_def load_def split: bind_splits if_splits)

lemma elems_whole_array: "typed proj m a = Some xs \<Longrightarrow> length xs = n \<Longrightarrow> elems proj m (whole_array a n) = Some xs"
  by (simp add: elems_def)

lemma those_Some: "those (map f xs) = Some vs \<longleftrightarrow> length vs = length xs \<and> (\<forall>i<length xs. f (xs ! i) = Some (vs ! i))"
proof (induction xs arbitrary: vs)
  case Nil
  then show ?case by auto
next
  case (Cons x xs)
  show ?case
  proof (cases vs)
    case (Cons v vs')
    then show ?thesis using Cons.IH[of vs'] by (auto simp: All_less_Suc2 split: option.splits)
  qed (auto split: option.splits)
qed

lemma slice_denote_Some:
  "slice_denote proj d m (Some s) = Some vs \<longleftrightarrow>
     (\<exists>xs. elems proj m s = Some xs \<and> length vs = length xs \<and> (\<forall>i<length xs. d m (xs ! i) = Some (vs ! i)))"
  by (simp only: slice_denote_def option.case bind_eq_Some_conv those_Some)

text \<open>What the array at \<open>b\<close> holds once its first \<open>i\<close> elements are copied.\<close>

definition copied_to ::
  "('c \<Rightarrow> 'a list option) \<Rightarrow> ('c memory \<Rightarrow> 'a \<Rightarrow> 'b option) \<Rightarrow> ('c memory \<Rightarrow> 'a \<Rightarrow> addr set) \<Rightarrow>
   addr \<Rightarrow> 'b list \<Rightarrow> nat \<Rightarrow> 'c memory \<Rightarrow> bool" where
  "copied_to proj d r b vs i m \<longleftrightarrow>
     (\<exists>ys. typed proj m b = Some ys \<and> length ys = length vs \<and>
        (\<forall>j<i. d m (ys ! j) = Some (vs ! j) \<and> r m (ys ! j) \<subseteq> {Suc b..}))"

lemma copied_to_step:
  assumes dc: "deep_copy b d r copy" and mk: "\<And>x. proj (mk x) = Some x" and b: b
    and before: "copied_to proj d r a vs i m" and i: "i < length vs" and a: "a < length m"
    and y: "grows m m1" "d m1 y = Some (vs ! i)" "r m1 y \<subseteq> {length m..}" "typed proj m1 a = Some ys"
  shows "copied_to proj d r a vs (Suc i) (store_at a (mk (ys[i := y])) m1)"
proof -
  let ?m' = "store_at a (mk (ys[i := y])) m1"
  have ys: "typed proj m a = Some ys" using y(1,4) typed_cong[OF grows_load[OF y(1) a], of proj] by simp
  then have old: "length ys = length vs" "\<forall>j<i. d m (ys ! j) = Some (vs ! j) \<and> r m (ys ! j) \<subseteq> {Suc a..}"
    using before by (auto simp: copied_to_def)
  have keep: "d ?m' z = Some v \<and> r ?m' z \<subseteq> {Suc a..}" if "d m1 z = Some v" "r m1 z \<subseteq> {Suc a..}" for z v
  proof -
    have "same_on (r m1 z) m1 ?m'" by (rule same_on_store_at) (use that(2) in auto)
    from deep_copy.frame[OF dc b that(1) this] that(2) show ?thesis by simp
  qed
  have "d ?m' (ys[i := y] ! j) = Some (vs ! j) \<and> r ?m' (ys[i := y] ! j) \<subseteq> {Suc a..}" if "j < Suc i" for j
  proof (rule keep)
    consider "j = i" | "j < i" using \<open>j < Suc i\<close> by linarith
    then have "d m1 (ys[i := y] ! j) = Some (vs ! j) \<and> r m1 (ys[i := y] ! j) \<subseteq> {Suc a..}"
    proof cases
      case 1
      then show ?thesis using y(2,3) a i old(1) by auto
    next
      case 2
      then have "d m (ys ! j) = Some (vs ! j)" "r m (ys ! j) \<subseteq> {Suc a..}" using old(2) by auto
      then show ?thesis using deep_copy.kept[OF dc b _ y(1)] 2 by simp
    qed
    then show "d m1 (ys[i := y] ! j) = Some (vs ! j)" "r m1 (ys[i := y] ! j) \<subseteq> {Suc a..}" by auto
  qed
  moreover have "typed proj ?m' a = Some (ys[i := y])"
    using a grows_length[OF y(1)] by (simp add: typed_def load_store_at mk)
  ultimately show ?thesis using old(1) by (auto simp: copied_to_def)
qed

lemma copy_elems_copied:
  assumes dc: "deep_copy b d r copy" and mk: "\<And>x. proj (mk x) = Some x" and b: b
    and src: "slice_denote proj d m0 (Some s) = Some vs" "a = length m0"
    and now: "grows m0 m" "a < length m" "copied_to proj d r a vs i m" "i \<le> length vs"
  shows "\<exists>m'. copy_elems mk proj copy s a [i..<length vs] m = Some m' \<and> grows m0 m' \<and> copied_to proj d r a vs (length vs) m'"
  using now
proof (induction "length vs - i" arbitrary: i m)
  case 0
  then show ?case by auto
next
  case (Suc k)
  then have i: "i < length vs" by simp
  then have upt: "[i..<length vs] = i # [Suc i..<length vs]" by (rule upt_conv_Cons)
  obtain xs where xs: "elems proj m0 s = Some xs" "length vs = length xs" "d m0 (xs ! i) = Some (vs ! i)"
    using src(1) i unfolding slice_denote_Some by auto
  have xs': "elems proj m s = Some xs"
    using xs(1) elems_cong[OF grows_load[OF Suc.prems(1) elems_Some(2)[OF xs(1)]], of proj] by simp
  from deep_copy.copy_obtain[OF dc b deep_copy.kept(1)[OF dc b xs(3) Suc.prems(1)]] obtain y m1 where
    y: "copy (xs ! i) m = Some (y, m1)" "grows m m1" "d m1 y = Some (vs ! i)" "r m1 y \<subseteq> {length m..<length m1}" by metis
  obtain ys where ys: "typed proj m1 a = Some ys"
    using Suc.prems(3) typed_cong[OF grows_load[OF y(2) Suc.prems(2)], of proj] by (auto simp: copied_to_def)
  let ?m' = "store_at a (mk (ys[i := y])) m1"
  have "r m1 y \<subseteq> {length m..}" using y(4) by auto
  then have "copied_to proj d r a vs (Suc i) ?m'"
    by (rule copied_to_step[OF dc mk b Suc.prems(3) i Suc.prems(2) y(2,3) _ ys])
  moreover have "grows m0 ?m'" using grows_store_at[OF grows_trans[OF Suc.prems(1) y(2)]] src(2) by simp
  moreover have "a < length ?m'" using Suc.prems(2) grows_length[OF y(2)] by simp
  ultimately have "\<exists>m'. copy_elems mk proj copy s a [Suc i..<length vs] ?m' = Some m' \<and> grows m0 m' \<and> copied_to proj d r a vs (length vs) m'"
    using Suc.hyps(1)[of "Suc i" ?m'] Suc.hyps(2) i by simp
  then show ?case by (simp add: upt xs' y(1) ys)
qed

lemma slice_deep_copy:
  assumes dc: "deep_copy b d r copy" and ct: "cell_type mk proj"
  shows "deep_copy b (slice_denote proj d) (slice_owns proj r) (slice_copy mk proj zero copy)"
proof (unfold_locales, goal_cases)
  case (1 m p v m')
  show ?case
  proof (cases p)
    case (Some s)
    obtain xs where xs: "elems proj m s = Some xs" "length v = length xs" "\<forall>i<length xs. d m (xs ! i) = Some (v ! i)"
      using 1(2)[unfolded Some slice_denote_Some] by auto
    have "elems proj m' s = Some xs" using 1(3) xs(1) Some elems_cong[of m' s m proj] by (simp add: slice_owns_def same_on_def)
    moreover have "d m' x = d m x \<and> r m' x = r m x" if x: "x \<in> set xs" for x
    proof -
      have same: "same_on (r m x) m m'" by (rule same_on_mono[OF 1(3)]) (use x xs(1) Some in \<open>auto simp: slice_owns_def\<close>)
      obtain w where w: "d m x = Some w" using x xs(3) by (auto simp: in_set_conv_nth)
      show ?thesis using deep_copy.frame[OF dc 1(1) w same] w by simp
    qed
    ultimately show ?thesis using xs Some by (auto simp: slice_denote_Some slice_owns_def)
  qed (use 1 in \<open>simp_all add: slice_denote_def slice_owns_def\<close>)
next
  case (2 m p v)
  show ?case
  proof (cases p)
    case (Some s)
    obtain xs where xs: "elems proj m s = Some xs" "\<forall>i<length xs. d m (xs ! i) = Some (v ! i)"
      using 2(2)[unfolded Some slice_denote_Some] by auto
    have "r m x \<subseteq> {..<length m}" if "x \<in> set xs" for x
      using that xs(2) by (metis deep_copy.inside[OF dc 2(1)] in_set_conv_nth)
    then show ?thesis using xs(1) elems_Some(2)[OF xs(1)] Some by (auto simp: slice_owns_def)
  qed (simp add: slice_owns_def)
next
  case (3 m p v)
  show ?case
  proof (cases p)
    case (Some s)
    let ?a = "length m" and ?m1 = "m @ [mk (replicate (sl_len s) zero)]"
    note src = 3(2)[unfolded Some]
    have len: "length v = sl_len s" using src elems_Some(1) unfolding slice_denote_Some by auto
    have "copied_to proj d r ?a v 0 ?m1" using len by (simp add: copied_to_def typed_def cell_typeD[OF ct])
    from copy_elems_copied[OF dc cell_typeD[OF ct] 3(1) src refl grows_alloc _ this] obtain m' where
      m': "copy_elems mk proj copy s ?a [0..<length v] ?m1 = Some m'" "grows m m'" "copied_to proj d r ?a v (length v) m'" by auto
    from m'(3) obtain ys where ys: "typed proj m' ?a = Some ys" "length ys = length v"
      "\<forall>j<length v. d m' (ys ! j) = Some (v ! j) \<and> r m' (ys ! j) \<subseteq> {Suc ?a..}" by (auto simp: copied_to_def)
    have w: "elems proj m' (whole_array ?a (sl_len s)) = Some ys" by (rule elems_whole_array[OF ys(1)]) (use ys(2) len in simp)
    have "slice_denote proj d m' (Some (whole_array ?a (sl_len s))) = Some v" using w ys by (simp add: slice_denote_Some)
    moreover have "slice_owns proj r m' (Some (whole_array ?a (sl_len s))) \<subseteq> {length m..}"
      using w ys(2,3) by (fastforce simp: slice_owns_def in_set_conv_nth)
    moreover have "slice_copy mk proj zero copy p m = Some (Some (whole_array ?a (sl_len s)), m')"
      using Some m'(1) len by (simp add: slice_copy_def alloc_def)
    ultimately show ?thesis using m'(2) by blast
  qed (use 3 in \<open>simp add: slice_denote_def slice_owns_def slice_copy_def\<close>)
qed

lemma plain_slice_denote: "slice_denote proj plain_denote m (Some s) = elems proj m s"
proof -
  have "those (map (plain_denote m) xs) = Some xs" for xs by (simp add: those_Some plain_denote_def)
  then show ?thesis by (cases "elems proj m s") (simp_all add: slice_denote_def)
qed

lemma builtin_deep_copy:
  assumes ct: "cell_type mk proj"
  shows "deep_copy b (slice_denote proj plain_denote) (slice_owns proj plain_owns) (slice_copy_builtin mk proj zero)"
proof -
  note D = slice_deep_copy[of b plain_denote plain_owns assign mk proj zero, OF plain_deep_copy ct]
  show ?thesis
  proof (unfold_locales, goal_cases)
    case 1
    then show ?case by (rule deep_copy.frame[OF D])
  next
    case 2
    then show ?case by (rule deep_copy.inside[OF D])
  next
    case (3 m p v)
    show ?case
    proof (cases p)
      case (Some s)
      have v: "elems proj m s = Some v" using 3(2) Some by (simp add: plain_slice_denote)
      let ?a = "length m" and ?m1 = "m @ [mk (replicate (sl_len s) zero)]"
      let ?m' = "store_at ?a (mk v) ?m1"
      have "elems proj ?m1 s = Some v" using v elems_cong[of ?m1 s m proj] elems_Some(2)[OF v] by simp
      then have "slice_copy_builtin mk proj zero p m = Some (Some (whole_array ?a (sl_len s)), ?m')"
        using Some by (simp add: slice_copy_builtin_def alloc_def)
      moreover have w: "elems proj ?m' (whole_array ?a (sl_len s)) = Some v"
        by (rule elems_whole_array) (simp_all add: typed_def load_store_at cell_typeD[OF ct] elems_Some(1)[OF v])
      moreover have "grows m ?m'" by (rule grows_store_at[OF grows_alloc]) simp
      ultimately show ?thesis by (force simp: plain_slice_denote slice_owns_def plain_owns_def)
    qed (use 3 in \<open>simp add: slice_denote_def slice_owns_def slice_copy_builtin_def\<close>)
  qed
qed

subsection \<open>Maps\<close>

text \<open>
  A map is a cell with the list of its entries, nil or not; the order of the list is the order in which
  \<open>range\<close> happens to visit the entries. The source copies \<open>map[string]T\<close> with
  \<open>for key, val := range *in { ...; (*out)[key] = outVal }\<close>, where \<open>outVal\<close> is the copy of \<open>val\<close>; \<open>keys\<close> are the
  keys left to visit.
\<close>

definition map_denote :: "('c \<Rightarrow> (string \<times> 'a) list option) \<Rightarrow> ('c memory \<Rightarrow> 'a \<Rightarrow> 'b option) \<Rightarrow> 'c memory \<Rightarrow> addr option \<Rightarrow> (string \<rightharpoonup> 'b) option" where
  "map_denote proj d m p =
     (case p of None \<Rightarrow> Some Map.empty
      | Some a \<Rightarrow> Option.bind (typed proj m a)
          (\<lambda>kvs. if distinct (map fst kvs) \<and> list_all (\<lambda>kv. d m (snd kv) \<noteq> None) kvs
            then Some (\<lambda>k. Option.bind (map_of kvs k) (d m)) else None))"

definition map_owns :: "('c \<Rightarrow> (string \<times> 'a) list option) \<Rightarrow> ('c memory \<Rightarrow> 'a \<Rightarrow> addr set) \<Rightarrow> 'c memory \<Rightarrow> addr option \<Rightarrow> addr set" where
  "map_owns proj r m p =
     (case p of None \<Rightarrow> {}
      | Some a \<Rightarrow> insert a (case typed proj m a of None \<Rightarrow> {} | Some kvs \<Rightarrow> \<Union>kv\<in>set kvs. r m (snd kv)))"

primrec copy_entries ::
  "((string \<times> 'a) list \<Rightarrow> 'c) \<Rightarrow> ('c \<Rightarrow> (string \<times> 'a) list option) \<Rightarrow> ('a \<Rightarrow> 'c memory \<Rightarrow> ('a \<times> 'c memory) option) \<Rightarrow>
   addr \<Rightarrow> (string \<times> 'a) list \<Rightarrow> 'c memory \<Rightarrow> 'c memory option" where
  "copy_entries mk proj copy b [] m = Some m"
| "copy_entries mk proj copy b (kv # kvs) m =
     (case copy (snd kv) m of None \<Rightarrow> None
      | Some (outVal, m1) \<Rightarrow>
          (case typed proj m1 b of None \<Rightarrow> None
           | Some out \<Rightarrow> copy_entries mk proj copy b kvs (store_at b (mk (AList.update (fst kv) outVal out)) m1)))"

definition map_copy ::
  "((string \<times> 'a) list \<Rightarrow> 'c) \<Rightarrow> ('c \<Rightarrow> (string \<times> 'a) list option) \<Rightarrow> ('a \<Rightarrow> 'c memory \<Rightarrow> ('a \<times> 'c memory) option) \<Rightarrow>
   addr option \<Rightarrow> 'c memory \<Rightarrow> (addr option \<times> 'c memory) option" where
  "map_copy mk proj copy p m =
     (case p of None \<Rightarrow> Some (None, m)
      | Some a \<Rightarrow>
          (case typed proj m a of None \<Rightarrow> None
           | Some kvs \<Rightarrow>
               (case alloc (mk []) m of (b, m1) \<Rightarrow>
                 (case copy_entries mk proj copy b kvs m1 of None \<Rightarrow> None | Some m2 \<Rightarrow> Some (Some b, m2)))))"

lemma update_new: "k \<notin> fst ` set kvs \<Longrightarrow> AList.update k v kvs = kvs @ [(k, v)]"
  by (induction kvs) auto

lemma map_denote_Some:
  "map_denote proj d m (Some a) = Some vs \<longleftrightarrow>
     (\<exists>kvs. typed proj m a = Some kvs \<and> distinct (map fst kvs) \<and> dom vs = fst ` set kvs \<and>
        (\<forall>kv\<in>set kvs. d m (snd kv) = vs (fst kv)))"
proof -
  have "(distinct (map fst kvs) \<and> list_all (\<lambda>kv. d m (snd kv) \<noteq> None) kvs \<and> (\<lambda>k. Option.bind (map_of kvs k) (d m)) = vs) \<longleftrightarrow>
      (distinct (map fst kvs) \<and> dom vs = fst ` set kvs \<and> (\<forall>kv\<in>set kvs. d m (snd kv) = vs (fst kv)))" (is "?l \<longleftrightarrow> ?r") for kvs
  proof
    assume l: ?l
    then have "d m (snd kv) = vs (fst kv)" if "kv \<in> set kvs" for kv using that by (cases kv) auto
    moreover have "vs k \<noteq> None \<longleftrightarrow> k \<in> fst ` set kvs" for k
    proof -
      have vs: "vs k = Option.bind (map_of kvs k) (d m)" using l by auto
      show ?thesis
      proof (cases "map_of kvs k")
        case None
        then have "vs k = None" using vs by simp
        moreover have "k \<notin> fst ` set kvs" using None by (simp add: map_of_eq_None_iff)
        ultimately show ?thesis by simp
      next
        case (Some a)
        then have "(k, a) \<in> set kvs" by (rule map_of_SomeD)
        moreover have "d m a \<noteq> None" using l \<open>(k, a) \<in> set kvs\<close> by (auto simp: list_all_iff)
        ultimately show ?thesis using vs Some by force
      qed
    qed
    ultimately show ?r using l by (auto simp: dom_def)
  next
    assume r: ?r
    have "Option.bind (map_of kvs k) (d m) = vs k" for k
    proof (cases "map_of kvs k")
      case None
      then have "k \<notin> dom vs" using r by (simp add: map_of_eq_None_iff)
      then show ?thesis using None by (simp add: domIff)
    qed (use r in \<open>force dest: map_of_SomeD\<close>)
    moreover have "d m (snd kv) \<noteq> None" if "kv \<in> set kvs" for kv
    proof -
      have "fst kv \<in> dom vs" using r that by simp
      then show ?thesis using r that by auto
    qed
    ultimately show ?l using r by (auto simp: list_all_iff)
  qed
  note iff = this
  show ?thesis
  proof (cases "typed proj m a")
    case (Some kvs)
    then have "map_denote proj d m (Some a) = Some vs \<longleftrightarrow>
        distinct (map fst kvs) \<and> list_all (\<lambda>kv. d m (snd kv) \<noteq> None) kvs \<and> (\<lambda>k. Option.bind (map_of kvs k) (d m)) = vs"
      by (auto simp: map_denote_def)
    then show ?thesis unfolding iff Some by simp
  qed (simp add: map_denote_def)
qed

definition entries_copied ::
  "('c \<Rightarrow> (string \<times> 'a) list option) \<Rightarrow> ('c memory \<Rightarrow> 'a \<Rightarrow> 'b option) \<Rightarrow> ('c memory \<Rightarrow> 'a \<Rightarrow> addr set) \<Rightarrow>
   addr \<Rightarrow> (string \<rightharpoonup> 'b) \<Rightarrow> string list \<Rightarrow> 'c memory \<Rightarrow> bool" where
  "entries_copied proj d r b vs ks m \<longleftrightarrow>
     (\<exists>out. typed proj m b = Some out \<and> map fst out = ks \<and>
        (\<forall>kv\<in>set out. d m (snd kv) = vs (fst kv) \<and> vs (fst kv) \<noteq> None \<and> r m (snd kv) \<subseteq> {Suc b..}))"

lemma entries_copied_step:
  assumes dc: "deep_copy b d r copy" and mk: "\<And>x. proj (mk x) = Some x" and b: b
    and before: "entries_copied proj d r a vs ks m" and k: "k \<notin> set ks" and a: "a < length m"
    and y: "grows m m1" "d m1 y = vs k" "vs k \<noteq> None" "r m1 y \<subseteq> {length m..}" "typed proj m1 a = Some out"
  shows "entries_copied proj d r a vs (ks @ [k]) (store_at a (mk (AList.update k y out)) m1)"
proof -
  let ?m' = "store_at a (mk (AList.update k y out)) m1"
  have "typed proj m a = Some out" using y(1,5) typed_cong[OF grows_load[OF y(1) a], of proj] by simp
  then have old: "map fst out = ks" "\<forall>kv\<in>set out. d m (snd kv) = vs (fst kv) \<and> vs (fst kv) \<noteq> None \<and> r m (snd kv) \<subseteq> {Suc a..}"
    using before by (auto simp: entries_copied_def)
  have upd: "AList.update k y out = out @ [(k, y)]" using k old(1) by (intro update_new) force
  have keep: "d ?m' z = Some v \<and> r ?m' z \<subseteq> {Suc a..}" if "d m1 z = Some v" "r m1 z \<subseteq> {Suc a..}" for z v
  proof -
    have "same_on (r m1 z) m1 ?m'" by (rule same_on_store_at) (use that(2) in auto)
    from deep_copy.frame[OF dc b that(1) this] that(2) show ?thesis by simp
  qed
  have "d ?m' (snd kv) = vs (fst kv) \<and> vs (fst kv) \<noteq> None \<and> r ?m' (snd kv) \<subseteq> {Suc a..}" if kv: "kv \<in> set (out @ [(k, y)])" for kv
  proof -
    consider "kv = (k, y)" | "kv \<in> set out" using kv by auto
    then have "\<exists>v. vs (fst kv) = Some v \<and> d m1 (snd kv) = Some v \<and> r m1 (snd kv) \<subseteq> {Suc a..}"
    proof cases
      case 1
      then show ?thesis using y(2,3,4) a by auto
    next
      case 2
      then obtain v where "vs (fst kv) = Some v" "d m (snd kv) = Some v" "r m (snd kv) \<subseteq> {Suc a..}" using old(2) by auto
      then show ?thesis using deep_copy.kept[OF dc b _ y(1)] by simp
    qed
    then show ?thesis using keep by fastforce
  qed
  moreover have "typed proj ?m' a = Some (out @ [(k, y)])"
    using a grows_length[OF y(1)] by (simp add: typed_def load_store_at mk upd)
  ultimately show ?thesis using old(1) by (auto simp: entries_copied_def)
qed

lemma copy_entries_copied:
  assumes dc: "deep_copy b d r copy" and mk: "\<And>x. proj (mk x) = Some x" and b: b and a: "a = length m0"
    and now: "grows m0 m" "a < length m" "entries_copied proj d r a vs ks m"
      "distinct (ks @ map fst kvs)" "\<forall>kv\<in>set kvs. d m0 (snd kv) = vs (fst kv) \<and> vs (fst kv) \<noteq> None"
  shows "\<exists>m'. copy_entries mk proj copy a kvs m = Some m' \<and> grows m0 m' \<and> entries_copied proj d r a vs (ks @ map fst kvs) m'"
  using now
proof (induction kvs arbitrary: ks m)
  case Nil
  then show ?case by auto
next
  case (Cons kv kvs)
  obtain v where v: "d m0 (snd kv) = Some v" "vs (fst kv) = Some v" using Cons.prems(5) by auto
  from deep_copy.copy_obtain[OF dc b deep_copy.kept(1)[OF dc b v(1) Cons.prems(1)]] obtain y m1 where
    y: "copy (snd kv) m = Some (y, m1)" "grows m m1" "d m1 y = Some v" "r m1 y \<subseteq> {length m..<length m1}" by metis
  obtain out where out: "typed proj m1 a = Some out"
    using Cons.prems(3) typed_cong[OF grows_load[OF y(2) Cons.prems(2)], of proj] by (auto simp: entries_copied_def)
  let ?m' = "store_at a (mk (AList.update (fst kv) y out)) m1"
  have new: "fst kv \<notin> set ks" "d m1 y = vs (fst kv)" "vs (fst kv) \<noteq> None" "r m1 y \<subseteq> {length m..}"
    using Cons.prems(4) y(3,4) v(2) by auto
  have "entries_copied proj d r a vs (ks @ [fst kv]) ?m'"
    by (rule entries_copied_step[OF dc mk b Cons.prems(3) new(1) Cons.prems(2) y(2) new(2-4) out])
  moreover have "grows m0 ?m'" using grows_store_at[OF grows_trans[OF Cons.prems(1) y(2)]] a by simp
  moreover have "a < length ?m'" using Cons.prems(2) grows_length[OF y(2)] by simp
  ultimately have "\<exists>m'. copy_entries mk proj copy a kvs ?m' = Some m' \<and> grows m0 m' \<and> entries_copied proj d r a vs ((ks @ [fst kv]) @ map fst kvs) m'"
    using Cons.IH[of ?m' "ks @ [fst kv]"] Cons.prems(4,5) by simp
  then show ?case by (simp add: y(1) out)
qed

lemma map_deep_copy:
  assumes dc: "deep_copy b d r copy" and ct: "cell_type mk proj"
  shows "deep_copy b (map_denote proj d) (map_owns proj r) (map_copy mk proj copy)"
proof (unfold_locales, goal_cases)
  case (1 m p v m')
  show ?case
  proof (cases p)
    case (Some a)
    obtain kvs where kvs: "typed proj m a = Some kvs" "distinct (map fst kvs)" "dom v = fst ` set kvs" "\<forall>kv\<in>set kvs. d m (snd kv) = v (fst kv)"
      using 1(2)[unfolded Some map_denote_Some] by auto
    have "typed proj m' a = Some kvs" using 1(3) kvs(1) Some by (simp add: map_owns_def same_on_def typed_def)
    moreover have "d m' (snd kv) = d m (snd kv) \<and> r m' (snd kv) = r m (snd kv)" if kv: "kv \<in> set kvs" for kv
    proof -
      have same: "same_on (r m (snd kv)) m m'" by (rule same_on_mono[OF 1(3)]) (use kv kvs(1) Some in \<open>auto simp: map_owns_def\<close>)
      have "fst kv \<in> dom v" using kv kvs(3) by simp
      then obtain w where w: "d m (snd kv) = Some w" using kv kvs(4) by auto
      show ?thesis using deep_copy.frame[OF dc 1(1) w same] w by simp
    qed
    ultimately show ?thesis using kvs Some by (auto simp: map_denote_Some map_owns_def)
  qed (use 1 in \<open>simp_all add: map_denote_def map_owns_def\<close>)
next
  case (2 m p v)
  show ?case
  proof (cases p)
    case (Some a)
    obtain kvs where kvs: "typed proj m a = Some kvs" "dom v = fst ` set kvs" "\<forall>kv\<in>set kvs. d m (snd kv) = v (fst kv)"
      using 2(2)[unfolded Some map_denote_Some] by auto
    have "r m (snd kv) \<subseteq> {..<length m}" if kv: "kv \<in> set kvs" for kv
    proof -
      have "fst kv \<in> dom v" using kv kvs(2) by simp
      then show ?thesis using kv kvs(3) deep_copy.inside[OF dc 2(1), of m "snd kv"] by auto
    qed
    then show ?thesis using kvs(1) typed_inside[OF kvs(1)] Some by (auto simp: map_owns_def)
  qed (simp add: map_owns_def)
next
  case (3 m p v)
  show ?case
  proof (cases p)
    case (Some a)
    let ?b = "length m" and ?m1 = "m @ [mk []]"
    obtain kvs where kvs: "typed proj m a = Some kvs" "distinct (map fst kvs)" "dom v = fst ` set kvs" "\<forall>kv\<in>set kvs. d m (snd kv) = v (fst kv)"
      using 3(2)[unfolded Some map_denote_Some] by auto
    have all: "\<forall>kv\<in>set kvs. d m (snd kv) = v (fst kv) \<and> v (fst kv) \<noteq> None" using kvs(3,4) by (auto simp: dom_def)
    have "entries_copied proj d r ?b v [] ?m1" by (simp add: entries_copied_def typed_def cell_typeD[OF ct])
    from copy_entries_copied[OF dc cell_typeD[OF ct] 3(1) refl grows_alloc _ this _ all] kvs(2) obtain m' where
      m': "copy_entries mk proj copy ?b kvs ?m1 = Some m'" "grows m m'" "entries_copied proj d r ?b v (map fst kvs) m'" by auto
    from m'(3) obtain out where out: "typed proj m' ?b = Some out" "map fst out = map fst kvs"
      "\<forall>kv\<in>set out. d m' (snd kv) = v (fst kv) \<and> r m' (snd kv) \<subseteq> {Suc ?b..}" by (auto simp: entries_copied_def)
    have "fst ` set out = fst ` set kvs" using out(2) by (metis list.set_map)
    then have "map_denote proj d m' (Some ?b) = Some v" using out kvs(2,3) by (auto simp: map_denote_Some)
    moreover have "map_owns proj r m' (Some ?b) \<subseteq> {length m..}" using out(1,3) by (fastforce simp: map_owns_def)
    moreover have "map_copy mk proj copy p m = Some (Some ?b, m')"
      using Some kvs(1) m'(1) by (simp add: map_copy_def alloc_def)
    ultimately show ?thesis using m'(2) by blast
  qed (use 3 in \<open>simp add: map_denote_def map_owns_def map_copy_def\<close>)
qed

subsection \<open>Structs\<close>

text \<open>
  \<open>*out = *in\<close> followed by the copies of the fields that hold pointers, one after the other. A struct is
  seen as the tuple of these fields (\<open>f\<close>), which the copy replaces (\<open>g\<close>).
\<close>

definition both_denote where
  "both_denote d1 d2 m xy = do { v \<leftarrow> d1 m (fst xy); w \<leftarrow> d2 m (snd xy); Some (v, w) }"

definition both_owns where
  "both_owns r1 r2 m xy = r1 m (fst xy) \<union> r2 m (snd xy)"

definition both_copy where
  "both_copy c1 c2 xy m = do { (x, m1) \<leftarrow> c1 (fst xy) m; (y, m2) \<leftarrow> c2 (snd xy) m1; Some ((x, y), m2) }"

lemma both_denote_Some: "both_denote d1 d2 m xy = Some vw \<longleftrightarrow> d1 m (fst xy) = Some (fst vw) \<and> d2 m (snd xy) = Some (snd vw)"
  by (cases vw) (auto simp: both_denote_def bind_eq_Some_conv)

lemma both_deep_copy:
  assumes dc: "deep_copy b d1 r1 c1" "deep_copy b d2 r2 c2"
  shows "deep_copy b (both_denote d1 d2) (both_owns r1 r2) (both_copy c1 c2)"
proof (unfold_locales, goal_cases)
  case (1 m x v m')
  note v = 1(2)[unfolded both_denote_Some]
  have "same_on (r1 m (fst x)) m m'" "same_on (r2 m (snd x)) m m'" using 1(3) by (auto simp: both_owns_def same_on_def)
  with deep_copy.frame[OF dc(1) 1(1)] deep_copy.frame[OF dc(2) 1(1)] v show ?case
    unfolding both_denote_Some both_owns_def by metis
next
  case (2 m x v)
  note v = 2(2)[unfolded both_denote_Some]
  show ?case using deep_copy.inside[OF dc(1) 2(1)] deep_copy.inside[OF dc(2) 2(1)] v unfolding both_owns_def by (metis Un_least)
next
  case (3 m xy v)
  note v = 3(2)[unfolded both_denote_Some]
  obtain x m1 where x: "c1 (fst xy) m = Some (x, m1)" "grows m m1" "d1 m1 x = Some (fst v)" "r1 m1 x \<subseteq> {length m..<length m1}"
    using deep_copy.copy_obtain[OF dc(1) 3(1)] v by metis
  have "d2 m1 (snd xy) = Some (snd v)" by (rule deep_copy.kept(1)[OF dc(2) 3(1) _ x(2)]) (use v in simp)
  from deep_copy.copy_obtain[OF dc(2) 3(1) this] obtain y m2 where
    y: "c2 (snd xy) m1 = Some (y, m2)" "grows m1 m2" "d2 m2 y = Some (snd v)" "r2 m2 y \<subseteq> {length m1..<length m2}" by metis
  note x' = deep_copy.kept[OF dc(1) 3(1) x(3) y(2)]
  have "both_copy c1 c2 xy m = Some ((x, y), m2)" using x(1) y(1) by (simp add: both_copy_def)
  moreover have "both_denote d1 d2 m2 (x, y) = Some v" using x'(1) y(3) by (simp add: both_denote_Some)
  moreover have "both_owns r1 r2 m2 (x, y) \<subseteq> {length m..}"
    using x'(2) x(4) y(4) grows_length[OF x(2)] by (fastforce simp: both_owns_def)
  ultimately show ?case using grows_trans[OF x(2) y(2)] by blast
qed

lemma struct_deep_copy:
  assumes dc: "deep_copy b d r c"
    and denote: "\<And>m x. denote m x = map_option (h x) (d m (f x))"
    and owns: "\<And>m x. owns m x = r m (f x)"
    and copy: "\<And>x m. copy x m = map_option (\<lambda>(y, m'). (g x y, m')) (c (f x) m)"
    and put: "\<And>x y. f (g x y) = y" "\<And>x y v. h (g x y) v = h x v"
  shows "deep_copy b denote owns copy"
proof (unfold_locales, goal_cases)
  case (1 m x v m')
  obtain w where w: "d m (f x) = Some w" "v = h x w" using 1(2) unfolding denote by auto
  from deep_copy.frame[OF dc 1(1) w(1)] 1(3) show ?case unfolding denote owns w(2) by simp
next
  case (2 m x v)
  then show ?case using deep_copy.inside[OF dc 2(1)] unfolding denote owns by blast
next
  case (3 m x v)
  obtain w where w: "d m (f x) = Some w" "v = h x w" using 3(2) unfolding denote by auto
  from deep_copy.copies[OF dc 3(1) w(1)] obtain y m' where
    "c (f x) m = Some (y, m')" "grows m m'" "d m' y = Some w" "r m' y \<subseteq> {length m..}" by auto
  then show ?case using w(2) by (auto simp: denote owns copy put)
qed

end
