(* ===== verification/Deep_Copy.thy ===== *)
theory Deep_Copy
  imports Go_Memory Api_Types
begin

text \<open>
  The generated copies of the custom resources (\<open>zz_generated.deepcopy.go\<close>) on Go's memory. A struct of
  \<open>api/v1alpha1\<close> is here what it is in memory, with its pointers, slices and maps; what it stands for is
  the value of \<open>Api_Types\<close> of the same name. Each \<open>DeepCopyInto\<close> is a definition of its own, and the locale
  \<open>deep_copy\<close> is interpreted on every one of them.
\<close>

subsection \<open>The structs in memory\<close>

record TypeMeta =
  tm_Kind :: string
  tm_APIVersion :: string

record ListMeta =
  lm_SelfLink :: string
  lm_ResourceVersion :: string
  lm_Continue :: string
  lm_RemainingItemCount :: "int option"

record BridgeSpec_obj =
  bo_MTU :: "addr option"

record VXLANSpecs_obj =
  vo_VNID :: int32
  vo_RemoteIPAddress :: string
  vo_RemotePort :: int32
  vo_SourcePort :: "addr option"
  vo_Device :: "addr option"
  vo_Master :: "addr option"
  vo_MTU :: "addr option"
  vo_Learning :: "addr option"

record LinkSpecs_obj =
  so_Bridge :: "addr option"
  so_VXLAN :: "addr option"
  so_Unmanaged :: "addr option"

text \<open>\<open>'x\<close> stands for the structs of the Kubernetes library, whose own pointers are the library's affair.\<close>

record 'x LinkSpec_obj =
  po_LinkName :: string
  po_NodeSelector :: 'x
  po_LinkSpecs :: LinkSpecs_obj

record LinkStatus_obj =
  to_Conditions :: "slice option"
  to_MatchedNodes :: "slice option"

record 'x Link_obj =
  lo_TypeMeta :: TypeMeta
  lo_ObjectMeta :: 'x
  lo_Spec :: "'x LinkSpec_obj"
  lo_Status :: LinkStatus_obj

record 'x LinkList_obj =
  llo_TypeMeta :: TypeMeta
  llo_ListMeta :: 'x
  llo_Items :: "slice option"

record NodeLinksSpec_obj =
  qo_MatchingLinks :: "slice option"

record NodeLinksStatus_obj =
  uo_Conditions :: "slice option"
  uo_NetlinkLinkConditions :: "addr option"
  uo_LastAttemptedNetlinkLinks :: "slice option"

record 'x NodeLinks_obj =
  no_TypeMeta :: TypeMeta
  no_ObjectMeta :: 'x
  no_Spec :: NodeLinksSpec_obj
  no_Status :: NodeLinksStatus_obj

record 'x NodeLinksList_obj =
  nlo_TypeMeta :: TypeMeta
  nlo_ListMeta :: 'x
  nlo_Items :: "slice option"

text \<open>A cell: what one pointer points to, the array of a slice, or the entries of a map.\<close>

datatype 'x cell =
    Int32_cell int32
  | Bool_cell bool
  | PortRange_cell PortRange
  | LinkReference_cell LinkReference
  | BridgeSpec_cell BridgeSpec_obj
  | VXLANSpecs_cell VXLANSpecs_obj
  | UnmanagedSpec_cell UnmanagedSpec
  | LinkSpecs_cell LinkSpecs_obj
  | LinkSpec_cell "'x LinkSpec_obj"
  | LinkStatus_cell LinkStatus_obj
  | Link_cell "'x Link_obj"
  | LinkList_cell "'x LinkList_obj"
  | NodeLinksSpec_cell NodeLinksSpec_obj
  | NodeLinksStatus_cell NodeLinksStatus_obj
  | NodeLinksStatusConditions_cell "slice option"
  | NodeLinks_cell "'x NodeLinks_obj"
  | NodeLinksList_cell "'x NodeLinksList_obj"
  | strings_array "string list"
  | Conditions_array "Condition list"
  | Links_array "'x Link_obj list"
  | NodeLinks_array "'x NodeLinks_obj list"
  | conditions_map "(string \<times> slice option) list"
  | library_cell 'x

text \<open>The cell as the type that Go's static types say it has.\<close>

definition as_Int32 :: "'x cell \<Rightarrow> (int32) option" where
  "as_Int32 c = (case c of Int32_cell x \<Rightarrow> Some x | _ \<Rightarrow> None)"

definition as_Bool :: "'x cell \<Rightarrow> (bool) option" where
  "as_Bool c = (case c of Bool_cell x \<Rightarrow> Some x | _ \<Rightarrow> None)"

definition as_PortRange :: "'x cell \<Rightarrow> (PortRange) option" where
  "as_PortRange c = (case c of PortRange_cell x \<Rightarrow> Some x | _ \<Rightarrow> None)"

definition as_LinkReference :: "'x cell \<Rightarrow> (LinkReference) option" where
  "as_LinkReference c = (case c of LinkReference_cell x \<Rightarrow> Some x | _ \<Rightarrow> None)"

definition as_BridgeSpec :: "'x cell \<Rightarrow> (BridgeSpec_obj) option" where
  "as_BridgeSpec c = (case c of BridgeSpec_cell x \<Rightarrow> Some x | _ \<Rightarrow> None)"

definition as_VXLANSpecs :: "'x cell \<Rightarrow> (VXLANSpecs_obj) option" where
  "as_VXLANSpecs c = (case c of VXLANSpecs_cell x \<Rightarrow> Some x | _ \<Rightarrow> None)"

definition as_UnmanagedSpec :: "'x cell \<Rightarrow> (UnmanagedSpec) option" where
  "as_UnmanagedSpec c = (case c of UnmanagedSpec_cell x \<Rightarrow> Some x | _ \<Rightarrow> None)"

definition as_LinkSpecs :: "'x cell \<Rightarrow> (LinkSpecs_obj) option" where
  "as_LinkSpecs c = (case c of LinkSpecs_cell x \<Rightarrow> Some x | _ \<Rightarrow> None)"

definition as_LinkSpec :: "'x cell \<Rightarrow> ('x LinkSpec_obj) option" where
  "as_LinkSpec c = (case c of LinkSpec_cell x \<Rightarrow> Some x | _ \<Rightarrow> None)"

definition as_LinkStatus :: "'x cell \<Rightarrow> (LinkStatus_obj) option" where
  "as_LinkStatus c = (case c of LinkStatus_cell x \<Rightarrow> Some x | _ \<Rightarrow> None)"

definition as_Link :: "'x cell \<Rightarrow> ('x Link_obj) option" where
  "as_Link c = (case c of Link_cell x \<Rightarrow> Some x | _ \<Rightarrow> None)"

definition as_LinkList :: "'x cell \<Rightarrow> ('x LinkList_obj) option" where
  "as_LinkList c = (case c of LinkList_cell x \<Rightarrow> Some x | _ \<Rightarrow> None)"

definition as_NodeLinksSpec :: "'x cell \<Rightarrow> (NodeLinksSpec_obj) option" where
  "as_NodeLinksSpec c = (case c of NodeLinksSpec_cell x \<Rightarrow> Some x | _ \<Rightarrow> None)"

definition as_NodeLinksStatus :: "'x cell \<Rightarrow> (NodeLinksStatus_obj) option" where
  "as_NodeLinksStatus c = (case c of NodeLinksStatus_cell x \<Rightarrow> Some x | _ \<Rightarrow> None)"

definition as_NodeLinksStatusConditions :: "'x cell \<Rightarrow> (slice option) option" where
  "as_NodeLinksStatusConditions c = (case c of NodeLinksStatusConditions_cell x \<Rightarrow> Some x | _ \<Rightarrow> None)"

definition as_NodeLinks :: "'x cell \<Rightarrow> ('x NodeLinks_obj) option" where
  "as_NodeLinks c = (case c of NodeLinks_cell x \<Rightarrow> Some x | _ \<Rightarrow> None)"

definition as_NodeLinksList :: "'x cell \<Rightarrow> ('x NodeLinksList_obj) option" where
  "as_NodeLinksList c = (case c of NodeLinksList_cell x \<Rightarrow> Some x | _ \<Rightarrow> None)"

definition as_strings_array :: "'x cell \<Rightarrow> (string list) option" where
  "as_strings_array c = (case c of strings_array x \<Rightarrow> Some x | _ \<Rightarrow> None)"

definition as_Conditions_array :: "'x cell \<Rightarrow> (Condition list) option" where
  "as_Conditions_array c = (case c of Conditions_array x \<Rightarrow> Some x | _ \<Rightarrow> None)"

definition as_Links_array :: "'x cell \<Rightarrow> ('x Link_obj list) option" where
  "as_Links_array c = (case c of Links_array x \<Rightarrow> Some x | _ \<Rightarrow> None)"

definition as_NodeLinks_array :: "'x cell \<Rightarrow> ('x NodeLinks_obj list) option" where
  "as_NodeLinks_array c = (case c of NodeLinks_array x \<Rightarrow> Some x | _ \<Rightarrow> None)"

definition as_conditions_map :: "'x cell \<Rightarrow> ((string \<times> slice option) list) option" where
  "as_conditions_map c = (case c of conditions_map x \<Rightarrow> Some x | _ \<Rightarrow> None)"

lemma as_cell:
  "cell_type Int32_cell as_Int32"
  "cell_type Bool_cell as_Bool"
  "cell_type PortRange_cell as_PortRange"
  "cell_type LinkReference_cell as_LinkReference"
  "cell_type BridgeSpec_cell as_BridgeSpec"
  "cell_type VXLANSpecs_cell as_VXLANSpecs"
  "cell_type UnmanagedSpec_cell as_UnmanagedSpec"
  "cell_type LinkSpecs_cell as_LinkSpecs"
  "cell_type LinkSpec_cell as_LinkSpec"
  "cell_type LinkStatus_cell as_LinkStatus"
  "cell_type Link_cell as_Link"
  "cell_type LinkList_cell as_LinkList"
  "cell_type NodeLinksSpec_cell as_NodeLinksSpec"
  "cell_type NodeLinksStatus_cell as_NodeLinksStatus"
  "cell_type NodeLinksStatusConditions_cell as_NodeLinksStatusConditions"
  "cell_type NodeLinks_cell as_NodeLinks"
  "cell_type NodeLinksList_cell as_NodeLinksList"
  "cell_type strings_array as_strings_array"
  "cell_type Conditions_array as_Conditions_array"
  "cell_type Links_array as_Links_array"
  "cell_type NodeLinks_array as_NodeLinks_array"
  "cell_type conditions_map as_conditions_map"
  by (simp_all add: cell_type_def as_Int32_def as_Bool_def as_PortRange_def as_LinkReference_def as_BridgeSpec_def as_VXLANSpecs_def as_UnmanagedSpec_def as_LinkSpecs_def as_LinkSpec_def as_LinkStatus_def as_Link_def as_LinkList_def as_NodeLinksSpec_def as_NodeLinksStatus_def as_NodeLinksStatusConditions_def as_NodeLinks_def as_NodeLinksList_def as_strings_array_def as_Conditions_array_def as_Links_array_def as_NodeLinks_array_def as_conditions_map_def)

type_synonym 'x mem = "'x cell memory"

subsection \<open>The library's structs\<close>

text \<open>
  \<open>metav1.ObjectMeta\<close>, \<open>LabelSelector\<close>, \<open>ListMeta\<close> and \<open>Condition\<close> have a \<open>DeepCopyInto\<close> of their own, in the
  library. It is documented to be a deep copy, which is what \<open>meta_lib_ok\<close> says; a \<open>Condition\<close> holds no
  pointer that can be written through.
\<close>

record 'x meta_lib =
  lib_zero :: 'x
  lib_ObjectMeta_value :: "'x mem \<Rightarrow> 'x \<Rightarrow> ObjectMeta option"
  lib_ObjectMeta_owns :: "'x mem \<Rightarrow> 'x \<Rightarrow> addr set"
  lib_ObjectMeta_DeepCopyInto :: "'x \<Rightarrow> 'x mem \<Rightarrow> ('x \<times> 'x mem) option"
  lib_LabelSelector_value :: "'x mem \<Rightarrow> 'x \<Rightarrow> LabelSelector option"
  lib_LabelSelector_owns :: "'x mem \<Rightarrow> 'x \<Rightarrow> addr set"
  lib_LabelSelector_DeepCopyInto :: "'x \<Rightarrow> 'x mem \<Rightarrow> ('x \<times> 'x mem) option"
  lib_ListMeta_value :: "'x mem \<Rightarrow> 'x \<Rightarrow> ListMeta option"
  lib_ListMeta_owns :: "'x mem \<Rightarrow> 'x \<Rightarrow> addr set"
  lib_ListMeta_DeepCopyInto :: "'x \<Rightarrow> 'x mem \<Rightarrow> ('x \<times> 'x mem) option"
  lib_Condition_DeepCopyInto :: "Condition \<Rightarrow> 'x mem \<Rightarrow> (Condition \<times> 'x mem) option"

definition meta_lib_ok :: "'x meta_lib \<Rightarrow> bool" where
  "meta_lib_ok M \<longleftrightarrow>
     deep_copy True (lib_ObjectMeta_value M) (lib_ObjectMeta_owns M) (lib_ObjectMeta_DeepCopyInto M) \<and>
     deep_copy True (lib_LabelSelector_value M) (lib_LabelSelector_owns M) (lib_LabelSelector_DeepCopyInto M) \<and>
     deep_copy True (lib_ListMeta_value M) (lib_ListMeta_owns M) (lib_ListMeta_DeepCopyInto M) \<and>
     deep_copy True plain_denote plain_owns (lib_Condition_DeepCopyInto M)"

lemma meta_lib_deep_copy:
  "deep_copy (meta_lib_ok M) (lib_ObjectMeta_value M) (lib_ObjectMeta_owns M) (lib_ObjectMeta_DeepCopyInto M)"
  "deep_copy (meta_lib_ok M) (lib_LabelSelector_value M) (lib_LabelSelector_owns M) (lib_LabelSelector_DeepCopyInto M)"
  "deep_copy (meta_lib_ok M) (lib_ListMeta_value M) (lib_ListMeta_owns M) (lib_ListMeta_DeepCopyInto M)"
  "deep_copy (meta_lib_ok M) plain_denote plain_owns (lib_Condition_DeepCopyInto M)"
  by (rule deep_copy_if, simp add: meta_lib_ok_def)+

subsection \<open>Values and memory of a struct\<close>

text \<open>The slices and maps of the structs.\<close>

abbreviation "names_value \<equiv> slice_denote as_strings_array plain_denote"
abbreviation "names_owns \<equiv> slice_owns as_strings_array plain_owns"
abbreviation "conditions_value \<equiv> slice_denote as_Conditions_array plain_denote"
abbreviation "conditions_owns \<equiv> slice_owns as_Conditions_array plain_owns"
abbreviation "ref_value \<equiv> ptr_denote as_LinkReference plain_denote"
abbreviation "ref_owns \<equiv> ptr_owns as_LinkReference plain_owns"
abbreviation "int32_value \<equiv> ptr_denote as_Int32 plain_denote"
abbreviation "int32_owns \<equiv> ptr_owns as_Int32 plain_owns"

definition BridgeSpec_value :: "'x mem \<Rightarrow> BridgeSpec_obj \<Rightarrow> BridgeSpec option" where
  "BridgeSpec_value m x = do { mtu \<leftarrow> int32_value m (bo_MTU x); Some \<lparr>br_MTU = mtu\<rparr> }"

definition BridgeSpec_owns :: "'x mem \<Rightarrow> BridgeSpec_obj \<Rightarrow> addr set" where
  "BridgeSpec_owns m x = int32_owns m (bo_MTU x)"

definition VXLANSpecs_value :: "'x mem \<Rightarrow> VXLANSpecs_obj \<Rightarrow> VXLANSpecs option" where
  "VXLANSpecs_value m x = do {
     sourcePort \<leftarrow> ptr_denote as_PortRange plain_denote m (vo_SourcePort x);
     device \<leftarrow> ref_value m (vo_Device x);
     master \<leftarrow> ref_value m (vo_Master x);
     mtu \<leftarrow> int32_value m (vo_MTU x);
     learning \<leftarrow> ptr_denote as_Bool plain_denote m (vo_Learning x);
     Some \<lparr>vx_VNID = vo_VNID x, vx_RemoteIPAddress = vo_RemoteIPAddress x, vx_RemotePort = vo_RemotePort x,
       vx_SourcePort = sourcePort, vx_Device = device, vx_Master = master, vx_MTU = mtu, vx_Learning = learning\<rparr> }"

definition VXLANSpecs_owns :: "'x mem \<Rightarrow> VXLANSpecs_obj \<Rightarrow> addr set" where
  "VXLANSpecs_owns m x =
     ptr_owns as_PortRange plain_owns m (vo_SourcePort x) \<union> (ref_owns m (vo_Device x) \<union> (ref_owns m (vo_Master x) \<union>
       (int32_owns m (vo_MTU x) \<union> ptr_owns as_Bool plain_owns m (vo_Learning x))))"

definition LinkSpecs_value :: "'x mem \<Rightarrow> LinkSpecs_obj \<Rightarrow> LinkSpecs option" where
  "LinkSpecs_value m x = do {
     bridge \<leftarrow> ptr_denote as_BridgeSpec BridgeSpec_value m (so_Bridge x);
     vxlan \<leftarrow> ptr_denote as_VXLANSpecs VXLANSpecs_value m (so_VXLAN x);
     unmanaged \<leftarrow> ptr_denote as_UnmanagedSpec plain_denote m (so_Unmanaged x);
     Some \<lparr>sp_Bridge = bridge, sp_VXLAN = vxlan, sp_Unmanaged = unmanaged\<rparr> }"

definition LinkSpecs_owns :: "'x mem \<Rightarrow> LinkSpecs_obj \<Rightarrow> addr set" where
  "LinkSpecs_owns m x =
     ptr_owns as_BridgeSpec BridgeSpec_owns m (so_Bridge x) \<union>
     (ptr_owns as_VXLANSpecs VXLANSpecs_owns m (so_VXLAN x) \<union> ptr_owns as_UnmanagedSpec plain_owns m (so_Unmanaged x))"

definition LinkSpec_value :: "'x meta_lib \<Rightarrow> 'x mem \<Rightarrow> 'x LinkSpec_obj \<Rightarrow> LinkSpec option" where
  "LinkSpec_value M m x = do {
     sel \<leftarrow> lib_LabelSelector_value M m (po_NodeSelector x);
     specs \<leftarrow> LinkSpecs_value m (po_LinkSpecs x);
     Some \<lparr>lk_LinkName = po_LinkName x, lk_NodeSelector = sel, lk_LinkSpecs = specs\<rparr> }"

definition LinkSpec_owns :: "'x meta_lib \<Rightarrow> 'x mem \<Rightarrow> 'x LinkSpec_obj \<Rightarrow> addr set" where
  "LinkSpec_owns M m x = lib_LabelSelector_owns M m (po_NodeSelector x) \<union> LinkSpecs_owns m (po_LinkSpecs x)"

definition LinkStatus_value :: "'x mem \<Rightarrow> LinkStatus_obj \<Rightarrow> LinkStatus option" where
  "LinkStatus_value m x = do {
     conditions \<leftarrow> conditions_value m (to_Conditions x);
     nodes \<leftarrow> names_value m (to_MatchedNodes x);
     Some \<lparr>ls_Conditions = conditions, ls_MatchedNodes = nodes\<rparr> }"

definition LinkStatus_owns :: "'x mem \<Rightarrow> LinkStatus_obj \<Rightarrow> addr set" where
  "LinkStatus_owns m x = conditions_owns m (to_Conditions x) \<union> names_owns m (to_MatchedNodes x)"

definition Link_value :: "'x meta_lib \<Rightarrow> 'x mem \<Rightarrow> 'x Link_obj \<Rightarrow> Link option" where
  "Link_value M m x = do {
     meta \<leftarrow> lib_ObjectMeta_value M m (lo_ObjectMeta x);
     spec \<leftarrow> LinkSpec_value M m (lo_Spec x);
     status \<leftarrow> LinkStatus_value m (lo_Status x);
     Some \<lparr>lk_Meta = meta, lk_Spec = spec, lk_Status = status\<rparr> }"

definition Link_owns :: "'x meta_lib \<Rightarrow> 'x mem \<Rightarrow> 'x Link_obj \<Rightarrow> addr set" where
  "Link_owns M m x = lib_ObjectMeta_owns M m (lo_ObjectMeta x) \<union> (LinkSpec_owns M m (lo_Spec x) \<union> LinkStatus_owns m (lo_Status x))"

definition LinkList_value :: "'x meta_lib \<Rightarrow> 'x mem \<Rightarrow> 'x LinkList_obj \<Rightarrow> (ListMeta \<times> Link list) option" where
  "LinkList_value M m x = do {
     meta \<leftarrow> lib_ListMeta_value M m (llo_ListMeta x);
     items \<leftarrow> slice_denote as_Links_array (Link_value M) m (llo_Items x);
     Some (meta, items) }"

definition LinkList_owns :: "'x meta_lib \<Rightarrow> 'x mem \<Rightarrow> 'x LinkList_obj \<Rightarrow> addr set" where
  "LinkList_owns M m x = lib_ListMeta_owns M m (llo_ListMeta x) \<union> slice_owns as_Links_array (Link_owns M) m (llo_Items x)"

definition NodeLinksSpec_value :: "'x mem \<Rightarrow> NodeLinksSpec_obj \<Rightarrow> NodeLinksSpec option" where
  "NodeLinksSpec_value m x = do { links \<leftarrow> names_value m (qo_MatchingLinks x); Some \<lparr>nk_MatchingLinks = links\<rparr> }"

definition NodeLinksSpec_owns :: "'x mem \<Rightarrow> NodeLinksSpec_obj \<Rightarrow> addr set" where
  "NodeLinksSpec_owns m x = names_owns m (qo_MatchingLinks x)"

definition NodeLinksStatus_value :: "'x mem \<Rightarrow> NodeLinksStatus_obj \<Rightarrow> NodeLinksStatus option" where
  "NodeLinksStatus_value m x = do {
     conditions \<leftarrow> conditions_value m (uo_Conditions x);
     links \<leftarrow> map_denote as_conditions_map conditions_value m (uo_NetlinkLinkConditions x);
     attempted \<leftarrow> names_value m (uo_LastAttemptedNetlinkLinks x);
     Some \<lparr>ns_Conditions = conditions, ns_NetlinkLinkConditions = links, ns_LastAttemptedNetlinkLinks = attempted\<rparr> }"

definition NodeLinksStatus_owns :: "'x mem \<Rightarrow> NodeLinksStatus_obj \<Rightarrow> addr set" where
  "NodeLinksStatus_owns m x =
     conditions_owns m (uo_Conditions x) \<union>
     (map_owns as_conditions_map conditions_owns m (uo_NetlinkLinkConditions x) \<union> names_owns m (uo_LastAttemptedNetlinkLinks x))"

definition NodeLinks_value :: "'x meta_lib \<Rightarrow> 'x mem \<Rightarrow> 'x NodeLinks_obj \<Rightarrow> NodeLinks option" where
  "NodeLinks_value M m x = do {
     meta \<leftarrow> lib_ObjectMeta_value M m (no_ObjectMeta x);
     spec \<leftarrow> NodeLinksSpec_value m (no_Spec x);
     status \<leftarrow> NodeLinksStatus_value m (no_Status x);
     Some \<lparr>nk_Meta = meta, nk_Spec = spec, nk_Status = status\<rparr> }"

definition NodeLinks_owns :: "'x meta_lib \<Rightarrow> 'x mem \<Rightarrow> 'x NodeLinks_obj \<Rightarrow> addr set" where
  "NodeLinks_owns M m x = lib_ObjectMeta_owns M m (no_ObjectMeta x) \<union> (NodeLinksSpec_owns m (no_Spec x) \<union> NodeLinksStatus_owns m (no_Status x))"

definition NodeLinksList_value :: "'x meta_lib \<Rightarrow> 'x mem \<Rightarrow> 'x NodeLinksList_obj \<Rightarrow> (ListMeta \<times> NodeLinks list) option" where
  "NodeLinksList_value M m x = do {
     meta \<leftarrow> lib_ListMeta_value M m (nlo_ListMeta x);
     items \<leftarrow> slice_denote as_NodeLinks_array (NodeLinks_value M) m (nlo_Items x);
     Some (meta, items) }"

definition NodeLinksList_owns :: "'x meta_lib \<Rightarrow> 'x mem \<Rightarrow> 'x NodeLinksList_obj \<Rightarrow> addr set" where
  "NodeLinksList_owns M m x = lib_ListMeta_owns M m (nlo_ListMeta x) \<union> slice_owns as_NodeLinks_array (NodeLinks_owns M) m (nlo_Items x)"

lemmas value_defs =
  BridgeSpec_value_def VXLANSpecs_value_def LinkSpecs_value_def LinkSpec_value_def LinkStatus_value_def Link_value_def
  LinkList_value_def NodeLinksSpec_value_def NodeLinksStatus_value_def NodeLinks_value_def NodeLinksList_value_def

lemmas owns_defs =
  BridgeSpec_owns_def VXLANSpecs_owns_def LinkSpecs_owns_def LinkSpec_owns_def LinkStatus_owns_def Link_owns_def
  LinkList_owns_def NodeLinksSpec_owns_def NodeLinksStatus_owns_def NodeLinks_owns_def NodeLinksList_owns_def

subsection \<open>Zero values\<close>

definition zero_PortRange :: PortRange where "zero_PortRange = \<lparr>pr_Start = 0, pr_End = 0\<rparr>"

definition zero_LinkReference :: LinkReference where
  "zero_LinkReference = \<lparr>ref_Name = '''', ref_Optional = False, ref_SetDownOnDependencyChainUpdate = False\<rparr>"

definition zero_Condition :: Condition where
  "zero_Condition = condition (OtherConditionType '''') ConditionUnknown (OtherReason '''') NoMessage"

definition zero_BridgeSpec :: BridgeSpec_obj where "zero_BridgeSpec = \<lparr>bo_MTU = None\<rparr>"

definition zero_VXLANSpecs :: VXLANSpecs_obj where
  "zero_VXLANSpecs = \<lparr>vo_VNID = 0, vo_RemoteIPAddress = '''', vo_RemotePort = 0, vo_SourcePort = None,
     vo_Device = None, vo_Master = None, vo_MTU = None, vo_Learning = None\<rparr>"

definition zero_LinkSpecs :: LinkSpecs_obj where "zero_LinkSpecs = \<lparr>so_Bridge = None, so_VXLAN = None, so_Unmanaged = None\<rparr>"

definition zero_LinkSpec :: "'x meta_lib \<Rightarrow> 'x LinkSpec_obj" where
  "zero_LinkSpec M = \<lparr>po_LinkName = '''', po_NodeSelector = lib_zero M, po_LinkSpecs = zero_LinkSpecs\<rparr>"

definition zero_LinkStatus :: LinkStatus_obj where "zero_LinkStatus = \<lparr>to_Conditions = None, to_MatchedNodes = None\<rparr>"

definition zero_TypeMeta :: TypeMeta where "zero_TypeMeta = \<lparr>tm_Kind = '''', tm_APIVersion = ''''\<rparr>"

definition zero_Link :: "'x meta_lib \<Rightarrow> 'x Link_obj" where
  "zero_Link M = \<lparr>lo_TypeMeta = zero_TypeMeta, lo_ObjectMeta = lib_zero M, lo_Spec = zero_LinkSpec M, lo_Status = zero_LinkStatus\<rparr>"

definition zero_LinkList :: "'x meta_lib \<Rightarrow> 'x LinkList_obj" where
  "zero_LinkList M = \<lparr>llo_TypeMeta = zero_TypeMeta, llo_ListMeta = lib_zero M, llo_Items = None\<rparr>"

definition zero_NodeLinksSpec :: NodeLinksSpec_obj where "zero_NodeLinksSpec = \<lparr>qo_MatchingLinks = None\<rparr>"

definition zero_NodeLinksStatus :: NodeLinksStatus_obj where
  "zero_NodeLinksStatus = \<lparr>uo_Conditions = None, uo_NetlinkLinkConditions = None, uo_LastAttemptedNetlinkLinks = None\<rparr>"

definition zero_NodeLinks :: "'x meta_lib \<Rightarrow> 'x NodeLinks_obj" where
  "zero_NodeLinks M = \<lparr>no_TypeMeta = zero_TypeMeta, no_ObjectMeta = lib_zero M, no_Spec = zero_NodeLinksSpec, no_Status = zero_NodeLinksStatus\<rparr>"

definition zero_NodeLinksList :: "'x meta_lib \<Rightarrow> 'x NodeLinksList_obj" where
  "zero_NodeLinksList M = \<lparr>nlo_TypeMeta = zero_TypeMeta, nlo_ListMeta = lib_zero M, nlo_Items = None\<rparr>"


subsection \<open>DeepCopyInto\<close>

text \<open>
  \<open>X_DeepCopyInto x m\<close> is \<open>in.DeepCopyInto(out)\<close> with \<open>*in = x\<close>: what is written to \<open>*out\<close>, and the memory
  afterwards. \<open>None\<close> would be a dereference that fails.
\<close>

definition PortRange_DeepCopyInto :: "PortRange \<Rightarrow> 'x mem \<Rightarrow> (PortRange \<times> 'x mem) option" where
  "PortRange_DeepCopyInto = assign"

definition LinkReference_DeepCopyInto :: "LinkReference \<Rightarrow> 'x mem \<Rightarrow> (LinkReference \<times> 'x mem) option" where
  "LinkReference_DeepCopyInto = assign"

definition UnmanagedSpec_DeepCopyInto :: "UnmanagedSpec \<Rightarrow> 'x mem \<Rightarrow> (UnmanagedSpec \<times> 'x mem) option" where
  "UnmanagedSpec_DeepCopyInto = assign"

definition BridgeSpec_DeepCopyInto :: "BridgeSpec_obj \<Rightarrow> 'x mem \<Rightarrow> (BridgeSpec_obj \<times> 'x mem) option" where
  "BridgeSpec_DeepCopyInto x m = do {
     (mtu, m1) \<leftarrow> ptr_copy Int32_cell as_Int32 0 assign (bo_MTU x) m;
     Some (x\<lparr>bo_MTU := mtu\<rparr>, m1) }"

definition VXLANSpecs_DeepCopyInto :: "VXLANSpecs_obj \<Rightarrow> 'x mem \<Rightarrow> (VXLANSpecs_obj \<times> 'x mem) option" where
  "VXLANSpecs_DeepCopyInto x m = do {
     (sourcePort, m1) \<leftarrow> ptr_copy PortRange_cell as_PortRange zero_PortRange assign (vo_SourcePort x) m;
     (device, m2) \<leftarrow> ptr_copy LinkReference_cell as_LinkReference zero_LinkReference assign (vo_Device x) m1;
     (master, m3) \<leftarrow> ptr_copy LinkReference_cell as_LinkReference zero_LinkReference assign (vo_Master x) m2;
     (mtu, m4) \<leftarrow> ptr_copy Int32_cell as_Int32 0 assign (vo_MTU x) m3;
     (learning, m5) \<leftarrow> ptr_copy Bool_cell as_Bool False assign (vo_Learning x) m4;
     Some (x\<lparr>vo_SourcePort := sourcePort, vo_Device := device, vo_Master := master, vo_MTU := mtu, vo_Learning := learning\<rparr>, m5) }"

definition LinkSpecs_DeepCopyInto :: "LinkSpecs_obj \<Rightarrow> 'x mem \<Rightarrow> (LinkSpecs_obj \<times> 'x mem) option" where
  "LinkSpecs_DeepCopyInto x m = do {
     (bridge, m1) \<leftarrow> ptr_copy BridgeSpec_cell as_BridgeSpec zero_BridgeSpec BridgeSpec_DeepCopyInto (so_Bridge x) m;
     (vxlan, m2) \<leftarrow> ptr_copy VXLANSpecs_cell as_VXLANSpecs zero_VXLANSpecs VXLANSpecs_DeepCopyInto (so_VXLAN x) m1;
     (unmanaged, m3) \<leftarrow> ptr_copy UnmanagedSpec_cell as_UnmanagedSpec UnmanagedSpec assign (so_Unmanaged x) m2;
     Some (x\<lparr>so_Bridge := bridge, so_VXLAN := vxlan, so_Unmanaged := unmanaged\<rparr>, m3) }"

definition LinkSpec_DeepCopyInto :: "'x meta_lib \<Rightarrow> 'x LinkSpec_obj \<Rightarrow> 'x mem \<Rightarrow> ('x LinkSpec_obj \<times> 'x mem) option" where
  "LinkSpec_DeepCopyInto M x m = do {
     (sel, m1) \<leftarrow> lib_LabelSelector_DeepCopyInto M (po_NodeSelector x) m;
     (specs, m2) \<leftarrow> LinkSpecs_DeepCopyInto (po_LinkSpecs x) m1;
     Some (x\<lparr>po_NodeSelector := sel, po_LinkSpecs := specs\<rparr>, m2) }"

definition conditions_copy :: "'x meta_lib \<Rightarrow> slice option \<Rightarrow> 'x mem \<Rightarrow> (slice option \<times> 'x mem) option" where
  "conditions_copy M = slice_copy Conditions_array as_Conditions_array zero_Condition (lib_Condition_DeepCopyInto M)"

definition names_copy :: "slice option \<Rightarrow> 'x mem \<Rightarrow> (slice option \<times> 'x mem) option" where
  "names_copy = slice_copy_builtin strings_array as_strings_array ''''"

definition LinkStatus_DeepCopyInto :: "'x meta_lib \<Rightarrow> LinkStatus_obj \<Rightarrow> 'x mem \<Rightarrow> (LinkStatus_obj \<times> 'x mem) option" where
  "LinkStatus_DeepCopyInto M x m = do {
     (conditions, m1) \<leftarrow> conditions_copy M (to_Conditions x) m;
     (nodes, m2) \<leftarrow> names_copy (to_MatchedNodes x) m1;
     Some (x\<lparr>to_Conditions := conditions, to_MatchedNodes := nodes\<rparr>, m2) }"

definition Link_DeepCopyInto :: "'x meta_lib \<Rightarrow> 'x Link_obj \<Rightarrow> 'x mem \<Rightarrow> ('x Link_obj \<times> 'x mem) option" where
  "Link_DeepCopyInto M x m = do {
     (meta, m1) \<leftarrow> lib_ObjectMeta_DeepCopyInto M (lo_ObjectMeta x) m;
     (spec, m2) \<leftarrow> LinkSpec_DeepCopyInto M (lo_Spec x) m1;
     (status, m3) \<leftarrow> LinkStatus_DeepCopyInto M (lo_Status x) m2;
     Some (x\<lparr>lo_ObjectMeta := meta, lo_Spec := spec, lo_Status := status\<rparr>, m3) }"

definition LinkList_DeepCopyInto :: "'x meta_lib \<Rightarrow> 'x LinkList_obj \<Rightarrow> 'x mem \<Rightarrow> ('x LinkList_obj \<times> 'x mem) option" where
  "LinkList_DeepCopyInto M x m = do {
     (meta, m1) \<leftarrow> lib_ListMeta_DeepCopyInto M (llo_ListMeta x) m;
     (items, m2) \<leftarrow> slice_copy Links_array as_Links_array (zero_Link M) (Link_DeepCopyInto M) (llo_Items x) m1;
     Some (x\<lparr>llo_ListMeta := meta, llo_Items := items\<rparr>, m2) }"

definition NodeLinksSpec_DeepCopyInto :: "NodeLinksSpec_obj \<Rightarrow> 'x mem \<Rightarrow> (NodeLinksSpec_obj \<times> 'x mem) option" where
  "NodeLinksSpec_DeepCopyInto x m = do {
     (links, m1) \<leftarrow> names_copy (qo_MatchingLinks x) m;
     Some (x\<lparr>qo_MatchingLinks := links\<rparr>, m1) }"

definition NodeLinksStatus_DeepCopyInto :: "'x meta_lib \<Rightarrow> NodeLinksStatus_obj \<Rightarrow> 'x mem \<Rightarrow> (NodeLinksStatus_obj \<times> 'x mem) option" where
  "NodeLinksStatus_DeepCopyInto M x m = do {
     (conditions, m1) \<leftarrow> conditions_copy M (uo_Conditions x) m;
     (links, m2) \<leftarrow> map_copy conditions_map as_conditions_map (conditions_copy M) (uo_NetlinkLinkConditions x) m1;
     (attempted, m3) \<leftarrow> names_copy (uo_LastAttemptedNetlinkLinks x) m2;
     Some (x\<lparr>uo_Conditions := conditions, uo_NetlinkLinkConditions := links, uo_LastAttemptedNetlinkLinks := attempted\<rparr>, m3) }"

text \<open>A nil slice becomes an empty one here: \<open>make\<close> is called in either case.\<close>

definition NodeLinksStatusConditions_DeepCopyInto :: "'x meta_lib \<Rightarrow> slice option \<Rightarrow> 'x mem \<Rightarrow> (slice option \<times> 'x mem) option" where
  "NodeLinksStatusConditions_DeepCopyInto M p m =
     (case p of
        None \<Rightarrow> (case alloc (Conditions_array []) m of (b, m1) \<Rightarrow> Some (Some (whole_array b 0), m1))
      | Some s \<Rightarrow> conditions_copy M (Some s) m)"

definition NodeLinks_DeepCopyInto :: "'x meta_lib \<Rightarrow> 'x NodeLinks_obj \<Rightarrow> 'x mem \<Rightarrow> ('x NodeLinks_obj \<times> 'x mem) option" where
  "NodeLinks_DeepCopyInto M x m = do {
     (meta, m1) \<leftarrow> lib_ObjectMeta_DeepCopyInto M (no_ObjectMeta x) m;
     (spec, m2) \<leftarrow> NodeLinksSpec_DeepCopyInto (no_Spec x) m1;
     (status, m3) \<leftarrow> NodeLinksStatus_DeepCopyInto M (no_Status x) m2;
     Some (x\<lparr>no_ObjectMeta := meta, no_Spec := spec, no_Status := status\<rparr>, m3) }"

definition NodeLinksList_DeepCopyInto :: "'x meta_lib \<Rightarrow> 'x NodeLinksList_obj \<Rightarrow> 'x mem \<Rightarrow> ('x NodeLinksList_obj \<times> 'x mem) option" where
  "NodeLinksList_DeepCopyInto M x m = do {
     (meta, m1) \<leftarrow> lib_ListMeta_DeepCopyInto M (nlo_ListMeta x) m;
     (items, m2) \<leftarrow> slice_copy NodeLinks_array as_NodeLinks_array (zero_NodeLinks M) (NodeLinks_DeepCopyInto M) (nlo_Items x) m1;
     Some (x\<lparr>nlo_ListMeta := meta, nlo_Items := items\<rparr>, m2) }"

subsection \<open>The promise, type by type\<close>

lemma leaf_deep_copy:
  "deep_copy b int32_value int32_owns (ptr_copy Int32_cell as_Int32 0 assign)"
  "deep_copy b (ptr_denote as_Bool plain_denote) (ptr_owns as_Bool plain_owns) (ptr_copy Bool_cell as_Bool False assign)"
  "deep_copy b (ptr_denote as_PortRange plain_denote) (ptr_owns as_PortRange plain_owns) (ptr_copy PortRange_cell as_PortRange zero_PortRange assign)"
  "deep_copy b ref_value ref_owns (ptr_copy LinkReference_cell as_LinkReference zero_LinkReference assign)"
  "deep_copy b (ptr_denote as_UnmanagedSpec plain_denote) (ptr_owns as_UnmanagedSpec plain_owns) (ptr_copy UnmanagedSpec_cell as_UnmanagedSpec UnmanagedSpec assign)"
  by (rule ptr_deep_copy[OF plain_deep_copy as_cell(1)] ptr_deep_copy[OF plain_deep_copy as_cell(2)]
      ptr_deep_copy[OF plain_deep_copy as_cell(3)] ptr_deep_copy[OF plain_deep_copy as_cell(4)]
      ptr_deep_copy[OF plain_deep_copy as_cell(7)])+

lemma names_deep_copy: "deep_copy b names_value names_owns names_copy"
  unfolding names_copy_def by (rule builtin_deep_copy[OF as_cell(18)])

lemma conditions_deep_copy: "deep_copy (meta_lib_ok M) conditions_value conditions_owns (conditions_copy M)"
  unfolding conditions_copy_def by (rule slice_deep_copy[OF meta_lib_deep_copy(4) as_cell(19)])

lemmas struct_split = both_denote_def both_owns_def both_copy_def

lemma BridgeSpec_deep_copy: "deep_copy b BridgeSpec_value BridgeSpec_owns BridgeSpec_DeepCopyInto"
  by (rule struct_deep_copy[where f = bo_MTU and g = "\<lambda>x y. x\<lparr>bo_MTU := y\<rparr>" and h = "\<lambda>x v. \<lparr>br_MTU = v\<rparr>", OF leaf_deep_copy(1)])
     (auto simp: BridgeSpec_value_def BridgeSpec_owns_def BridgeSpec_DeepCopyInto_def split: bind_splits)

lemma VXLANSpecs_deep_copy: "deep_copy b VXLANSpecs_value VXLANSpecs_owns VXLANSpecs_DeepCopyInto"
  by (rule struct_deep_copy[
        where f = "\<lambda>x. (vo_SourcePort x, vo_Device x, vo_Master x, vo_MTU x, vo_Learning x)"
          and g = "\<lambda>x (a, b, c, d, e). x\<lparr>vo_SourcePort := a, vo_Device := b, vo_Master := c, vo_MTU := d, vo_Learning := e\<rparr>"
          and h = "\<lambda>x (a, b, c, d, e). \<lparr>vx_VNID = vo_VNID x, vx_RemoteIPAddress = vo_RemoteIPAddress x, vx_RemotePort = vo_RemotePort x,
             vx_SourcePort = a, vx_Device = b, vx_Master = c, vx_MTU = d, vx_Learning = e\<rparr>",
        OF both_deep_copy[OF leaf_deep_copy(3) both_deep_copy[OF leaf_deep_copy(4)
           both_deep_copy[OF leaf_deep_copy(4) both_deep_copy[OF leaf_deep_copy(1) leaf_deep_copy(2)]]]]])
     (auto simp: VXLANSpecs_value_def VXLANSpecs_owns_def VXLANSpecs_DeepCopyInto_def struct_split split: bind_splits)

lemma LinkSpecs_deep_copy: "deep_copy b LinkSpecs_value LinkSpecs_owns LinkSpecs_DeepCopyInto"
  by (rule struct_deep_copy[
        where f = "\<lambda>x. (so_Bridge x, so_VXLAN x, so_Unmanaged x)"
          and g = "\<lambda>x (a, b, c). x\<lparr>so_Bridge := a, so_VXLAN := b, so_Unmanaged := c\<rparr>"
          and h = "\<lambda>x (a, b, c). \<lparr>sp_Bridge = a, sp_VXLAN = b, sp_Unmanaged = c\<rparr>",
        OF both_deep_copy[OF ptr_deep_copy[OF BridgeSpec_deep_copy as_cell(5), where zero = zero_BridgeSpec]
           both_deep_copy[OF ptr_deep_copy[OF VXLANSpecs_deep_copy as_cell(6), where zero = zero_VXLANSpecs] leaf_deep_copy(5)]]])
     (auto simp: LinkSpecs_value_def LinkSpecs_owns_def LinkSpecs_DeepCopyInto_def struct_split split: bind_splits)

lemma LinkSpec_deep_copy: "deep_copy (meta_lib_ok M) (LinkSpec_value M) (LinkSpec_owns M) (LinkSpec_DeepCopyInto M)"
  by (rule struct_deep_copy[
        where f = "\<lambda>x. (po_NodeSelector x, po_LinkSpecs x)" and g = "\<lambda>x (a, b). x\<lparr>po_NodeSelector := a, po_LinkSpecs := b\<rparr>"
          and h = "\<lambda>x (a, b). \<lparr>lk_LinkName = po_LinkName x, lk_NodeSelector = a, lk_LinkSpecs = b\<rparr>",
        OF both_deep_copy[OF meta_lib_deep_copy(2) LinkSpecs_deep_copy]])
     (auto simp: LinkSpec_value_def LinkSpec_owns_def LinkSpec_DeepCopyInto_def struct_split split: bind_splits)

lemma LinkStatus_deep_copy: "deep_copy (meta_lib_ok M) LinkStatus_value LinkStatus_owns (LinkStatus_DeepCopyInto M)"
  by (rule struct_deep_copy[
        where f = "\<lambda>x. (to_Conditions x, to_MatchedNodes x)" and g = "\<lambda>x (a, b). x\<lparr>to_Conditions := a, to_MatchedNodes := b\<rparr>"
          and h = "\<lambda>x (a, b). \<lparr>ls_Conditions = a, ls_MatchedNodes = b\<rparr>",
        OF both_deep_copy[OF conditions_deep_copy names_deep_copy]])
     (auto simp: LinkStatus_value_def LinkStatus_owns_def LinkStatus_DeepCopyInto_def struct_split split: bind_splits)

lemma Link_deep_copy: "deep_copy (meta_lib_ok M) (Link_value M) (Link_owns M) (Link_DeepCopyInto M)"
  by (rule struct_deep_copy[
        where f = "\<lambda>x. (lo_ObjectMeta x, lo_Spec x, lo_Status x)"
          and g = "\<lambda>x (a, b, c). x\<lparr>lo_ObjectMeta := a, lo_Spec := b, lo_Status := c\<rparr>"
          and h = "\<lambda>x (a, b, c). \<lparr>lk_Meta = a, lk_Spec = b, lk_Status = c\<rparr>",
        OF both_deep_copy[OF meta_lib_deep_copy(1) both_deep_copy[OF LinkSpec_deep_copy LinkStatus_deep_copy]]])
     (auto simp: Link_value_def Link_owns_def Link_DeepCopyInto_def struct_split split: bind_splits)

lemma LinkList_deep_copy: "deep_copy (meta_lib_ok M) (LinkList_value M) (LinkList_owns M) (LinkList_DeepCopyInto M)"
  by (rule struct_deep_copy[
        where f = "\<lambda>x. (llo_ListMeta x, llo_Items x)" and g = "\<lambda>x (a, b). x\<lparr>llo_ListMeta := a, llo_Items := b\<rparr>" and h = "\<lambda>x v. v",
        OF both_deep_copy[OF meta_lib_deep_copy(3) slice_deep_copy[OF Link_deep_copy as_cell(20), where zero = "zero_Link M"]]])
     (auto simp: LinkList_value_def LinkList_owns_def LinkList_DeepCopyInto_def struct_split split: bind_splits)

lemma NodeLinksSpec_deep_copy: "deep_copy b NodeLinksSpec_value NodeLinksSpec_owns NodeLinksSpec_DeepCopyInto"
  by (rule struct_deep_copy[where f = qo_MatchingLinks and g = "\<lambda>x y. x\<lparr>qo_MatchingLinks := y\<rparr>" and h = "\<lambda>x v. \<lparr>nk_MatchingLinks = v\<rparr>", OF names_deep_copy])
     (auto simp: NodeLinksSpec_value_def NodeLinksSpec_owns_def NodeLinksSpec_DeepCopyInto_def split: bind_splits)

lemma NodeLinksStatus_deep_copy: "deep_copy (meta_lib_ok M) NodeLinksStatus_value NodeLinksStatus_owns (NodeLinksStatus_DeepCopyInto M)"
  by (rule struct_deep_copy[
        where f = "\<lambda>x. (uo_Conditions x, uo_NetlinkLinkConditions x, uo_LastAttemptedNetlinkLinks x)"
          and g = "\<lambda>x (a, b, c). x\<lparr>uo_Conditions := a, uo_NetlinkLinkConditions := b, uo_LastAttemptedNetlinkLinks := c\<rparr>"
          and h = "\<lambda>x (a, b, c). \<lparr>ns_Conditions = a, ns_NetlinkLinkConditions = b, ns_LastAttemptedNetlinkLinks = c\<rparr>",
        OF both_deep_copy[OF conditions_deep_copy both_deep_copy[OF map_deep_copy[OF conditions_deep_copy as_cell(22)] names_deep_copy]]])
     (auto simp: NodeLinksStatus_value_def NodeLinksStatus_owns_def NodeLinksStatus_DeepCopyInto_def struct_split split: bind_splits)

lemma NodeLinks_deep_copy: "deep_copy (meta_lib_ok M) (NodeLinks_value M) (NodeLinks_owns M) (NodeLinks_DeepCopyInto M)"
  by (rule struct_deep_copy[
        where f = "\<lambda>x. (no_ObjectMeta x, no_Spec x, no_Status x)"
          and g = "\<lambda>x (a, b, c). x\<lparr>no_ObjectMeta := a, no_Spec := b, no_Status := c\<rparr>"
          and h = "\<lambda>x (a, b, c). \<lparr>nk_Meta = a, nk_Spec = b, nk_Status = c\<rparr>",
        OF both_deep_copy[OF meta_lib_deep_copy(1) both_deep_copy[OF NodeLinksSpec_deep_copy NodeLinksStatus_deep_copy]]])
     (auto simp: NodeLinks_value_def NodeLinks_owns_def NodeLinks_DeepCopyInto_def struct_split split: bind_splits)

lemma NodeLinksList_deep_copy: "deep_copy (meta_lib_ok M) (NodeLinksList_value M) (NodeLinksList_owns M) (NodeLinksList_DeepCopyInto M)"
  by (rule struct_deep_copy[
        where f = "\<lambda>x. (nlo_ListMeta x, nlo_Items x)" and g = "\<lambda>x (a, b). x\<lparr>nlo_ListMeta := a, nlo_Items := b\<rparr>" and h = "\<lambda>x v. v",
        OF both_deep_copy[OF meta_lib_deep_copy(3) slice_deep_copy[OF NodeLinks_deep_copy as_cell(21), where zero = "zero_NodeLinks M"]]])
     (auto simp: NodeLinksList_value_def NodeLinksList_owns_def NodeLinksList_DeepCopyInto_def struct_split split: bind_splits)

lemma NodeLinksStatusConditions_deep_copy:
  "deep_copy (meta_lib_ok M) conditions_value conditions_owns (NodeLinksStatusConditions_DeepCopyInto M)"
proof (unfold_locales, goal_cases)
  case (1 m p v m')
  show ?case by (rule deep_copy.frame[OF conditions_deep_copy 1])
next
  case (2 m p v)
  show ?case by (rule deep_copy.inside[OF conditions_deep_copy 2])
next
  case (3 m p v)
  show ?case
  proof (cases p)
    case None
    let ?m' = "m @ [Conditions_array []]" and ?q = "Some (whole_array (length m) 0)"
    have cell: "elems as_Conditions_array ?m' (whole_array (length m) 0) = Some []"
      by (rule elems_whole_array) (simp_all add: typed_def as_Conditions_array_def)
    have "v = []" using 3(2) None by (simp add: slice_denote_def)
    then have "conditions_value ?m' ?q = Some v" using cell by (simp add: plain_slice_denote)
    moreover have "conditions_owns ?m' ?q \<subseteq> {length m..}" using cell by (simp add: slice_owns_def)
    moreover have "NodeLinksStatusConditions_DeepCopyInto M p m = Some (?q, ?m')"
      using None by (simp add: NodeLinksStatusConditions_DeepCopyInto_def alloc_def)
    moreover have "grows m ?m'" by (rule grows_alloc)
    ultimately show ?thesis by blast
  next
    case (Some s)
    then have "NodeLinksStatusConditions_DeepCopyInto M p m = conditions_copy M p m"
      by (simp add: NodeLinksStatusConditions_DeepCopyInto_def)
    then show ?thesis using deep_copy.copies[OF conditions_deep_copy 3] by metis
  qed
qed

subsection \<open>DeepCopy\<close>

text \<open>
  \<open>if in == nil { return nil }; out := new(X); in.DeepCopyInto(out); return out\<close>, with the pointer \<open>in\<close> as
  argument.
\<close>

definition PortRange_DeepCopy :: "addr option \<Rightarrow> 'x mem \<Rightarrow> (addr option \<times> 'x mem) option" where
  "PortRange_DeepCopy = ptr_copy PortRange_cell as_PortRange zero_PortRange PortRange_DeepCopyInto"

definition LinkReference_DeepCopy :: "addr option \<Rightarrow> 'x mem \<Rightarrow> (addr option \<times> 'x mem) option" where
  "LinkReference_DeepCopy = ptr_copy LinkReference_cell as_LinkReference zero_LinkReference LinkReference_DeepCopyInto"

definition UnmanagedSpec_DeepCopy :: "addr option \<Rightarrow> 'x mem \<Rightarrow> (addr option \<times> 'x mem) option" where
  "UnmanagedSpec_DeepCopy = ptr_copy UnmanagedSpec_cell as_UnmanagedSpec UnmanagedSpec UnmanagedSpec_DeepCopyInto"

definition BridgeSpec_DeepCopy :: "addr option \<Rightarrow> 'x mem \<Rightarrow> (addr option \<times> 'x mem) option" where
  "BridgeSpec_DeepCopy = ptr_copy BridgeSpec_cell as_BridgeSpec zero_BridgeSpec BridgeSpec_DeepCopyInto"

definition VXLANSpecs_DeepCopy :: "addr option \<Rightarrow> 'x mem \<Rightarrow> (addr option \<times> 'x mem) option" where
  "VXLANSpecs_DeepCopy = ptr_copy VXLANSpecs_cell as_VXLANSpecs zero_VXLANSpecs VXLANSpecs_DeepCopyInto"

definition LinkSpecs_DeepCopy :: "addr option \<Rightarrow> 'x mem \<Rightarrow> (addr option \<times> 'x mem) option" where
  "LinkSpecs_DeepCopy = ptr_copy LinkSpecs_cell as_LinkSpecs zero_LinkSpecs LinkSpecs_DeepCopyInto"

definition LinkSpec_DeepCopy :: "'x meta_lib \<Rightarrow> addr option \<Rightarrow> 'x mem \<Rightarrow> (addr option \<times> 'x mem) option" where
  "LinkSpec_DeepCopy M = ptr_copy LinkSpec_cell as_LinkSpec (zero_LinkSpec M) (LinkSpec_DeepCopyInto M)"

definition LinkStatus_DeepCopy :: "'x meta_lib \<Rightarrow> addr option \<Rightarrow> 'x mem \<Rightarrow> (addr option \<times> 'x mem) option" where
  "LinkStatus_DeepCopy M = ptr_copy LinkStatus_cell as_LinkStatus zero_LinkStatus (LinkStatus_DeepCopyInto M)"

definition Link_DeepCopy :: "'x meta_lib \<Rightarrow> addr option \<Rightarrow> 'x mem \<Rightarrow> (addr option \<times> 'x mem) option" where
  "Link_DeepCopy M = ptr_copy Link_cell as_Link (zero_Link M) (Link_DeepCopyInto M)"

definition LinkList_DeepCopy :: "'x meta_lib \<Rightarrow> addr option \<Rightarrow> 'x mem \<Rightarrow> (addr option \<times> 'x mem) option" where
  "LinkList_DeepCopy M = ptr_copy LinkList_cell as_LinkList (zero_LinkList M) (LinkList_DeepCopyInto M)"

definition NodeLinksSpec_DeepCopy :: "addr option \<Rightarrow> 'x mem \<Rightarrow> (addr option \<times> 'x mem) option" where
  "NodeLinksSpec_DeepCopy = ptr_copy NodeLinksSpec_cell as_NodeLinksSpec zero_NodeLinksSpec NodeLinksSpec_DeepCopyInto"

definition NodeLinksStatus_DeepCopy :: "'x meta_lib \<Rightarrow> addr option \<Rightarrow> 'x mem \<Rightarrow> (addr option \<times> 'x mem) option" where
  "NodeLinksStatus_DeepCopy M = ptr_copy NodeLinksStatus_cell as_NodeLinksStatus zero_NodeLinksStatus (NodeLinksStatus_DeepCopyInto M)"

text \<open>The receiver of this one is the slice itself: a nil slice is returned as it is.\<close>

definition NodeLinksStatusConditions_DeepCopy :: "'x meta_lib \<Rightarrow> slice option \<Rightarrow> 'x mem \<Rightarrow> (slice option \<times> 'x mem) option" where
  "NodeLinksStatusConditions_DeepCopy M p m =
     (case p of None \<Rightarrow> Some (None, m)
      | Some s \<Rightarrow> do {
          (b, m1) \<leftarrow> new_copy NodeLinksStatusConditions_cell None (NodeLinksStatusConditions_DeepCopyInto M) (Some s) m;
          out \<leftarrow> typed as_NodeLinksStatusConditions m1 b;
          Some (out, m1) })"

definition NodeLinks_DeepCopy :: "'x meta_lib \<Rightarrow> addr option \<Rightarrow> 'x mem \<Rightarrow> (addr option \<times> 'x mem) option" where
  "NodeLinks_DeepCopy M = ptr_copy NodeLinks_cell as_NodeLinks (zero_NodeLinks M) (NodeLinks_DeepCopyInto M)"

definition NodeLinksList_DeepCopy :: "'x meta_lib \<Rightarrow> addr option \<Rightarrow> 'x mem \<Rightarrow> (addr option \<times> 'x mem) option" where
  "NodeLinksList_DeepCopy M = ptr_copy NodeLinksList_cell as_NodeLinksList (zero_NodeLinksList M) (NodeLinksList_DeepCopyInto M)"

text \<open>
  \<open>DeepCopyObject\<close> returns an interface value: the nil interface, not an interface that holds a nil
  pointer, when there is nothing to copy.
\<close>

datatype runtime_Object = Link_Object addr | LinkList_Object addr | NodeLinks_Object addr | NodeLinksList_Object addr

definition Link_DeepCopyObject :: "'x meta_lib \<Rightarrow> addr option \<Rightarrow> 'x mem \<Rightarrow> (runtime_Object option \<times> 'x mem) option" where
  "Link_DeepCopyObject M p m = do {
     (c, m1) \<leftarrow> Link_DeepCopy M p m;
     Some (case c of Some a \<Rightarrow> Some (Link_Object a) | None \<Rightarrow> None, m1) }"

definition LinkList_DeepCopyObject :: "'x meta_lib \<Rightarrow> addr option \<Rightarrow> 'x mem \<Rightarrow> (runtime_Object option \<times> 'x mem) option" where
  "LinkList_DeepCopyObject M p m = do {
     (c, m1) \<leftarrow> LinkList_DeepCopy M p m;
     Some (case c of Some a \<Rightarrow> Some (LinkList_Object a) | None \<Rightarrow> None, m1) }"

definition NodeLinks_DeepCopyObject :: "'x meta_lib \<Rightarrow> addr option \<Rightarrow> 'x mem \<Rightarrow> (runtime_Object option \<times> 'x mem) option" where
  "NodeLinks_DeepCopyObject M p m = do {
     (c, m1) \<leftarrow> NodeLinks_DeepCopy M p m;
     Some (case c of Some a \<Rightarrow> Some (NodeLinks_Object a) | None \<Rightarrow> None, m1) }"

definition NodeLinksList_DeepCopyObject :: "'x meta_lib \<Rightarrow> addr option \<Rightarrow> 'x mem \<Rightarrow> (runtime_Object option \<times> 'x mem) option" where
  "NodeLinksList_DeepCopyObject M p m = do {
     (c, m1) \<leftarrow> NodeLinksList_DeepCopy M p m;
     Some (case c of Some a \<Rightarrow> Some (NodeLinksList_Object a) | None \<Rightarrow> None, m1) }"

subsection \<open>The interface on the generated code\<close>

interpretation PortRange_copy: deep_copy True "ptr_denote as_PortRange plain_denote" "ptr_owns as_PortRange plain_owns" PortRange_DeepCopy
  unfolding PortRange_DeepCopy_def PortRange_DeepCopyInto_def by (rule leaf_deep_copy)

interpretation LinkReference_copy: deep_copy True ref_value ref_owns LinkReference_DeepCopy
  unfolding LinkReference_DeepCopy_def LinkReference_DeepCopyInto_def by (rule leaf_deep_copy)

interpretation UnmanagedSpec_copy: deep_copy True "ptr_denote as_UnmanagedSpec plain_denote" "ptr_owns as_UnmanagedSpec plain_owns" UnmanagedSpec_DeepCopy
  unfolding UnmanagedSpec_DeepCopy_def UnmanagedSpec_DeepCopyInto_def by (rule leaf_deep_copy)

interpretation BridgeSpec_copy: deep_copy True "ptr_denote as_BridgeSpec BridgeSpec_value" "ptr_owns as_BridgeSpec BridgeSpec_owns" BridgeSpec_DeepCopy
  unfolding BridgeSpec_DeepCopy_def by (rule ptr_deep_copy[OF BridgeSpec_deep_copy as_cell(5)])

interpretation VXLANSpecs_copy: deep_copy True "ptr_denote as_VXLANSpecs VXLANSpecs_value" "ptr_owns as_VXLANSpecs VXLANSpecs_owns" VXLANSpecs_DeepCopy
  unfolding VXLANSpecs_DeepCopy_def by (rule ptr_deep_copy[OF VXLANSpecs_deep_copy as_cell(6)])

interpretation LinkSpecs_copy: deep_copy True "ptr_denote as_LinkSpecs LinkSpecs_value" "ptr_owns as_LinkSpecs LinkSpecs_owns" LinkSpecs_DeepCopy
  unfolding LinkSpecs_DeepCopy_def by (rule ptr_deep_copy[OF LinkSpecs_deep_copy as_cell(8)])

interpretation NodeLinksSpec_copy: deep_copy True "ptr_denote as_NodeLinksSpec NodeLinksSpec_value" "ptr_owns as_NodeLinksSpec NodeLinksSpec_owns" NodeLinksSpec_DeepCopy
  unfolding NodeLinksSpec_DeepCopy_def by (rule ptr_deep_copy[OF NodeLinksSpec_deep_copy as_cell(13)])

interpretation LinkSpec_copy: deep_copy "meta_lib_ok M" "ptr_denote as_LinkSpec (LinkSpec_value M)" "ptr_owns as_LinkSpec (LinkSpec_owns M)" "LinkSpec_DeepCopy M" for M
  unfolding LinkSpec_DeepCopy_def by (rule ptr_deep_copy[OF LinkSpec_deep_copy as_cell(9)])

interpretation LinkStatus_copy: deep_copy "meta_lib_ok M" "ptr_denote as_LinkStatus LinkStatus_value" "ptr_owns as_LinkStatus LinkStatus_owns" "LinkStatus_DeepCopy M" for M
  unfolding LinkStatus_DeepCopy_def by (rule ptr_deep_copy[OF LinkStatus_deep_copy as_cell(10)])

interpretation Link_copy: deep_copy "meta_lib_ok M" "ptr_denote as_Link (Link_value M)" "ptr_owns as_Link (Link_owns M)" "Link_DeepCopy M" for M
  unfolding Link_DeepCopy_def by (rule ptr_deep_copy[OF Link_deep_copy as_cell(11)])

interpretation LinkList_copy: deep_copy "meta_lib_ok M" "ptr_denote as_LinkList (LinkList_value M)" "ptr_owns as_LinkList (LinkList_owns M)" "LinkList_DeepCopy M" for M
  unfolding LinkList_DeepCopy_def by (rule ptr_deep_copy[OF LinkList_deep_copy as_cell(12)])

interpretation NodeLinksStatus_copy: deep_copy "meta_lib_ok M" "ptr_denote as_NodeLinksStatus NodeLinksStatus_value" "ptr_owns as_NodeLinksStatus NodeLinksStatus_owns" "NodeLinksStatus_DeepCopy M" for M
  unfolding NodeLinksStatus_DeepCopy_def by (rule ptr_deep_copy[OF NodeLinksStatus_deep_copy as_cell(14)])

interpretation NodeLinks_copy: deep_copy "meta_lib_ok M" "ptr_denote as_NodeLinks (NodeLinks_value M)" "ptr_owns as_NodeLinks (NodeLinks_owns M)" "NodeLinks_DeepCopy M" for M
  unfolding NodeLinks_DeepCopy_def by (rule ptr_deep_copy[OF NodeLinks_deep_copy as_cell(16)])

interpretation NodeLinksList_copy: deep_copy "meta_lib_ok M" "ptr_denote as_NodeLinksList (NodeLinksList_value M)" "ptr_owns as_NodeLinksList (NodeLinksList_owns M)" "NodeLinksList_DeepCopy M" for M
  unfolding NodeLinksList_DeepCopy_def by (rule ptr_deep_copy[OF NodeLinksList_deep_copy as_cell(17)])

lemma NodeLinksStatusConditions_DeepCopy_deep_copy:
  "deep_copy (meta_lib_ok M) conditions_value conditions_owns (NodeLinksStatusConditions_DeepCopy M)"
proof (unfold_locales, goal_cases)
  case (1 m p v m')
  show ?case by (rule deep_copy.frame[OF conditions_deep_copy 1])
next
  case (2 m p v)
  show ?case by (rule deep_copy.inside[OF conditions_deep_copy 2])
next
  case (3 m p v)
  show ?case
  proof (cases p)
    case None
    then have "NodeLinksStatusConditions_DeepCopy M p m = Some (p, m)" "conditions_owns m p = {}"
      by (simp_all add: NodeLinksStatusConditions_DeepCopy_def slice_owns_def)
    then show ?thesis using 3(2) grows_refl by fastforce
  next
    case (Some s)
    from new_copy_obtain[OF NodeLinksStatusConditions_deep_copy cell_typeD[OF as_cell(15)] 3, where zero = None] obtain y m' where
      y: "new_copy NodeLinksStatusConditions_cell None (NodeLinksStatusConditions_DeepCopyInto M) p m = Some (length m, m')"
        "grows m m'" "typed as_NodeLinksStatusConditions m' (length m) = Some y" "conditions_value m' y = Some v"
        "conditions_owns m' y \<subseteq> {Suc (length m)..<length m'}" by metis
    have "NodeLinksStatusConditions_DeepCopy M p m = Some (y, m')"
      using Some y(1,3) by (simp add: NodeLinksStatusConditions_DeepCopy_def)
    moreover have "conditions_owns m' y \<subseteq> {length m..}" using y(5) by auto
    ultimately show ?thesis using y(2,4) by blast
  qed
qed

interpretation NodeLinksStatusConditions_copy:
  deep_copy "meta_lib_ok M" conditions_value conditions_owns "NodeLinksStatusConditions_DeepCopy M" for M
  by (rule NodeLinksStatusConditions_DeepCopy_deep_copy)

end
