(* ===== verification/Patch_Memory.thy ===== *)
theory Patch_Memory
  imports Deep_Copy Link_State
begin

text \<open>
  \<open>patchResource\<close> on Go's memory. The source works with two pointers, the resource at hand and the state
  of the cluster, shares the status of one with the other for a while, lets the client decode the
  server's response into the first, and separates the two again with \<open>DeepCopy\<close>. The models of the
  controllers (\<open>Link_patchResource\<close>, \<open>NodeLinks_patchResource\<close>) have two values instead. This theory
  shows that the code on memory does what these models say, whatever the decoder overwrites.
\<close>

subsection \<open>The code\<close>

text \<open>
  The source has \<open>patchResource\<close> once per resource type, the types being all that differs. \<open>resource_type\<close>
  is what the text of the function takes from the type, \<open>object_client\<close> the calls it makes: \<open>oc_Patch\<close> and
  \<open>oc_PatchStatus\<close> get the resource and the base of the merge patch by pointer.
\<close>

record ('c, 'o, 's) resource_type =
  rt_mk :: "'o \<Rightarrow> 'c"
  rt_as :: "'c \<Rightarrow> 'o option"
  rt_zero :: 'o
  rt_DeepCopyInto :: "'o \<Rightarrow> 'c memory \<Rightarrow> ('o \<times> 'c memory) option"
  rt_Status :: "'o \<Rightarrow> 's"
  rt_set_Status :: "'s \<Rightarrow> 'o \<Rightarrow> 'o"
  rt_mk_status :: "'s \<Rightarrow> 'c"
  rt_as_status :: "'c \<Rightarrow> 's option"
  rt_zero_status :: 's
  rt_status_DeepCopyInto :: "'s \<Rightarrow> 'c memory \<Rightarrow> ('s \<times> 'c memory) option"

record ('c, 'a) object_client =
  oc_DeepEqual :: "'c memory \<Rightarrow> addr \<Rightarrow> addr \<Rightarrow> bool"
  oc_DeepEqual_status :: "'c memory \<Rightarrow> addr \<Rightarrow> addr \<Rightarrow> bool"
  oc_Patch :: "'a aworld \<Rightarrow> addr \<Rightarrow> addr \<Rightarrow> 'c memory \<Rightarrow> goerror option \<times> 'c memory \<times> 'a aworld"
  oc_PatchStatus :: "'a aworld \<Rightarrow> addr \<Rightarrow> addr \<Rightarrow> 'c memory \<Rightarrow> goerror option \<times> 'c memory \<times> 'a aworld"
  oc_IsNotFound :: "goerror \<Rightarrow> bool"
  oc_DeletionTimestamp_IsZero :: "'c memory \<Rightarrow> addr \<Rightarrow> bool"

text \<open>\<open>link.Status = *desiredStatus\<close> and \<open>*clusterStateLink = *link.DeepCopy()\<close>\<close>

definition put_status :: "('c, 'o, 's) resource_type \<Rightarrow> addr \<Rightarrow> addr \<Rightarrow> 'c memory \<Rightarrow> 'c memory option" where
  "put_status R desiredStatus link m = do {
     s \<leftarrow> typed (rt_as_status R) m desiredStatus;
     x \<leftarrow> typed (rt_as R) m link;
     Some (store_at link (rt_mk R (rt_set_Status R s x)) m) }"

definition copy_over :: "('c, 'o, 's) resource_type \<Rightarrow> addr \<Rightarrow> addr \<Rightarrow> 'c memory \<Rightarrow> 'c memory option" where
  "copy_over R link clusterState m = do {
     x \<leftarrow> typed (rt_as R) m link;
     (b, m1) \<leftarrow> new_copy (rt_mk R) (rt_zero R) (rt_DeepCopyInto R) x m;
     y \<leftarrow> typed (rt_as R) m1 b;
     Some (store_at clusterState (rt_mk R y) m1) }"

definition mem_patch_main ::
  "('c, 'o, 's) resource_type \<Rightarrow> ('c, 'a) object_client \<Rightarrow> addr \<Rightarrow> addr \<Rightarrow> 'c memory \<times> 'a aworld \<Rightarrow>
   (goerror option \<times> 'c memory \<times> 'a aworld) option" where
  "mem_patch_main R C link clusterState = (\<lambda>(m, aw). do {
     x \<leftarrow> typed (rt_as R) m link;
     (desiredStatus, m1) \<leftarrow> new_copy (rt_mk_status R) (rt_zero_status R) (rt_status_DeepCopyInto R) (rt_Status R x) m;
     c \<leftarrow> typed (rt_as R) m1 clusterState;
     x1 \<leftarrow> typed (rt_as R) m1 link;
     let m2 = store_at link (rt_mk R (rt_set_Status R (rt_Status R c) x1)) m1;
     if \<not> oc_DeepEqual C m2 clusterState link then
       (case oc_Patch C aw link clusterState m2 of
          (Some err, m3, aw1) \<Rightarrow> do {
            m4 \<leftarrow> put_status R desiredStatus link m3;
            Some (Some err, m4, aw1) }
        | (None, m3, aw1) \<Rightarrow> do {
            m4 \<leftarrow> copy_over R link clusterState m3;
            m5 \<leftarrow> put_status R desiredStatus link m4;
            Some (None, m5, aw1) })
     else do {
       m3 \<leftarrow> put_status R desiredStatus link m2;
       Some (None, m3, aw) } })"

definition mem_patch_status ::
  "('c, 'a) object_client \<Rightarrow> addr \<Rightarrow> addr \<Rightarrow> 'c memory \<times> 'a aworld \<Rightarrow> goerror option \<times> 'c memory \<times> 'a aworld" where
  "mem_patch_status C link clusterState = (\<lambda>(m, aw).
     if \<not> oc_DeepEqual_status C m clusterState link then
       (case oc_PatchStatus C aw link clusterState m of
          (Some err, m1, aw1) \<Rightarrow>
            (if oc_IsNotFound C err \<and> \<not> oc_DeletionTimestamp_IsZero C m1 link then None else Some err, m1, aw1)
        | (None, m1, aw1) \<Rightarrow> (None, m1, aw1))
     else (None, m, aw))"

definition mem_patchResource ::
  "('c, 'o, 's) resource_type \<Rightarrow> ('c, 'a) object_client \<Rightarrow> (goerror \<Rightarrow> goerror) \<Rightarrow> addr \<Rightarrow> addr \<Rightarrow>
   'c memory \<times> 'a aworld \<times> goerror list \<Rightarrow> (goerror option \<times> 'c memory \<times> 'a aworld \<times> goerror list) option" where
  "mem_patchResource R C wrap link clusterState = (\<lambda>(m, aw, events). do {
     (e, m1, aw1) \<leftarrow> mem_patch_main R C link clusterState (m, aw);
     case e of
       Some err \<Rightarrow> Some (Some (wrap err), m1, aw1, events @ [err])
     | None \<Rightarrow>
         (case mem_patch_status C link clusterState (m1, aw1) of
            (Some err, m2, aw2) \<Rightarrow> Some (Some (wrap err), m2, aw2, events @ [err])
          | (None, m2, aw2) \<Rightarrow> do {
              m3 \<leftarrow> copy_over R link clusterState m2;
              Some (None, m3, aw2, events) }) })"

subsection \<open>The values it computes with\<close>

text \<open>
  The same function on values, as the models of both controllers have it. \<open>st\<close> and \<open>set_st\<close> read and
  replace the status of a value, \<open>patch\<close> and \<open>patch_st\<close> are the two requests.
\<close>

record ('v, 'w, 'a) value_client =
  vc_status :: "'v \<Rightarrow> 'w"
  vc_set_status :: "'w \<Rightarrow> 'v \<Rightarrow> 'v"
  vc_DeepEqual :: "'v \<Rightarrow> 'v \<Rightarrow> bool"
  vc_DeepEqual_status :: "'w \<Rightarrow> 'w \<Rightarrow> bool"
  vc_Patch :: "'v \<Rightarrow> 'v \<Rightarrow> 'a aworld \<Rightarrow> (goerror + 'v) \<times> 'a aworld"
  vc_PatchStatus :: "'v \<Rightarrow> 'v \<Rightarrow> 'a aworld \<Rightarrow> (goerror + 'v) \<times> 'a aworld"
  vc_IsNotFound :: "goerror \<Rightarrow> bool"
  vc_DeletionTimestamp_IsZero :: "'v \<Rightarrow> bool"

definition val_patch_main :: "('v, 'w, 'a) value_client \<Rightarrow> 'a aworld \<Rightarrow> 'v \<Rightarrow> 'v \<Rightarrow> goerror option \<times> 'a aworld \<times> 'v \<times> 'v" where
  "val_patch_main V aw v c =
     (let v1 = vc_set_status V (vc_status V c) v in
      if \<not> vc_DeepEqual V c v1 then
        (case vc_Patch V v1 c aw of
           (Inl err, aw1) \<Rightarrow> (Some err, aw1, vc_set_status V (vc_status V v) v1, c)
         | (Inr resp, aw1) \<Rightarrow> (None, aw1, vc_set_status V (vc_status V v) resp, resp))
      else (None, aw, vc_set_status V (vc_status V v) v1, c))"

definition val_patch_status :: "('v, 'w, 'a) value_client \<Rightarrow> 'a aworld \<Rightarrow> 'v \<Rightarrow> 'v \<Rightarrow> goerror option \<times> 'a aworld \<times> 'v" where
  "val_patch_status V aw v c =
     (if \<not> vc_DeepEqual_status V (vc_status V c) (vc_status V v) then
        (case vc_PatchStatus V v c aw of
           (Inl err, aw1) \<Rightarrow> (if vc_IsNotFound V err \<and> \<not> vc_DeletionTimestamp_IsZero V v then None else Some err, aw1, v)
         | (Inr resp, aw1) \<Rightarrow> (None, aw1, resp))
      else (None, aw, v))"

definition val_patchResource ::
  "('v, 'w, 'a) value_client \<Rightarrow> (goerror \<Rightarrow> goerror) \<Rightarrow> 'a aworld \<Rightarrow> goerror list \<Rightarrow> 'v \<Rightarrow> 'v \<Rightarrow>
   goerror option \<times> 'a aworld \<times> goerror list \<times> 'v \<times> 'v" where
  "val_patchResource V wrap aw events v c =
     (case val_patch_main V aw v c of
        (Some err, aw1, v1, c1) \<Rightarrow> (Some (wrap err), aw1, events @ [err], v1, c1)
      | (None, aw1, v1, c1) \<Rightarrow>
          (case val_patch_status V aw1 v1 c1 of
             (Some err, aw2, v2) \<Rightarrow> (Some (wrap err), aw2, events @ [err], v2, c1)
           | (None, aw2, v2) \<Rightarrow> (None, aw2, events, v2, v2)))"

subsection \<open>The interface of a resource type\<close>

text \<open>
  What the pointers of a resource own, and how the status is part of it. \<open>held\<close> says that two pointers
  hold resources of known values, \<open>apart\<close> that in addition neither can be changed through the other.
\<close>

definition held ::
  "('c \<Rightarrow> 'o option) \<Rightarrow> ('c memory \<Rightarrow> 'o \<Rightarrow> 'v option) \<Rightarrow> ('c memory \<Rightarrow> 'o \<Rightarrow> addr set) \<Rightarrow>
   addr \<Rightarrow> addr \<Rightarrow> 'o \<Rightarrow> 'o \<Rightarrow> 'v \<Rightarrow> 'v \<Rightarrow> 'c memory \<Rightarrow> bool" where
  "held proj val owns p q x y v c m \<longleftrightarrow>
     p \<noteq> q \<and> typed proj m p = Some x \<and> typed proj m q = Some y \<and> val m x = Some v \<and> val m y = Some c \<and>
     p \<notin> owns m x \<union> owns m y \<and> q \<notin> owns m x \<union> owns m y"

definition apart ::
  "('c \<Rightarrow> 'o option) \<Rightarrow> ('c memory \<Rightarrow> 'o \<Rightarrow> 'v option) \<Rightarrow> ('c memory \<Rightarrow> 'o \<Rightarrow> addr set) \<Rightarrow>
   addr \<Rightarrow> addr \<Rightarrow> 'v \<Rightarrow> 'v \<Rightarrow> 'c memory \<Rightarrow> bool" where
  "apart proj val owns p q v c m \<longleftrightarrow>
     (\<exists>x y. held proj val owns p q x y v c m \<and> owns m x \<inter> owns m y = {})"

text \<open>
  What code that holds the pointer \<open>p\<close> can do: write to the resource and to what it owns, allocate, and
  leave a resource of the value \<open>v1\<close> behind.
\<close>

definition changed_through ::
  "('c \<Rightarrow> 'o option) \<Rightarrow> ('c memory \<Rightarrow> 'o \<Rightarrow> 'v option) \<Rightarrow> ('c memory \<Rightarrow> 'o \<Rightarrow> addr set) \<Rightarrow>
   addr \<Rightarrow> 'c memory \<Rightarrow> 'v \<Rightarrow> 'c memory \<Rightarrow> bool" where
  "changed_through proj val owns p m v1 m1 \<longleftrightarrow>
     (\<exists>x x1. typed proj m p = Some x \<and> length m \<le> length m1 \<and> same_on ({..<length m} - insert p (owns m x)) m m1 \<and>
        typed proj m1 p = Some x1 \<and> val m1 x1 = Some v1 \<and> owns m1 x1 \<subseteq> owns m x \<union> {length m..})"

text \<open>
  What the client does with the resource it gets: nothing when the request fails; when it succeeds,
  the resource holds the response afterwards, decoded into what the resource owned or into new memory.
\<close>

definition patches ::
  "('c \<Rightarrow> 'o option) \<Rightarrow> ('c memory \<Rightarrow> 'o \<Rightarrow> 'v option) \<Rightarrow> ('c memory \<Rightarrow> 'o \<Rightarrow> addr set) \<Rightarrow>
   ('a aworld \<Rightarrow> addr \<Rightarrow> addr \<Rightarrow> 'c memory \<Rightarrow> goerror option \<times> 'c memory \<times> 'a aworld) \<Rightarrow>
   ('v \<Rightarrow> 'v \<Rightarrow> 'a aworld \<Rightarrow> (goerror + 'v) \<times> 'a aworld) \<Rightarrow> bool" where
  "patches proj val owns patch_mem patch_val \<longleftrightarrow>
     (\<forall>p q x y v c m aw. held proj val owns p q x y v c m \<longrightarrow>
        (case patch_val v c aw of
           (Inl err, aw1) \<Rightarrow> patch_mem aw p q m = (Some err, m, aw1)
         | (Inr resp, aw1) \<Rightarrow> (\<exists>m1. patch_mem aw p q m = (None, m1, aw1) \<and> changed_through proj val owns p m resp m1)))"

lemma patches_error:
  assumes "patches proj val owns patch_mem patch_val" "held proj val owns p q x y v c m" "patch_val v c aw = (Inl err, aw1)"
  shows "patch_mem aw p q m = (Some err, m, aw1)"
  using assms(1)[unfolded patches_def, rule_format, OF assms(2), of aw] assms(3) by simp

lemma patches_response:
  assumes "patches proj val owns patch_mem patch_val" "held proj val owns p q x y v c m" "patch_val v c aw = (Inr resp, aw1)"
  obtains m1 where "patch_mem aw p q m = (None, m1, aw1)" "changed_through proj val owns p m resp m1"
  using assms(1)[unfolded patches_def, rule_format, OF assms(2), of aw] assms(3) by auto

lemma changed_through_obtain:
  assumes "changed_through proj val owns p m v1 m1" "typed proj m p = Some x"
  obtains x1 where "length m \<le> length m1" "same_on ({..<length m} - insert p (owns m x)) m m1"
    "typed proj m1 p = Some x1" "val m1 x1 = Some v1" "owns m1 x1 \<subseteq> owns m x \<union> {length m..}"
  using assms by (auto simp: changed_through_def)

definition client_refines ::
  "('c \<Rightarrow> 'o option) \<Rightarrow> ('c memory \<Rightarrow> 'o \<Rightarrow> 'v option) \<Rightarrow> ('c memory \<Rightarrow> 'o \<Rightarrow> addr set) \<Rightarrow>
   ('c, 'a) object_client \<Rightarrow> ('v, 'w, 'a) value_client \<Rightarrow> bool" where
  "client_refines proj val owns C V \<longleftrightarrow>
     patches proj val owns (oc_Patch C) (vc_Patch V) \<and> patches proj val owns (oc_PatchStatus C) (vc_PatchStatus V) \<and>
     oc_IsNotFound C = vc_IsNotFound V \<and>
     (\<forall>p q x y v c m. held proj val owns p q x y v c m \<longrightarrow>
        oc_DeepEqual C m q p = vc_DeepEqual V c v \<and>
        oc_DeepEqual_status C m q p = vc_DeepEqual_status V (vc_status V c) (vc_status V v) \<and>
        oc_DeletionTimestamp_IsZero C m p = vc_DeletionTimestamp_IsZero V v)"

locale patched_resource =
  fixes lawful :: bool
    and R :: "('c, 'o, 's) resource_type"
    and val :: "'c memory \<Rightarrow> 'o \<Rightarrow> 'v option" and owns :: "'c memory \<Rightarrow> 'o \<Rightarrow> addr set"
    and st_value :: "'c memory \<Rightarrow> 's \<Rightarrow> 'w option" and st_owns :: "'c memory \<Rightarrow> 's \<Rightarrow> addr set"
    and status :: "'v \<Rightarrow> 'w" and set_status :: "'w \<Rightarrow> 'v \<Rightarrow> 'v"
  assumes obj_copy: "deep_copy lawful val owns (rt_DeepCopyInto R)"
    and status_copy: "deep_copy lawful st_value st_owns (rt_status_DeepCopyInto R)"
    and obj_cell: "cell_type (rt_mk R) (rt_as R)"
    and status_cell: "cell_type (rt_mk_status R) (rt_as_status R)"
    and status_part: "val m x = Some v \<Longrightarrow> st_value m (rt_Status R x) = Some (status v) \<and> st_owns m (rt_Status R x) \<subseteq> owns m x"
    and set_part: "val m x = Some v \<Longrightarrow> st_value m s = Some w \<Longrightarrow>
      val m (rt_set_Status R s x) = Some (set_status w v) \<and> owns m (rt_set_Status R s x) \<subseteq> owns m x \<union> st_owns m s"
    and set_twice: "rt_set_Status R s (rt_set_Status R s' x) = rt_set_Status R s x"
    and set_status_twice: "set_status w (set_status w' v) = set_status w v"
begin

lemmas obj_frame = deep_copy.frame[OF obj_copy]
lemmas st_frame = deep_copy.frame[OF status_copy]
lemmas mk_obj [simp] = cell_typeD[OF obj_cell]
lemmas mk_status [simp] = cell_typeD[OF status_cell]

lemma put_status_obtain:
  assumes lw: lawful and p: "typed (rt_as R) m p = Some x" "rt_set_Status R s x = rt_set_Status R s x0" "val m x0 = Some v"
    and s: "typed (rt_as_status R) m ds = Some s" "st_value m s = Some w" and out: "p \<notin> owns m x0 \<union> st_owns m s"
  obtains m' x' where "put_status R ds p m = Some m'" "length m' = length m" "same_on (- {p}) m m'"
    "typed (rt_as R) m' p = Some x'" "val m' x' = Some (set_status w v)" "owns m' x' \<subseteq> owns m x0 \<union> st_owns m s"
proof -
  let ?x = "rt_set_Status R s x0" and ?m' = "store_at p (rt_mk R (rt_set_Status R s x0)) m"
  note x = set_part[OF p(3) s(2)]
  have "same_on (owns m ?x) m ?m'" by (rule same_on_store_at) (use x out in blast)
  with obj_frame[OF lw conjunct1[OF x]] have new: "val ?m' ?x = Some (set_status w v)" "owns ?m' ?x = owns m ?x" by auto
  have "put_status R ds p m = Some ?m'" using p(1,2) s(1) by (simp add: put_status_def)
  moreover have "typed (rt_as R) ?m' p = Some ?x" using typed_inside[OF p(1)] by (simp add: typed_def load_store_at)
  moreover have "same_on (- {p}) m ?m'" by (rule same_on_store_at) simp
  ultimately show thesis using that new x by simp
qed

lemma copy_over_obtain:
  assumes lw: lawful and p: "typed (rt_as R) m p = Some x" "val m x = Some v"
    and q: "q < length m" "p \<noteq> q" "q \<notin> owns m x"
  obtains m' y where "copy_over R p q m = Some m'" "length m \<le> length m'" "same_on ({..<length m} - {q}) m m'"
    "typed (rt_as R) m' q = Some y" "val m' y = Some v" "owns m' y \<subseteq> {Suc (length m)..<length m'}"
proof -
  obtain y m1 where y: "new_copy (rt_mk R) (rt_zero R) (rt_DeepCopyInto R) x m = Some (length m, m1)" "grows m m1"
    "typed (rt_as R) m1 (length m) = Some y" "val m1 y = Some v" "owns m1 y \<subseteq> {Suc (length m)..<length m1}"
    using new_copy_obtain[OF obj_copy mk_obj lw p(2), where zero = "rt_zero R"] by metis
  let ?m' = "store_at q (rt_mk R y) m1"
  have "same_on (owns m1 y) m1 ?m'" by (rule same_on_store_at) (use y(5) q(1) in auto)
  with obj_frame[OF lw y(4)] have new: "val ?m' y = Some v" "owns ?m' y = owns m1 y" by auto
  have "copy_over R p q m = Some ?m'" using p(1) y(1,3) by (simp add: copy_over_def)
  moreover have "typed (rt_as R) ?m' q = Some y" using q(1) grows_length[OF y(2)] by (simp add: typed_def load_store_at)
  moreover have "same_on ({..<length m} - {q}) m ?m'" using grows_load[OF y(2)] by (auto simp: same_on_def load_store_at)
  ultimately show thesis using that new y(5) grows_length[OF y(2)] by simp
qed

lemma put_status_apart:
  assumes lw: lawful and pq: "p \<noteq> q"
    and p: "typed (rt_as R) m p = Some x" "rt_set_Status R s x = rt_set_Status R s x0" "val m x0 = Some v"
    and s: "typed (rt_as_status R) m ds = Some s" "st_value m s = Some w"
    and q: "typed (rt_as R) m q = Some y" "val m y = Some c"
    and out: "p \<notin> owns m x0 \<union> st_owns m s \<union> owns m y" "q \<notin> owns m x0 \<union> st_owns m s \<union> owns m y"
    and disj: "(owns m x0 \<union> st_owns m s) \<inter> owns m y = {}"
  shows "\<exists>m'. put_status R ds p m = Some m' \<and> apart (rt_as R) val owns p q (set_status w v) c m'"
proof -
  have "p \<notin> owns m x0 \<union> st_owns m s" using out(1) by blast
  from put_status_obtain[OF lw p s this] obtain m' x' where
    m': "put_status R ds p m = Some m'" "length m' = length m" "same_on (- {p}) m m'" "typed (rt_as R) m' p = Some x'"
      "val m' x' = Some (set_status w v)" "owns m' x' \<subseteq> owns m x0 \<union> st_owns m s" by blast
  have "same_on (owns m y) m m'" by (rule same_on_mono[OF m'(3)]) (use out(1) in blast)
  from obj_frame[OF lw q(2) this] have y: "val m' y = Some c" "owns m' y = owns m y" by auto
  have "typed (rt_as R) m' q = Some y" using m'(3) pq q(1) by (simp add: same_on_def typed_def)
  then have "held (rt_as R) val owns p q x' y (set_status w v) c m'" unfolding held_def using pq m'(4,5,6) y out by auto
  moreover have "owns m' x' \<inter> owns m' y = {}" using m'(6) y(2) disj by blast
  ultimately show ?thesis using m'(1) unfolding apart_def by blast
qed

text \<open>The copied status, and the resource while it shares the status of the cluster's state.\<close>

lemma shared_obtain:
  assumes lw: lawful and ap: "apart (rt_as R) val owns p q v c m"
  obtains x y st m1 m2 where
    "typed (rt_as R) m p = Some x" "new_copy (rt_mk_status R) (rt_zero_status R) (rt_status_DeepCopyInto R) (rt_Status R x) m = Some (length m, m1)"
    "typed (rt_as R) m1 q = Some y" "typed (rt_as R) m1 p = Some x" "m2 = store_at p (rt_mk R (rt_set_Status R (rt_Status R y) x)) m1"
    "held (rt_as R) val owns p q (rt_set_Status R (rt_Status R y) x) y (set_status (status c) v) c m2"
    "val m2 x = Some v" "owns m2 x \<union> owns m2 y \<subseteq> {..<length m}" "p \<notin> owns m2 x" "q \<notin> owns m2 x" "owns m2 x \<inter> owns m2 y = {}"
    "owns m2 (rt_set_Status R (rt_Status R y) x) \<subseteq> owns m2 x \<union> owns m2 y"
    "typed (rt_as_status R) m2 (length m) = Some st" "st_value m2 st = Some (status v)" "st_owns m2 st \<subseteq> {Suc (length m)..<length m2}"
    "p < length m" "q < length m" "length m < length m2"
proof -
  obtain x y where h: "held (rt_as R) val owns p q x y v c m" and disj: "owns m x \<inter> owns m y = {}"
    using ap by (auto simp: apart_def)
  then have pq: "p \<noteq> q" and p: "typed (rt_as R) m p = Some x" "val m x = Some v" and q: "typed (rt_as R) m q = Some y" "val m y = Some c"
    and out: "p \<notin> owns m x \<union> owns m y" "q \<notin> owns m x \<union> owns m y" by (auto simp: held_def)
  note inside = deep_copy.inside[OF obj_copy lw p(2)] deep_copy.inside[OF obj_copy lw q(2)]
  have st: "st_value m (rt_Status R x) = Some (status v)" using status_part[OF p(2)] by simp
  obtain st m1 where st: "new_copy (rt_mk_status R) (rt_zero_status R) (rt_status_DeepCopyInto R) (rt_Status R x) m = Some (length m, m1)"
    "grows m m1" "typed (rt_as_status R) m1 (length m) = Some st" "st_value m1 st = Some (status v)"
    "st_owns m1 st \<subseteq> {Suc (length m)..<length m1}"
    using new_copy_obtain[OF status_copy mk_status lw st, where zero = "rt_zero_status R"] by metis
  have len: "p < length m" "q < length m" "length m < length m1"
    using typed_inside[OF p(1)] typed_inside[OF q(1)] typed_inside[OF st(3)] by auto
  have t1: "typed (rt_as R) m1 p = Some x" "typed (rt_as R) m1 q = Some y"
    using p(1) q(1) typed_cong[OF grows_load[OF st(2) len(1)], of "rt_as R"] typed_cong[OF grows_load[OF st(2) len(2)], of "rt_as R"] by simp_all
  note kx = deep_copy.kept[OF obj_copy lw p(2) st(2)] and ky = deep_copy.kept[OF obj_copy lw q(2) st(2)]
  let ?x2 = "rt_set_Status R (rt_Status R y) x" and ?m2 = "store_at p (rt_mk R (rt_set_Status R (rt_Status R y) x)) m1"
  have sy: "st_value m1 (rt_Status R y) = Some (status c)" "st_owns m1 (rt_Status R y) \<subseteq> owns m y"
    using status_part[OF ky(1)] ky(2) by auto
  have x2: "val m1 ?x2 = Some (set_status (status c) v)" "owns m1 ?x2 \<subseteq> owns m x \<union> owns m y"
    using set_part[OF kx(1) sy(1)] sy(2) kx(2) by auto
  have same: "same_on (owns m1 z) m1 ?m2" if "owns m1 z \<subseteq> owns m x \<union> owns m y" for z
    by (rule same_on_store_at) (use that out in blast)
  from obj_frame[OF lw x2(1) same[OF x2(2)]] obj_frame[OF lw kx(1) same] obj_frame[OF lw ky(1) same] kx(2) ky(2)
  have new: "val ?m2 ?x2 = Some (set_status (status c) v)" "owns ?m2 ?x2 = owns m1 ?x2" "val ?m2 x = Some v" "owns ?m2 x = owns m x"
    "val ?m2 y = Some c" "owns ?m2 y = owns m y" by auto
  have "same_on (st_owns m1 st) m1 ?m2" by (rule same_on_store_at) (use st(5) len(1) in auto)
  with st_frame[OF lw st(4)] st(5) have ns: "st_value ?m2 st = Some (status v)" "st_owns ?m2 st \<subseteq> {Suc (length m)..<length ?m2}" by auto
  have t2: "typed (rt_as R) ?m2 p = Some ?x2" "typed (rt_as R) ?m2 q = Some y" "typed (rt_as_status R) ?m2 (length m) = Some st"
    using pq len t1 st(3) by (auto simp: typed_def load_store_at)
  have "held (rt_as R) val owns p q ?x2 y (set_status (status c) v) c ?m2"
    unfolding held_def using pq t2(1,2) new x2(2) out by auto
  then show thesis
    by (rule that[OF p(1) st(1) t1(2,1) refl])
       (use new x2(2) out disj inside t2(3) ns len in auto)
qed

lemma main_refines:
  assumes lw: lawful and ap: "apart (rt_as R) val owns p q v c m"
    and C: "client_refines (rt_as R) val owns C V" and V: "vc_status V = status" "vc_set_status V = set_status"
    and run: "val_patch_main V aw v c = (e, aw1, v1, c1)"
  shows "\<exists>m'. mem_patch_main R C p q (m, aw) = Some (e, m', aw1) \<and> apart (rt_as R) val owns p q v1 c1 m'"
proof -
  obtain x y st m1 m2 where S:
    "typed (rt_as R) m p = Some x" "new_copy (rt_mk_status R) (rt_zero_status R) (rt_status_DeepCopyInto R) (rt_Status R x) m = Some (length m, m1)"
    "typed (rt_as R) m1 q = Some y" "typed (rt_as R) m1 p = Some x" "m2 = store_at p (rt_mk R (rt_set_Status R (rt_Status R y) x)) m1"
    "held (rt_as R) val owns p q (rt_set_Status R (rt_Status R y) x) y (set_status (status c) v) c m2"
    "val m2 x = Some v" "owns m2 x \<union> owns m2 y \<subseteq> {..<length m}" "p \<notin> owns m2 x" "q \<notin> owns m2 x" "owns m2 x \<inter> owns m2 y = {}"
    "owns m2 (rt_set_Status R (rt_Status R y) x) \<subseteq> owns m2 x \<union> owns m2 y"
    "typed (rt_as_status R) m2 (length m) = Some st" "st_value m2 st = Some (status v)" "st_owns m2 st \<subseteq> {Suc (length m)..<length m2}"
    "p < length m" "q < length m" "length m < length m2"
    by (rule shared_obtain[OF lw ap])
  let ?x2 = "rt_set_Status R (rt_Status R y) x" and ?v2 = "set_status (status c) v" and ?d = "length m"
  have H: "p \<noteq> q" "typed (rt_as R) m2 p = Some ?x2" "typed (rt_as R) m2 q = Some y" "val m2 ?x2 = Some ?v2" "val m2 y = Some c"
    "p \<notin> owns m2 ?x2 \<union> owns m2 y" "q \<notin> owns m2 ?x2 \<union> owns m2 y" using S(6) by (simp_all add: held_def)
  have sep: "owns m2 y \<inter> st_owns m2 st = {}" "p \<notin> st_owns m2 st" "q \<notin> st_owns m2 st" using S(8,15-17) by fastforce+
  have restored: "\<exists>m3. put_status R ?d p m2 = Some m3 \<and> apart (rt_as R) val owns p q (set_status (status v) ?v2) c m3"
    unfolding set_status_twice
    by (rule put_status_apart[OF lw H(1,2) set_twice S(7,13,14) H(3,5)]) (use H(6,7) S(9-11) sep in blast)+
  have deq: "oc_DeepEqual C m2 q p = vc_DeepEqual V c ?v2" using C S(6) unfolding client_refines_def by blast
  note start = mem_patch_main_def Let_def S(1-4) S(5)[symmetric]
  show ?thesis
  proof (cases "vc_DeepEqual V c ?v2")
    case True
    then have "e = None" "aw1 = aw" "v1 = set_status (status v) ?v2" "c1 = c" using run V by (auto simp: val_patch_main_def)
    then show ?thesis using restored True by (auto simp: start deq)
  next
    case False
    have P: "patches (rt_as R) val owns (oc_Patch C) (vc_Patch V)" using C by (simp add: client_refines_def)
    show ?thesis
    proof (cases "vc_Patch V ?v2 c aw")
      case (Pair r aw')
      show ?thesis
      proof (cases r)
        case (Inl err)
        then have "oc_Patch C aw p q m2 = (Some err, m2, aw')" "e = Some err" "aw1 = aw'" "v1 = set_status (status v) ?v2" "c1 = c"
          using patches_error[OF P S(6)] Pair run V False by (auto simp: val_patch_main_def)
        then show ?thesis using restored False by (auto simp: start deq)
      next
        case (Inr resp)
        then have out: "e = None" "aw1 = aw'" "v1 = set_status (status v) resp" "c1 = resp"
          using Pair run V False by (auto simp: val_patch_main_def)
        from Pair Inr obtain m3 where m3': "oc_Patch C aw p q m2 = (None, m3, aw')" "changed_through (rt_as R) val owns p m2 resp m3"
          by (auto elim: patches_response[OF P S(6)])
        from changed_through_obtain[OF m3'(2) H(2)] m3'(1) obtain x3 where m3: "oc_Patch C aw p q m2 = (None, m3, aw')" "length m2 \<le> length m3"
          "same_on ({..<length m2} - insert p (owns m2 ?x2)) m2 m3" "typed (rt_as R) m3 p = Some x3" "val m3 x3 = Some resp"
          "owns m3 x3 \<subseteq> owns m2 ?x2 \<union> {length m2..}" by metis
        have q3: "q < length m3" "q \<notin> owns m3 x3" using m3(2,6) S(17,18) H(7) by auto
        obtain m4 y4 where m4: "copy_over R p q m3 = Some m4" "length m3 \<le> length m4" "same_on ({..<length m3} - {q}) m3 m4"
          "typed (rt_as R) m4 q = Some y4" "val m4 y4 = Some resp" "owns m4 y4 \<subseteq> {Suc (length m3)..<length m4}"
          using copy_over_obtain[OF lw m3(4,5) q3(1) H(1) q3(2)] by blast
        have o3: "owns m3 x3 \<subseteq> {..<length m3}" by (rule deep_copy.inside[OF obj_copy lw m3(5)])
        have "same_on (owns m3 x3) m3 m4" by (rule same_on_mono[OF m4(3)]) (use o3 q3(2) in auto)
        from obj_frame[OF lw m3(5) this] have x4: "val m4 x3 = Some resp" "owns m4 x3 = owns m3 x3" by auto
        have p4: "typed (rt_as R) m4 p = Some x3" using m4(3) H(1) S(16,18) m3(2,4) by (simp add: same_on_def typed_def)
        have o2: "owns m2 ?x2 \<subseteq> {..<?d}" using S(8,12) by blast
        have keep: "load m4 a = load m2 a" if "?d \<le> a" "a < length m2" for a
        proof -
          have "a \<notin> insert p (owns m2 ?x2)" using that o2 S(16) by fastforce
          then show ?thesis using that m3(2,3) m4(3) S(17) by (simp add: same_on_def)
        qed
        have "typed (rt_as_status R) m4 ?d = Some st" using keep[of ?d] S(13,18) by (simp add: typed_def)
        moreover have "same_on (st_owns m2 st) m2 m4" unfolding same_on_def using keep S(15) by (meson Suc_leD atLeastLessThan_iff subsetD)
        then have st4: "st_value m4 st = Some (status v)" "st_owns m4 st = st_owns m2 st"
          using st_frame[OF lw S(14), of m4] by auto
        moreover have p4': "p \<notin> owns m3 x3" using m3(6) H(6) S(16,18) by fastforce
        moreover have sep4: "p \<notin> owns m4 y4" "q \<notin> owns m4 y4" "owns m3 x3 \<inter> owns m4 y4 = {}" "st_owns m2 st \<inter> owns m4 y4 = {}"
          using m4(6) S(15-18) m3(2) o3 by fastforce+
        ultimately have "\<exists>m5. put_status R ?d p m4 = Some m5 \<and> apart (rt_as R) val owns p q (set_status (status v) resp) resp m5"
          by (intro put_status_apart[OF lw H(1) p4 refl x4(1) _ _ m4(4,5)])
             (use x4(2) st4 p4' sep4 q3(2) sep in blast)+
        then show ?thesis using m3(1) m4(1) out False by (auto simp: start deq)
      qed
    qed
  qed
qed

text \<open>What code that has the pointer \<open>p\<close> can do to the resource leaves the one at \<open>q\<close> alone.\<close>

lemma change_apart:
  assumes lw: lawful and ap: "apart (rt_as R) val owns p q v c m" and ch: "changed_through (rt_as R) val owns p m v1 m1"
  shows "apart (rt_as R) val owns p q v1 c m1"
proof -
  obtain x y where h: "held (rt_as R) val owns p q x y v c m" and disj: "owns m x \<inter> owns m y = {}"
    using ap by (auto simp: apart_def)
  have H: "p \<noteq> q" "typed (rt_as R) m p = Some x" "typed (rt_as R) m q = Some y" "val m y = Some c"
    "p \<notin> owns m x \<union> owns m y" "q \<notin> owns m x \<union> owns m y" using h by (simp_all add: held_def)
  obtain x1 where m1: "length m \<le> length m1" "same_on ({..<length m} - insert p (owns m x)) m m1"
    "typed (rt_as R) m1 p = Some x1" "val m1 x1 = Some v1" "owns m1 x1 \<subseteq> owns m x \<union> {length m..}"
    using changed_through_obtain[OF ch H(2)] by metis
  note o = deep_copy.inside[OF obj_copy lw H(4)]
  have "same_on (owns m y) m m1" by (rule same_on_mono[OF m1(2)]) (use o disj H(5) in blast)
  from obj_frame[OF lw H(4) this] have y: "val m1 y = Some c" "owns m1 y = owns m y" by auto
  have len: "p < length m" "q < length m" using typed_inside[OF H(2)] typed_inside[OF H(3)] by auto
  have q: "typed (rt_as R) m1 q = Some y" using m1(2) H(1,3,6) len by (simp add: same_on_def typed_def)
  have "owns m1 x1 \<inter> owns m1 y = {}" using m1(5) disj o y(2) by fastforce
  moreover have "held (rt_as R) val owns p q x1 y v1 c m1" unfolding held_def using H m1(3,4,5) q y len by fastforce
  ultimately show ?thesis by (auto simp: apart_def)
qed

lemma status_refines:
  assumes lw: lawful and ap: "apart (rt_as R) val owns p q v c m" and C: "client_refines (rt_as R) val owns C V"
    and V: "vc_status V = status" and run: "val_patch_status V aw v c = (e, aw1, v1)"
  shows "\<exists>m'. mem_patch_status C p q (m, aw) = (e, m', aw1) \<and> apart (rt_as R) val owns p q v1 c m'"
proof -
  obtain x y where h: "held (rt_as R) val owns p q x y v c m" and disj: "owns m x \<inter> owns m y = {}"
    using ap by (auto simp: apart_def)
  have eqs: "oc_DeepEqual_status C m q p = vc_DeepEqual_status V (status c) (status v)"
    "oc_DeletionTimestamp_IsZero C m p = vc_DeletionTimestamp_IsZero V v" "oc_IsNotFound C = vc_IsNotFound V"
    using C h V unfolding client_refines_def by blast+
  have P: "patches (rt_as R) val owns (oc_PatchStatus C) (vc_PatchStatus V)" using C by (simp add: client_refines_def)
  show ?thesis
  proof (cases "vc_DeepEqual_status V (status c) (status v)")
    case True
    then show ?thesis using run ap V by (auto simp: val_patch_status_def mem_patch_status_def eqs)
  next
    case False
    show ?thesis
    proof (cases "vc_PatchStatus V v c aw")
      case (Pair r aw')
      show ?thesis
      proof (cases r)
        case (Inl err)
        then have "oc_PatchStatus C aw p q m = (Some err, m, aw')" using patches_error[OF P h] Pair by simp
        then show ?thesis using run ap V False Pair Inl by (auto simp: val_patch_status_def mem_patch_status_def eqs)
      next
        case (Inr resp)
        then have out: "e = None" "aw1 = aw'" "v1 = resp" using run V False Pair by (auto simp: val_patch_status_def)
        from Pair Inr obtain m1 where m1: "oc_PatchStatus C aw p q m = (None, m1, aw')" "changed_through (rt_as R) val owns p m resp m1"
          by (auto elim: patches_response[OF P h])
        have "apart (rt_as R) val owns p q resp c m1" by (rule change_apart[OF lw ap m1(2)])
        then show ?thesis using m1(1) False by (auto simp: mem_patch_status_def eqs out)
      qed
    qed
  qed
qed

lemma copy_over_apart:
  assumes lw: lawful and ap: "apart (rt_as R) val owns p q v c m"
  shows "\<exists>m'. copy_over R p q m = Some m' \<and> apart (rt_as R) val owns p q v v m'"
proof -
  obtain x y where H: "p \<noteq> q" "typed (rt_as R) m p = Some x" "typed (rt_as R) m q = Some y" "val m x = Some v"
    "p \<notin> owns m x \<union> owns m y" "q \<notin> owns m x \<union> owns m y" using ap by (auto simp: apart_def held_def)
  note o = deep_copy.inside[OF obj_copy lw H(4)]
  have len: "p < length m" "q < length m" using typed_inside[OF H(2)] typed_inside[OF H(3)] by auto
  have "q \<notin> owns m x" using H(6) by blast
  from copy_over_obtain[OF lw H(2,4) len(2) H(1) this] obtain m' y' where
    m': "copy_over R p q m = Some m'" "length m \<le> length m'" "same_on ({..<length m} - {q}) m m'"
      "typed (rt_as R) m' q = Some y'" "val m' y' = Some v" "owns m' y' \<subseteq> {Suc (length m)..<length m'}" by blast
  have "same_on (owns m x) m m'" by (rule same_on_mono[OF m'(3)]) (use o H(6) in blast)
  from obj_frame[OF lw H(4) this] have x: "val m' x = Some v" "owns m' x = owns m x" by auto
  have p: "typed (rt_as R) m' p = Some x" using m'(3) H(1,2) len by (simp add: same_on_def typed_def)
  have "owns m' x \<inter> owns m' y' = {}" using x(2) o m'(6) by fastforce
  moreover have "held (rt_as R) val owns p q x y' v v m'" unfolding held_def using H p x m'(4,5,6) len by fastforce
  ultimately show ?thesis using m'(1) unfolding apart_def by blast
qed

text \<open>The copy that a reconciliation starts with.\<close>

lemma deep_copy_apart:
  assumes lw: lawful and p: "typed (rt_as R) m p = Some x" "val m x = Some v" "p \<notin> owns m x"
  shows "\<exists>m'. ptr_copy (rt_mk R) (rt_as R) (rt_zero R) (rt_DeepCopyInto R) (Some p) m = Some (Some (length m), m') \<and>
    apart (rt_as R) val owns p (length m) v v m'"
proof -
  obtain y m' where y: "new_copy (rt_mk R) (rt_zero R) (rt_DeepCopyInto R) x m = Some (length m, m')" "grows m m'"
    "typed (rt_as R) m' (length m) = Some y" "val m' y = Some v" "owns m' y \<subseteq> {Suc (length m)..<length m'}"
    using new_copy_obtain[OF obj_copy mk_obj lw p(2), where zero = "rt_zero R"] by metis
  note x = deep_copy.kept[OF obj_copy lw p(2) y(2)] and o = deep_copy.inside[OF obj_copy lw p(2)]
  have len: "p < length m" by (rule typed_inside[OF p(1)])
  have "typed (rt_as R) m' p = Some x" using p(1) typed_cong[OF grows_load[OF y(2) len], of "rt_as R"] by simp
  then have "held (rt_as R) val owns p (length m) x y v v m'"
    unfolding held_def using x y(3-5) p(3) o len by fastforce
  moreover have "owns m' x \<inter> owns m' y = {}" using x(2) o y(5) by fastforce
  moreover have "ptr_copy (rt_mk R) (rt_as R) (rt_zero R) (rt_DeepCopyInto R) (Some p) m = Some (Some (length m), m')"
    using p(1) y(1) by (simp add: ptr_copy_def)
  ultimately show ?thesis unfolding apart_def by blast
qed

lemma patchResource_refines:
  assumes lw: lawful and ap: "apart (rt_as R) val owns p q v c m"
    and C: "client_refines (rt_as R) val owns C V" and V: "vc_status V = status" "vc_set_status V = set_status"
    and run: "val_patchResource V wrap aw events v c = (e, aw', events', v', c')"
  shows "\<exists>m'. mem_patchResource R C wrap p q (m, aw, events) = Some (e, m', aw', events') \<and> apart (rt_as R) val owns p q v' c' m'"
proof -
  obtain e1 aw1 v1 c1 where r1: "val_patch_main V aw v c = (e1, aw1, v1, c1)" by (metis prod_cases4)
  from main_refines[OF lw ap C V r1] obtain m1 where
    m1: "mem_patch_main R C p q (m, aw) = Some (e1, m1, aw1)" "apart (rt_as R) val owns p q v1 c1 m1" by blast
  show ?thesis
  proof (cases e1)
    case (Some err)
    then show ?thesis using r1 m1 run by (auto simp: val_patchResource_def mem_patchResource_def)
  next
    case None
    obtain e2 aw2 v2 where r2: "val_patch_status V aw1 v1 c1 = (e2, aw2, v2)" by (metis prod_cases3)
    from status_refines[OF lw m1(2) C V(1) r2] obtain m2 where
      m2: "mem_patch_status C p q (m1, aw1) = (e2, m2, aw2)" "apart (rt_as R) val owns p q v2 c1 m2" by blast
    show ?thesis
    proof (cases e2)
      case (Some err)
      then show ?thesis using None r1 r2 m1(1) m2 run by (auto simp: val_patchResource_def mem_patchResource_def)
    next
      case e2: None
      from copy_over_apart[OF lw m2(2)] obtain m3 where "copy_over R p q m2 = Some m3" "apart (rt_as R) val owns p q v2 v2 m3" by blast
      then show ?thesis using None e2 r1 r2 m1(1) m2(1) run by (auto simp: val_patchResource_def mem_patchResource_def)
    qed
  qed
qed

end

subsection \<open>The two resource types\<close>

definition Link_type :: "'x meta_lib \<Rightarrow> ('x cell, 'x Link_obj, LinkStatus_obj) resource_type" where
  "Link_type M =
     \<lparr>rt_mk = Link_cell, rt_as = as_Link, rt_zero = zero_Link M, rt_DeepCopyInto = Link_DeepCopyInto M,
      rt_Status = lo_Status, rt_set_Status = (\<lambda>s x. x\<lparr>lo_Status := s\<rparr>),
      rt_mk_status = LinkStatus_cell, rt_as_status = as_LinkStatus, rt_zero_status = zero_LinkStatus,
      rt_status_DeepCopyInto = LinkStatus_DeepCopyInto M\<rparr>"

definition NodeLinks_type :: "'x meta_lib \<Rightarrow> ('x cell, 'x NodeLinks_obj, NodeLinksStatus_obj) resource_type" where
  "NodeLinks_type M =
     \<lparr>rt_mk = NodeLinks_cell, rt_as = as_NodeLinks, rt_zero = zero_NodeLinks M, rt_DeepCopyInto = NodeLinks_DeepCopyInto M,
      rt_Status = no_Status, rt_set_Status = (\<lambda>s x. x\<lparr>no_Status := s\<rparr>),
      rt_mk_status = NodeLinksStatus_cell, rt_as_status = as_NodeLinksStatus, rt_zero_status = zero_NodeLinksStatus,
      rt_status_DeepCopyInto = NodeLinksStatus_DeepCopyInto M\<rparr>"

interpretation Link_memory: patched_resource "meta_lib_ok M" "Link_type M" "Link_value M" "Link_owns M"
  LinkStatus_value LinkStatus_owns lk_Status "\<lambda>w v. v\<lparr>lk_Status := w\<rparr>" for M
  by (rule patched_resource.intro)
     (simp_all add: Link_type_def Link_deep_copy LinkStatus_deep_copy as_cell, auto simp: Link_value_def Link_owns_def bind_eq_Some_conv)

interpretation NodeLinks_memory: patched_resource "meta_lib_ok M" "NodeLinks_type M" "NodeLinks_value M" "NodeLinks_owns M"
  NodeLinksStatus_value NodeLinksStatus_owns nk_Status "\<lambda>w v. v\<lparr>nk_Status := w\<rparr>" for M
  by (rule patched_resource.intro)
     (simp_all add: NodeLinks_type_def NodeLinks_deep_copy NodeLinksStatus_deep_copy as_cell, auto simp: NodeLinks_value_def NodeLinks_owns_def bind_eq_Some_conv)

text \<open>\<open>patchResource\<close> of the two controllers: the same text, with the message of each.\<close>

definition Link_mem_patchResource where
  "Link_mem_patchResource M C = mem_patchResource (Link_type M) C (Wrapf (LinkMsg PatchLinkFailed))"

definition NodeLinks_mem_patchResource where
  "NodeLinks_mem_patchResource M C = mem_patchResource (NodeLinks_type M) C (Wrapf (NodeLinksMsg PatchNodeLinksFailed))"

text \<open>The models of the controllers compute \<open>val_patchResource\<close>.\<close>

definition Link_values :: "'a lenv \<Rightarrow> (Link, LinkStatus, 'a) value_client" where
  "Link_values E =
     \<lparr>vc_status = lk_Status, vc_set_status = (\<lambda>w v. v\<lparr>lk_Status := w\<rparr>),
      vc_DeepEqual = lib_DeepEqual_Link (le_k8s E), vc_DeepEqual_status = lib_DeepEqual_LinkStatus (le_k8s E),
      vc_Patch = (\<lambda>v c. api_write (PatchLink v c) (\<lambda>a. api_PatchLink (le_client E) a v c)),
      vc_PatchStatus = (\<lambda>v c. api_write (PatchLinkStatus v c) (\<lambda>a. api_PatchLinkStatus (le_client E) a v c)),
      vc_IsNotFound = lib_IsNotFound (le_k8s E), vc_DeletionTimestamp_IsZero = (\<lambda>v. DeletionTimestamp_IsZero (lk_Meta v))\<rparr>"

definition NodeLinks_values :: "('k, 'g, 'a) nenv \<Rightarrow> (NodeLinks, NodeLinksStatus, 'a) value_client" where
  "NodeLinks_values E =
     \<lparr>vc_status = nk_Status, vc_set_status = (\<lambda>w v. v\<lparr>nk_Status := w\<rparr>),
      vc_DeepEqual = lib_DeepEqual_NodeLinks (ne_k8s E), vc_DeepEqual_status = lib_DeepEqual_NodeLinksStatus (ne_k8s E),
      vc_Patch = (\<lambda>v c. api_write (PatchNodeLinks v c) (\<lambda>a. api_PatchNodeLinks (ne_client E) a v c)),
      vc_PatchStatus = (\<lambda>v c. api_write (PatchNodeLinksStatus v c) (\<lambda>a. api_PatchNodeLinksStatus (ne_client E) a v c)),
      vc_IsNotFound = lib_IsNotFound (ne_k8s E), vc_DeletionTimestamp_IsZero = (\<lambda>v. DeletionTimestamp_IsZero (nk_Meta v))\<rparr>"

lemma Link_patch_main_values:
  assumes "Link_patch_main E s = (e, s')"
  shows "val_patch_main (Link_values E) (ln_api s) (ln_link s) (ln_clusterState s) = (e, ln_api s', ln_link s', ln_clusterState s')"
    and "ln_events s' = ln_events s"
proof -
  let ?c = "ln_clusterState s" and ?v = "(ln_link s)\<lparr>lk_Status := lk_Status (ln_clusterState s)\<rparr>"
  obtain r aw where r: "api_write (PatchLink ?v ?c) (\<lambda>a. api_PatchLink (le_client E) a ?v ?c) (ln_api s) = (r, aw)" by fastforce
  show "val_patch_main (Link_values E) (ln_api s) (ln_link s) ?c = (e, ln_api s', ln_link s', ln_clusterState s')" "ln_events s' = ln_events s"
    using assms r unfolding val_patch_main_def Link_patch_main_def Link_values_def Let_def by (cases r; force split: if_splits)+
qed

lemma Link_patch_status_values:
  assumes "Link_patch_status E s = (e, s')"
  shows "val_patch_status (Link_values E) (ln_api s) (ln_link s) (ln_clusterState s) = (e, ln_api s', ln_link s')"
    and "ln_events s' = ln_events s" "ln_clusterState s' = ln_clusterState s"
proof -
  let ?c = "ln_clusterState s" and ?v = "ln_link s"
  obtain r aw where r: "api_write (PatchLinkStatus ?v ?c) (\<lambda>a. api_PatchLinkStatus (le_client E) a ?v ?c) (ln_api s) = (r, aw)" by fastforce
  show "val_patch_status (Link_values E) (ln_api s) ?v ?c = (e, ln_api s', ln_link s')" "ln_events s' = ln_events s" "ln_clusterState s' = ?c"
    using assms r unfolding val_patch_status_def Link_patch_status_def Link_values_def Let_def by (cases r; force split: if_splits)+
qed

lemma Link_patchResource_values:
  assumes run: "Link_patchResource E s = (e, s')"
  shows "val_patchResource (Link_values E) (Wrapf (LinkMsg PatchLinkFailed)) (ln_api s) (ln_events s) (ln_link s) (ln_clusterState s) =
     (e, ln_api s', ln_events s', ln_link s', ln_clusterState s')"
  using run
proof (cases rule: Link_patchResource_cases)
  case (main_failed err s1)
  then show ?thesis using Link_patch_main_values[OF main_failed(1)] by (simp add: val_patchResource_def)
next
  case (status_failed s1 err s2)
  then show ?thesis using Link_patch_main_values[OF status_failed(1)] Link_patch_status_values[OF status_failed(2)]
    by (simp add: val_patchResource_def)
next
  case (patched s1 s2)
  then show ?thesis using Link_patch_main_values[OF patched(1)] Link_patch_status_values[OF patched(2)]
    by (simp add: val_patchResource_def)
qed

lemma NodeLinks_patch_main_values:
  assumes "NodeLinks_patch_main E s = (e, s')"
  shows "val_patch_main (NodeLinks_values E) (nn_api s) (nn_nodeLinks s) (nn_clusterState s) = (e, nn_api s', nn_nodeLinks s', nn_clusterState s')"
    and "nn_events s' = nn_events s"
proof -
  let ?c = "nn_clusterState s" and ?v = "(nn_nodeLinks s)\<lparr>nk_Status := nk_Status (nn_clusterState s)\<rparr>"
  obtain r aw where r: "api_write (PatchNodeLinks ?v ?c) (\<lambda>a. api_PatchNodeLinks (ne_client E) a ?v ?c) (nn_api s) = (r, aw)" by fastforce
  show "val_patch_main (NodeLinks_values E) (nn_api s) (nn_nodeLinks s) ?c = (e, nn_api s', nn_nodeLinks s', nn_clusterState s')" "nn_events s' = nn_events s"
    using assms r unfolding val_patch_main_def NodeLinks_patch_main_def NodeLinks_values_def Let_def by (cases r; force split: if_splits)+
qed

lemma NodeLinks_patch_status_values:
  assumes "NodeLinks_patch_status E s = (e, s')"
  shows "val_patch_status (NodeLinks_values E) (nn_api s) (nn_nodeLinks s) (nn_clusterState s) = (e, nn_api s', nn_nodeLinks s')"
    and "nn_events s' = nn_events s" "nn_clusterState s' = nn_clusterState s"
proof -
  let ?c = "nn_clusterState s" and ?v = "nn_nodeLinks s"
  obtain r aw where r: "api_write (PatchNodeLinksStatus ?v ?c) (\<lambda>a. api_PatchNodeLinksStatus (ne_client E) a ?v ?c) (nn_api s) = (r, aw)" by fastforce
  show "val_patch_status (NodeLinks_values E) (nn_api s) ?v ?c = (e, nn_api s', nn_nodeLinks s')" "nn_events s' = nn_events s" "nn_clusterState s' = ?c"
    using assms r unfolding val_patch_status_def NodeLinks_patch_status_def NodeLinks_values_def Let_def by (cases r; force split: if_splits)+
qed

lemma NodeLinks_patchResource_values:
  assumes run: "NodeLinks_patchResource E s = (e, s')"
  shows "val_patchResource (NodeLinks_values E) (Wrapf (NodeLinksMsg PatchNodeLinksFailed)) (nn_api s) (nn_events s) (nn_nodeLinks s) (nn_clusterState s) =
     (e, nn_api s', nn_events s', nn_nodeLinks s', nn_clusterState s')"
  using run
proof (cases rule: NodeLinks_patchResource_cases)
  case (main_failed err s1)
  then show ?thesis using NodeLinks_patch_main_values[OF main_failed(1)] by (simp add: val_patchResource_def)
next
  case (status_failed s1 err s2)
  then show ?thesis using NodeLinks_patch_main_values[OF status_failed(1)] NodeLinks_patch_status_values[OF status_failed(2)]
    by (simp add: val_patchResource_def)
next
  case (patched s1 s2)
  then show ?thesis using NodeLinks_patch_main_values[OF patched(1)] NodeLinks_patch_status_values[OF patched(2)]
    by (simp add: val_patchResource_def)
qed

end
