(* ===== verification/Memory_Properties.thy ===== *)
theory Memory_Properties
  imports Patch_Memory NodeLinks_Examples
begin

text \<open>
  The properties of the resources in memory: a copy made by \<open>DeepCopy\<close> is as good as a value, and
  \<open>patchResource\<close> on pointers does what the models of the controllers do on values. Both are applied to a
  concrete memory.
\<close>

subsection \<open>An instance of the library and of a client\<close>

text \<open>The structs of the library without pointers, and a client that finds its response decoded already.\<close>

datatype rstruct = RMeta ObjectMeta | RSelector LabelSelector | RList ListMeta

definition RM :: "rstruct meta_lib" where
  "RM =
     \<lparr>lib_zero = RMeta (named_meta ''''),
      lib_ObjectMeta_value = (\<lambda>m x. case x of RMeta v \<Rightarrow> Some v | _ \<Rightarrow> None), lib_ObjectMeta_owns = plain_owns, lib_ObjectMeta_DeepCopyInto = assign,
      lib_LabelSelector_value = (\<lambda>m x. case x of RSelector v \<Rightarrow> Some v | _ \<Rightarrow> None), lib_LabelSelector_owns = plain_owns, lib_LabelSelector_DeepCopyInto = assign,
      lib_ListMeta_value = (\<lambda>m x. case x of RList v \<Rightarrow> Some v | _ \<Rightarrow> None), lib_ListMeta_owns = plain_owns, lib_ListMeta_DeepCopyInto = assign,
      lib_Condition_DeepCopyInto = assign\<rparr>"

lemma RM_ok: "meta_lib_ok RM"
  unfolding meta_lib_ok_def
  by (intro conjI; unfold_locales) (auto simp: RM_def plain_defs split: rstruct.splits)

definition echo_client ::
  "('c memory \<Rightarrow> addr \<Rightarrow> 'v option) \<Rightarrow> ('v, 'w, 'a) value_client \<Rightarrow> ('c, 'a) object_client" where
  "echo_client rd V =
     (let compare = (\<lambda>f m q p. case (rd m q, rd m p) of (Some c, Some v) \<Rightarrow> f c v | _ \<Rightarrow> False);
          send = (\<lambda>f aw p q m. case (rd m p, rd m q) of
            (Some v, Some c) \<Rightarrow> (case f v c aw of (Inl err, aw1) \<Rightarrow> (Some err, m, aw1) | (Inr _, aw1) \<Rightarrow> (None, m, aw1))
          | _ \<Rightarrow> (None, m, aw)) in
      \<lparr>oc_DeepEqual = compare (vc_DeepEqual V),
       oc_DeepEqual_status = compare (\<lambda>c v. vc_DeepEqual_status V (vc_status V c) (vc_status V v)),
       oc_Patch = send (vc_Patch V), oc_PatchStatus = send (vc_PatchStatus V), oc_IsNotFound = vc_IsNotFound V,
       oc_DeletionTimestamp_IsZero = (\<lambda>m p. case rd m p of Some v \<Rightarrow> vc_DeletionTimestamp_IsZero V v | None \<Rightarrow> True)\<rparr>)"

definition rd_at :: "('c \<Rightarrow> 'o option) \<Rightarrow> ('c memory \<Rightarrow> 'o \<Rightarrow> 'v option) \<Rightarrow> 'c memory \<Rightarrow> addr \<Rightarrow> 'v option" where
  "rd_at proj val m p = do { x \<leftarrow> typed proj m p; val m x }"

lemma echo_client_refines:
  assumes echo: "\<And>v c aw resp aw1. vc_Patch V v c aw = (Inr resp, aw1) \<Longrightarrow> resp = v"
    "\<And>v c aw resp aw1. vc_PatchStatus V v c aw = (Inr resp, aw1) \<Longrightarrow> resp = v"
  shows "client_refines proj val owns (echo_client (rd_at proj val) V) V"
proof -
  let ?C = "echo_client (rd_at proj val) V"
  have rd: "rd_at proj val m p = Some v" "rd_at proj val m q = Some c" if "held proj val owns p q x y v c m" for p q x y v c m
    using that by (simp_all add: held_def rd_at_def)
  have same: "changed_through proj val owns p m v m" if "held proj val owns p q x y v c m" for p q x y v c m
    using that by (auto simp: changed_through_def held_def same_on_def)
  have "patches proj val owns (oc_Patch ?C) (vc_Patch V)" "patches proj val owns (oc_PatchStatus ?C) (vc_PatchStatus V)"
    unfolding patches_def
    by (auto simp: echo_client_def rd same dest!: echo split: prod.splits sum.splits)
  moreover have "oc_DeepEqual ?C m q p = vc_DeepEqual V c v \<and>
      oc_DeepEqual_status ?C m q p = vc_DeepEqual_status V (vc_status V c) (vc_status V v) \<and>
      oc_DeletionTimestamp_IsZero ?C m p = vc_DeletionTimestamp_IsZero V v"
    if "held proj val owns p q x y v c m" for p q x y v c m
    using rd[OF that] by (simp add: echo_client_def)
  ultimately show ?thesis unfolding client_refines_def by (auto simp: echo_client_def)
qed

definition RMC :: "(rstruct cell, rstore) object_client" where
  "RMC = echo_client (rd_at as_NodeLinks (NodeLinks_value RM)) (NodeLinks_values RE)"

lemma RMC_ok: "client_refines as_NodeLinks (NodeLinks_value RM) (NodeLinks_owns RM) RMC (NodeLinks_values RE)"
  unfolding RMC_def
  by (rule echo_client_refines) (auto simp: NodeLinks_values_def api_write_def RC_def rs_put_nodeLinks_def split: if_splits)

text \<open>The Link controller on the same API server.\<close>

definition RLE :: "rstore lenv" where
  "RLE = \<lparr>le_client = RC, le_k8s = RL, le_pie = RP, le_pie_Map_names = run_each, le_pie_Map_nodes = run_each\<rparr>"

definition RML :: "(rstruct cell, rstore) object_client" where
  "RML = echo_client (rd_at as_Link (Link_value RM)) (Link_values RLE)"

lemma RML_ok: "client_refines as_Link (Link_value RM) (Link_owns RM) RML (Link_values RLE)"
  unfolding RML_def
  by (rule echo_client_refines) (auto simp: Link_values_def RLE_def api_write_def RC_def rs_put_link_def split: if_splits)

subsection \<open>A memory\<close>

text \<open>
  A NodeLinks resource at 0, to which an attempted link was just added, and the state of the cluster at 3.
\<close>

definition rm_object :: "slice option \<Rightarrow> slice option \<Rightarrow> rstruct NodeLinks_obj" where
  "rm_object links attempted =
     \<lparr>no_TypeMeta = zero_TypeMeta, no_ObjectMeta = RMeta (nk_Meta (ex_nodeLinks [] [])), no_Spec = \<lparr>qo_MatchingLinks = links\<rparr>,
      no_Status = \<lparr>uo_Conditions = None, uo_NetlinkLinkConditions = None, uo_LastAttemptedNetlinkLinks = attempted\<rparr>\<rparr>"

definition rm_memory :: "rstruct mem" where
  "rm_memory =
     [NodeLinks_cell (rm_object (Some (whole_array 1 1)) (Some (whole_array 2 1))), strings_array [''b''], strings_array [''br0''],
      NodeLinks_cell (rm_object (Some (whole_array 4 1)) None), strings_array [''b'']]"

definition rm_state :: "(rk_state, rstore) nstate" where
  "rm_state = ex_start\<lparr>nn_nodeLinks := ex_nodeLinks [''b''] [''br0'']\<rparr>"

lemma rm_read:
  "typed as_NodeLinks rm_memory 0 = Some (rm_object (Some (whole_array 1 1)) (Some (whole_array 2 1)))"
  "typed as_NodeLinks rm_memory 3 = Some (rm_object (Some (whole_array 4 1)) None)"
  by (simp_all add: typed_def load_def rm_memory_def as_NodeLinks_def)

lemma rm_elems:
  "elems as_strings_array rm_memory (whole_array 1 1) = Some [''b'']"
  "elems as_strings_array rm_memory (whole_array 2 1) = Some [''br0'']"
  "elems as_strings_array rm_memory (whole_array 4 1) = Some [''b'']"
  by (simp_all add: elems_def typed_def load_def rm_memory_def as_strings_array_def)

lemma rm_apart:
  "apart as_NodeLinks (NodeLinks_value RM) (NodeLinks_owns RM) 0 3 (nn_nodeLinks rm_state) (nn_clusterState rm_state) rm_memory"
  unfolding apart_def held_def
  by (simp add: rm_read rm_elems rm_elems[unfolded One_nat_def] plain_denote_def rm_object_def RM_def NodeLinks_value_def NodeLinks_owns_def NodeLinksSpec_value_def
      NodeLinksSpec_owns_def NodeLinksStatus_value_def NodeLinksStatus_owns_def plain_slice_denote slice_denote_def slice_owns_def
      plain_owns_def map_denote_def map_owns_def rm_state_def ex_start_def ex_state_def ex_nodeLinks_def)

lemma rm_patched:
  "\<exists>s'. NodeLinks_patchResource RE rm_state = (None, s') \<and> nn_clusterState s' = ex_nodeLinks [''b''] [''br0''] \<and> nn_events s' = []"
  by (simp add: run_defs rm_state_def ex_start_def)

text \<open>A Link for a bridge at 0, which was just matched with a node, and the state of the cluster at 4.\<close>

definition rml_object :: "addr \<Rightarrow> slice option \<Rightarrow> rstruct Link_obj" where
  "rml_object bridge nodes =
     \<lparr>lo_TypeMeta = zero_TypeMeta, lo_ObjectMeta = RMeta (lk_Meta ex_bridge),
      lo_Spec = \<lparr>po_LinkName = ''br0'', po_NodeSelector = RSelector \<lparr>sel_MatchLabels = [], sel_MatchExpressions = []\<rparr>,
        po_LinkSpecs = \<lparr>so_Bridge = Some bridge, so_VXLAN = None, so_Unmanaged = None\<rparr>\<rparr>,
      lo_Status = \<lparr>to_Conditions = None, to_MatchedNodes = nodes\<rparr>\<rparr>"

definition rml_memory :: "rstruct mem" where
  "rml_memory =
     [Link_cell (rml_object 1 (Some (whole_array 3 1))), BridgeSpec_cell \<lparr>bo_MTU = Some 2\<rparr>, Int32_cell 9000, strings_array [''node1''],
      Link_cell (rml_object 5 None), BridgeSpec_cell \<lparr>bo_MTU = Some 6\<rparr>, Int32_cell 9000]"

definition rml_state :: "rstore lstate" where
  "rml_state =
     \<lparr>ln_api = \<lparr>store = \<lparr>rs_links = [(''b'', ex_bridge)], rs_nodeLinks = [], rs_nodes = [], rs_refuses = False\<rparr>, api_trace = []\<rparr>,
      ln_events = [], ln_link = set_MatchedNodes [''node1''] ex_bridge, ln_clusterState = ex_bridge\<rparr>"

lemma rml_read:
  "typed as_Link rml_memory 0 = Some (rml_object 1 (Some (whole_array 3 1)))" "typed as_Link rml_memory 4 = Some (rml_object 5 None)"
  "typed as_BridgeSpec rml_memory 1 = Some \<lparr>bo_MTU = Some 2\<rparr>" "typed as_BridgeSpec rml_memory 5 = Some \<lparr>bo_MTU = Some 6\<rparr>"
  "typed as_Int32 rml_memory 2 = Some 9000" "typed as_Int32 rml_memory 6 = Some 9000"
  "elems as_strings_array rml_memory (whole_array 3 1) = Some [''node1'']"
  by (simp_all add: elems_def typed_def load_def rml_memory_def as_Link_def as_BridgeSpec_def as_Int32_def as_strings_array_def)

lemma rml_apart:
  "apart as_Link (Link_value RM) (Link_owns RM) 0 4 (ln_link rml_state) (ln_clusterState rml_state) rml_memory"
  unfolding apart_def held_def
  by (simp add: rml_read rml_read[unfolded One_nat_def] rml_object_def RM_def value_defs owns_defs plain_denote_def plain_owns_def
      ptr_denote_def ptr_owns_def slice_denote_def slice_owns_def rml_state_def set_MatchedNodes_def ex_link_def ex_bridge_def)

lemma rml_patched: "\<exists>s'. Link_patchResource RLE rml_state = (None, s') \<and> ln_clusterState s' = ln_link rml_state \<and> ln_events s' = []"
  by (simp add: Link_patchResource_def Link_patch_main_def Link_patch_status_def Let_def RLE_def RL_def RC_def rs_put_link_def
      api_write_def rml_state_def set_MatchedNodes_def ex_link_def ex_bridge_def)

subsection \<open>DeepCopy\<close>

text \<open>
  C28: a deep copy is independent of its original. \<open>DeepCopy\<close> of a NodeLinks resource, whose strings,
  conditions and map of conditions may lie anywhere in memory, returns a new pointer without failing;
  both pointers then stand for the value of before, and whatever is done afterwards through the
  original, its copy still stands for that value.
\<close>

theorem deep_copy_independent:
  assumes lib: "meta_lib_ok M" and p: "typed as_NodeLinks m p = Some x" "NodeLinks_value M m x = Some v" "p \<notin> NodeLinks_owns M m x"
  shows "\<exists>q m1. NodeLinks_DeepCopy M (Some p) m = Some (Some q, m1) \<and>
    apart as_NodeLinks (NodeLinks_value M) (NodeLinks_owns M) p q v v m1 \<and>
    (\<forall>v2 m2. changed_through as_NodeLinks (NodeLinks_value M) (NodeLinks_owns M) p m1 v2 m2 \<longrightarrow>
       apart as_NodeLinks (NodeLinks_value M) (NodeLinks_owns M) p q v2 v m2)"
proof -
  note ty = NodeLinks_type_def resource_type.simps
  from NodeLinks_memory.deep_copy_apart[OF lib, unfolded ty, OF p] obtain m1 where
    m1: "NodeLinks_DeepCopy M (Some p) m = Some (Some (length m), m1)"
      "apart as_NodeLinks (NodeLinks_value M) (NodeLinks_owns M) p (length m) v v m1" by (auto simp: NodeLinks_DeepCopy_def)
  with NodeLinks_memory.change_apart[OF lib, unfolded ty, OF m1(2)] show ?thesis by blast
qed

theorem deep_copy_independent_witness:
  "\<exists>q m1 x. NodeLinks_DeepCopy RM (Some 0) rm_memory = Some (Some q, m1) \<and> typed as_NodeLinks m1 q = Some x \<and>
     NodeLinks_value RM m1 x = Some (ex_nodeLinks [''b''] [''br0''])"
proof -
  obtain x y where h: "held as_NodeLinks (NodeLinks_value RM) (NodeLinks_owns RM) 0 3 x y (nn_nodeLinks rm_state) (nn_clusterState rm_state) rm_memory"
    using rm_apart by (auto simp: apart_def)
  then have "0 \<notin> NodeLinks_owns RM rm_memory x" by (simp add: held_def)
  from deep_copy_independent[OF RM_ok _ _ this, of "nn_nodeLinks rm_state"] h show ?thesis
    by (force simp: held_def apart_def rm_state_def)
qed

subsection \<open>patchResource\<close>

text \<open>
  C12: the pointer code of \<open>patchResource\<close> refines the model of the NodeLinks controller. Started on two
  pointers that stand for the resource at hand and for the state of the cluster, neither reachable from
  the other, it does not fail, returns the same error, sends the same requests and records the same
  events, and leaves pointers that stand for what the model says, separate again, although it shares
  the status between them meanwhile and the client decodes responses into the shared memory.
\<close>

theorem nodeLinks_patch_refined:
  assumes "meta_lib_ok M"
    and "client_refines as_NodeLinks (NodeLinks_value M) (NodeLinks_owns M) C (NodeLinks_values E)"
    and "apart as_NodeLinks (NodeLinks_value M) (NodeLinks_owns M) p q (nn_nodeLinks s) (nn_clusterState s) m"
    and "NodeLinks_patchResource E s = (e, s')"
  shows "\<exists>m'. NodeLinks_mem_patchResource M C p q (m, nn_api s, nn_events s) = Some (e, m', nn_api s', nn_events s') \<and>
    apart as_NodeLinks (NodeLinks_value M) (NodeLinks_owns M) p q (nn_nodeLinks s') (nn_clusterState s') m'"
  unfolding NodeLinks_mem_patchResource_def
  using NodeLinks_memory.patchResource_refines[OF assms(1), unfolded NodeLinks_type_def resource_type.simps,
      OF assms(3,2) _ _ NodeLinks_patchResource_values[OF assms(4)]]
  by (simp add: NodeLinks_values_def NodeLinks_type_def)

theorem nodeLinks_patch_refined_witness:
  "\<exists>m' aw x. NodeLinks_mem_patchResource RM RMC 0 3 (rm_memory, nn_api rm_state, []) = Some (None, m', aw, []) \<and>
     typed as_NodeLinks m' 3 = Some x \<and> NodeLinks_value RM m' x = Some (ex_nodeLinks [''b''] [''br0''])"
proof -
  obtain s' where s': "NodeLinks_patchResource RE rm_state = (None, s')" "nn_clusterState s' = ex_nodeLinks [''b''] [''br0'']"
    "nn_events s' = []" using rm_patched by blast
  have "nn_events rm_state = []" by (simp add: rm_state_def ex_start_def ex_state_def)
  with nodeLinks_patch_refined[OF RM_ok RMC_ok rm_apart s'(1)] s'(2,3) show ?thesis by (force simp: apart_def held_def)
qed

text \<open>
  The pointer code of \<open>patchResource\<close> refines the model of the Link controller, under the same
  conditions.
\<close>

theorem link_patch_refined:
  assumes "meta_lib_ok M"
    and "client_refines as_Link (Link_value M) (Link_owns M) C (Link_values E)"
    and "apart as_Link (Link_value M) (Link_owns M) p q (ln_link s) (ln_clusterState s) m"
    and "Link_patchResource E s = (e, s')"
  shows "\<exists>m'. Link_mem_patchResource M C p q (m, ln_api s, ln_events s) = Some (e, m', ln_api s', ln_events s') \<and>
    apart as_Link (Link_value M) (Link_owns M) p q (ln_link s') (ln_clusterState s') m'"
  unfolding Link_mem_patchResource_def
  using Link_memory.patchResource_refines[OF assms(1), unfolded Link_type_def resource_type.simps,
      OF assms(3,2) _ _ Link_patchResource_values[OF assms(4)]]
  by (simp add: Link_values_def Link_type_def)

theorem link_patch_refined_witness:
  "\<exists>m' aw x v. Link_mem_patchResource RM RML 0 4 (rml_memory, ln_api rml_state, []) = Some (None, m', aw, []) \<and>
     typed as_Link m' 4 = Some x \<and> Link_value RM m' x = Some v \<and> MatchedNodes v = [''node1'']"
proof -
  obtain s' where s': "Link_patchResource RLE rml_state = (None, s')" "ln_clusterState s' = ln_link rml_state"
    "ln_events s' = []" using rml_patched by blast
  have "ln_events rml_state = []" "MatchedNodes (ln_link rml_state) = [''node1'']" by (simp_all add: rml_state_def)
  with link_patch_refined[OF RM_ok RML_ok rml_apart s'(1)] s'(2,3) show ?thesis by (force simp: apart_def held_def)
qed

subsection \<open>runtime.Object\<close>

text \<open>
  A call of \<open>DeepCopyObject\<close> on an interface value goes to the method of its dynamic type. The value of an
  object has the type in its constructor; \<open>None\<close> is an object whose memory is not of its type.
\<close>

fun runtime_DeepCopyObject :: "'x meta_lib \<Rightarrow> runtime_Object \<Rightarrow> 'x mem \<Rightarrow> (runtime_Object option \<times> 'x mem) option" where
  "runtime_DeepCopyObject M (Link_Object a) = Link_DeepCopyObject M (Some a)"
| "runtime_DeepCopyObject M (LinkList_Object a) = LinkList_DeepCopyObject M (Some a)"
| "runtime_DeepCopyObject M (NodeLinks_Object a) = NodeLinks_DeepCopyObject M (Some a)"
| "runtime_DeepCopyObject M (NodeLinksList_Object a) = NodeLinksList_DeepCopyObject M (Some a)"

datatype resource =
    A_Link "Link option"
  | A_LinkList "(ListMeta \<times> Link list) option"
  | A_NodeLinks "NodeLinks option"
  | A_NodeLinksList "(ListMeta \<times> NodeLinks list) option"

fun object_value :: "'x meta_lib \<Rightarrow> 'x mem \<Rightarrow> runtime_Object \<Rightarrow> resource option" where
  "object_value M m (Link_Object a) = map_option A_Link (ptr_denote as_Link (Link_value M) m (Some a))"
| "object_value M m (LinkList_Object a) = map_option A_LinkList (ptr_denote as_LinkList (LinkList_value M) m (Some a))"
| "object_value M m (NodeLinks_Object a) = map_option A_NodeLinks (ptr_denote as_NodeLinks (NodeLinks_value M) m (Some a))"
| "object_value M m (NodeLinksList_Object a) = map_option A_NodeLinksList (ptr_denote as_NodeLinksList (NodeLinksList_value M) m (Some a))"

fun object_owns :: "'x meta_lib \<Rightarrow> 'x mem \<Rightarrow> runtime_Object \<Rightarrow> addr set" where
  "object_owns M m (Link_Object a) = ptr_owns as_Link (Link_owns M) m (Some a)"
| "object_owns M m (LinkList_Object a) = ptr_owns as_LinkList (LinkList_owns M) m (Some a)"
| "object_owns M m (NodeLinks_Object a) = ptr_owns as_NodeLinks (NodeLinks_owns M) m (Some a)"
| "object_owns M m (NodeLinksList_Object a) = ptr_owns as_NodeLinksList (NodeLinksList_owns M) m (Some a)"

text \<open>What a copy of a pointer to a well-typed struct is.\<close>

lemma deep_copy_of_pointer:
  assumes dc: "deep_copy lw (ptr_denote proj d) (ptr_owns proj r) copy" and lw: lw
    and v: "ptr_denote proj d m (Some a) = Some v"
  shows "\<exists>b m'. copy (Some a) m = Some (Some b, m') \<and> ptr_denote proj d m' (Some b) = Some v \<and>
    ptr_denote proj d m' (Some a) = Some v \<and> ptr_owns proj r m' (Some b) \<inter> ptr_owns proj r m' (Some a) = {}"
proof -
  from deep_copy.copy_obtain[OF dc lw v] obtain q m' where
    q: "copy (Some a) m = Some (q, m')" "grows m m'" "ptr_denote proj d m' q = Some v" "ptr_owns proj r m' q \<subseteq> {length m..<length m'}"
    by metis
  obtain b where b: "q = Some b" using q(3) v by (cases q) (auto simp: ptr_denote_def split: option.splits)
  note kept = deep_copy.kept[OF dc lw v q(2)]
  have "ptr_owns proj r m' (Some a) \<subseteq> {..<length m}" using kept(2) deep_copy.inside[OF dc lw v] by simp
  then have "ptr_owns proj r m' q \<inter> ptr_owns proj r m' (Some a) = {}" using q(4) by fastforce
  then show ?thesis using q(1,3) kept(1) b by blast
qed

lemma object_copied:
  assumes dc: "deep_copy lw (ptr_denote proj d) (ptr_owns proj r) copy" and lw: lw
    and obj: "\<And>p m. obj p m = do { (c, m1) \<leftarrow> copy p m; Some (case c of Some a \<Rightarrow> Some (K a) | None \<Rightarrow> None, m1) }"
    and val: "\<And>m b. val m (K b) = map_option A (ptr_denote proj d m (Some b))" and own: "\<And>m b. own m (K b) = ptr_owns proj r m (Some b)"
    and v: "val m (K a) = Some v"
  shows "\<exists>ob' m'. obj (Some a) m = Some (Some ob', m') \<and> val m' ob' = Some v \<and> val m' (K a) = Some v \<and> own m' ob' \<inter> own m' (K a) = {}"
proof -
  obtain w where w: "ptr_denote proj d m (Some a) = Some w" "v = A w" using v by (auto simp: val)
  from deep_copy_of_pointer[OF dc lw w(1)] obtain b m' where
    "copy (Some a) m = Some (Some b, m')" "ptr_denote proj d m' (Some b) = Some w" "ptr_denote proj d m' (Some a) = Some w"
    "ptr_owns proj r m' (Some b) \<inter> ptr_owns proj r m' (Some a) = {}" by blast
  then show ?thesis using w(2) by (intro exI[of _ "K b"] exI[of _ m']) (simp add: obj val own)
qed

text \<open>
  C29: copying through the interface keeps the type. \<open>DeepCopyObject\<close> of an object whose memory is of its
  type does not fail and returns an object of the same dynamic type, never a nil interface, whose memory
  is of that type too, with an equal value and no memory in common; the original keeps its value. For a
  nil pointer each method returns the nil interface.
\<close>

theorem deep_copy_object_type:
  assumes lib: "meta_lib_ok M" and v: "object_value M m ob = Some v"
  shows "(\<exists>ob' m'. runtime_DeepCopyObject M ob m = Some (Some ob', m') \<and>
      object_value M m' ob' = Some v \<and> object_value M m' ob = Some v \<and> object_owns M m' ob' \<inter> object_owns M m' ob = {}) \<and>
    (\<forall>f \<in> {Link_DeepCopyObject M, LinkList_DeepCopyObject M, NodeLinks_DeepCopyObject M, NodeLinksList_DeepCopyObject M}.
      f None m = Some (None, m))"
proof
  show "\<exists>ob' m'. runtime_DeepCopyObject M ob m = Some (Some ob', m') \<and>
      object_value M m' ob' = Some v \<and> object_value M m' ob = Some v \<and> object_owns M m' ob' \<inter> object_owns M m' ob = {}"
  proof (cases ob)
    case (Link_Object a)
    then show ?thesis
      using object_copied[OF Link_copy.deep_copy_axioms lib Link_DeepCopyObject_def object_value.simps(1) object_owns.simps(1)] v by simp
  next
    case (LinkList_Object a)
    then show ?thesis
      using object_copied[OF LinkList_copy.deep_copy_axioms lib LinkList_DeepCopyObject_def object_value.simps(2) object_owns.simps(2)] v by simp
  next
    case (NodeLinks_Object a)
    then show ?thesis
      using object_copied[OF NodeLinks_copy.deep_copy_axioms lib NodeLinks_DeepCopyObject_def object_value.simps(3) object_owns.simps(3)] v by simp
  next
    case (NodeLinksList_Object a)
    then show ?thesis
      using object_copied[OF NodeLinksList_copy.deep_copy_axioms lib NodeLinksList_DeepCopyObject_def object_value.simps(4) object_owns.simps(4)] v by simp
  qed
  show "\<forall>f \<in> {Link_DeepCopyObject M, LinkList_DeepCopyObject M, NodeLinks_DeepCopyObject M, NodeLinksList_DeepCopyObject M}.
      f None m = Some (None, m)"
    by (simp add: Link_DeepCopyObject_def LinkList_DeepCopyObject_def NodeLinks_DeepCopyObject_def NodeLinksList_DeepCopyObject_def
        Link_DeepCopy_def LinkList_DeepCopy_def NodeLinks_DeepCopy_def NodeLinksList_DeepCopy_def ptr_copy_def)
qed

theorem deep_copy_object_type_witness:
  "\<exists>ob' m'. runtime_DeepCopyObject RM (Link_Object 0) rml_memory = Some (Some ob', m') \<and>
     object_value RM m' ob' = Some (A_Link (Some (ln_link rml_state)))"
proof -
  have "object_value RM rml_memory (Link_Object 0) = Some (A_Link (Some (ln_link rml_state)))"
    using rml_apart by (auto simp: apart_def held_def ptr_denote_def)
  from deep_copy_object_type[OF RM_ok this] show ?thesis by blast
qed

end
