(* ===== verification/Startup.thy ===== *)
theory Startup
  imports Go_Errors
begin

text \<open>
  The start of the process (\<open>cmd/main.go\<close>): the flags, the options made from them, and the calls that set
  up the manager, in order. The calls go to libraries and to the registrations of the controllers; each
  is an entry of a trace and ends as the environment says. A call that fails ends the process with exit
  code 1.
\<close>

subsection \<open>Paths\<close>

text \<open>\<open>filepath.Join\<close> of two elements, with the \<open>Clean\<close> of its result, on Unix.\<close>

fun split_slash :: "string \<Rightarrow> string \<Rightarrow> string list" where
  "split_slash acc [] = [rev acc]"
| "split_slash acc (c # cs) = (if c = CHR ''/'' then rev acc # split_slash [] cs else split_slash (c # acc) cs)"

text \<open>The components kept so far, the last one first.\<close>

fun clean_component :: "bool \<Rightarrow> string list \<Rightarrow> string \<Rightarrow> string list" where
  "clean_component rooted out c =
     (if c = '''' \<or> c = ''.'' then out
      else if c = ''..'' then
        (case out of
           [] \<Rightarrow> if rooted then [] else [''..'']
         | d # ds \<Rightarrow> if d = ''..'' then ''..'' # out else ds)
      else c # out)"

definition join_slash :: "string list \<Rightarrow> string" where
  "join_slash cs = (case cs of [] \<Rightarrow> '''' | c # ds \<Rightarrow> c @ concat (map (\<lambda>d. CHR ''/'' # d) ds))"

definition filepath_Clean :: "string \<Rightarrow> string" where
  "filepath_Clean p =
     (let rooted = (p \<noteq> '''' \<and> hd p = CHR ''/'');
          body = join_slash (rev (foldl (clean_component rooted) [] (split_slash [] p)))
      in if rooted then CHR ''/'' # body else if body = '''' then ''.'' else body)"

definition filepath_Join :: "string \<Rightarrow> string \<Rightarrow> string" where
  "filepath_Join a b =
     (if a = '''' \<and> b = '''' then '''' else if a = '''' then filepath_Clean b
      else if b = '''' then filepath_Clean a else filepath_Clean (a @ CHR ''/'' # b))"

subsection \<open>Flags and options\<close>

text \<open>The variables that the flags fill, and their defaults. A \<open>time.Duration\<close> is in nanoseconds.\<close>

record flags =
  metricsAddr :: string
  metricsCertPath :: string
  metricsCertName :: string
  metricsCertKey :: string
  webhookCertPath :: string
  webhookCertName :: string
  webhookCertKey :: string
  enableLeaderElection :: bool
  probeAddr :: string
  secureMetrics :: bool
  enableHTTP2 :: bool
  nodeName :: string
  enableClusterWideControllers :: bool
  enableNodeSpecificControllers :: bool
  resyncInterval :: int

definition default_flags :: flags where
  "default_flags =
     \<lparr>metricsAddr = ''0'', metricsCertPath = '''', metricsCertName = ''tls.crt'', metricsCertKey = ''tls.key'',
      webhookCertPath = '''', webhookCertName = ''tls.crt'', webhookCertKey = ''tls.key'', enableLeaderElection = False,
      probeAddr = '':8081'', secureMetrics = True, enableHTTP2 = False, nodeName = '''',
      enableClusterWideControllers = True, enableNodeSpecificControllers = True, resyncInterval = 30 * 60 * 1000000000\<rparr>"

text \<open>A certificate watcher is known by the two files it watches; \<open>tls_Config\<close> has what the options set.\<close>

type_synonym cert_watcher = "string \<times> string"

record tls_Config =
  NextProtos :: "string list"
  GetCertificate :: "cert_watcher option"

type_synonym tls_opt = "tls_Config \<Rightarrow> tls_Config"

definition disableHTTP2 :: tls_opt where
  "disableHTTP2 c = c\<lparr>NextProtos := [''http/1.1'']\<rparr>"

definition use_certificates_of :: "cert_watcher \<Rightarrow> tls_opt" where
  "use_certificates_of w c = c\<lparr>GetCertificate := Some w\<rparr>"

text \<open>A server applies its options in order.\<close>

definition apply_opts :: "tls_opt list \<Rightarrow> tls_opt" where
  "apply_opts = fold (\<lambda>opt c. opt c)"

record metrics_options =
  BindAddress :: string
  SecureServing :: bool
  FilterProvider :: bool
  TLSOpts :: "tls_opt list"

record manager_options =
  mo_Metrics :: metrics_options
  mo_WebhookServer :: "tls_opt list option"
  mo_HealthProbeBindAddress :: string
  mo_LeaderElection :: bool
  mo_LeaderElectionID :: string
  mo_LeaderElectionReleaseOnCancel :: bool

subsection \<open>Calls\<close>

text \<open>
  \<open>SetupLinkController\<close> is \<open>NewLinkReconciler(mgr).SetupWithManager(mgr)\<close>. That of the NodeLinks reconciler adds
  the link event watcher of the node before it registers the controller.
\<close>

datatype setup_call =
    NewCertWatcher cert_watcher
  | GetConfig
  | NewManager manager_options
  | SetupLinkController
  | AddLinkEventWatcher string
  | SetupNodeLinksController string int
  | SetupLinkWebhook
  | AddCertWatcher cert_watcher
  | AddHealthzCheck
  | AddReadyzCheck
  | StartManager

datatype startup_msg =
    NodeNameRequired
  | WebhookCertWatcherFailed
  | MetricsCertWatcherFailed
  | ConfigFailed
  | UnableToStartManager
  | UnableToCreateController string
  | UnableToCreateWebhook
  | UnableToAddMetricsWatcher
  | UnableToAddWebhookWatcher
  | UnableToSetUpHealthCheck
  | UnableToSetUpReadyCheck
  | ProblemRunningManager

text \<open>\<open>su_outcome calls c\<close> is how the call \<open>c\<close> ends after the calls \<open>calls\<close>: nil or an error.\<close>

record startup_env =
  su_outcome :: "setup_call list \<Rightarrow> setup_call \<Rightarrow> goerror option"
  su_ENABLE_WEBHOOKS :: string

text \<open>A process that runs on, with the calls made, or one that has exited with code 1.\<close>

datatype startup = Running "setup_call list" | Exited "setup_call list" startup_msg

fun calls_of :: "startup \<Rightarrow> setup_call list" where
  "calls_of (Running cs) = cs"
| "calls_of (Exited cs _) = cs"

type_synonym startup_step = "startup \<Rightarrow> startup"

fun fatal :: "startup_msg \<Rightarrow> startup_step" where
  "fatal msg (Running cs) = Exited cs msg"
| "fatal msg (Exited cs m) = Exited cs m"

fun call :: "startup_env \<Rightarrow> setup_call \<Rightarrow> startup_msg \<Rightarrow> startup_step" where
  "call env c msg (Running cs) =
     (case su_outcome env cs c of None \<Rightarrow> Running (cs @ [c]) | Some _ \<Rightarrow> Exited (cs @ [c]) msg)"
| "call env c msg (Exited cs m) = Exited cs m"

definition if_enabled :: "bool \<Rightarrow> startup_step \<Rightarrow> startup_step" where
  "if_enabled b f s = (if b then f s else s)"

subsection \<open>main\<close>

text \<open>The options of the two servers, and the certificate watchers, nil when there is no path.\<close>

definition common_opts :: "flags \<Rightarrow> tls_opt list" where
  "common_opts f = (if \<not> enableHTTP2 f then [disableHTTP2] else [])"

definition webhookCertWatcher :: "flags \<Rightarrow> cert_watcher option" where
  "webhookCertWatcher f =
     (if enableClusterWideControllers f \<and> webhookCertPath f \<noteq> ''''
      then Some (filepath_Join (webhookCertPath f) (webhookCertName f), filepath_Join (webhookCertPath f) (webhookCertKey f)) else None)"

definition webhookTLSOpts :: "flags \<Rightarrow> tls_opt list" where
  "webhookTLSOpts f = common_opts f @ (case webhookCertWatcher f of None \<Rightarrow> [] | Some w \<Rightarrow> [use_certificates_of w])"

definition webhookServer :: "flags \<Rightarrow> tls_opt list option" where
  "webhookServer f = (if enableClusterWideControllers f then Some (webhookTLSOpts f) else None)"

definition metricsCertWatcher :: "flags \<Rightarrow> cert_watcher option" where
  "metricsCertWatcher f =
     (if metricsCertPath f \<noteq> ''''
      then Some (filepath_Join (metricsCertPath f) (metricsCertName f), filepath_Join (metricsCertPath f) (metricsCertKey f)) else None)"

definition metricsServerOptions :: "flags \<Rightarrow> metrics_options" where
  "metricsServerOptions f =
     \<lparr>BindAddress = metricsAddr f, SecureServing = secureMetrics f, FilterProvider = secureMetrics f,
      TLSOpts = common_opts f @ (case metricsCertWatcher f of None \<Rightarrow> [] | Some w \<Rightarrow> [use_certificates_of w])\<rparr>"

definition manager_options_of :: "flags \<Rightarrow> manager_options" where
  "manager_options_of f =
     \<lparr>mo_Metrics = metricsServerOptions f, mo_WebhookServer = webhookServer f, mo_HealthProbeBindAddress = probeAddr f,
      mo_LeaderElection = enableLeaderElection f, mo_LeaderElectionID = ''c8d73159.soliddowant.dev'',
      mo_LeaderElectionReleaseOnCancel = True\<rparr>"

text \<open>The start, section by section: watchers, the manager, the controllers, what is added to the manager.\<close>

definition new_watcher :: "startup_env \<Rightarrow> cert_watcher option \<Rightarrow> startup_msg \<Rightarrow> startup_step" where
  "new_watcher env w msg s = (case w of None \<Rightarrow> s | Some w \<Rightarrow> call env (NewCertWatcher w) msg s)"

definition add_watcher :: "startup_env \<Rightarrow> cert_watcher option \<Rightarrow> startup_msg \<Rightarrow> startup_step" where
  "add_watcher env w msg s = (case w of None \<Rightarrow> s | Some w \<Rightarrow> call env (AddCertWatcher w) msg s)"

definition NodeLinks_SetupWithManager :: "startup_env \<Rightarrow> flags \<Rightarrow> startup_step" where
  "NodeLinks_SetupWithManager env f s =
     call env (SetupNodeLinksController (nodeName f) (resyncInterval f)) (UnableToCreateController ''NodeLinks'')
       (call env (AddLinkEventWatcher (nodeName f)) (UnableToCreateController ''NodeLinks'') s)"

definition setup_controllers :: "startup_env \<Rightarrow> flags \<Rightarrow> startup_step" where
  "setup_controllers env f s =
     (let s1 = if_enabled (enableClusterWideControllers f) (call env SetupLinkController (UnableToCreateController ''Link'')) s;
          s2 = if_enabled (enableNodeSpecificControllers f) (NodeLinks_SetupWithManager env f) s1
      in if_enabled (enableClusterWideControllers f \<and> su_ENABLE_WEBHOOKS env \<noteq> ''false'') (call env SetupLinkWebhook UnableToCreateWebhook) s2)"

definition setup_manager :: "startup_env \<Rightarrow> flags \<Rightarrow> startup_step" where
  "setup_manager env f s =
     (let s1 = add_watcher env (metricsCertWatcher f) UnableToAddMetricsWatcher s;
          s2 = add_watcher env (webhookCertWatcher f) UnableToAddWebhookWatcher s1;
          s3 = call env AddHealthzCheck UnableToSetUpHealthCheck s2
      in call env AddReadyzCheck UnableToSetUpReadyCheck s3)"

definition main :: "startup_env \<Rightarrow> flags \<Rightarrow> startup" where
  "main env f =
     (let s = if_enabled (enableNodeSpecificControllers f \<and> nodeName f = '''') (fatal NodeNameRequired) (Running []);
          s1 = new_watcher env (webhookCertWatcher f) WebhookCertWatcherFailed s;
          s2 = new_watcher env (metricsCertWatcher f) MetricsCertWatcherFailed s1;
          s3 = call env GetConfig ConfigFailed s2;
          s4 = call env (NewManager (manager_options_of f)) UnableToStartManager s3;
          s5 = setup_controllers env f s4;
          s6 = setup_manager env f s5
      in call env StartManager ProblemRunningManager s6)"

subsection \<open>The plan of a start\<close>

text \<open>
  What \<open>main\<close> sets up for given flags, as a list of calls with the message of their failure, and what
  becomes of such a list: it is worked off up to the first call that fails.
\<close>

definition plan_new :: "cert_watcher option \<Rightarrow> startup_msg \<Rightarrow> (setup_call \<times> startup_msg) list" where
  "plan_new w msg = (case w of None \<Rightarrow> [] | Some w \<Rightarrow> [(NewCertWatcher w, msg)])"

definition plan_add :: "cert_watcher option \<Rightarrow> startup_msg \<Rightarrow> (setup_call \<times> startup_msg) list" where
  "plan_add w msg = (case w of None \<Rightarrow> [] | Some w \<Rightarrow> [(AddCertWatcher w, msg)])"

definition plan :: "startup_env \<Rightarrow> flags \<Rightarrow> (setup_call \<times> startup_msg) list" where
  "plan env f =
     plan_new (webhookCertWatcher f) WebhookCertWatcherFailed @
     plan_new (metricsCertWatcher f) MetricsCertWatcherFailed @
     [(GetConfig, ConfigFailed), (NewManager (manager_options_of f), UnableToStartManager)] @
     (if enableClusterWideControllers f then [(SetupLinkController, UnableToCreateController ''Link'')] else []) @
     (if enableNodeSpecificControllers f then
        [(AddLinkEventWatcher (nodeName f), UnableToCreateController ''NodeLinks''),
         (SetupNodeLinksController (nodeName f) (resyncInterval f), UnableToCreateController ''NodeLinks'')] else []) @
     (if enableClusterWideControllers f \<and> su_ENABLE_WEBHOOKS env \<noteq> ''false'' then [(SetupLinkWebhook, UnableToCreateWebhook)] else []) @
     plan_add (metricsCertWatcher f) UnableToAddMetricsWatcher @
     plan_add (webhookCertWatcher f) UnableToAddWebhookWatcher @
     [(AddHealthzCheck, UnableToSetUpHealthCheck), (AddReadyzCheck, UnableToSetUpReadyCheck), (StartManager, ProblemRunningManager)]"

abbreviation planned :: "startup_env \<Rightarrow> flags \<Rightarrow> setup_call list" where
  "planned env f \<equiv> map fst (plan env f)"

definition node_name_missing :: "flags \<Rightarrow> bool" where
  "node_name_missing f \<longleftrightarrow> enableNodeSpecificControllers f \<and> nodeName f = ''''"

definition run_plan :: "startup_env \<Rightarrow> (setup_call \<times> startup_msg) list \<Rightarrow> startup_step" where
  "run_plan env = fold (\<lambda>(c, msg). call env c msg)"

lemma run_plan_simps [simp]:
  "run_plan env [] s = s" "run_plan env ((c, msg) # p) s = run_plan env p (call env c msg s)"
  "run_plan env (p @ q) s = run_plan env q (run_plan env p s)"
  by (simp_all add: run_plan_def)

lemma run_plan_Exited [simp]: "run_plan env p (Exited cs m) = Exited cs m"
  by (induction p) auto

lemma plan_watchers:
  "new_watcher env w msg s = run_plan env (plan_new w msg) s" "add_watcher env w msg s = run_plan env (plan_add w msg) s"
  by (cases w; simp add: new_watcher_def plan_new_def add_watcher_def plan_add_def)+

lemma main_plan: "main env f = (if node_name_missing f then Exited [] NodeNameRequired else run_plan env (plan env f) (Running []))"
proof (cases "node_name_missing f")
  case True
  then show ?thesis
    by (simp add: main_def node_name_missing_def if_enabled_def plan_watchers setup_controllers_def setup_manager_def
        NodeLinks_SetupWithManager_def Let_def)
next
  case False
  then show ?thesis
    by (simp add: main_def node_name_missing_def plan_def if_enabled_def plan_watchers setup_controllers_def setup_manager_def
        NodeLinks_SetupWithManager_def Let_def)
qed

text \<open>A run of a plan makes the calls of the plan, and each but the last one succeeded.\<close>

lemma run_plan_calls:
  "run_plan env p (Running cs) = Running cs' \<Longrightarrow> cs' = cs @ map fst p \<and> (\<forall>i<length p. su_outcome env (cs @ take i (map fst p)) (fst (p ! i)) = None)"
  "run_plan env p (Running cs) = Exited cs' msg \<Longrightarrow>
     \<exists>k<length p. cs' = cs @ take (Suc k) (map fst p) \<and> su_outcome env (cs @ take k (map fst p)) (fst (p ! k)) \<noteq> None \<and>
       msg = snd (p ! k) \<and> (\<forall>i<k. su_outcome env (cs @ take i (map fst p)) (fst (p ! i)) = None)"
proof (induction p arbitrary: cs)
  case (Cons cm p)
  obtain c m where cm: "cm = (c, m)" by fastforce
  { case 1
    then show ?case using Cons.IH(1)[of "cs @ [c]"] cm by (auto simp: All_less_Suc2 split: option.splits)
  next
    case 2
    show ?case
    proof (cases "su_outcome env cs c")
      case None
      then obtain k where "k < length p" "cs' = (cs @ [c]) @ take (Suc k) (map fst p)"
        "su_outcome env ((cs @ [c]) @ take k (map fst p)) (fst (p ! k)) \<noteq> None" "msg = snd (p ! k)"
        "\<forall>i<k. su_outcome env ((cs @ [c]) @ take i (map fst p)) (fst (p ! i)) = None"
        using 2 Cons.IH(2)[of "cs @ [c]"] cm by auto
      then show ?thesis using None cm by (intro exI[of _ "Suc k"]) (auto simp: All_less_Suc2)
    next
      case (Some e)
      then show ?thesis using 2 cm by (intro exI[of _ 0]) auto
    qed }
qed auto

lemma StartManager_last: "StartManager \<in> set (take k (planned env f)) \<Longrightarrow> length (planned env f) \<le> k"
proof (rule ccontr)
  assume start: "StartManager \<in> set (take k (planned env f))" and "\<not> length (planned env f) \<le> k"
  then have "take k (planned env f) = take k (butlast (planned env f))" using take_butlast[of k "planned env f"] by simp
  moreover have "StartManager \<notin> set (butlast (planned env f))"
    by (auto simp: plan_def plan_new_def plan_add_def butlast_append split: option.splits)
  ultimately show False using start by (metis in_set_takeD)
qed

subsection \<open>Properties of the start\<close>

text \<open>An environment in which the registration of the webhook fails when there is a second replica.\<close>

definition ex_startup_env :: "setup_call option \<Rightarrow> startup_env" where
  "ex_startup_env bad = \<lparr>su_outcome = (\<lambda>cs c. if Some c = bad then Some (OtherError ''setup'') else None), su_ENABLE_WEBHOOKS = ''''\<rparr>"

definition ex_flags :: flags where
  "ex_flags = default_flags\<lparr>nodeName := ''node1'', webhookCertPath := ''/tmp/webhook/./certs/'', enableClusterWideControllers := True\<rparr>"

lemma ex_flags_paths: "webhookCertWatcher ex_flags = Some (''/tmp/webhook/certs/tls.crt'', ''/tmp/webhook/certs/tls.key'')"
  by (simp add: webhookCertWatcher_def ex_flags_def default_flags_def filepath_Join_def filepath_Clean_def join_slash_def)

lemma main_cases:
  obtains (missing) "node_name_missing f" "main env f = Exited [] NodeNameRequired"
  | (running) "\<not> node_name_missing f" "main env f = Running (planned env f)"
      "\<forall>i<length (plan env f). su_outcome env (take i (planned env f)) (fst (plan env f ! i)) = None"
  | (exited) k where "\<not> node_name_missing f" "k < length (plan env f)"
      "main env f = Exited (take (Suc k) (planned env f)) (snd (plan env f ! k))"
      "su_outcome env (take k (planned env f)) (fst (plan env f ! k)) \<noteq> None"
      "\<forall>i<k. su_outcome env (take i (planned env f)) (fst (plan env f ! i)) = None"
proof (cases "node_name_missing f")
  case True
  then show thesis using missing by (simp add: main_plan)
next
  case False
  then have m: "main env f = run_plan env (plan env f) (Running [])" by (simp add: main_plan)
  show thesis
  proof (cases "run_plan env (plan env f) (Running [])")
    case (Running cs)
    from run_plan_calls(1)[OF this] show thesis using running[OF False] m Running by simp
  next
    case (Exited cs msg)
    from run_plan_calls(2)[OF this] obtain k where "k < length (plan env f)" "cs = take (Suc k) (planned env f)"
      "msg = snd (plan env f ! k)" "su_outcome env (take k (planned env f)) (fst (plan env f ! k)) \<noteq> None"
      "\<forall>i<k. su_outcome env (take i (planned env f)) (fst (plan env f ! i)) = None" by auto
    then show thesis using exited[OF False] m Exited by simp
  qed
qed

lemma planned_controllers:
  "SetupLinkController \<in> set (planned env f) \<longleftrightarrow> enableClusterWideControllers f"
  "SetupNodeLinksController n r \<in> set (planned env f) \<longleftrightarrow> enableNodeSpecificControllers f \<and> n = nodeName f \<and> r = resyncInterval f"
  "AddLinkEventWatcher n \<in> set (planned env f) \<longleftrightarrow> enableNodeSpecificControllers f \<and> n = nodeName f"
  "SetupLinkWebhook \<in> set (planned env f) \<longleftrightarrow> enableClusterWideControllers f \<and> su_ENABLE_WEBHOOKS env \<noteq> ''false''"
  by (cases "webhookCertWatcher f"; cases "metricsCertWatcher f"; cases "enableClusterWideControllers f";
      cases "enableNodeSpecificControllers f"; simp add: plan_def plan_new_def plan_add_def; blast?)+

text \<open>
  C30: the process fails closed. The manager, and every controller with it, is started only after each
  call that the flags ask for was made, in order, and succeeded: certificate watchers, the controllers
  that were enabled and no others, the link event watcher with the controller of the node, webhook and
  checks. The controller of a node is never started without the name of the node.
\<close>

theorem startup_fails_closed:
  assumes "StartManager \<in> set (calls_of (main env f))"
  shows "calls_of (main env f) = planned env f \<and>
    (\<forall>i < length (planned env f) - 1. su_outcome env (take i (planned env f)) (planned env f ! i) = None) \<and>
    (SetupLinkController \<in> set (calls_of (main env f)) \<longleftrightarrow> enableClusterWideControllers f) \<and>
    (\<forall>n r. SetupNodeLinksController n r \<in> set (calls_of (main env f)) \<longleftrightarrow>
       enableNodeSpecificControllers f \<and> n = nodeName f \<and> r = resyncInterval f) \<and>
    (enableNodeSpecificControllers f \<longrightarrow> nodeName f \<noteq> '''' \<and> AddLinkEventWatcher (nodeName f) \<in> set (calls_of (main env f)))"
proof -
  have "\<not> node_name_missing f \<and> calls_of (main env f) = planned env f \<and>
    (\<forall>i < length (plan env f) - 1. su_outcome env (take i (planned env f)) (fst (plan env f ! i)) = None)"
  proof (cases rule: main_cases[of f env])
    case missing
    then show ?thesis using assms by simp
  next
    case running
    then show ?thesis by simp
  next
    case (exited k)
    then have "length (planned env f) \<le> Suc k" using assms StartManager_last[of "Suc k"] by simp
    then have "Suc k = length (plan env f)" using exited(2) by simp
    then show ?thesis using exited by auto
  qed
  then show ?thesis unfolding planned_controllers by (auto simp: node_name_missing_def planned_controllers[unfolded set_map])
qed

theorem startup_fails_closed_witness:
  "\<exists>cs. main (ex_startup_env None) ex_flags = Running cs \<and> StartManager \<in> set cs \<and> AddLinkEventWatcher ''node1'' \<in> set cs \<and>
     SetupLinkController \<in> set cs"
proof -
  let ?env = "ex_startup_env None"
  have run: "\<exists>cs. main ?env ex_flags = Running cs \<and> StartManager \<in> set cs"
    by (cases rule: main_cases[of ex_flags ?env])
       (auto simp: node_name_missing_def ex_flags_def default_flags_def ex_startup_env_def plan_def)
  then obtain cs where cs: "main ?env ex_flags = Running cs" "StartManager \<in> set cs" by blast
  then have start: "StartManager \<in> set (calls_of (main ?env ex_flags))" by simp
  have fl: "enableClusterWideControllers ex_flags" "enableNodeSpecificControllers ex_flags" "nodeName ex_flags = ''node1''"
    by (simp_all add: ex_flags_def default_flags_def)
  have calls: "calls_of (main ?env ex_flags) = cs" using cs(1) by simp
  note all = startup_fails_closed[OF start, unfolded calls]
  have "SetupLinkController \<in> set cs" using conjunct1[OF conjunct2[OF conjunct2[OF all]]] fl(1) by simp
  moreover have "AddLinkEventWatcher ''node1'' \<in> set cs" using conjunct2[OF conjunct2[OF conjunct2[OF conjunct2[OF all]]]] fl(2,3) by simp
  ultimately show ?thesis using cs by simp
qed

text \<open>
  HTTP/2 stays off, and each server has its own certificates. Unless it is enabled, both the metrics
  server and the webhook server speak HTTP/1.1 only, whatever their configuration was; the metrics
  server serves the certificates of the metrics path, the webhook server those of the webhook path,
  and neither has certificates set for it when its path is not given.
\<close>

theorem servers_are_configured_apart:
  assumes "mo_WebhookServer (manager_options_of f) = Some opts" and "metrics = TLSOpts (mo_Metrics (manager_options_of f))"
  shows "(\<not> enableHTTP2 f \<longrightarrow> NextProtos (apply_opts opts c) = [''http/1.1''] \<and> NextProtos (apply_opts metrics c) = [''http/1.1'']) \<and>
    (enableHTTP2 f \<longrightarrow> NextProtos (apply_opts opts c) = NextProtos c \<and> NextProtos (apply_opts metrics c) = NextProtos c) \<and>
    GetCertificate (apply_opts opts c) = (if webhookCertPath f = '''' then GetCertificate c
       else Some (filepath_Join (webhookCertPath f) (webhookCertName f), filepath_Join (webhookCertPath f) (webhookCertKey f))) \<and>
    GetCertificate (apply_opts metrics c) = (if metricsCertPath f = '''' then GetCertificate c
       else Some (filepath_Join (metricsCertPath f) (metricsCertName f), filepath_Join (metricsCertPath f) (metricsCertKey f)))"
  using assms
  by (auto simp: manager_options_of_def webhookServer_def webhookTLSOpts_def metricsServerOptions_def common_opts_def
      webhookCertWatcher_def metricsCertWatcher_def apply_opts_def disableHTTP2_def use_certificates_of_def split: if_splits)

theorem servers_are_configured_apart_witness:
  "\<exists>opts. mo_WebhookServer (manager_options_of ex_flags) = Some opts \<and>
     NextProtos (apply_opts opts \<lparr>NextProtos = [''h2''], GetCertificate = None\<rparr>) = [''http/1.1''] \<and>
     GetCertificate (apply_opts opts \<lparr>NextProtos = [''h2''], GetCertificate = None\<rparr>) =
       Some (''/tmp/webhook/certs/tls.crt'', ''/tmp/webhook/certs/tls.key'')"
proof -
  have w: "mo_WebhookServer (manager_options_of ex_flags) = Some (webhookTLSOpts ex_flags)"
    by (simp add: manager_options_of_def webhookServer_def ex_flags_def default_flags_def)
  have e: "\<not> enableHTTP2 ex_flags" "webhookCertPath ex_flags \<noteq> ''''" by (simp_all add: ex_flags_def default_flags_def)
  have j: "filepath_Join (webhookCertPath ex_flags) (webhookCertName ex_flags) = ''/tmp/webhook/certs/tls.crt''"
    "filepath_Join (webhookCertPath ex_flags) (webhookCertKey ex_flags) = ''/tmp/webhook/certs/tls.key''"
    using ex_flags_paths e by (auto simp: webhookCertWatcher_def split: if_splits)
  from servers_are_configured_apart[OF w refl, of "\<lparr>NextProtos = [''h2''], GetCertificate = None\<rparr>"] e j w show ?thesis by simp
qed

end
