(* ===== verification/Spec2Isabelle.thy ===== *)
theory Spec2Isabelle
  imports NodeLinks_Properties NodeLinks_Search NodeLinks_Convergence Link_Properties Link_Webhook Wiring_Properties Link_Lifecycle Memory_Properties Startup
begin

text \<open>
  A verification development for the node network operator, a Kubernetes operator that creates network
  interfaces (bridges and VXLANs) on the nodes of a cluster.

  \<^bold>\<open>The program.\<close> A user writes Link resources (\<open>api/v1alpha1/link_types.go\<close>): an interface and the nodes it
  belongs on. One Link controller for the cluster (\<open>internal/controller/link_controller.go\<close>) keeps a
  NodeLinks resource (\<open>nodelinks_types.go\<close>) per node, whose list \<open>MatchingLinks\<close> names the Links of that
  node, and records in the status of each Link the nodes that list it. On every node a NodeLinks
  controller (\<open>internal/controller/nodelinks_controller.go\<close>) brings the interfaces of the node in line with that
  list: it retrieves the Links, validates them against each other, sorts them by their dependencies (with
  a graph library), removes what is not wanted any more, and has a link manager (\<open>internal/links\<close>) bring each
  remaining interface to its desired state over netlink. Before it changes an interface it brings down
  what depends on it, found by a breadth first search (\<open>internal/graphsearch/bfs.go\<close>). A watcher
  (\<open>internal/controller/nodelinks_linkevents.go\<close>) subscribes to the changes of interfaces and requests a reconciliation
  when one of its own changed. A webhook (\<open>internal/webhook/v1alpha1/link_webhook.go\<close>) admits Links. The process
  (\<open>cmd/main.go\<close>) configures the servers and starts the controllers its flags ask for.

  \<^bold>\<open>How it is modelled.\<close> A Go function is a HOL function that takes the state it changes and returns it: the
  kernel behind netlink (\<open>'k kworld\<close>, with the list of calls made so far), the API server (\<open>'a aworld\<close>,
  likewise), and one record per controller (\<open>nstate\<close>, \<open>lstate\<close>) holding these, the resource under
  reconciliation and its old copy. An \<open>error\<close> result is a value of \<open>goerror option\<close> or a sum; a panic (a nil
  pointer dereference) is \<open>None\<close>. Structs are records, slices are lists, a nil pointer is \<open>None\<close>, machine
  integers are words. Values are immutable in these models; the copies that the source makes with the
  generated \<open>DeepCopy\<close>, and the pointers that \<open>patchResource\<close> works with, are modelled on a memory of cells,
  and shown to be what the models on values say (C12). \<open>for\<close> loops are recursions over their slice; 
  \<open>pie.Map\<close>, used by the source to call a
  function with effects on each element, is \<open>run_each\<close>. No fuel is used anywhere: the loops are structural but
  for the search, whose \<open>termination\<close> proof counts the unvisited vertices and the queue. The functions of
  the netlink library, of the API client, of the helper packages of Kubernetes, of \<open>pie\<close> and of the graph
  library are fields of records (\<open>netlink\<close>, \<open>api_client\<close>, \<open>k8s_lib\<close>, \<open>pie_lib\<close>, \<open>graph_lib\<close>,
  \<open>meta_lib\<close>, \<open>wiring_lib\<close>), and what the source
  relies on of them are named predicates (\<open>netlink_laws\<close>, \<open>k8s_laws\<close>, \<open>store_laws\<close>, \<open>attempts_law\<close>, \<open>selection_law\<close>,
  \<open>unchanged_law\<close>, \<open>pie_laws\<close> and so on). Each of
  these predicates is satisfied by an executable instance (\<open>Reference_Kernel\<close>, \<open>Reference_Graph\<close>, \<open>Reference_Env\<close>,
  \<open>Reference_Store\<close>), on which the properties are applied to concrete runs. An API server that refuses a
  request may do so at any time: every law allows it.

  \<^bold>\<open>The theories.\<close>
  \<^item> \<open>Prelude\<close>, \<open>Go_Errors\<close>, \<open>Go_Net\<close>: panics, traversals with effects, lists; Go's errors with \<open>errors.Is\<close> and
    \<open>errors.Join\<close>; addresses of the package \<open>net\<close>.
  \<^item> \<open>Api_Types\<close>: the custom resources, their conditions and the admission rules of the kubebuilder markers.
  \<^item> \<open>Netlink\<close>: the netlink library and its laws. \<open>Link_Refs\<close> and \<open>Managers\<close>: \<open>linkmanager.go\<close>, \<open>err.go\<close>,
    \<open>bridge.go\<close>, \<open>vxlan.go\<close>, \<open>unmanaged.go\<close>. \<open>Manager_Traces\<close>: on which link and in which order a manager calls
    netlink. \<open>Manager_Convergence\<close>: the desired state and that an upsert without error reaches it.
    \<open>Manager_Contract\<close>: the locale \<open>link_manager\<close>, what the Go interface \<open>Manager\<close> promises, interpreted on the
    three managers and on the choice between them. \<open>Manager_Properties\<close>: their properties.
  \<^item> \<open>Graph_Search\<close>: \<open>BFSWithEdge\<close>, with its effects in the callback, against the set of reachable vertices.
  \<^item> \<open>Operator_Env\<close>: the API client, the helper packages and the graph library as interfaces. \<open>Resource_Patch\<close>:
    the locale for \<open>patchResource\<close>, which both controllers have.
  \<^item> \<open>NodeLinks_State\<close>, \<open>_Plan\<close>, \<open>_Actions\<close>, \<open>_Reconcile\<close>: the functions of \<open>nodelinks_controller.go\<close> in its order:
    conditions and patches; retrieval, validation and sorting; the actions on links; \<open>handleUpsert\<close>,
    \<open>handleDeletion\<close> and \<open>Reconcile\<close>. \<open>_Safety\<close> and \<open>_Effects\<close>: which links the calls of a run may act on. \<open>_Graph\<close>:
    the graph has the vertices and edges the Links ask for, and the order respects it. \<open>_Outcome\<close>, \<open>_Repeat\<close>:
    what the conditions say afterwards, and that a node in the desired state is left alone. \<open>_Patches\<close>: what
    is sent to the API server. \<open>_Tracking\<close>: the locale \<open>reconcile_invariant\<close>, a relation that every step of
    the reconciler keeps, interpreted on the stored lists of Links and on the names being watched.
    \<open>_Examples\<close>, \<open>_Properties\<close>, \<open>_Promises\<close>, \<open>_Search\<close>: concrete runs and the properties. \<open>_Convergence\<close>: the
    links settled first stay settled while the later ones are worked on, by induction along the order.
  \<^item> \<open>Link_State\<close>, \<open>Link_Controller\<close>: the functions of \<open>link_controller.go\<close>. \<open>Api_Store\<close>: the API server as a
    sequential store, and the relation \<open>tracked\<close> between Links and NodeLinks. \<open>Link_Tracking\<close>: every state a
    reconciliation goes through keeps it. \<open>Link_Properties\<close>: the properties.
  \<^item> \<open>Link_Webhook\<close>: \<open>link_webhook.go\<close>. \<open>Link_Events\<close>: the watcher as a step relation beside the environment, its
    request channel of capacity one and its back-off in 64-bit nanoseconds, and the locale \<open>name_set\<close>.
  \<^item> \<open>Operator\<close>: all controllers on one API server, interleaved with each other and with outside changes; the
    reachable states. \<open>Controller_Wiring\<close>, \<open>Wiring_Properties\<close>: \<open>SetupWithManager\<close> of both controllers, as the
    requests that each event leads to. \<open>Link_Lifecycle\<close>: a Link is created and deleted again.
  \<^item> \<open>Go_Memory\<close>: pointers, slices on shared arrays and maps on a memory of typed cells, and the locale
    \<open>deep_copy\<close>: what a copy promises. \<open>Deep_Copy\<close>: the structs of \<open>api/v1alpha1\<close> in memory and every function of
    \<open>zz_generated.deepcopy.go\<close>, each an instance of that locale. \<open>Patch_Memory\<close>: \<open>patchResource\<close> on pointers, and
    its simulation by the functions on values. \<open>Memory_Properties\<close>: the properties.
  \<^item> \<open>Startup\<close>: \<open>main.go\<close>, as the list of calls that the flags ask for, ended by the first one that fails.
  \<^item> This theory: the properties that need more than one controller.

  \<^bold>\<open>What the theorems show.\<close> A Link that a NodeLinks resource lists stays in the cluster, with its
  finalizer and with the node in its status, until it is listed no more (C1, C4, C16 to C18, C21), so that the
  NodeLinks controllers can resolve their lists (C10), watch the right interfaces (C26, C27), and
  hear of every change that concerns them (C11, C19, C20). A
  NodeLinks controller touches its own links only (C2), creates nothing that the status in the cluster does not name (C3),
  brings every link down before it deletes any (C7),
  forgets nothing that it has not removed (C9), takes links in the order of their dependencies (C15), and
  reports success only when every link is ready (C5), and then leaves the whole node as its Links ask, with
  nothing to do for the next reconciliation (C8, C22). A link manager reaches the desired state or
  returns an error (C23, C24), and says exactly when it has something to do (C25). The MTU of a VXLAN with an underlying
  device is the exception: it is set before the device, and the kernel then fits it to the device
  (\<open>config/samples/gateway-network/README.md\<close>, implementation notes; \<open>setter_law\<close> in \<open>Netlink\<close> allows it). C8 and C23
  say so, a second upsert mends it (C23), and C40 shows that the first one is reported as a success. A deep copy shares nothing with
  its original (C28, C29), and the process starts nothing that it could not set up (C30). The last properties state
  where the code falls short of what it or its documentation says.

  \<^bold>\<open>Granularity.\<close> The API server answers one request after the other; in \<open>Operator\<close> a whole reconciliation is
  one step, while \<open>Link_Tracking\<close> and \<open>NodeLinks_Tracking\<close> cover the states in which it stops early.
  The watcher runs beside the controller in steps of its own. Time enters as the delays that are
  returned or waited for.

  \<^bold>\<open>Not modelled.\<close> Logging and contexts (cancellation of the watcher apart); the parsing of flags; the
  registration of the schemes (\<open>groupversion_info.go\<close> and the \<open>init\<close> functions) and of the webhook, which are
  single calls of libraries; what the libraries do behind these calls: the work queues and caches of
  controller-runtime, and the subscription to netlink events, which appears as the events a watcher can
  see. Only \<open>patchResource\<close> and \<open>DeepCopy\<close> are modelled on memory: elsewhere the controllers reach a resource
  through one pointer, and a value in their state stands for it.
\<close>

subsection \<open>A concrete operator\<close>

definition ex_operator :: "(rk_state, rg, rstore) operator" where
  "ex_operator = \<lparr>op_link = LE, op_node = (\<lambda>n. RE\<lparr>ne_client := LC, ne_nodeName := n\<rparr>)\<rparr>"

lemma ex_operator_sel [simp]: "op_link ex_operator = LE" "op_node ex_operator n = RE\<lparr>ne_client := LC, ne_nodeName := n\<rparr>"
  by (simp_all add: ex_operator_def)

lemma ex_operator_ok: "operator_ok ex_operator"
proof -
  have "nenv_ok (RE\<lparr>ne_client := LC, ne_nodeName := n\<rparr>)" for n using RE_ok by (simp add: nenv_ok_def)
  then show ?thesis using LE_ok LC_laws by (simp add: operator_ok_def nodeLinks_env_ok_def)
qed

text \<open>The cluster after the first reconciliation of a new Link.\<close>

lemma ex_reachable:
  assumes "Link_Reconcile LE ''b'' lx_new = (e, s')"
  shows "reachable ex_operator (stored s')"
proof -
  have "reachable ex_operator (stored lx_new)" by (rule reachable.installed) (simp add: lx_listed)
  moreover have "operator_step ex_operator (stored lx_new) (stored s')"
    by (rule operator_step.link_controller) (use assms in simp)
  ultimately show ?thesis by (rule reachable.step)
qed

subsection \<open>Links and the nodes that list them\<close>

text \<open>
  C1: no Link is forgotten on a node. In every state that the Link controller, the NodeLinks controllers
  of all nodes and changes from outside can reach together, in any order and with any request refused,
  a Link that a live NodeLinks resource lists exists, has the finalizer that delays its deletion, and
  its status names the node.
\<close>

theorem operator_keeps_tracking:
  assumes "reachable Op a" and "operator_ok Op" and "n \<in> listed (op_client Op) a l"
  shows "\<exists>x. api_GetLink (op_client Op) a l = Inr x \<and> n \<in> set (MatchedNodes x) \<and>
    linkFinalizerName \<in> set (m_Finalizers (lk_Meta x))"
  using reachable_listed[OF assms] by blast

theorem operator_keeps_tracking_witness:
  "\<exists>s' x. Link_Reconcile LE ''b'' lx_new = (None, s') \<and> rc_GetLink (stored s') ''b'' = Inr x \<and> ''node1'' \<in> set (MatchedNodes x)"
proof -
  obtain s' where run: "Link_Reconcile LE ''b'' lx_new = (None, s')" "''node1'' \<in> listed LC (stored s') ''b''"
    using lx_joins by blast
  have "''node1'' \<in> listed (op_client ex_operator) (stored s') ''b''" using run(2) by simp
  from operator_keeps_tracking[OF ex_reachable[OF run(1)] ex_operator_ok this] run(1) show ?thesis by auto
qed

text \<open>
  C10: the two controllers fit together. In every reachable state the NodeLinks controller of a node finds
  every Link that its live resource lists, so the retrieval, whose error would stop the node, succeeds.
  When one of these Links is created or deleted, or is updated to a new generation, a reconciliation of
  that node is requested, once; an update that leaves the generation as it was requests none.
\<close>

theorem listed_links_exist:
  assumes reach: "reachable Op a" and ok: "operator_ok Op" and W: "wiring_laws W"
    and x: "api_GetNodeLinks (op_client Op) a n = Inr x" "DeletionTimestamp_IsZero (nk_Meta x)"
    and s: "store (nn_api s) = a" "nn_nodeLinks s = x"
  shows "\<exists>links. getLinkResources (op_node Op n) s = Inr links \<and> fst ` set links = set (MatchingLinks x) \<and>
    (\<forall>(r, l) \<in> set links. linkFinalizerName \<in> set (m_Finalizers (lk_Meta l)) \<and>
       requests (NodeLinks_controller W (op_node Op n)) (LinkChange (CreateEvent l)) = [n] \<and>
       requests (NodeLinks_controller W (op_node Op n)) (LinkChange (DeleteEvent l)) = [n] \<and>
       (\<forall>old. requests (NodeLinks_controller W (op_node Op n)) (LinkChange (UpdateEvent old l)) =
          (if m_Generation (lk_Meta old) = m_Generation (lk_Meta l) then [] else [n])))"
proof -
  let ?E = "op_node Op n"
  note env = operator_okD(2)[OF ok, of n] and client = operator_okD(3)[OF ok, of n]
  note nenv = nodeLinks_env_okD(1)[OF env]
  have get: "get_law (ne_client ?E)" using nodeLinks_env_okD(2)[OF env] by (simp add: store_laws_def)
  have names: "set (pie_Unique (ne_pie ?E) (MatchingLinks x)) = set (MatchingLinks x)" by (rule pie_Unique(2)[OF nenv_okD(3)[OF nenv]])
  have ex: "\<exists>l. api_GetLink (op_client Op) a r = Inr l \<and> n \<in> set (MatchedNodes l) \<and> linkFinalizerName \<in> set (Finalizers l)"
    if "r \<in> set (MatchingLinks x)" for r
    using reachable_listed[OF reach ok, of n r] x that by (auto simp: listed_at)
  have "\<exists>l. api_GetLink (ne_client ?E) a r = Inr l" if "r \<in> set (pie_Unique (ne_pie ?E) (MatchingLinks x))" for r
    using ex[of r] that unfolding names client by blast
  then have "\<exists>links. get_link_resources (ne_client ?E) a (pie_Unique (ne_pie ?E) (MatchingLinks x)) [] = Inr links"
    by (intro get_link_resources_total ballI)
  then obtain links where links: "getLinkResources ?E s = Inr links" by (auto simp: getLinkResources_def s)
  note R = getLinkResources_resource[OF links get nenv, unfolded s client]
  have l: "linkFinalizerName \<in> set (Finalizers l) \<and> ne_nodeName ?E = n \<and> n \<in> set (MatchedNodes l)" if "(r, l) \<in> set links" for r l
    using R(2)[OF that] ex[of r] operator_okD(4)[OF ok, of n] by auto
  have asked: "requests (NodeLinks_controller W ?E) (LinkChange ev) = [n]"
    if "(r, l) \<in> set links" "event_object ev = l" "generation_changed lk_Meta ev" for r l ev
    using NodeLinks_controller_link_event[OF W that(3), of ?E] l[OF that(1)] that(2) by simp
  have quiet: "requests (NodeLinks_controller W ?E) (LinkChange (UpdateEvent old l)) = []"
    if "m_Generation (lk_Meta old) = m_Generation (lk_Meta l)" for old l
  proof -
    have "set (requests (NodeLinks_controller W ?E) (LinkChange (UpdateEvent old l))) = {}"
      using that by (simp add: NodeLinks_controller_requests[OF W])
    then show ?thesis by simp
  qed
  have "linkFinalizerName \<in> set (Finalizers l) \<and> requests (NodeLinks_controller W ?E) (LinkChange (CreateEvent l)) = [n] \<and>
      requests (NodeLinks_controller W ?E) (LinkChange (DeleteEvent l)) = [n] \<and>
      (\<forall>old. requests (NodeLinks_controller W ?E) (LinkChange (UpdateEvent old l)) =
         (if m_Generation (lk_Meta old) = m_Generation (lk_Meta l) then [] else [n]))" if "(r, l) \<in> set links" for r l
    using l[OF that] asked[OF that, of "CreateEvent l"] asked[OF that, of "DeleteEvent l"] asked[OF that, of "UpdateEvent _ l"] quiet
    by simp
  moreover have "fst ` set links = set (MatchingLinks x)" using R(2,3) by force
  ultimately show ?thesis using links by blast
qed

theorem listed_links_exist_witness:
  "\<exists>s links l. getLinkResources (RE\<lparr>ne_client := LC, ne_nodeName := ''node1''\<rparr>) s = Inr links \<and> (''b'', l) \<in> set links \<and>
     requests (NodeLinks_controller RW (RE\<lparr>ne_client := LC, ne_nodeName := ''node1''\<rparr>)) (LinkChange (DeleteEvent l)) = [''node1'']"
proof -
  obtain s' where run: "Link_Reconcile LE ''b'' lx_new = (None, s')" "''node1'' \<in> listed LC (stored s') ''b''"
    using lx_joins by blast
  from run(2) obtain x where x: "rc_GetNodeLinks (stored s') ''node1'' = Inr x" "live x" "''b'' \<in> set (MatchingLinks x)"
    by (auto simp: listed_at)
  let ?s = "(ex_state [] x [])\<lparr>nn_api := ln_api s'\<rparr>"
  have s: "store (nn_api ?s) = stored s'" "nn_nodeLinks ?s = x" by (simp_all add: ex_state_def)
  let ?E = "RE\<lparr>ne_client := LC, ne_nodeName := ''node1''\<rparr>"
  have "api_GetNodeLinks (op_client ex_operator) (stored s') ''node1'' = Inr x" using x(1) by simp
  note found = listed_links_exist[OF ex_reachable[OF run(1)] ex_operator_ok RW_laws this x(2) s, unfolded ex_operator_sel]
  from found obtain links where links: "getLinkResources ?E ?s = Inr links"
    and listed: "fst ` set links = set (MatchingLinks x)"
    and each: "\<forall>(r, l) \<in> set links. linkFinalizerName \<in> set (m_Finalizers (lk_Meta l)) \<and>
       requests (NodeLinks_controller RW ?E) (LinkChange (CreateEvent l)) = [''node1''] \<and>
       requests (NodeLinks_controller RW ?E) (LinkChange (DeleteEvent l)) = [''node1''] \<and>
       (\<forall>old. requests (NodeLinks_controller RW ?E) (LinkChange (UpdateEvent old l)) =
          (if m_Generation (lk_Meta old) = m_Generation (lk_Meta l) then [] else [''node1'']))"
    by (elim exE conjE) (rule that)
  have "''b'' \<in> fst ` set links" unfolding listed by (rule x(3))
  then obtain p where p: "''b'' = fst p" "p \<in> set links" by (rule imageE)
  then have l: "(''b'', snd p) \<in> set links" by (cases p) simp
  from bspec[OF each l, unfolded prod.case] have "requests (NodeLinks_controller RW ?E) (LinkChange (DeleteEvent (snd p))) = [''node1'']"
    by (elim conjE)
  then show ?thesis using links l by blast
qed

text \<open>
  C11: every node hears of its Links. Let the cluster change from one state to another that the operator
  can reach. A node whose NodeLinks resource begins or ceases to list a Link is asked to reconcile by the
  event of that resource; and a node whose resource lists a Link that got a new generation is asked by the
  event of that Link, since the status of the Link names the node.
\<close>

theorem node_hears_of_its_links:
  assumes reach: "reachable Op a'" and ok: "operator_ok Op" and W: "wiring_laws W" and gen: "generation_law (op_client Op) a a'"
  shows "((n \<in> listed (op_client Op) a l) \<noteq> (n \<in> listed (op_client Op) a' l) \<longrightarrow>
      (\<exists>ev. change_event (api_GetNodeLinks (op_client Op) a n) (api_GetNodeLinks (op_client Op) a' n) = Some ev \<and>
         requests (NodeLinks_controller W (op_node Op n)) (NodeLinksChange ev) = [n])) \<and>
    (n \<in> listed (op_client Op) a' l \<and> api_GetLink (op_client Op) a' l = Inr new \<and> m_Generation (lk_Meta old) \<noteq> m_Generation (lk_Meta new) \<longrightarrow>
      requests (NodeLinks_controller W (op_node Op n)) (LinkChange (UpdateEvent old new)) = [n])"
    (is "(?listed \<longrightarrow> ?hears) \<and> (?changed \<longrightarrow> ?asked)")
proof (intro conjI impI)
  assume ?listed
  then obtain ev where ev: "change_event (api_GetNodeLinks (op_client Op) a n) (api_GetNodeLinks (op_client Op) a' n) = Some ev"
    "generation_changed nk_Meta ev"
    "api_GetNodeLinks (op_client Op) a n = Inr (event_object ev) \<or> api_GetNodeLinks (op_client Op) a' n = Inr (event_object ev)"
    using gen by (rule list_change_event)
  have "get_law (op_client Op)" using nodeLinks_env_okD(2)[OF operator_okD(2)[OF ok]] unfolding operator_okD(3)[OF ok] by (simp add: store_laws_def)
  then have "NodeLinks_Name (event_object ev) = n" using ev(3) by (auto simp: get_law_def)
  then show ?hears using ev by (simp add: NodeLinks_controller_requests[OF W] operator_okD(4)[OF ok])
next
  assume ?changed
  then have "n \<in> set (MatchedNodes new)" using reachable_listed[OF reach ok, of n l] by auto
  then show ?asked using NodeLinks_controller_link_update[OF W, of old new "op_node Op n"] \<open>?changed\<close> operator_okD(4)[OF ok, of n] by simp
qed

theorem node_hears_of_its_links_witness:
  "\<exists>s' ev. Link_Reconcile LE ''b'' lx_new = (None, s') \<and>
     change_event (rc_GetNodeLinks (stored lx_new) ''node1'') (rc_GetNodeLinks (stored s') ''node1'') = Some ev \<and>
     requests (NodeLinks_controller RW (RE\<lparr>ne_client := LC, ne_nodeName := ''node1''\<rparr>)) (NodeLinksChange ev) = [''node1'']"
proof -
  obtain s' where run: "Link_Reconcile LE ''b'' lx_new = (None, s')" "''node1'' \<in> listed LC (stored s') ''b''"
    using lx_joins by blast
  have "generation_law (op_client ex_operator) (stored lx_new) (stored s')"
    by (simp add: generation_law_def lx_new_def lx_state_def rc_GetNodeLinks_def)
  from node_hears_of_its_links[OF ex_reachable[OF run(1)] ex_operator_ok RW_laws this, of "''node1''" "''b''"] run
  show ?thesis by (auto simp: lx_listed)
qed

subsection \<open>Links and the interfaces of the node\<close>

text \<open>
  C26: the watcher looks at what the controller manages. Once a reconciliation has retrieved its Links, and
  whatever became of it, the names it sets are the interfaces of these Links; a later change of one of
  these interfaces leaves a request for the node in the channel until the controller takes it.
\<close>

theorem managed_interfaces_are_watched:
  assumes run: "retrieve_and_upsert E s = Some (r, s')" and links: "getLinkResources E s = Inr links" and ok: "nenv_ok E"
    and l: "(res, l) \<in> set links" "la_Name attrs = LinkName l"
    and watcher: "watcher_run (node_watcher n) (watcher_start (node_watcher n)) evs t"
      "lns_names (ws_linkNames t) = nn_watched s'"
    and change: "watcher_run (node_watcher n) t (Update (Some attrs) # evs') u" "Receive \<notin> set evs'"
  shows "nn_watched s' = LinkName ` snd ` set links \<and> ch_buf (ws_events u) = [n]"
proof -
  have w: "nn_watched s' = LinkName ` snd ` set links" by (rule retrieve_and_upsert_watched[OF run links ok])
  then have "linkNameSet_has (ws_linkNames t) (la_Name attrs)" using l watcher(2) by (force simp: linkNameSet_has_def)
  from requested_change[OF watcher(1) _ change] this w show ?thesis by blast
qed

theorem managed_interfaces_are_watched_witness:
  "\<exists>r s' u. retrieve_and_upsert RE ex_start = Some (r, s') \<and>
     watcher_run (node_watcher ''node1'') ex_watching [Update (Some ex_changed)] u \<and> ch_buf (ws_events u) = [''node1'']"
proof -
  obtain s' where run: "retrieve_and_upsert RE ex_start = Some ((300, None), s')" using ex_retrieved by blast
  have links: "getLinkResources RE ex_start = Inr [(''b'', ex_bridge)]" by (simp add: run_defs ex_start_def)
  have "nn_watched s' = {''br0''}" using retrieve_and_upsert_watched[OF run links RE_ok] by (simp add: ex_defs)
  then have names: "lns_names (ws_linkNames ex_watching) = nn_watched s'" by (simp add: ex_watching_def watch_subscribe_def)
  obtain u where u: "watcher_run (node_watcher ''node1'') ex_watching [Update (Some ex_changed)] u"
    using ex_watching_names(2) by (auto simp: watcher_run_simps watcher_step_simps)
  from managed_interfaces_are_watched[OF run links RE_ok _ _ ex_watching_run names u, of "''b''" ex_bridge]
  have "ch_buf (ws_events u) = [''node1'']" by (simp add: ex_changed_def ex_defs)
  then show ?thesis using run u by blast
qed

end
